(* ===== verification/Prelude.thy ===== *)
theory Prelude
  imports Main "HOL-Library.Word"
begin

text \<open>
  The prelude of the development: the strings and integers of Go as the other theories use
  them, the collections of rewrite rules the components share, and the generic lemmas on lists
  and maps.  A Go string is a list of characters (bytes); int64 identifiers and
  millisecond timestamps are mathematical integers, with the conversions that truncate
  written out where the source performs them.
\<close>

section \<open>Rule collections\<close>

named_theorems redis_simps
  \<open>the replies and the keyspace of one Redis command\<close>

named_theorems key_simps
  \<open>the Redis keys of different families differ, those of one family are injective\<close>

section \<open>Times and integer ranges\<close>

abbreviation second_ms :: int where "second_ms \<equiv> 1000"
abbreviation minute_ms :: int where "minute_ms \<equiv> 60000"
abbreviation hour_ms :: int where "hour_ms \<equiv> 3600000"

definition int64_max :: int where "int64_max = 9223372036854775807"
definition int64_min :: int where "int64_min = - 9223372036854775808"

definition in_int64 :: "int \<Rightarrow> bool" where
  "in_int64 n \<longleftrightarrow> int64_min \<le> n \<and> n \<le> int64_max"

text \<open>The seconds of a duration given in milliseconds, as int64(d.Seconds()) truncates it.\<close>

definition seconds_of :: "int \<Rightarrow> int" where
  "seconds_of ms = (if ms < 0 then - (- ms div 1000) else ms div 1000)"

section \<open>Decimal numbers\<close>

definition digit_char :: "nat \<Rightarrow> char" where
  "digit_char d = char_of (48 + d)"

definition char_digit :: "char \<Rightarrow> nat option" where
  "char_digit c = (let n = (of_char c :: nat) in if 48 \<le> n \<and> n \<le> 57 then Some (n - 48) else None)"

fun FormatNat :: "nat \<Rightarrow> string" where
  "FormatNat n = (if n < 10 then [digit_char n]
                  else FormatNat (n div 10) @ [digit_char (n mod 10)])"

declare FormatNat.simps [simp del]

text \<open>strconv.FormatInt(n, 10).\<close>

definition FormatInt :: "int \<Rightarrow> string" where
  "FormatInt n = (if n < 0 then CHR ''-'' # FormatNat (nat (- n)) else FormatNat (nat n))"

fun parse_digits :: "nat \<Rightarrow> string \<Rightarrow> nat option" where
  "parse_digits acc [] = Some acc"
| "parse_digits acc (c # cs) =
     (case char_digit c of None \<Rightarrow> None | Some d \<Rightarrow> parse_digits (10 * acc + d) cs)"

text \<open>
  strconv.ParseInt(s, 10, 64): an optional sign, then decimal digits only (at least
  one), rejected when the value does not fit in 64 bits.
\<close>

definition ParseInt :: "string \<Rightarrow> int option" where
  "ParseInt s =
     (let neg = (case s of c # _ \<Rightarrow> c = CHR ''-'' | [] \<Rightarrow> False);
          signed = (case s of c # _ \<Rightarrow> c = CHR ''-'' \<or> c = CHR ''+'' | [] \<Rightarrow> False);
          ds = (if signed then tl s else s)
      in if ds = [] then None
         else (case parse_digits 0 ds of
                 None \<Rightarrow> None
               | Some n \<Rightarrow> (let v = (if neg then - int n else int n)
                            in if in_int64 v then Some v else None)))"

lemma char_digit_digit_char [simp]: "d < 10 \<Longrightarrow> char_digit (digit_char d) = Some d"
  by (simp add: char_digit_def digit_char_def)

lemma char_digit_sign [simp]: "char_digit CHR ''-'' = None" "char_digit CHR ''+'' = None"
  by (simp_all add: char_digit_def)

lemma digit_char_not_sign [simp]:
  assumes "d < 10"
  shows "digit_char d \<noteq> CHR ''-''" "digit_char d \<noteq> CHR ''+''"
    "CHR ''-'' \<noteq> digit_char d" "CHR ''+'' \<noteq> digit_char d"
  using char_digit_digit_char [OF assms] char_digit_sign by force+

lemma parse_digits_append:
  "parse_digits acc (xs @ ys) =
     (case parse_digits acc xs of None \<Rightarrow> None | Some n \<Rightarrow> parse_digits n ys)"
  by (induction acc xs rule: parse_digits.induct) (auto split: option.splits)

lemma FormatNat_nonempty [simp]: "FormatNat n \<noteq> []"
  by (subst FormatNat.simps) simp

lemma parse_FormatNat [simp]: "parse_digits 0 (FormatNat n) = Some n"
proof (induction n rule: FormatNat.induct)
  case (1 n)
  then show ?case
    by (subst FormatNat.simps) (auto simp: parse_digits_append)
qed

lemma FormatNat_hd:
  "\<exists>d cs. d < 10 \<and> FormatNat n = digit_char d # cs"
proof (induction n rule: FormatNat.induct)
  case (1 n)
  show ?case
  proof (cases "n < 10")
    case True
    then show ?thesis by (subst FormatNat.simps) auto
  next
    case False
    from 1 [OF False] show ?thesis
      using False by (subst FormatNat.simps) auto
  qed
qed

text \<open>Printing and parsing are inverse on the 64-bit range, so printing is injective.\<close>

lemma ParseInt_FormatInt:
  assumes "in_int64 n" shows "ParseInt (FormatInt n) = Some n"
proof (cases "n < 0")
  case True
  then show ?thesis using assms by (simp add: ParseInt_def FormatInt_def Let_def)
next
  case False
  obtain d cs where d: "d < 10" "FormatNat (nat n) = digit_char d # cs"
    using FormatNat_hd by blast
  have "parse_digits 0 (digit_char d # cs) = Some (nat n)"
    using parse_FormatNat [of "nat n"] d by simp
  then show ?thesis using False assms d by (simp add: ParseInt_def FormatInt_def Let_def)
qed

lemma FormatNat_inj [simp]: "FormatNat m = FormatNat n \<longleftrightarrow> m = n"
  by (metis option.inject parse_FormatNat)

lemma FormatNat_not_minus [simp]:
  "FormatNat k \<noteq> CHR ''-'' # cs" "CHR ''-'' # cs \<noteq> FormatNat k"
  using FormatNat_hd [of k] digit_char_not_sign by fastforce+

lemma FormatInt_inj [simp, key_simps]: "FormatInt m = FormatInt n \<longleftrightarrow> m = n"
  by (auto simp: FormatInt_def)

section \<open>Lists and finite maps\<close>

lemma sum_list_replicate_zero [simp]: "sum_list (replicate n (0::int)) = 0"
  by (induction n) auto

lemma card_insert_new: "finite A \<Longrightarrow> x \<notin> A \<Longrightarrow> card (insert x A) = Suc (card A)"
  by simp

lemma take_map_take: "take n (map f xs) = map f (take n xs)"
  by (simp add: take_map)

end
