(* ===== verification/Errcode.thy ===== *)
theory Errcode
  imports Prelude
begin

text \<open>
  Error values and response envelopes: pkg/errcode/errcode.go and
  pkg/response/response.go.

  A Go error is a value of goerr: an application error, one of the sentinel values the
  packages declare, an error of a library (its text), or one of these wrapped by
  fmt.Errorf(... %w).  errors.Is and errors.As follow the chain
  of wrappings; response.FromError does not, it asserts the type of the outermost
  value only.  A Go function with results (T, error) returns goerr + T.
\<close>

section \<open>Application errors\<close>

record AppError =
  HTTPStatus :: int
  Code :: int
  Msg :: string

definition New :: "int \<Rightarrow> int \<Rightarrow> string \<Rightarrow> AppError" where
  "New httpStatus code msg = \<lparr>HTTPStatus = httpStatus, Code = code, Msg = msg\<rparr>"

definition ErrInvalidParams :: AppError where
  "ErrInvalidParams = New 400 400001 ''invalid request parameters''"
definition ErrUnauthorized :: AppError where
  "ErrUnauthorized = New 401 401001 ''unauthorized''"
definition ErrTokenExpired :: AppError where
  "ErrTokenExpired = New 401 401002 ''token expired''"
definition ErrTokenInvalid :: AppError where
  "ErrTokenInvalid = New 401 401003 ''token invalid''"
definition ErrForbidden :: AppError where
  "ErrForbidden = New 403 403001 ''forbidden''"
definition ErrNotFound :: AppError where
  "ErrNotFound = New 404 404001 ''resource not found''"
definition ErrTooManyReq :: AppError where
  "ErrTooManyReq = New 429 429001 ''too many requests''"
definition ErrServer :: AppError where
  "ErrServer = New 500 500001 ''internal server error''"
definition ErrDatabase :: AppError where
  "ErrDatabase = New 500 500002 ''database error''"
definition ErrCacheError :: AppError where
  "ErrCacheError = New 500 500003 ''cache error''"
definition ErrServiceUnavail :: AppError where
  "ErrServiceUnavail = New 503 503001 ''service unavailable''"
definition ErrPhoneFormat :: AppError where
  "ErrPhoneFormat = New 400 410101 ''invalid phone number format''"
definition ErrCodeFormat :: AppError where
  "ErrCodeFormat = New 400 410102 ''invalid verification code format''"
definition ErrCodeNotFound :: AppError where
  "ErrCodeNotFound = New 400 410103 ''verification code not found or expired''"
definition ErrCodeMismatch :: AppError where
  "ErrCodeMismatch = New 400 410104 ''verification code does not match''"
definition ErrSMSWindow :: AppError where
  "ErrSMSWindow = New 429 410105 ''send code too frequently, please wait''"
definition ErrSMSDailyPhone :: AppError where
  "ErrSMSDailyPhone = New 429 410106 ''daily send limit reached for this phone''"
definition ErrSMSDailyIP :: AppError where
  "ErrSMSDailyIP = New 429 410107 ''daily send limit reached for this IP''"
definition ErrUserNotFound :: AppError where
  "ErrUserNotFound = New 404 410108 ''user not found''"
definition ErrUserBanned :: AppError where
  "ErrUserBanned = New 403 410109 ''user is banned''"
definition ErrNicknameInvalid :: AppError where
  "ErrNicknameInvalid = New 400 410110 ''invalid nickname''"
definition ErrBioTooLong :: AppError where
  "ErrBioTooLong = New 400 410111 ''bio is too long''"
definition ErrAvatarURLInvalid :: AppError where
  "ErrAvatarURLInvalid = New 400 410112 ''invalid avatar URL''"
definition ErrTitleEmpty :: AppError where
  "ErrTitleEmpty = New 400 412101 ''title cannot be empty''"
definition ErrTitleTooLong :: AppError where
  "ErrTitleTooLong = New 400 412102 ''title exceeds 100 characters''"
definition ErrSceneTagInvalid :: AppError where
  "ErrSceneTagInvalid = New 400 412103 ''scene_tag must be between 1 and 8''"
definition ErrPostNotFound :: AppError where
  "ErrPostNotFound = New 404 412104 ''post not found''"
definition ErrPostForbidden :: AppError where
  "ErrPostForbidden = New 403 412105 ''no permission for this post''"
definition ErrCursorInvalid :: AppError where
  "ErrCursorInvalid = New 400 412106 ''invalid cursor''"
definition ErrPageSizeInvalid :: AppError where
  "ErrPageSizeInvalid = New 400 412107 ''page size must be between 1 and 50''"
definition ErrContentTooLong :: AppError where
  "ErrContentTooLong = New 400 412108 ''content exceeds 5000 characters''"
definition ErrCannotFollowSelf :: AppError where
  "ErrCannotFollowSelf = New 400 440101 ''cannot follow yourself''"
definition ErrFollowLimitExceeded :: AppError where
  "ErrFollowLimitExceeded = New 400 440102 ''following limit reached (max 3000)''"
definition ErrFollowNotFound :: AppError where
  "ErrFollowNotFound = New 404 440103 ''follow relationship not found''"
definition ErrFollowCursorInvalid :: AppError where
  "ErrFollowCursorInvalid = New 400 440104 ''invalid follow list cursor''"
definition ErrSearchKeywordEmpty :: AppError where
  "ErrSearchKeywordEmpty = New 400 450101 ''search keyword cannot be empty''"
definition ErrSearchCursorInvalid :: AppError where
  "ErrSearchCursorInvalid = New 400 450102 ''invalid search cursor''"
definition ErrUploadFileType :: AppError where
  "ErrUploadFileType = New 400 460101 ''unsupported file type''"
definition ErrUploadFileTooLarge :: AppError where
  "ErrUploadFileTooLarge = New 400 460102 ''file exceeds size limit''"
definition ErrUploadPresignFailed :: AppError where
  "ErrUploadPresignFailed = New 500 460103 ''failed to generate presigned url''"
definition ErrUploadCallbackInvalid :: AppError where
  "ErrUploadCallbackInvalid = New 400 460104 ''invalid callback nonce''"
definition ErrUploadURLNotAllowed :: AppError where
  "ErrUploadURLNotAllowed = New 400 460105 ''url not in oss whitelist''"
definition ErrPostStepsInvalid :: AppError where
  "ErrPostStepsInvalid = New 400 460106 ''post steps invalid''"
definition ErrAuditAPIFailed :: AppError where
  "ErrAuditAPIFailed = New 500 470101 ''content safety API call failed''"
definition ErrAuditWriteFailed :: AppError where
  "ErrAuditWriteFailed = New 500 470102 ''audit result write failed''"
definition ErrEncryptPhone :: AppError where
  "ErrEncryptPhone = New 500 480101 ''phone encryption failed''"
definition ErrDecryptPhone :: AppError where
  "ErrDecryptPhone = New 500 480102 ''phone decryption failed''"
definition ErrPhoneKeyMissing :: AppError where
  "ErrPhoneKeyMissing = New 500 480103 ''phone encryption key not configured''"

text \<open>The alias of the 503 error.\<close>

definition ErrServiceUnavailable :: AppError where
  "ErrServiceUnavailable = ErrServiceUnavail"

text \<open>The codes the file declares, in its order.\<close>

definition declared_errors :: "AppError list" where
  "declared_errors = [
    ErrInvalidParams, ErrUnauthorized, ErrTokenExpired, ErrTokenInvalid, 
    ErrForbidden, ErrNotFound, ErrTooManyReq, ErrServer, ErrDatabase, ErrCacheError, 
    ErrServiceUnavail, ErrPhoneFormat, ErrCodeFormat, ErrCodeNotFound, 
    ErrCodeMismatch, ErrSMSWindow, ErrSMSDailyPhone, ErrSMSDailyIP, ErrUserNotFound, 
    ErrUserBanned, ErrNicknameInvalid, ErrBioTooLong, ErrAvatarURLInvalid, 
    ErrTitleEmpty, ErrTitleTooLong, ErrSceneTagInvalid, ErrPostNotFound, 
    ErrPostForbidden, ErrCursorInvalid, ErrPageSizeInvalid, ErrContentTooLong, 
    ErrCannotFollowSelf, ErrFollowLimitExceeded, ErrFollowNotFound, 
    ErrFollowCursorInvalid, ErrSearchKeywordEmpty, ErrSearchCursorInvalid, 
    ErrUploadFileType, ErrUploadFileTooLarge, ErrUploadPresignFailed, 
    ErrUploadCallbackInvalid, ErrUploadURLNotAllowed, ErrPostStepsInvalid, 
    ErrAuditAPIFailed, ErrAuditWriteFailed, ErrEncryptPhone, ErrDecryptPhone, 
    ErrPhoneKeyMissing]"

section \<open>Errors as values\<close>

datatype goerr =
    App AppError
  | Sentinel string
  | Plain string
  | Wrap string goerr

type_synonym 'a result = "goerr + 'a"

abbreviation ok :: "'a \<Rightarrow> 'a result" where "ok \<equiv> Inr"
abbreviation err :: "goerr \<Rightarrow> 'a result" where "err \<equiv> Inl"

text \<open>The outcome of a Go function whose only result is an error: None is nil.\<close>

type_synonym error = "goerr option"

fun errors_is :: "goerr \<Rightarrow> goerr \<Rightarrow> bool" where
  "errors_is (Wrap m e) t \<longleftrightarrow> Wrap m e = t \<or> errors_is e t"
| "errors_is e t \<longleftrightarrow> e = t"

fun errors_as :: "goerr \<Rightarrow> AppError option" where
  "errors_as (App a) = Some a"
| "errors_as (Wrap m e) = errors_as e"
| "errors_as _ = None"

lemma errors_is_refl [simp]: "errors_is e e"
  by (cases e) auto

lemma errors_is_App [simp]: "errors_is (App a) t \<longleftrightarrow> t = App a"
  by auto

section \<open>Response envelopes\<close>

text \<open>
  The JSON body of every answer with the HTTP status it is written with.  Data is
  absent (omitempty) where the source passes no data.
\<close>

record 'd Response =
  r_status :: int
  r_Code :: int
  r_Msg :: string
  r_Data :: "'d option"
  r_RequestID :: string

definition envelope :: "int \<Rightarrow> int \<Rightarrow> string \<Rightarrow> 'd option \<Rightarrow> string \<Rightarrow> 'd Response" where
  "envelope status code msg dat rid =
     \<lparr>r_status = status, r_Code = code, r_Msg = msg, r_Data = dat, r_RequestID = rid\<rparr>"

definition Success :: "string \<Rightarrow> 'd option \<Rightarrow> 'd Response" where
  "Success rid dat = envelope 200 0 ''ok'' dat rid"

definition BadRequest :: "string \<Rightarrow> AppError \<Rightarrow> 'd Response" where
  "BadRequest rid e = envelope 400 (Code e) (Msg e) None rid"

definition Unauthorized :: "string \<Rightarrow> AppError \<Rightarrow> 'd Response" where
  "Unauthorized rid e = envelope 401 (Code e) (Msg e) None rid"

definition Forbidden :: "string \<Rightarrow> AppError \<Rightarrow> 'd Response" where
  "Forbidden rid e = envelope 403 (Code e) (Msg e) None rid"

definition NotFound :: "string \<Rightarrow> AppError \<Rightarrow> 'd Response" where
  "NotFound rid e = envelope 404 (Code e) (Msg e) None rid"

definition TooManyRequests :: "string \<Rightarrow> 'd Response" where
  "TooManyRequests rid = envelope 429 (Code ErrTooManyReq) (Msg ErrTooManyReq) None rid"

definition ServerError :: "string \<Rightarrow> 'd Response" where
  "ServerError rid = envelope 500 (Code ErrServer) (Msg ErrServer) None rid"

definition Unavailable :: "string \<Rightarrow> 'd option \<Rightarrow> 'd Response" where
  "Unavailable rid dat = envelope 503 (Code ErrServiceUnavail) (Msg ErrServiceUnavail) dat rid"

definition FromError :: "string \<Rightarrow> error \<Rightarrow> 'd Response" where
  "FromError rid e =
     (case e of
        None \<Rightarrow> Success rid None
      | Some (App a) \<Rightarrow> envelope (HTTPStatus a) (Code a) (Msg a) None rid
      | Some _ \<Rightarrow> ServerError rid)"

lemmas response_defs =
  envelope_def Success_def BadRequest_def Unauthorized_def Forbidden_def NotFound_def
  TooManyRequests_def ServerError_def Unavailable_def FromError_def

end
