(* ===== verification/Json.thy ===== *)
theory Json
  imports Errcode
begin

text \<open>
  JSON values as encoding/json reads and writes them.  The structs the source stores
  in Redis or sends over the bus are encoded field by field under the names of their
  json tags; the text of a value and the value are identified, so a payload in Redis or
  in an event is the value that its text denotes.  Decoding follows
  json.Unmarshal: a field that is absent or null keeps its zero value, a field of
  another type or outside the range of its integer type is an error, the last of several
  equal names wins and unknown names are ignored.
\<close>

datatype json =
    JNull
  | JBool bool
  | JNum int
  | JStr string
  | JArr "json list"
  | JObj "(string \<times> json) list"

fun json_field :: "string \<Rightarrow> (string \<times> json) list \<Rightarrow> json" where
  "json_field k [] = JNull"
| "json_field k ((k', v) # kvs) =
     (if k \<in> set (map fst kvs) then json_field k kvs else if k = k' then v else JNull)"

abbreviation json_error :: goerr where
  "json_error \<equiv> Plain ''json: cannot unmarshal''"

fun as_int :: "json \<Rightarrow> int result" where
  "as_int JNull = ok 0"
| "as_int (JNum n) = (if in_int64 n then ok n else err json_error)"
| "as_int _ = err json_error"

fun as_ranged :: "int \<Rightarrow> int \<Rightarrow> json \<Rightarrow> int result" where
  "as_ranged lo hi JNull = ok 0"
| "as_ranged lo hi (JNum n) = (if lo \<le> n \<and> n \<le> hi then ok n else err json_error)"
| "as_ranged lo hi _ = err json_error"

fun as_str :: "json \<Rightarrow> string result" where
  "as_str JNull = ok []"
| "as_str (JStr s) = ok s"
| "as_str _ = err json_error"

fun as_bool :: "json \<Rightarrow> bool result" where
  "as_bool JNull = ok False"
| "as_bool (JBool b) = ok b"
| "as_bool _ = err json_error"

definition result_bind :: "'a result \<Rightarrow> ('a \<Rightarrow> 'b result) \<Rightarrow> 'b result" where
  "result_bind r f = (case r of Inl e \<Rightarrow> Inl e | Inr x \<Rightarrow> f x)"

lemma result_bind_simps [simp]:
  "result_bind (Inr x) f = f x" "result_bind (Inl e) f = Inl e"
  by (simp_all add: result_bind_def)

lemma result_bind_Inr:
  "result_bind r f = Inr y \<longleftrightarrow> (\<exists>x. r = Inr x \<and> f x = Inr y)"
  by (cases r) auto

fun map_result :: "('a \<Rightarrow> 'b result) \<Rightarrow> 'a list \<Rightarrow> 'b list result" where
  "map_result f [] = ok []"
| "map_result f (x # xs) =
     result_bind (f x) (\<lambda>y. result_bind (map_result f xs) (\<lambda>ys. ok (y # ys)))"

fun as_list :: "(json \<Rightarrow> 'a result) \<Rightarrow> json \<Rightarrow> 'a list result" where
  "as_list f JNull = ok []"
| "as_list f (JArr xs) = map_result f xs"
| "as_list f _ = err json_error"

text \<open>The fields of an object; null leaves the struct unchanged, as does the empty object.\<close>

fun as_obj :: "json \<Rightarrow> (string \<times> json) list result" where
  "as_obj JNull = ok []"
| "as_obj (JObj kvs) = ok kvs"
| "as_obj _ = err json_error"

lemma map_result_inverse:
  assumes "\<And>x. x \<in> set xs \<Longrightarrow> d (e x) = Inr x"
  shows "map_result d (map e xs) = Inr xs"
  using assms by (induction xs) auto

end
