(* ===== verification/Redis.thy ===== *)
theory Redis
  imports Json "HOL-Library.FSet"
begin

text \<open>
  The Redis commands the source issues (through go-redis) and what the Redis documentation says
  they do.  The server itself is not part of the repository: every component that talks to it
  takes the client as a parameter of type 'w rdb, a function from commands and worlds
  to replies and worlds.  The locale redis_server states what the components rely on:
  through a view of the world as a keyspace, a call lets some time pass and then either
  executes the command as documented or fails, with the command executed or not.  The Lua
  scripts the source sends are programs over the same commands.
\<close>

section \<open>Values, replies and commands\<close>

datatype bulk = Text string | Payload json

datatype rval = VStr bulk | VSet "string fset" | VZSet "(string \<times> int) list"

datatype rreply = RNil | RInt int | RBulk bulk | RStatus string | RError string

text \<open>Durations are in milliseconds; a duration of 0 in SET and SETNX means none.\<close>

datatype cmd =
    GET string
  | GETDEL string
  | SET string bulk int
  | SETNX string bulk int
  | DEL string
  | INCR string
  | DECR string
  | EXPIRE string int
  | TTL string
  | EXISTS string
  | SADD string string
  | SREM string string
  | SISMEMBER string string
  | ZREMRANGEBYSCORE string int int
  | ZCARD string
  | ZADD string int string

text \<open>A Lua script: calls of commands, whose replies it inspects, and a reply at the end.\<close>

datatype lua = LCall cmd "rreply \<Rightarrow> lua" | LReturn rreply

datatype rcmd = Cmd cmd | EVAL lua

section \<open>The keyspace\<close>

record rstate =
  rs_now :: int
  rs_db :: "string \<Rightarrow> (rval \<times> int option) option"

definition alive :: "rstate \<Rightarrow> int option \<Rightarrow> bool" where
  "alive s dl = (case dl of None \<Rightarrow> True | Some d \<Rightarrow> rs_now s < d)"

definition rget :: "rstate \<Rightarrow> string \<Rightarrow> rval option" where
  "rget s k = (case rs_db s k of None \<Rightarrow> None | Some (v, dl) \<Rightarrow> if alive s dl then Some v else None)"

definition rdeadline :: "rstate \<Rightarrow> string \<Rightarrow> int option" where
  "rdeadline s k = (case rs_db s k of None \<Rightarrow> None | Some (v, dl) \<Rightarrow> if alive s dl then dl else None)"

definition rput :: "string \<Rightarrow> rval \<Rightarrow> int option \<Rightarrow> rstate \<Rightarrow> rstate" where
  "rput k v dl s = s\<lparr>rs_db := (rs_db s)(k \<mapsto> (v, dl))\<rparr>"

definition rdel :: "string \<Rightarrow> rstate \<Rightarrow> rstate" where
  "rdel k s = s\<lparr>rs_db := (rs_db s)(k := None)\<rparr>"

definition deadline_in :: "rstate \<Rightarrow> int \<Rightarrow> int option" where
  "deadline_in s ttl = (if ttl = 0 then None else Some (rs_now s + ttl))"

definition tick :: "int \<Rightarrow> rstate \<Rightarrow> rstate" where
  "tick d s = s\<lparr>rs_now := rs_now s + d\<rparr>"

text \<open>Go-redis sends whole seconds: a positive duration below one second is sent as one.\<close>

definition formatSec :: "int \<Rightarrow> int" where
  "formatSec ms = (if 0 < ms \<and> ms < 1000 then 1 else ms div 1000)"

abbreviation wrongtype :: rreply where
  "wrongtype \<equiv> RError ''WRONGTYPE Operation against a key holding the wrong kind of value''"

abbreviation notinteger :: rreply where
  "notinteger \<equiv> RError ''ERR value is not an integer or out of range''"

text \<open>The integer a string value holds for INCR and DECR: canonical decimals only.\<close>

definition counter_value :: "bulk \<Rightarrow> int option" where
  "counter_value b =
     (case b of
        Text t \<Rightarrow> (case ParseInt t of Some n \<Rightarrow> if FormatInt n = t then Some n else None
                                  | None \<Rightarrow> None)
      | Payload _ \<Rightarrow> None)"

definition add_counter :: "string \<Rightarrow> int \<Rightarrow> rstate \<Rightarrow> rreply \<times> rstate" where
  "add_counter k by s =
     (case rget s k of
        None \<Rightarrow> (RInt by, rput k (VStr (Text (FormatInt by))) None s)
      | Some (VStr b) \<Rightarrow>
          (case counter_value b of
             None \<Rightarrow> (notinteger, s)
           | Some n \<Rightarrow>
               if in_int64 (n + by)
               then (RInt (n + by), rput k (VStr (Text (FormatInt (n + by)))) (rdeadline s k) s)
               else (notinteger, s))
      | Some _ \<Rightarrow> (wrongtype, s))"

fun kv_step :: "cmd \<Rightarrow> rstate \<Rightarrow> rreply \<times> rstate" where
  "kv_step (GET k) s =
     (case rget s k of
        None \<Rightarrow> (RNil, s)
      | Some (VStr b) \<Rightarrow> (RBulk b, s)
      | Some _ \<Rightarrow> (wrongtype, s))"
| "kv_step (GETDEL k) s =
     (case rget s k of
        None \<Rightarrow> (RNil, s)
      | Some (VStr b) \<Rightarrow> (RBulk b, rdel k s)
      | Some _ \<Rightarrow> (wrongtype, s))"
| "kv_step (SET k b ttl) s = (RStatus ''OK'', rput k (VStr b) (deadline_in s ttl) s)"
| "kv_step (SETNX k b ttl) s =
     (case rget s k of
        None \<Rightarrow> (RInt 1, rput k (VStr b) (deadline_in s ttl) s)
      | Some _ \<Rightarrow> (RInt 0, s))"
| "kv_step (DEL k) s =
     (case rget s k of None \<Rightarrow> (RInt 0, s) | Some _ \<Rightarrow> (RInt 1, rdel k s))"
| "kv_step (INCR k) s = add_counter k 1 s"
| "kv_step (DECR k) s = add_counter k (- 1) s"
| "kv_step (EXPIRE k ttl) s =
     (case rget s k of
        None \<Rightarrow> (RInt 0, s)
      | Some v \<Rightarrow> (RInt 1, rput k v (Some (rs_now s + 1000 * formatSec ttl)) s))"
| "kv_step (TTL k) s =
     (case rget s k of
        None \<Rightarrow> (RInt (- 2), s)
      | Some v \<Rightarrow>
          (case rdeadline s k of
             None \<Rightarrow> (RInt (- 1), s)
           | Some d \<Rightarrow> (RInt ((d - rs_now s + 500) div 1000), s)))"
| "kv_step (EXISTS k) s = (RInt (if rget s k = None then 0 else 1), s)"
| "kv_step (SADD k m) s =
     (case rget s k of
        None \<Rightarrow> (RInt 1, rput k (VSet {|m|}) None s)
      | Some (VSet M) \<Rightarrow>
          if m |\<in>| M then (RInt 0, s)
          else (RInt 1, rput k (VSet (finsert m M)) (rdeadline s k) s)
      | Some _ \<Rightarrow> (wrongtype, s))"
| "kv_step (SREM k m) s =
     (case rget s k of
        None \<Rightarrow> (RInt 0, s)
      | Some (VSet M) \<Rightarrow>
          if m |\<in>| M
          then (RInt 1, if M |-| {|m|} = {||} then rdel k s
                        else rput k (VSet (M |-| {|m|})) (rdeadline s k) s)
          else (RInt 0, s)
      | Some _ \<Rightarrow> (wrongtype, s))"
| "kv_step (SISMEMBER k m) s =
     (case rget s k of
        None \<Rightarrow> (RInt 0, s)
      | Some (VSet M) \<Rightarrow> (RInt (if m |\<in>| M then 1 else 0), s)
      | Some _ \<Rightarrow> (wrongtype, s))"
| "kv_step (ZREMRANGEBYSCORE k lo hi) s =
     (case rget s k of
        None \<Rightarrow> (RInt 0, s)
      | Some (VZSet Z) \<Rightarrow>
          (let Z' = filter (\<lambda>p. \<not> (lo \<le> snd p \<and> snd p \<le> hi)) Z
           in (RInt (int (length Z) - int (length Z')),
               if Z' = [] then rdel k s else rput k (VZSet Z') (rdeadline s k) s))
      | Some _ \<Rightarrow> (wrongtype, s))"
| "kv_step (ZCARD k) s =
     (case rget s k of
        None \<Rightarrow> (RInt 0, s)
      | Some (VZSet Z) \<Rightarrow> (RInt (int (length Z)), s)
      | Some _ \<Rightarrow> (wrongtype, s))"
| "kv_step (ZADD k sc m) s =
     (case rget s k of
        None \<Rightarrow> (RInt 1, rput k (VZSet [(m, sc)]) None s)
      | Some (VZSet Z) \<Rightarrow>
          (RInt (if m \<in> fst ` set Z then 0 else 1),
           rput k (VZSet ((m, sc) # filter (\<lambda>p. fst p \<noteq> m) Z)) (rdeadline s k) s)
      | Some _ \<Rightarrow> (wrongtype, s))"

fun is_error :: "rreply \<Rightarrow> bool" where
  "is_error (RError m) = True"
| "is_error _ = False"

text \<open>A command that fails inside a script ends it with the error; what it did before stays done.\<close>

primrec run_lua :: "lua \<Rightarrow> rstate \<Rightarrow> rreply \<times> rstate" where
  "run_lua (LReturn r) s = (r, s)"
| "run_lua (LCall c f) s =
     (let (r, s') = kv_step c s
      in if is_error r then (r, s') else run_lua (f r) s')"

fun exec :: "rcmd \<Rightarrow> rstate \<Rightarrow> rreply \<times> rstate" where
  "exec (Cmd c) s = kv_step c s"
| "exec (EVAL p) s = run_lua p s"

text \<open>Commands of any clients, in the order in which the server executes them.\<close>

fun run_cmds :: "rcmd list \<Rightarrow> rstate \<Rightarrow> rreply list \<times> rstate" where
  "run_cmds [] s = ([], s)"
| "run_cmds (c # cs) s =
     (case exec c s of (r, s1) \<Rightarrow> (case run_cmds cs s1 of (rs, s2) \<Rightarrow> (r # rs, s2)))"

lemma run_cmds_append:
  "run_cmds (xs @ ys) s =
     (case run_cmds xs s of (rs, s1) \<Rightarrow> (case run_cmds ys s1 of (rs', s2) \<Rightarrow> (rs @ rs', s2)))"
  by (induction xs arbitrary: s) (auto split: prod.splits)

section \<open>Lua values\<close>

text \<open>A nil reply is false in Lua, so not v tests for it.\<close>

definition lua_nil :: "rreply \<Rightarrow> bool" where
  "lua_nil r \<longleftrightarrow> r = RNil"

text \<open>tonumber on a reply or an argument that holds a decimal integer.\<close>

fun tonumber :: "rreply \<Rightarrow> int option" where
  "tonumber (RInt n) = Some n"
| "tonumber (RBulk (Text t)) = ParseInt t"
| "tonumber _ = None"

section \<open>The keyspace laws\<close>

lemma rget_rput [simp, redis_simps]:
  "rget (rput k v dl s) k' = (if k' = k then (if alive s dl then Some v else None) else rget s k')"
  by (auto simp: rget_def rput_def alive_def split: option.splits)

lemma rget_rdel [simp, redis_simps]:
  "rget (rdel k s) k' = (if k' = k then None else rget s k')"
  by (auto simp: rget_def rdel_def alive_def split: option.splits)

lemma rdeadline_rput [simp, redis_simps]:
  "rdeadline (rput k v dl s) k' =
     (if k' = k then (if alive s dl then dl else None) else rdeadline s k')"
  by (auto simp: rdeadline_def rput_def alive_def split: option.splits)

lemma rdeadline_rdel [simp, redis_simps]:
  "rdeadline (rdel k s) k' = (if k' = k then None else rdeadline s k')"
  by (auto simp: rdeadline_def rdel_def alive_def split: option.splits)

lemma now_put_del [simp, redis_simps]:
  "rs_now (rput k v dl s) = rs_now s" "rs_now (rdel k s) = rs_now s"
  "rs_now (tick d s) = rs_now s + d"
  by (simp_all add: rput_def rdel_def tick_def)

lemma alive_put_del [simp, redis_simps]:
  "alive (rput k v dl s) d = alive s d" "alive (rdel k s) d = alive s d"
  by (simp_all add: alive_def split: option.splits)

lemma alive_None [simp, redis_simps]: "alive s None"
  by (simp add: alive_def)

lemma alive_Some [simp, redis_simps]: "alive s (Some d) \<longleftrightarrow> rs_now s < d"
  by (simp add: alive_def)

lemma alive_rdeadline [simp, redis_simps]: "alive s (rdeadline s k)"
  by (auto simp: rdeadline_def split: option.splits)

lemma alive_deadline_in [simp, redis_simps]: "alive s (deadline_in s ttl) \<longleftrightarrow> 0 \<le> ttl"
  by (auto simp: deadline_in_def)

text \<open>Time only removes keys.\<close>

lemma rget_tick:
  assumes "0 \<le> d" and "rget (tick d s) k = Some v" shows "rget s k = Some v"
  using assms by (auto simp: rget_def tick_def alive_def split: option.splits if_splits)

lemma rget_tick_None:
  assumes "0 \<le> d" and "rget s k = None" shows "rget (tick d s) k = None"
  using assms rget_tick by (metis not_None_eq)

lemma rget_tick_before:
  assumes "rget s k = Some v" and "\<And>x. rdeadline s k = Some x \<Longrightarrow> rs_now s + d < x"
  shows "rget (tick d s) k = Some v"
  using assms
  by (auto simp: rget_def rdeadline_def tick_def alive_def split: option.splits if_splits)

lemma tick_tick [simp, redis_simps]: "tick d (tick d' s) = tick (d' + d) s"
  by (simp add: tick_def)

lemma tick_0 [simp, redis_simps]: "tick 0 s = s"
  by (simp add: tick_def)

lemma counter_value_FormatInt [simp, redis_simps]:
  "in_int64 n \<Longrightarrow> counter_value (Text (FormatInt n)) = Some n"
  by (simp add: counter_value_def ParseInt_FormatInt)

lemma now_exec [simp]: "rs_now (snd (kv_step c s)) = rs_now s"
  by (cases c)
    (auto simp: add_counter_def Let_def split: option.splits rval.splits)

text \<open>The keys a command may change.\<close>

fun cmd_key :: "cmd \<Rightarrow> string" where
  "cmd_key (GET k) = k"
| "cmd_key (GETDEL k) = k"
| "cmd_key (SET k b t) = k"
| "cmd_key (SETNX k b t) = k"
| "cmd_key (DEL k) = k"
| "cmd_key (INCR k) = k"
| "cmd_key (DECR k) = k"
| "cmd_key (EXPIRE k t) = k"
| "cmd_key (TTL k) = k"
| "cmd_key (EXISTS k) = k"
| "cmd_key (SADD k m) = k"
| "cmd_key (SREM k m) = k"
| "cmd_key (SISMEMBER k m) = k"
| "cmd_key (ZREMRANGEBYSCORE k l h) = k"
| "cmd_key (ZCARD k) = k"
| "cmd_key (ZADD k sc m) = k"

lemma kv_step_frame:
  "k \<noteq> cmd_key c \<Longrightarrow> rget (snd (kv_step c s)) k = rget s k"
  by (cases c)
    (auto simp: add_counter_def Let_def split: option.splits rval.splits)

section \<open>The client and its server\<close>

type_synonym 'w rdb = "rcmd \<Rightarrow> 'w \<Rightarrow> rreply \<times> 'w"

text \<open>A pipeline sends its commands one by one; Exec reports the first error.\<close>

fun pipe_exec :: "'w rdb \<Rightarrow> cmd list \<Rightarrow> 'w \<Rightarrow> rreply list \<times> 'w" where
  "pipe_exec rdb [] w = ([], w)"
| "pipe_exec rdb (c # cs) w =
     (case rdb (Cmd c) w of
        (r, w1) \<Rightarrow> (case pipe_exec rdb cs w1 of (rs, w2) \<Rightarrow> (r # rs, w2)))"

fun first_error :: "rreply list \<Rightarrow> goerr option" where
  "first_error [] = None"
| "first_error (RError m # rs) = Some (Plain m)"
| "first_error (r # rs) = first_error rs"

text \<open>
  What go-redis returns for a reply, by the type of the command: redis.Nil for a nil
  reply, the error of the server, or the decoded value.
\<close>

definition redis_Nil :: goerr where
  "redis_Nil = Sentinel ''redis: nil''"

abbreviation bad_redis_reply :: goerr where
  "bad_redis_reply \<equiv> Plain ''redis: unexpected reply''"

fun int_cmd :: "rreply \<Rightarrow> int result" where
  "int_cmd (RInt n) = ok n"
| "int_cmd RNil = err redis_Nil"
| "int_cmd (RError m) = err (Plain m)"
| "int_cmd _ = err bad_redis_reply"

definition bool_cmd :: "rreply \<Rightarrow> bool result" where
  "bool_cmd r = (case int_cmd r of Inl e \<Rightarrow> err e | Inr n \<Rightarrow> ok (n = 1))"

fun bytes_cmd :: "rreply \<Rightarrow> bulk result" where
  "bytes_cmd (RBulk b) = ok b"
| "bytes_cmd RNil = err redis_Nil"
| "bytes_cmd (RError m) = err (Plain m)"
| "bytes_cmd _ = err bad_redis_reply"

fun status_cmd :: "rreply \<Rightarrow> error" where
  "status_cmd (RError m) = Some (Plain m)"
| "status_cmd RNil = Some redis_Nil"
| "status_cmd _ = None"

text \<open>Get(...).Int64().\<close>

definition int64_of_bulk :: "bulk \<Rightarrow> int result" where
  "int64_of_bulk b =
     (case b of
        Text t \<Rightarrow> (case ParseInt t of None \<Rightarrow> err (Plain ''strconv.ParseInt: invalid syntax'') | Some n \<Rightarrow> ok n)
      | Payload j \<Rightarrow> err (Plain ''strconv.ParseInt: invalid syntax''))"

definition get_int64 :: "rreply \<Rightarrow> int result" where
  "get_int64 r = (case bytes_cmd r of Inl e \<Rightarrow> err e | Inr b \<Rightarrow> int64_of_bulk b)"

lemma bool_cmd_simps [simp, redis_simps]:
  "bool_cmd (RInt n) = ok (n = 1)" "bool_cmd RNil = err redis_Nil"
  "bool_cmd (RError m) = err (Plain m)"
  by (simp_all add: bool_cmd_def)

lemma get_int64_simps [simp, redis_simps]:
  "get_int64 (RBulk b) = int64_of_bulk b" "get_int64 RNil = err redis_Nil"
  "get_int64 (RError m) = err (Plain m)"
  by (simp_all add: get_int64_def)

lemma cmd_ok:
  "int_cmd r = Inr n \<longleftrightarrow> r = RInt n"
  "bool_cmd r = Inr b \<longleftrightarrow> (\<exists>n. r = RInt n \<and> b = (n = 1))"
  "bytes_cmd r = Inr x \<longleftrightarrow> r = RBulk x"
  by (cases r; auto simp: bool_cmd_def)+

lemma int64_of_bulk_FormatInt [simp, redis_simps]:
  "in_int64 n \<Longrightarrow> int64_of_bulk (Text (FormatInt n)) = ok n"
  by (simp add: int64_of_bulk_def ParseInt_FormatInt)

lemma int64_of_counter:
  "counter_value b = Some n \<Longrightarrow> int64_of_bulk b = ok n"
  by (auto simp: counter_value_def int64_of_bulk_def split: bulk.splits option.splits if_splits)

text \<open>The worlds a component can leave behind when it talks to nothing but Redis.\<close>

inductive rdb_calls :: "'w rdb \<Rightarrow> 'w \<Rightarrow> 'w \<Rightarrow> bool" for rdb where
  none [intro]: "rdb_calls rdb w w"
| one: "rdb c w = (r, w1) \<Longrightarrow> rdb_calls rdb w1 w2 \<Longrightarrow> rdb_calls rdb w w2"

lemma rdb_calls_trans: "rdb_calls rdb w w1 \<Longrightarrow> rdb_calls rdb w1 w2 \<Longrightarrow> rdb_calls rdb w w2"
  by (induction rule: rdb_calls.induct) (auto intro: rdb_calls.one)

lemma rdb_calls_single [intro]: "rdb c w = (r, w') \<Longrightarrow> rdb_calls rdb w w'"
  by (auto intro: rdb_calls.one)

lemma pipe_exec_calls: "pipe_exec rdb cs w = (rs, w') \<Longrightarrow> rdb_calls rdb w w'"
  by (induction cs arbitrary: w rs) (auto intro: rdb_calls.one split: prod.splits)

locale redis_server =
  fixes rdb :: "'w rdb" and kv :: "'w \<Rightarrow> rstate"
  assumes redis_call:
    "rdb c w = (r, w') \<Longrightarrow>
       \<exists>d\<ge>0. exec c (tick d (kv w)) = (r, kv w')
           \<or> ((\<exists>m. r = RError m) \<and>
              (kv w' = tick d (kv w) \<or> kv w' = snd (exec c (tick d (kv w)))))"
begin

lemma redis_answered:
  assumes "rdb c w = (r, w')" and "\<And>m. r \<noteq> RError m"
  obtains d where "0 \<le> d" "exec c (tick d (kv w)) = (r, kv w')"
  using redis_call [OF assms(1)] assms(2) by blast

lemma redis_effect:
  assumes "rdb c w = (r, w')"
  obtains d where "0 \<le> d" "kv w' = tick d (kv w) \<or> kv w' = snd (exec c (tick d (kv w)))"
  using redis_call [OF assms] by (metis snd_conv)

lemma redis_frame:
  assumes "rdb (Cmd c) w = (r, w')" and "k \<noteq> cmd_key c"
  obtains d where "0 \<le> d" "rget (kv w') k = rget (tick d (kv w)) k"
  using redis_effect [OF assms(1)] kv_step_frame [OF assms(2)] by (metis exec.simps(1))

end

end
