(* ===== verification/Models.thy ===== *)
theory Models
  imports Errcode
begin

text \<open>
  The persisted entities (internal/model) and the wire types
  (internal/model/dto).  A timestamp is its Unix milliseconds (the columns are
  DATETIME(3)); an unsigned 32-bit counter is the integer it holds, and the conversions of
  wider integers to uint32 are written with uint32 below.
\<close>

section \<open>Go integer conversions and times\<close>

definition uint32 :: "int \<Rightarrow> int" where
  "uint32 n = n mod 2 ^ 32"

lemma uint32_id [simp]: "0 \<le> n \<Longrightarrow> n < 4294967296 \<Longrightarrow> uint32 n = n"
  by (simp add: uint32_def)

lemma uint32_range: "0 \<le> uint32 n" "uint32 n < 4294967296"
  by (simp_all add: uint32_def)

text \<open>The Unix milliseconds of the zero time.Time (year 1).\<close>

definition zero_time :: int where
  "zero_time = - 62135596800000"

definition IsZero :: "int \<Rightarrow> bool" where
  "IsZero t \<longleftrightarrow> t = zero_time"

section \<open>Scene tags\<close>

definition SceneTagRental :: int where "SceneTagRental = 1"
definition SceneTagSeasonal :: int where "SceneTagSeasonal = 8"

definition SceneTag_IsValid :: "int \<Rightarrow> bool" where
  "SceneTag_IsValid s \<longleftrightarrow> s \<ge> SceneTagRental \<and> s \<le> SceneTagSeasonal"

text \<open>The display names, as the bytes of their UTF-8 encoding.\<close>

definition utf8 :: "nat list \<Rightarrow> string" where
  "utf8 = map char_of"

definition sceneTagNames :: "int \<Rightarrow> string option" where
  "sceneTagNames =
    [1 \<mapsto> utf8 [229, 135, 186, 231, 167, 159, 229, 177, 139],
     2 \<mapsto> utf8 [228, 184, 128, 228, 184, 170, 228, 186, 186, 231, 154, 132, 233, 165, 173],
     3 \<mapsto> utf8 [233, 156, 178, 232, 144, 165, 233, 135, 142, 231, 130, 138],
     4 \<mapsto> utf8 [229, 174, 182, 229, 186, 173, 229, 142, 168, 230, 136, 191],
     5 \<mapsto> utf8 [229, 191, 171, 230, 137, 139, 230, 151, 165, 229, 184, 184],
     6 \<mapsto> utf8 [230, 137, 147, 229, 140, 133, 228, 190, 191, 229, 189, 147],
     7 \<mapsto> utf8 [229, 135, 143, 232, 132, 130, 233, 164, 144],
     8 \<mapsto> utf8 [232, 138, 130, 230, 176, 148, 232, 138, 130, 230, 151, 165]]"

definition SceneTag_Name :: "int \<Rightarrow> string" where
  "SceneTag_Name s = (case sceneTagNames s of None \<Rightarrow> [] | Some n \<Rightarrow> n)"

section \<open>Entities\<close>

definition UserStatusNormal :: int where "UserStatusNormal = 0"
definition UserStatusBanned :: int where "UserStatusBanned = 1"

record User =
  u_ID :: int
  u_PhoneHash :: string
  u_PhoneEncrypted :: string
  u_Nickname :: string
  u_AvatarURL :: string
  u_Bio :: string
  u_Status :: int
  u_PostCount :: int
  u_TotalLikes :: int
  u_FollowerCount :: int
  u_FollowingCount :: int
  u_CreatedAt :: int
  u_UpdatedAt :: int
  u_DeletedAt :: "int option"

definition IsBanned :: "User \<Rightarrow> bool" where
  "IsBanned u \<longleftrightarrow> u_Status u = UserStatusBanned"

definition zero_User :: User where
  "zero_User = \<lparr>u_ID = 0, u_PhoneHash = [], u_PhoneEncrypted = [], u_Nickname = [],
     u_AvatarURL = [], u_Bio = [], u_Status = 0, u_PostCount = 0, u_TotalLikes = 0,
     u_FollowerCount = 0, u_FollowingCount = 0, u_CreatedAt = zero_time,
     u_UpdatedAt = zero_time, u_DeletedAt = None\<rparr>"

record Post =
  p_ID :: int
  p_UserID :: int
  p_Title :: string
  p_Content :: string
  p_SceneTag :: int
  p_CookDuration :: int
  p_CoverURL :: string
  p_LikeCount :: int
  p_ViewCount :: int
  p_IsVisible :: int
  p_AuditStatus :: int
  p_AuditRemark :: string
  p_CreatedAt :: int
  p_UpdatedAt :: int
  p_DeletedAt :: "int option"

definition zero_Post :: Post where
  "zero_Post = \<lparr>p_ID = 0, p_UserID = 0, p_Title = [], p_Content = [], p_SceneTag = 0,
     p_CookDuration = 0, p_CoverURL = [], p_LikeCount = 0, p_ViewCount = 0, p_IsVisible = 0,
     p_AuditStatus = 0, p_AuditRemark = [], p_CreatedAt = zero_time, p_UpdatedAt = zero_time,
     p_DeletedAt = None\<rparr>"

definition AuditStatusPending :: int where "AuditStatusPending = 0"
definition AuditStatusMachinePass :: int where "AuditStatusMachinePass = 1"
definition AuditStatusSuspect :: int where "AuditStatusSuspect = 2"
definition AuditStatusManualPass :: int where "AuditStatusManualPass = 3"
definition AuditStatusMachineDeny :: int where "AuditStatusMachineDeny = 4"
definition AuditStatusManualDeny :: int where "AuditStatusManualDeny = 5"

definition PostInvisible :: int where "PostInvisible = 0"
definition PostVisible :: int where "PostVisible = 1"

lemmas status_defs =
  AuditStatusPending_def AuditStatusMachinePass_def AuditStatusSuspect_def
  AuditStatusManualPass_def AuditStatusMachineDeny_def AuditStatusManualDeny_def
  PostInvisible_def PostVisible_def

record PostStep =
  ps_ID :: int
  ps_PostID :: int
  ps_StepNo :: int
  ps_Text :: string
  ps_ImageURLs :: "string list"
  ps_CreatedAt :: int

record Like =
  l_ID :: int
  l_UserID :: int
  l_PostID :: int
  l_CreatedAt :: int

record Follow =
  f_ID :: int
  f_FollowerID :: int
  f_FollowingID :: int
  f_CreatedAt :: int

record AuditLog =
  a_ID :: int
  a_PostID :: int
  a_AuthorID :: int
  a_AuditStatus :: int
  a_Remark :: string
  a_RawResponse :: string
  a_CreatedAt :: int

section \<open>Wire types\<close>

record LikeResp =
  lr_Liked :: bool
  lr_Count :: int

record PostAuthorBrief =
  pa_ID :: int
  pa_Nickname :: string
  pa_AvatarURL :: string

record PostListItem =
  pi_ID :: int
  pi_Title :: string
  pi_SceneTag :: int
  pi_SceneName :: string
  pi_CoverURL :: string
  pi_LikeCount :: int
  pi_ViewCount :: int
  pi_Author :: PostAuthorBrief
  pi_CreatedAt :: int
  pi_LikedByMe :: bool

record FeedResp =
  fr_Posts :: "PostListItem list"
  fr_NextCursor :: string
  fr_HasMore :: bool

record PostStepReq =
  sr_Text :: string
  sr_ImageURLs :: "string list"

record CreatePostReq =
  cp_Title :: string
  cp_SceneTag :: int
  cp_Content :: string
  cp_CoverURL :: string
  cp_Steps :: "PostStepReq list"

record CreatePostResp =
  cr_PostID :: int
  cr_AuditStatus :: int
  cr_IsVisible :: int
  cr_CreatedAt :: int

record PostStepResp =
  st_StepNo :: int
  st_Text :: string
  st_ImageURLs :: "string list"

record PostDetailResp =
  pd_ID :: int
  pd_Title :: string
  pd_SceneTag :: int
  pd_SceneName :: string
  pd_Content :: string
  pd_CoverURL :: string
  pd_LikeCount :: int
  pd_ViewCount :: int
  pd_Author :: PostAuthorBrief
  pd_Steps :: "PostStepResp list"
  pd_AuditStatus :: int
  pd_IsVisible :: int
  pd_CreatedAt :: int
  pd_UpdatedAt :: int

record UserBrief =
  ub_ID :: int
  ub_Nickname :: string
  ub_AvatarURL :: string

record FollowListResp =
  fl_Users :: "UserBrief list"
  fl_NextCursor :: string
  fl_HasMore :: bool

record SearchResp =
  se_Posts :: "PostListItem list"
  se_NextCursor :: string
  se_HasMore :: bool

end
