(* ===== verification/Sql.thy ===== *)
theory Sql
  imports Models "HOL-Library.Multiset"
begin

text \<open>
  The SQL statements the repositories send through GORM and what MySQL documents of them.  The
  database is not part of the repository: each repository takes the connection as a parameter
  of type 'w gorm.  The locale mysql_server states what the components rely
  on: through a view of the world as a set of tables, a statement that writes is executed by
  the master, a statement that only reads is answered from the master when it carries the
  dbresolver.Write clause and from a replica otherwise, and any statement may fail.
  The order of rows that the ORDER BY leaves open is left open.
\<close>

section \<open>Tables\<close>

datatype tbl = TUsers | TPosts | TSteps | TLikes | TFollows | TAudit

record dbstate =
  db_now :: int
  db_next :: "tbl \<Rightarrow> int"
  t_users :: "User list"
  t_posts :: "Post list"
  t_steps :: "PostStep list"
  t_likes :: "Like list"
  t_follows :: "Follow list"
  t_audit :: "AuditLog list"

text \<open>One row of the join of follows and users (repository.FollowUser).\<close>

record FollowUser =
  fu_UserID :: int
  fu_Nickname :: string
  fu_AvatarURL :: string
  fu_FollowID :: int

section \<open>Statements\<close>

text \<open>
  A query: its predicate, its sort keys (the first decides; rows are in descending order of
  a key unless it is negated), and its OFFSET and LIMIT.
\<close>

record 'r query =
  q_where :: "'r \<Rightarrow> bool"
  q_order :: "('r \<Rightarrow> int) list"
  q_offset :: int
  q_limit :: "int option"

text \<open>Whether a statement carries the clause that routes it to the master.\<close>

datatype route = Write | Default

datatype sql =
    SelectUsers route "User query"
  | SelectPosts route "Post query"
  | SelectSteps route "PostStep query"
  | SelectFollowUsers route "Follow \<Rightarrow> int" "(Follow \<times> User) query"
  | CountFollows route "Follow \<Rightarrow> bool"
  | ExistsFollow route "Follow \<Rightarrow> bool"
  | InsertUser User
  | InsertPost Post "PostStep list"
  | InsertAudit AuditLog
  | UpdateUsers "User \<Rightarrow> bool" "int \<Rightarrow> User \<Rightarrow> User"
  | UpdatePosts "Post \<Rightarrow> bool" "int \<Rightarrow> Post \<Rightarrow> Post"
  | InsertIgnoreLikes "Like list"
  | DeleteLikes "Like \<Rightarrow> bool"
  | InsertIgnoreFollow int int
  | DeleteFollows "Follow \<Rightarrow> bool"

datatype sqlreply =
    SqlErr goerr
  | Users "User list"
  | Posts "Post list"
  | Steps "PostStep list"
  | FollowUsers "FollowUser list"
  | Count int
  | Affected int
  | InsertedUser User
  | InsertedPost Post "PostStep list"
  | InsertedAudit AuditLog

definition gorm_ErrRecordNotFound :: goerr where
  "gorm_ErrRecordNotFound = Sentinel ''gorm: record not found''"

definition duplicate_key :: goerr where
  "duplicate_key = Plain ''Error 1062: Duplicate entry''"

definition out_of_range :: goerr where
  "out_of_range = Plain ''Error 1264: Out of range value''"

section \<open>Reads\<close>

fun key_le :: "('r \<Rightarrow> int) list \<Rightarrow> 'r \<Rightarrow> 'r \<Rightarrow> bool" where
  "key_le [] a b \<longleftrightarrow> True"
| "key_le (k # ks) a b \<longleftrightarrow> k a > k b \<or> (k a = k b \<and> key_le ks a b)"

definition window :: "int \<Rightarrow> int option \<Rightarrow> 'r list \<Rightarrow> 'r list" where
  "window off lim xs =
     (case lim of None \<Rightarrow> drop (nat off) xs | Some n \<Rightarrow> take (nat n) (drop (nat off) xs))"

text \<open>The possible answers of a query on a table.\<close>

definition query_ok :: "'r query \<Rightarrow> 'r list \<Rightarrow> 'r list \<Rightarrow> bool" where
  "query_ok q rows xs \<longleftrightarrow>
     (\<exists>ys. mset ys = mset (filter (q_where q) rows) \<and> sorted_wrt (key_le (q_order q)) ys
         \<and> xs = window (q_offset q) (q_limit q) ys)"

text \<open>One of them: a stable insertion sort by the keys.\<close>

fun insert_by :: "('r \<Rightarrow> int) list \<Rightarrow> 'r \<Rightarrow> 'r list \<Rightarrow> 'r list" where
  "insert_by ks x [] = [x]"
| "insert_by ks x (y # ys) = (if key_le ks x y then x # y # ys else y # insert_by ks x ys)"

fun sort_by :: "('r \<Rightarrow> int) list \<Rightarrow> 'r list \<Rightarrow> 'r list" where
  "sort_by ks [] = []"
| "sort_by ks (x # xs) = insert_by ks x (sort_by ks xs)"

definition run_query :: "'r query \<Rightarrow> 'r list \<Rightarrow> 'r list" where
  "run_query q rows =
     window (q_offset q) (q_limit q) (sort_by (q_order q) (filter (q_where q) rows))"

definition join_rows :: "(Follow \<Rightarrow> int) \<Rightarrow> dbstate \<Rightarrow> (Follow \<times> User) list" where
  "join_rows col s =
     concat (map (\<lambda>f. map (\<lambda>u. (f, u)) (filter (\<lambda>u. u_ID u = col f) (t_users s))) (t_follows s))"

definition follow_user_row :: "Follow \<times> User \<Rightarrow> FollowUser" where
  "follow_user_row fu =
     \<lparr>fu_UserID = u_ID (snd fu), fu_Nickname = u_Nickname (snd fu),
      fu_AvatarURL = u_AvatarURL (snd fu), fu_FollowID = f_ID (fst fu)\<rparr>"

fun answers :: "sql \<Rightarrow> dbstate \<Rightarrow> sqlreply \<Rightarrow> bool" where
  "answers (SelectUsers rt q) s r \<longleftrightarrow> (\<exists>xs. r = Users xs \<and> query_ok q (t_users s) xs)"
| "answers (SelectPosts rt q) s r \<longleftrightarrow> (\<exists>xs. r = Posts xs \<and> query_ok q (t_posts s) xs)"
| "answers (SelectSteps rt q) s r \<longleftrightarrow> (\<exists>xs. r = Steps xs \<and> query_ok q (t_steps s) xs)"
| "answers (SelectFollowUsers rt col q) s r \<longleftrightarrow>
     (\<exists>xs. r = FollowUsers (map follow_user_row xs) \<and> query_ok q (join_rows col s) xs)"
| "answers (CountFollows rt p) s r \<longleftrightarrow> r = Count (int (length (filter p (t_follows s))))"
| "answers (ExistsFollow rt p) s r \<longleftrightarrow> r = Count (if list_ex p (t_follows s) then 1 else 0)"
| "answers _ s r \<longleftrightarrow> False"

fun run_read :: "sql \<Rightarrow> dbstate \<Rightarrow> sqlreply" where
  "run_read (SelectUsers rt q) s = Users (run_query q (t_users s))"
| "run_read (SelectPosts rt q) s = Posts (run_query q (t_posts s))"
| "run_read (SelectSteps rt q) s = Steps (run_query q (t_steps s))"
| "run_read (SelectFollowUsers rt col q) s =
     FollowUsers (map follow_user_row (run_query q (join_rows col s)))"
| "run_read (CountFollows rt p) s = Count (int (length (filter p (t_follows s))))"
| "run_read (ExistsFollow rt p) s = Count (if list_ex p (t_follows s) then 1 else 0)"
| "run_read _ s = SqlErr (Plain ''not a read'')"

fun read_route :: "sql \<Rightarrow> route option" where
  "read_route (SelectUsers rt q) = Some rt"
| "read_route (SelectPosts rt q) = Some rt"
| "read_route (SelectSteps rt q) = Some rt"
| "read_route (SelectFollowUsers rt col q) = Some rt"
| "read_route (CountFollows rt p) = Some rt"
| "read_route (ExistsFollow rt p) = Some rt"
| "read_route _ = None"

section \<open>Writes\<close>

text \<open>The ranges of the unsigned counter columns.\<close>

definition in_uint32 :: "int \<Rightarrow> bool" where
  "in_uint32 n \<longleftrightarrow> 0 \<le> n \<and> n < 4294967296"

definition user_row_ok :: "User \<Rightarrow> bool" where
  "user_row_ok u \<longleftrightarrow> in_uint32 (u_PostCount u) \<and> in_uint32 (u_TotalLikes u)
     \<and> in_uint32 (u_FollowerCount u) \<and> in_uint32 (u_FollowingCount u)"

definition post_row_ok :: "Post \<Rightarrow> bool" where
  "post_row_ok p \<longleftrightarrow> in_uint32 (p_LikeCount p) \<and> in_uint32 (p_ViewCount p)"

definition update_rows :: "('r \<Rightarrow> bool) \<Rightarrow> ('r \<Rightarrow> 'r) \<Rightarrow> 'r list \<Rightarrow> 'r list" where
  "update_rows p f rows = map (\<lambda>x. if p x then f x else x) rows"

definition changed_rows :: "('r \<Rightarrow> bool) \<Rightarrow> ('r \<Rightarrow> 'r) \<Rightarrow> 'r list \<Rightarrow> int" where
  "changed_rows p f rows = int (length (filter (\<lambda>x. p x \<and> f x \<noteq> x) rows))"

definition stamp :: "int \<Rightarrow> int \<Rightarrow> int" where
  "stamp t0 t = (if IsZero t then t0 else t)"

text \<open>The rows of INSERT IGNORE INTO likes, one after the other.\<close>

fun insert_ignore :: "Like list \<Rightarrow> Like list \<times> int \<Rightarrow> Like list \<times> int" where
  "insert_ignore [] st = st"
| "insert_ignore (r # rs) (rows, nxt) =
     (if list_ex (\<lambda>x. l_UserID x = l_UserID r \<and> l_PostID x = l_PostID r) rows
      then insert_ignore rs (rows, nxt)
      else insert_ignore rs (rows @ [r\<lparr>l_ID := nxt\<rparr>], nxt + 1))"

fun number_steps :: "int \<Rightarrow> int \<Rightarrow> int \<Rightarrow> PostStep list \<Rightarrow> PostStep list" where
  "number_steps pid nxt t0 [] = []"
| "number_steps pid nxt t0 (x # xs) =
     x\<lparr>ps_ID := nxt, ps_PostID := pid, ps_CreatedAt := stamp t0 (ps_CreatedAt x)\<rparr>
       # number_steps pid (nxt + 1) t0 xs"

definition bump :: "tbl \<Rightarrow> int \<Rightarrow> dbstate \<Rightarrow> dbstate" where
  "bump t n s = s\<lparr>db_next := (db_next s)(t := db_next s t + n)\<rparr>"

fun dml :: "sql \<Rightarrow> dbstate \<Rightarrow> sqlreply \<times> dbstate" where
  "dml (InsertUser u) s =
     (if list_ex (\<lambda>x. u_PhoneHash x = u_PhoneHash u) (t_users s) then (SqlErr duplicate_key, s)
      else (let u' = u\<lparr>u_ID := db_next s TUsers, u_CreatedAt := stamp (db_now s) (u_CreatedAt u),
                       u_UpdatedAt := stamp (db_now s) (u_UpdatedAt u)\<rparr>
            in (InsertedUser u', bump TUsers 1 (s\<lparr>t_users := t_users s @ [u']\<rparr>))))"
| "dml (InsertPost p steps) s =
     (let p' = p\<lparr>p_ID := db_next s TPosts, p_CreatedAt := stamp (db_now s) (p_CreatedAt p),
                 p_UpdatedAt := stamp (db_now s) (p_UpdatedAt p)\<rparr>;
          steps' = number_steps (p_ID p') (db_next s TSteps) (db_now s) steps
      in (InsertedPost p' steps',
          bump TPosts 1 (bump TSteps (int (length steps))
            (s\<lparr>t_posts := t_posts s @ [p'], t_steps := t_steps s @ steps'\<rparr>))))"
| "dml (InsertAudit a) s =
     (let a' = a\<lparr>a_ID := db_next s TAudit, a_CreatedAt := stamp (db_now s) (a_CreatedAt a)\<rparr>
      in (InsertedAudit a', bump TAudit 1 (s\<lparr>t_audit := t_audit s @ [a']\<rparr>)))"
| "dml (UpdateUsers p f) s =
     (let rows = update_rows p (f (db_now s)) (t_users s)
      in if \<not> list_all user_row_ok rows then (SqlErr out_of_range, s)
         else if \<not> distinct (map u_PhoneHash rows) then (SqlErr duplicate_key, s)
         else (Affected (changed_rows p (f (db_now s)) (t_users s)), s\<lparr>t_users := rows\<rparr>))"
| "dml (UpdatePosts p f) s =
     (let rows = update_rows p (f (db_now s)) (t_posts s)
      in if list_all post_row_ok rows
         then (Affected (changed_rows p (f (db_now s)) (t_posts s)), s\<lparr>t_posts := rows\<rparr>)
         else (SqlErr out_of_range, s))"
| "dml (InsertIgnoreLikes rs) s =
     (let (rows, nxt) = insert_ignore rs (t_likes s, db_next s TLikes)
      in (Affected (int (length rows) - int (length (t_likes s))),
          s\<lparr>t_likes := rows, db_next := (db_next s)(TLikes := nxt)\<rparr>))"
| "dml (DeleteLikes p) s =
     (Affected (int (length (filter p (t_likes s)))),
      s\<lparr>t_likes := filter (\<lambda>x. \<not> p x) (t_likes s)\<rparr>)"
| "dml (InsertIgnoreFollow a b) s =
     (if list_ex (\<lambda>x. f_FollowerID x = a \<and> f_FollowingID x = b) (t_follows s) then (Affected 0, s)
      else (Affected 1,
            bump TFollows 1
              (s\<lparr>t_follows := t_follows s
                  @ [\<lparr>f_ID = db_next s TFollows, f_FollowerID = a, f_FollowingID = b,
                      f_CreatedAt = db_now s\<rparr>]\<rparr>)))"
| "dml (DeleteFollows p) s =
     (Affected (int (length (filter p (t_follows s)))),
      s\<lparr>t_follows := filter (\<lambda>x. \<not> p x) (t_follows s)\<rparr>)"
| "dml _ s = (SqlErr (Plain ''not a write''), s)"

text \<open>Time passes between statements, and auto-increment values may be skipped.\<close>

definition advance :: "int \<Rightarrow> (tbl \<Rightarrow> int) \<Rightarrow> dbstate \<Rightarrow> dbstate" where
  "advance d g s = s\<lparr>db_now := db_now s + d, db_next := (\<lambda>t. db_next s t + g t)\<rparr>"

lemma advance_tables [simp]:
  "t_users (advance d g s) = t_users s" "t_posts (advance d g s) = t_posts s"
  "t_steps (advance d g s) = t_steps s" "t_likes (advance d g s) = t_likes s"
  "t_follows (advance d g s) = t_follows s" "t_audit (advance d g s) = t_audit s"
  "db_now (advance d g s) = db_now s + d" "db_next (advance d g s) t = db_next s t + g t"
  by (simp_all add: advance_def)

lemma advance_0 [simp]: "advance 0 (\<lambda>_. 0) s = s"
  by (simp add: advance_def)

lemma dml_UpdatePosts:
  "(\<exists>e. fst (dml (UpdatePosts p f) s) = SqlErr e) \<and> snd (dml (UpdatePosts p f) s) = s
   \<or> fst (dml (UpdatePosts p f) s) = Affected (changed_rows p (f (db_now s)) (t_posts s))
     \<and> snd (dml (UpdatePosts p f) s) = s\<lparr>t_posts := update_rows p (f (db_now s)) (t_posts s)\<rparr>"
  by (simp add: Let_def)

lemma dml_UpdateUsers:
  "(\<exists>e. fst (dml (UpdateUsers p f) s) = SqlErr e) \<and> snd (dml (UpdateUsers p f) s) = s
   \<or> fst (dml (UpdateUsers p f) s) = Affected (changed_rows p (f (db_now s)) (t_users s))
     \<and> snd (dml (UpdateUsers p f) s) = s\<lparr>t_users := update_rows p (f (db_now s)) (t_users s)\<rparr>"
  by (simp add: Let_def)

section \<open>The reference answers are answers\<close>

lemma mset_insert_by [simp]: "mset (insert_by ks x ys) = add_mset x (mset ys)"
  by (induction ys) auto

lemma mset_sort_by [simp]: "mset (sort_by ks xs) = mset xs"
  by (induction xs) auto

lemma key_le_total: "key_le ks x y \<or> key_le ks y x"
  by (induction ks) auto

lemma key_le_trans: "key_le ks x y \<Longrightarrow> key_le ks y z \<Longrightarrow> key_le ks x z"
  by (induction ks) auto

lemma set_insert_by [simp]: "set (insert_by ks x ys) = insert x (set ys)"
  by (induction ys) auto

lemma sorted_insert_by:
  "sorted_wrt (key_le ks) ys \<Longrightarrow> sorted_wrt (key_le ks) (insert_by ks x ys)"
proof (induction ys)
  case (Cons a ys)
  have "key_le ks a x" if "\<not> key_le ks x a"
    using key_le_total [of ks x a] that by simp
  with Cons show ?case by (auto intro: key_le_trans)
qed simp

lemma sorted_sort_by [simp]: "sorted_wrt (key_le ks) (sort_by ks xs)"
  by (induction xs) (auto intro: sorted_insert_by)

lemma query_ok_run_query [simp]: "query_ok q rows (run_query q rows)"
  unfolding query_ok_def run_query_def by (intro exI [of _ "sort_by (q_order q) (filter (q_where q) rows)"]) simp

lemma answers_run_read: "read_route q \<noteq> None \<Longrightarrow> answers q s (run_read q s)"
  by (cases q) auto

text \<open>Every answer of a query consists of rows of the table that satisfy its predicate.\<close>

lemma set_window_subset: "set (window off lim xs) \<subseteq> set xs"
  by (auto simp: window_def split: option.splits dest: in_set_takeD in_set_dropD)

lemma query_ok_set:
  assumes "query_ok q rows xs" shows "set xs \<subseteq> {x \<in> set rows. q_where q x}"
proof -
  obtain ys where ys: "mset ys = mset (filter (q_where q) rows)"
      "xs = window (q_offset q) (q_limit q) ys"
    using assms by (auto simp: query_ok_def)
  have "set ys = {x \<in> set rows. q_where q x}"
    using mset_eq_setD [OF ys(1)] by simp
  then show ?thesis using set_window_subset ys(2) by metis
qed

lemma query_ok_subset:
  assumes "query_ok q rows xs" "x \<in> set xs" shows "x \<in> set rows" "q_where q x"
  using query_ok_set [OF assms(1)] assms(2) by auto

lemma query_ok_length:
  assumes "query_ok q rows xs" "q_limit q = Some n" shows "length xs \<le> nat n"
  using assms by (auto simp: query_ok_def window_def)

lemma query_ok_all:
  assumes "query_ok q rows xs" "q_limit q = None" "q_offset q = 0"
  shows "mset xs = mset (filter (q_where q) rows)"
  using assms by (auto simp: query_ok_def window_def)

lemma query_ok_empty:
  assumes "query_ok q rows []" "q_offset q = 0" "\<And>n. q_limit q = Some n \<Longrightarrow> 0 < n"
  shows "filter (q_where q) rows = []"
proof -
  obtain ys where ys: "mset ys = mset (filter (q_where q) rows)"
      "[] = window (q_offset q) (q_limit q) ys"
    using assms(1) by (auto simp: query_ok_def)
  have "ys = []"
    using ys(2) assms(2,3) by (cases "q_limit q") (auto simp: window_def)
  with ys(1) show ?thesis by simp
qed

section \<open>The connection\<close>

type_synonym 'w gorm = "sql \<Rightarrow> 'w \<Rightarrow> sqlreply \<times> 'w"

locale mysql_server =
  fixes db :: "'w gorm" and master :: "'w \<Rightarrow> dbstate" and replica :: "'w \<Rightarrow> dbstate"
  assumes sql_call:
    "db q w = (r, w') \<Longrightarrow>
       \<exists>d\<ge>0. \<exists>g. (\<forall>t. 0 \<le> g t) \<and>
         (case read_route q of
            None \<Rightarrow>
              dml q (advance d g (master w)) = (r, master w')
              \<or> ((\<exists>m. r = SqlErr (Plain m)) \<and>
                 (master w' = advance d g (master w)
                  \<or> master w' = snd (dml q (advance d g (master w)))))
          | Some rt \<Rightarrow>
              master w' = advance d g (master w)
              \<and> ((\<exists>m. r = SqlErr (Plain m))
                 \<or> answers q (if rt = Write then master w else replica w) r))"
begin

lemma sql_read:
  assumes "db q w = (r, w')" and "read_route q = Some rt"
  obtains d g where "0 \<le> d" "\<And>t. 0 \<le> g t" "master w' = advance d g (master w)"
    "(\<exists>m. r = SqlErr (Plain m))
       \<or> answers q (if rt = Write then master w else replica w) r"
  using sql_call [OF assms(1)] assms(2) by auto

lemma sql_write:
  assumes "db q w = (r, w')" and "read_route q = None" and "\<And>e. r \<noteq> SqlErr e"
  obtains d g where "0 \<le> d" "\<And>t. 0 \<le> g t" "dml q (advance d g (master w)) = (r, master w')"
  using sql_call [OF assms(1)] assms(2,3) by auto

lemma sql_write_effect:
  assumes "db q w = (r, w')" and "read_route q = None"
  obtains d g where "0 \<le> d" "\<And>t. 0 \<le> g t"
    "master w' = advance d g (master w) \<or> master w' = snd (dml q (advance d g (master w)))"
  using sql_call [OF assms(1)] assms(2) by (auto, metis snd_conv)

text \<open>An update changes the selected rows, or fails having changed them or not.\<close>

lemma sql_update_posts:
  assumes "db (UpdatePosts p f) w = (r, w')"
  shows "\<exists>t0. (t_posts (master w') = update_rows p (f t0) (t_posts (master w))
            \<and> (r = Affected (changed_rows p (f t0) (t_posts (master w))) \<or> (\<exists>e. r = SqlErr e)))
         \<or> (\<exists>e. r = SqlErr e) \<and> t_posts (master w') = t_posts (master w)"
proof -
  obtain d g where dg: "dml (UpdatePosts p f) (advance d g (master w)) = (r, master w')
      \<or> (\<exists>m. r = SqlErr (Plain m)) \<and>
         (master w' = advance d g (master w)
          \<or> master w' = snd (dml (UpdatePosts p f) (advance d g (master w))))"
    using sql_call [OF assms] by auto
  show ?thesis
    using dg dml_UpdatePosts [of p f "advance d g (master w)"]
    by (elim disjE conjE exE) (auto simp del: dml.simps)
qed

lemma sql_update_users:
  assumes "db (UpdateUsers p f) w = (r, w')"
  shows "\<exists>t0. (t_users (master w') = update_rows p (f t0) (t_users (master w))
            \<and> (r = Affected (changed_rows p (f t0) (t_users (master w))) \<or> (\<exists>e. r = SqlErr e)))
         \<or> (\<exists>e. r = SqlErr e) \<and> t_users (master w') = t_users (master w)"
proof -
  obtain d g where dg: "dml (UpdateUsers p f) (advance d g (master w)) = (r, master w')
      \<or> (\<exists>m. r = SqlErr (Plain m)) \<and>
         (master w' = advance d g (master w)
          \<or> master w' = snd (dml (UpdateUsers p f) (advance d g (master w))))"
    using sql_call [OF assms] by auto
  show ?thesis
    using dg dml_UpdateUsers [of p f "advance d g (master w)"]
    by (elim disjE conjE exE) (auto simp del: dml.simps)
qed

end

end
