(* ===== verification/Events.thy ===== *)
theory Events
  imports Json
begin

text \<open>
  The envelope and the payloads of internal/event/types.go, with their JSON encoding
  (field by field, under the names of the json tags), and the topics.  An envelope
  carries its payload as JSON; consumers decode it with the struct of the topic.
\<close>

section \<open>Topics\<close>

definition TopicLike :: string where "TopicLike = ''event.like''"
definition TopicUnlike :: string where "TopicUnlike = ''event.unlike''"
definition TopicPV :: string where "TopicPV = ''event.pv''"
definition TopicAudit :: string where "TopicAudit = ''event.audit''"
definition TopicCount :: string where "TopicCount = ''event.count''"
definition TopicPost :: string where "TopicPost = ''event.post''"
definition TopicPostDeleted :: string where "TopicPostDeleted = ''event.post.deleted''"
definition TopicFollow :: string where "TopicFollow = ''event.follow''"
definition TopicUnfollow :: string where "TopicUnfollow = ''event.unfollow''"

lemmas topic_defs =
  TopicLike_def TopicUnlike_def TopicPV_def TopicAudit_def TopicCount_def TopicPost_def
  TopicPostDeleted_def TopicFollow_def TopicUnfollow_def

section \<open>Events\<close>

record Event =
  ev_ID :: string
  ev_Topic :: string
  ev_Timestamp :: int
  ev_Payload :: json

record LikeEvent =
  le_EventID :: string
  le_UserID :: int
  le_PostID :: int
  le_AuthorID :: int
  le_Timestamp :: int

record UnlikeEvent =
  ue_EventID :: string
  ue_UserID :: int
  ue_PostID :: int
  ue_AuthorID :: int
  ue_Timestamp :: int

record PVEvent =
  pv_EventID :: string
  pv_PostID :: int
  pv_ViewerID :: int
  pv_IP :: string
  pv_Timestamp :: int

record AuditEvent =
  ae_EventID :: string
  ae_PostID :: int
  ae_AuthorID :: int
  ae_AuditStatus :: int
  ae_Remark :: string
  ae_RawResponse :: string
  ae_Timestamp :: int

record CountEvent =
  ce_EventID :: string
  ce_UserID :: int
  ce_CountType :: string
  ce_Delta :: int
  ce_Timestamp :: int

record PostEvent =
  pe_EventID :: string
  pe_PostID :: int
  pe_AuthorID :: int
  pe_SceneTag :: int
  pe_Timestamp :: int

record PostDeletedEvent =
  pde_EventID :: string
  pde_PostID :: int
  pde_AuthorID :: int
  pde_Timestamp :: int

record FollowEvent =
  fe_EventID :: string
  fe_FollowerID :: int
  fe_FollowingID :: int
  fe_Timestamp :: int

record UnfollowEvent =
  ufe_EventID :: string
  ufe_FollowerID :: int
  ufe_FollowingID :: int
  ufe_Timestamp :: int

section \<open>Encoding and decoding of the payloads\<close>

definition json_of_LikeEvent :: "LikeEvent \<Rightarrow> json" where
  "json_of_LikeEvent e = JObj
     [(''event_id'', JStr (le_EventID e)),
      (''user_id'', JNum (le_UserID e)),
      (''post_id'', JNum (le_PostID e)),
      (''author_id'', JNum (le_AuthorID e)),
      (''timestamp'', JNum (le_Timestamp e))]"

definition LikeEvent_of_json :: "json \<Rightarrow> LikeEvent result" where
  "LikeEvent_of_json j =
     result_bind (as_obj j) (\<lambda>kvs.
     result_bind (as_str (json_field ''event_id'' kvs)) (\<lambda>x0.
     result_bind (as_int (json_field ''user_id'' kvs)) (\<lambda>x1.
     result_bind (as_int (json_field ''post_id'' kvs)) (\<lambda>x2.
     result_bind (as_int (json_field ''author_id'' kvs)) (\<lambda>x3.
     result_bind (as_int (json_field ''timestamp'' kvs)) (\<lambda>x4.
       ok \<lparr>le_EventID = x0, le_UserID = x1, le_PostID = x2, le_AuthorID = x3, le_Timestamp = x4\<rparr>))))))"

definition json_of_UnlikeEvent :: "UnlikeEvent \<Rightarrow> json" where
  "json_of_UnlikeEvent e = JObj
     [(''event_id'', JStr (ue_EventID e)),
      (''user_id'', JNum (ue_UserID e)),
      (''post_id'', JNum (ue_PostID e)),
      (''author_id'', JNum (ue_AuthorID e)),
      (''timestamp'', JNum (ue_Timestamp e))]"

definition UnlikeEvent_of_json :: "json \<Rightarrow> UnlikeEvent result" where
  "UnlikeEvent_of_json j =
     result_bind (as_obj j) (\<lambda>kvs.
     result_bind (as_str (json_field ''event_id'' kvs)) (\<lambda>x0.
     result_bind (as_int (json_field ''user_id'' kvs)) (\<lambda>x1.
     result_bind (as_int (json_field ''post_id'' kvs)) (\<lambda>x2.
     result_bind (as_int (json_field ''author_id'' kvs)) (\<lambda>x3.
     result_bind (as_int (json_field ''timestamp'' kvs)) (\<lambda>x4.
       ok \<lparr>ue_EventID = x0, ue_UserID = x1, ue_PostID = x2, ue_AuthorID = x3, ue_Timestamp = x4\<rparr>))))))"

definition json_of_PVEvent :: "PVEvent \<Rightarrow> json" where
  "json_of_PVEvent e = JObj
     [(''event_id'', JStr (pv_EventID e)),
      (''post_id'', JNum (pv_PostID e)),
      (''viewer_id'', JNum (pv_ViewerID e)),
      (''ip'', JStr (pv_IP e)),
      (''timestamp'', JNum (pv_Timestamp e))]"

definition PVEvent_of_json :: "json \<Rightarrow> PVEvent result" where
  "PVEvent_of_json j =
     result_bind (as_obj j) (\<lambda>kvs.
     result_bind (as_str (json_field ''event_id'' kvs)) (\<lambda>x0.
     result_bind (as_int (json_field ''post_id'' kvs)) (\<lambda>x1.
     result_bind (as_int (json_field ''viewer_id'' kvs)) (\<lambda>x2.
     result_bind (as_str (json_field ''ip'' kvs)) (\<lambda>x3.
     result_bind (as_int (json_field ''timestamp'' kvs)) (\<lambda>x4.
       ok \<lparr>pv_EventID = x0, pv_PostID = x1, pv_ViewerID = x2, pv_IP = x3, pv_Timestamp = x4\<rparr>))))))"

definition json_of_AuditEvent :: "AuditEvent \<Rightarrow> json" where
  "json_of_AuditEvent e = JObj
     [(''event_id'', JStr (ae_EventID e)),
      (''post_id'', JNum (ae_PostID e)),
      (''author_id'', JNum (ae_AuthorID e)),
      (''audit_status'', JNum (ae_AuditStatus e)),
      (''remark'', JStr (ae_Remark e)),
      (''raw_response'', JStr (ae_RawResponse e)),
      (''timestamp'', JNum (ae_Timestamp e))]"

definition AuditEvent_of_json :: "json \<Rightarrow> AuditEvent result" where
  "AuditEvent_of_json j =
     result_bind (as_obj j) (\<lambda>kvs.
     result_bind (as_str (json_field ''event_id'' kvs)) (\<lambda>x0.
     result_bind (as_int (json_field ''post_id'' kvs)) (\<lambda>x1.
     result_bind (as_int (json_field ''author_id'' kvs)) (\<lambda>x2.
     result_bind (as_ranged (- 128) 127 (json_field ''audit_status'' kvs)) (\<lambda>x3.
     result_bind (as_str (json_field ''remark'' kvs)) (\<lambda>x4.
     result_bind (as_str (json_field ''raw_response'' kvs)) (\<lambda>x5.
     result_bind (as_int (json_field ''timestamp'' kvs)) (\<lambda>x6.
       ok \<lparr>ae_EventID = x0, ae_PostID = x1, ae_AuthorID = x2, ae_AuditStatus = x3, ae_Remark = x4, ae_RawResponse = x5, ae_Timestamp = x6\<rparr>))))))))"

definition json_of_CountEvent :: "CountEvent \<Rightarrow> json" where
  "json_of_CountEvent e = JObj
     [(''event_id'', JStr (ce_EventID e)),
      (''user_id'', JNum (ce_UserID e)),
      (''count_type'', JStr (ce_CountType e)),
      (''delta'', JNum (ce_Delta e)),
      (''timestamp'', JNum (ce_Timestamp e))]"

definition CountEvent_of_json :: "json \<Rightarrow> CountEvent result" where
  "CountEvent_of_json j =
     result_bind (as_obj j) (\<lambda>kvs.
     result_bind (as_str (json_field ''event_id'' kvs)) (\<lambda>x0.
     result_bind (as_int (json_field ''user_id'' kvs)) (\<lambda>x1.
     result_bind (as_str (json_field ''count_type'' kvs)) (\<lambda>x2.
     result_bind (as_int (json_field ''delta'' kvs)) (\<lambda>x3.
     result_bind (as_int (json_field ''timestamp'' kvs)) (\<lambda>x4.
       ok \<lparr>ce_EventID = x0, ce_UserID = x1, ce_CountType = x2, ce_Delta = x3, ce_Timestamp = x4\<rparr>))))))"

definition json_of_PostEvent :: "PostEvent \<Rightarrow> json" where
  "json_of_PostEvent e = JObj
     [(''event_id'', JStr (pe_EventID e)),
      (''post_id'', JNum (pe_PostID e)),
      (''author_id'', JNum (pe_AuthorID e)),
      (''scene_tag'', JNum (pe_SceneTag e)),
      (''timestamp'', JNum (pe_Timestamp e))]"

definition PostEvent_of_json :: "json \<Rightarrow> PostEvent result" where
  "PostEvent_of_json j =
     result_bind (as_obj j) (\<lambda>kvs.
     result_bind (as_str (json_field ''event_id'' kvs)) (\<lambda>x0.
     result_bind (as_int (json_field ''post_id'' kvs)) (\<lambda>x1.
     result_bind (as_int (json_field ''author_id'' kvs)) (\<lambda>x2.
     result_bind (as_ranged (- 128) 127 (json_field ''scene_tag'' kvs)) (\<lambda>x3.
     result_bind (as_int (json_field ''timestamp'' kvs)) (\<lambda>x4.
       ok \<lparr>pe_EventID = x0, pe_PostID = x1, pe_AuthorID = x2, pe_SceneTag = x3, pe_Timestamp = x4\<rparr>))))))"

definition json_of_PostDeletedEvent :: "PostDeletedEvent \<Rightarrow> json" where
  "json_of_PostDeletedEvent e = JObj
     [(''event_id'', JStr (pde_EventID e)),
      (''post_id'', JNum (pde_PostID e)),
      (''author_id'', JNum (pde_AuthorID e)),
      (''timestamp'', JNum (pde_Timestamp e))]"

definition PostDeletedEvent_of_json :: "json \<Rightarrow> PostDeletedEvent result" where
  "PostDeletedEvent_of_json j =
     result_bind (as_obj j) (\<lambda>kvs.
     result_bind (as_str (json_field ''event_id'' kvs)) (\<lambda>x0.
     result_bind (as_int (json_field ''post_id'' kvs)) (\<lambda>x1.
     result_bind (as_int (json_field ''author_id'' kvs)) (\<lambda>x2.
     result_bind (as_int (json_field ''timestamp'' kvs)) (\<lambda>x3.
       ok \<lparr>pde_EventID = x0, pde_PostID = x1, pde_AuthorID = x2, pde_Timestamp = x3\<rparr>)))))"

definition json_of_FollowEvent :: "FollowEvent \<Rightarrow> json" where
  "json_of_FollowEvent e = JObj
     [(''event_id'', JStr (fe_EventID e)),
      (''follower_id'', JNum (fe_FollowerID e)),
      (''following_id'', JNum (fe_FollowingID e)),
      (''timestamp'', JNum (fe_Timestamp e))]"

definition FollowEvent_of_json :: "json \<Rightarrow> FollowEvent result" where
  "FollowEvent_of_json j =
     result_bind (as_obj j) (\<lambda>kvs.
     result_bind (as_str (json_field ''event_id'' kvs)) (\<lambda>x0.
     result_bind (as_int (json_field ''follower_id'' kvs)) (\<lambda>x1.
     result_bind (as_int (json_field ''following_id'' kvs)) (\<lambda>x2.
     result_bind (as_int (json_field ''timestamp'' kvs)) (\<lambda>x3.
       ok \<lparr>fe_EventID = x0, fe_FollowerID = x1, fe_FollowingID = x2, fe_Timestamp = x3\<rparr>)))))"

definition json_of_UnfollowEvent :: "UnfollowEvent \<Rightarrow> json" where
  "json_of_UnfollowEvent e = JObj
     [(''event_id'', JStr (ufe_EventID e)),
      (''follower_id'', JNum (ufe_FollowerID e)),
      (''following_id'', JNum (ufe_FollowingID e)),
      (''timestamp'', JNum (ufe_Timestamp e))]"

definition UnfollowEvent_of_json :: "json \<Rightarrow> UnfollowEvent result" where
  "UnfollowEvent_of_json j =
     result_bind (as_obj j) (\<lambda>kvs.
     result_bind (as_str (json_field ''event_id'' kvs)) (\<lambda>x0.
     result_bind (as_int (json_field ''follower_id'' kvs)) (\<lambda>x1.
     result_bind (as_int (json_field ''following_id'' kvs)) (\<lambda>x2.
     result_bind (as_int (json_field ''timestamp'' kvs)) (\<lambda>x3.
       ok \<lparr>ufe_EventID = x0, ufe_FollowerID = x1, ufe_FollowingID = x2, ufe_Timestamp = x3\<rparr>)))))"

section \<open>Round trips\<close>

lemma LikeEvent_roundtrip:
  assumes "in_int64 (le_UserID e) \<and> in_int64 (le_PostID e) \<and> in_int64 (le_AuthorID e) \<and> in_int64 (le_Timestamp e)"
  shows "LikeEvent_of_json (json_of_LikeEvent e) = Inr e"
  using assms by (cases e) (simp add: LikeEvent_of_json_def json_of_LikeEvent_def)

lemma UnlikeEvent_roundtrip:
  assumes "in_int64 (ue_UserID e) \<and> in_int64 (ue_PostID e) \<and> in_int64 (ue_AuthorID e) \<and> in_int64 (ue_Timestamp e)"
  shows "UnlikeEvent_of_json (json_of_UnlikeEvent e) = Inr e"
  using assms by (cases e) (simp add: UnlikeEvent_of_json_def json_of_UnlikeEvent_def)

lemma PVEvent_roundtrip:
  assumes "in_int64 (pv_PostID e) \<and> in_int64 (pv_ViewerID e) \<and> in_int64 (pv_Timestamp e)"
  shows "PVEvent_of_json (json_of_PVEvent e) = Inr e"
  using assms by (cases e) (simp add: PVEvent_of_json_def json_of_PVEvent_def)

lemma AuditEvent_roundtrip:
  assumes "in_int64 (ae_PostID e) \<and> in_int64 (ae_AuthorID e) \<and> - 128 \<le> ae_AuditStatus e \<and> ae_AuditStatus e \<le> 127 \<and> in_int64 (ae_Timestamp e)"
  shows "AuditEvent_of_json (json_of_AuditEvent e) = Inr e"
  using assms by (cases e) (simp add: AuditEvent_of_json_def json_of_AuditEvent_def)

lemma CountEvent_roundtrip:
  assumes "in_int64 (ce_UserID e) \<and> in_int64 (ce_Delta e) \<and> in_int64 (ce_Timestamp e)"
  shows "CountEvent_of_json (json_of_CountEvent e) = Inr e"
  using assms by (cases e) (simp add: CountEvent_of_json_def json_of_CountEvent_def)

lemma PostEvent_roundtrip:
  assumes "in_int64 (pe_PostID e) \<and> in_int64 (pe_AuthorID e) \<and> - 128 \<le> pe_SceneTag e \<and> pe_SceneTag e \<le> 127 \<and> in_int64 (pe_Timestamp e)"
  shows "PostEvent_of_json (json_of_PostEvent e) = Inr e"
  using assms by (cases e) (simp add: PostEvent_of_json_def json_of_PostEvent_def)

lemma PostDeletedEvent_roundtrip:
  assumes "in_int64 (pde_PostID e) \<and> in_int64 (pde_AuthorID e) \<and> in_int64 (pde_Timestamp e)"
  shows "PostDeletedEvent_of_json (json_of_PostDeletedEvent e) = Inr e"
  using assms by (cases e) (simp add: PostDeletedEvent_of_json_def json_of_PostDeletedEvent_def)

lemma FollowEvent_roundtrip:
  assumes "in_int64 (fe_FollowerID e) \<and> in_int64 (fe_FollowingID e) \<and> in_int64 (fe_Timestamp e)"
  shows "FollowEvent_of_json (json_of_FollowEvent e) = Inr e"
  using assms by (cases e) (simp add: FollowEvent_of_json_def json_of_FollowEvent_def)

lemma UnfollowEvent_roundtrip:
  assumes "in_int64 (ufe_FollowerID e) \<and> in_int64 (ufe_FollowingID e) \<and> in_int64 (ufe_Timestamp e)"
  shows "UnfollowEvent_of_json (json_of_UnfollowEvent e) = Inr e"
  using assms by (cases e) (simp add: UnfollowEvent_of_json_def json_of_UnfollowEvent_def)

end
