(* ===== verification/ChannelBus.thy ===== *)
theory ChannelBus
  imports Events
begin

text \<open>
  The in-process event bus, internal/event/channel.go (and the interfaces of
  bus.go).  A subscriber owns a buffered channel; Publish checks the closed flag, copies
  the channels of the topic under the read lock, and then offers the payload to one channel after
  the other, dropping it where the channel is full.  Between these pieces, which are the steps of
  the relation below, any other goroutine may run: Close, Subscribe, a subscriber that leaves, other
  publishers.  Each subscriber carries two ghost logs, the payloads its channel accepted and those
  its handler was called with.
\<close>

section \<open>The bus\<close>

text \<open>
  Where the goroutine of Subscribe stands: in the receive loop, in drain, or
  past drain with the deferred removal still to run.
\<close>

datatype phase = Running | Draining | Leaving

record subscriber =
  sub_id :: nat
  sub_queue :: "json list"
  sub_phase :: phase
  sub_cancelled :: bool
  sub_accepted :: "json list"
  sub_handled :: "json list"

record ChannelBus =
  cb_subs :: "string \<Rightarrow> subscriber list"
  cb_bufSize :: nat
  cb_closed :: bool
  cb_next :: nat
  cb_left :: "subscriber list"

definition NewChannelBus :: "nat \<Rightarrow> ChannelBus" where
  "NewChannelBus bufSize =
     \<lparr>cb_subs = (\<lambda>_. []), cb_bufSize = bufSize, cb_closed = False, cb_next = 0, cb_left = []\<rparr>"

text \<open>One non-blocking send on a subscriber's channel.\<close>

definition offer :: "nat \<Rightarrow> json \<Rightarrow> subscriber \<Rightarrow> subscriber" where
  "offer bufSize payload s =
     (if length (sub_queue s) < bufSize
      then s\<lparr>sub_queue := sub_queue s @ [payload], sub_accepted := sub_accepted s @ [payload]\<rparr>
      else s)"

text \<open>
  A channel is found by the identity of its subscriber, also after that one left the topic's list:
  a publisher that copied the list before may still hold it.
\<close>

definition on_chan :: "nat \<Rightarrow> (subscriber \<Rightarrow> subscriber) \<Rightarrow> ChannelBus \<Rightarrow> ChannelBus" where
  "on_chan i f b =
     b\<lparr>cb_subs := (\<lambda>t. map (\<lambda>s. if sub_id s = i then f s else s) (cb_subs b t)),
       cb_left := map (\<lambda>s. if sub_id s = i then f s else s) (cb_left b)\<rparr>"

section \<open>Publish\<close>

text \<open>Where a call of Publish stands: past the closed check, in the send loop, or returned.\<close>

datatype call_phase = Checked | Sending "nat list" | Returned error

record publish_call =
  pc_evt :: Event
  pc_phase :: call_phase

definition Publish_check :: "Event \<Rightarrow> ChannelBus \<Rightarrow> publish_call" where
  "Publish_check evt b =
     \<lparr>pc_evt = evt,
      pc_phase = (if cb_closed b then Returned (Some (Plain ''event bus: publish on closed bus''))
                  else Checked)\<rparr>"

definition Publish_snapshot :: "Event \<Rightarrow> ChannelBus \<Rightarrow> nat list" where
  "Publish_snapshot evt b = map sub_id (cb_subs b (ev_Topic evt))"

definition Publish_send :: "Event \<Rightarrow> nat \<Rightarrow> ChannelBus \<Rightarrow> ChannelBus" where
  "Publish_send evt i b = on_chan i (offer (cb_bufSize b) (ev_Payload evt)) b"

text \<open>
  A whole call that no other goroutine interrupts: the pieces one after the other.  The services
  publish through it; what may happen between the pieces is in the step relation.
\<close>

definition ChannelBus_Publish :: "Event \<Rightarrow> ChannelBus \<Rightarrow> error \<times> ChannelBus" where
  "ChannelBus_Publish evt b =
     (case pc_phase (Publish_check evt b) of
        Returned e \<Rightarrow> (e, b)
      | _ \<Rightarrow> (None, fold (Publish_send evt) (Publish_snapshot evt b) b))"

definition ChannelBus_Close :: "ChannelBus \<Rightarrow> error \<times> ChannelBus" where
  "ChannelBus_Close b = (None, b\<lparr>cb_closed := True\<rparr>)"

section \<open>Handlers and drain\<close>

type_synonym 'w handler = "json \<Rightarrow> 'w \<Rightarrow> error \<times> 'w"

text \<open>
  drain calls the handler on what is left in the channel; a handler error is logged
  and the loop goes on.
\<close>

fun drain :: "'w handler \<Rightarrow> json list \<Rightarrow> 'w \<Rightarrow> 'w" where
  "drain handler [] w = w"
| "drain handler (payload # ps) w = drain handler ps (snd (handler payload w))"

section \<open>Subscribe as a state machine\<close>

definition new_subscriber :: "nat \<Rightarrow> subscriber" where
  "new_subscriber i = \<lparr>sub_id = i, sub_queue = [], sub_phase = Running, sub_cancelled = False,
                      sub_accepted = [], sub_handled = []\<rparr>"

definition on_sub :: "string \<Rightarrow> nat \<Rightarrow> (subscriber \<Rightarrow> subscriber) \<Rightarrow> ChannelBus \<Rightarrow> ChannelBus" where
  "on_sub t i f b =
     b\<lparr>cb_subs := (cb_subs b)(t := map (\<lambda>s. if sub_id s = i then f s else s) (cb_subs b t))\<rparr>"

text \<open>The receive: the head of the channel goes to the handler.\<close>

definition receive :: "subscriber \<Rightarrow> subscriber" where
  "receive s = (case sub_queue s of [] \<Rightarrow> s
                | p # ps \<Rightarrow> s\<lparr>sub_queue := ps, sub_handled := sub_handled s @ [p]\<rparr>)"

text \<open>The bus and the calls of Publish made so far, in the order they were made.\<close>

record bus_system =
  sy_bus :: ChannelBus
  sy_calls :: "publish_call list"

definition on_bus :: "(ChannelBus \<Rightarrow> ChannelBus) \<Rightarrow> bus_system \<Rightarrow> bus_system" where
  "on_bus f s = s\<lparr>sy_bus := f (sy_bus s)\<rparr>"

definition set_phase :: "nat \<Rightarrow> call_phase \<Rightarrow> bus_system \<Rightarrow> bus_system" where
  "set_phase k p s = s\<lparr>sy_calls := (sy_calls s)[k := (sy_calls s ! k)\<lparr>pc_phase := p\<rparr>]\<rparr>"

inductive bus_step :: "bus_system \<Rightarrow> bus_system \<Rightarrow> bool" where
  call: "bus_step s (s\<lparr>sy_calls := sy_calls s @ [Publish_check evt (sy_bus s)]\<rparr>)"
| snapshot:
    "\<lbrakk>k < length (sy_calls s); sy_calls s ! k = \<lparr>pc_evt = evt, pc_phase = Checked\<rparr>\<rbrakk>
       \<Longrightarrow> bus_step s (set_phase k (Sending (Publish_snapshot evt (sy_bus s))) s)"
| send:
    "\<lbrakk>k < length (sy_calls s); sy_calls s ! k = \<lparr>pc_evt = evt, pc_phase = Sending (i # is)\<rparr>\<rbrakk>
       \<Longrightarrow> bus_step s (set_phase k (Sending is) (on_bus (Publish_send evt i) s))"
| return:
    "\<lbrakk>k < length (sy_calls s); sy_calls s ! k = \<lparr>pc_evt = evt, pc_phase = Sending []\<rparr>\<rbrakk>
       \<Longrightarrow> bus_step s (set_phase k (Returned None) s)"
| close: "bus_step s (on_bus (\<lambda>b. snd (ChannelBus_Close b)) s)"
| subscribe:
    "bus_step s (on_bus (\<lambda>b. b\<lparr>cb_subs := (cb_subs b)(t := cb_subs b t @ [new_subscriber (cb_next b)]),
                               cb_next := cb_next b + 1\<rparr>) s)"
| cancel: "bus_step s (on_bus (on_sub t i (\<lambda>x. x\<lparr>sub_cancelled := True\<rparr>)) s)"
| receive:
    "\<lbrakk>x \<in> set (cb_subs (sy_bus s) t); sub_id x = i; sub_phase x \<noteq> Leaving; sub_queue x \<noteq> []\<rbrakk>
       \<Longrightarrow> bus_step s (on_bus (on_sub t i receive) s)"
| ctx_done:
    "\<lbrakk>x \<in> set (cb_subs (sy_bus s) t); sub_id x = i; sub_phase x = Running; sub_cancelled x\<rbrakk>
       \<Longrightarrow> bus_step s (on_bus (on_sub t i (\<lambda>x. x\<lparr>sub_phase := Draining\<rparr>)) s)"
| drained:
    "\<lbrakk>x \<in> set (cb_subs (sy_bus s) t); sub_id x = i; sub_phase x = Draining; sub_queue x = []\<rbrakk>
       \<Longrightarrow> bus_step s (on_bus (on_sub t i (\<lambda>x. x\<lparr>sub_phase := Leaving\<rparr>)) s)"
| leave:
    "\<lbrakk>cb_subs (sy_bus s) t = xs @ x # ys; sub_phase x = Leaving\<rbrakk>
       \<Longrightarrow> bus_step s (on_bus (\<lambda>b. b\<lparr>cb_subs := (cb_subs b)(t := xs @ ys), cb_left := x # cb_left b\<rparr>) s)"

inductive bus_reach :: "nat \<Rightarrow> bus_system \<Rightarrow> bool" for n where
  start: "bus_reach n \<lparr>sy_bus = NewChannelBus n, sy_calls = []\<rparr>"
| step: "bus_reach n s \<Longrightarrow> bus_step s s' \<Longrightarrow> bus_reach n s'"

lemma bus_system_fields [simp]:
  "sy_bus (on_bus f s) = f (sy_bus s)" "sy_calls (on_bus f s) = sy_calls s"
  "sy_bus (set_phase k p s) = sy_bus s"
  "sy_calls (set_phase k p s) = (sy_calls s)[k := (sy_calls s ! k)\<lparr>pc_phase := p\<rparr>]"
  by (simp_all add: on_bus_def set_phase_def)

lemma on_chan_fields [simp]:
  "cb_closed (on_chan i f b) = cb_closed b" "cb_bufSize (on_chan i f b) = cb_bufSize b"
  "cb_next (on_chan i f b) = cb_next b"
  "cb_subs (on_chan i f b) t = map (\<lambda>s. if sub_id s = i then f s else s) (cb_subs b t)"
  "cb_left (on_chan i f b) = map (\<lambda>s. if sub_id s = i then f s else s) (cb_left b)"
  by (simp_all add: on_chan_def)

text \<open>Publish in one go is the run of the steps of one call, with no other step between them.\<close>

lemma sends_run:
  assumes "k < length (sy_calls s)" "sy_calls s ! k = \<lparr>pc_evt = evt, pc_phase = Sending is\<rparr>"
  shows "bus_step\<^sup>*\<^sup>* s (set_phase k (Returned None) (on_bus (fold (Publish_send evt) is) s))"
  using assms
proof (induction "is" arbitrary: s)
  case Nil
  from bus_step.return [OF Nil] show ?case by (simp add: r_into_rtranclp on_bus_def)
next
  case (Cons i js)
  let ?s = "set_phase k (Sending js) (on_bus (Publish_send evt i) s)"
  have "k < length (sy_calls ?s)" "sy_calls ?s ! k = \<lparr>pc_evt = evt, pc_phase = Sending js\<rparr>"
    using Cons.prems by simp_all
  from Cons.IH [OF this] have "bus_step\<^sup>*\<^sup>* ?s (set_phase k (Returned None) (on_bus (fold (Publish_send evt) (i # js)) s))"
    using Cons.prems(1) by (simp add: set_phase_def on_bus_def)
  with bus_step.send [OF Cons.prems] show ?case by (rule converse_rtranclp_into_rtranclp)
qed

lemma publish_uninterrupted:
  assumes "ChannelBus_Publish evt (sy_bus s) = (r, b')"
  shows "bus_step\<^sup>*\<^sup>* s (s\<lparr>sy_bus := b', sy_calls := sy_calls s @ [\<lparr>pc_evt = evt, pc_phase = Returned r\<rparr>]\<rparr>)"
proof (cases "cb_closed (sy_bus s)")
  case True
  then have "r = Some (Plain ''event bus: publish on closed bus'')" "b' = sy_bus s"
    using assms by (auto simp: ChannelBus_Publish_def Publish_check_def)
  moreover obtain b cs where "s = \<lparr>sy_bus = b, sy_calls = cs\<rparr>" by (cases s)
  ultimately show ?thesis using bus_step.call [of s evt] True by (simp add: Publish_check_def r_into_rtranclp)
next
  case False
  let ?k = "length (sy_calls s)" and ?ids = "Publish_snapshot evt (sy_bus s)"
  let ?s1 = "s\<lparr>sy_calls := sy_calls s @ [Publish_check evt (sy_bus s)]\<rparr>"
  let ?s2 = "set_phase ?k (Sending ?ids) ?s1"
  have "sy_calls ?s1 ! ?k = \<lparr>pc_evt = evt, pc_phase = Checked\<rparr>" using False by (simp add: Publish_check_def)
  then have "bus_step ?s1 ?s2" using bus_step.snapshot [of ?k ?s1 evt] by simp
  moreover have "bus_step\<^sup>*\<^sup>* ?s2 (set_phase ?k (Returned None) (on_bus (fold (Publish_send evt) ?ids) ?s2))"
    by (rule sends_run) (simp_all add: Publish_check_def)
  moreover have "r = None" "b' = fold (Publish_send evt) ?ids (sy_bus s)"
    using assms False by (auto simp: ChannelBus_Publish_def Publish_check_def)
  ultimately show ?thesis using bus_step.call [of s evt]
    by (auto simp: Publish_check_def set_phase_def on_bus_def
        intro!: converse_rtranclp_into_rtranclp [of bus_step s ?s1] converse_rtranclp_into_rtranclp [of bus_step ?s1 ?s2])
qed

section \<open>Invariants\<close>

text \<open>
  A subscriber in order: its handler saw, in order, exactly the payloads its channel accepted
  and no longer holds; the channel is within its buffer.
\<close>

definition sub_inv :: "nat \<Rightarrow> subscriber \<Rightarrow> bool" where
  "sub_inv n s \<longleftrightarrow> sub_accepted s = sub_handled s @ sub_queue s \<and> length (sub_queue s) \<le> n"

definition bus_inv :: "nat \<Rightarrow> ChannelBus \<Rightarrow> bool" where
  "bus_inv n b \<longleftrightarrow> cb_bufSize b = n
     \<and> (\<forall>t. list_all (sub_inv n) (cb_subs b t)) \<and> list_all (sub_inv n) (cb_left b)"

lemma sub_inv_offer: "sub_inv n s \<Longrightarrow> sub_inv n (offer n p s)"
  by (auto simp: sub_inv_def offer_def)

lemma sub_inv_receive: "sub_inv n s \<Longrightarrow> sub_inv n (receive s)"
  by (auto simp: sub_inv_def receive_def split: list.splits)

lemma sub_inv_phase [simp]:
  "sub_inv n (s\<lparr>sub_phase := p\<rparr>) = sub_inv n s"
  "sub_inv n (s\<lparr>sub_cancelled := c\<rparr>) = sub_inv n s"
  "sub_inv n (new_subscriber i)"
  by (simp_all add: sub_inv_def new_subscriber_def)

lemma bus_inv_on_sub:
  assumes "bus_inv n b" and "\<And>s. sub_inv n s \<Longrightarrow> sub_inv n (f s)"
  shows "bus_inv n (on_sub t i f b)"
  using assms by (auto simp: bus_inv_def on_sub_def list_all_iff)

lemma bus_inv_send: "bus_inv n b \<Longrightarrow> bus_inv n (Publish_send evt i b)"
  by (auto simp: bus_inv_def Publish_send_def list_all_iff sub_inv_offer)

lemma bus_inv_step: "bus_step s s' \<Longrightarrow> bus_inv n (sy_bus s) \<Longrightarrow> bus_inv n (sy_bus s')"
proof (induction rule: bus_step.induct)
  case (close s)
  then show ?case by (auto simp: bus_inv_def ChannelBus_Close_def)
next
  case (subscribe s t)
  then show ?case by (auto simp: bus_inv_def list_all_iff)
next
  case (leave s t xs x ys)
  then have "list_all (sub_inv n) (xs @ x # ys)" by (metis bus_inv_def)
  with leave show ?case by (auto simp: bus_inv_def)
qed (auto intro!: bus_inv_on_sub bus_inv_send intro: sub_inv_receive)

lemma bus_inv_reach: "bus_reach n s \<Longrightarrow> bus_inv n (sy_bus s)"
proof (induction rule: bus_reach.induct)
  case start
  then show ?case by (simp add: bus_inv_def NewChannelBus_def)
next
  case (step s s')
  then show ?case by (blast intro: bus_inv_step)
qed

end
