(* ===== verification/World.thy ===== *)
theory World
  imports Redis Sql ChannelBus
begin

text \<open>
  The environment of the services: the request context, the clock and the random sources of
  the Go runtime, the publisher interface, and the locale platform that collects what
  the components assume of Redis, MySQL, the bus and the runtime together, with the frame
  conditions between them.  The last section gives an environment with exactly the documented
  behaviour (an in-memory keyspace and tables, the channel bus of the source, a clock, and a
  list of failures to inject) and interprets the locale on it.
\<close>

section \<open>Contexts, runtime, publishers\<close>

text \<open>What the code reads from a context: the hint of repository.WithForceMaster.\<close>

record ctx =
  ForceMaster :: bool

definition Background :: ctx where
  "Background = \<lparr>ForceMaster = False\<rparr>"

definition WithForceMaster :: "ctx \<Rightarrow> ctx" where
  "WithForceMaster c = c\<lparr>ForceMaster := True\<rparr>"

definition IsForceMaster :: "ctx \<Rightarrow> bool" where
  "IsForceMaster c = ForceMaster c"

text \<open>The clause repository.Apply adds to a query.\<close>

definition Apply :: "ctx \<Rightarrow> route" where
  "Apply c = (if IsForceMaster c then Write else Default)"

text \<open>
  The runtime: time.Now().UnixMilli(), uuid.NewString(),
  rand.Int(rand.Reader, n) and rand.Read of n bytes.
\<close>

record 'w runtime =
  rt_now :: "'w \<Rightarrow> int \<times> 'w"
  rt_uuid :: "'w \<Rightarrow> string \<times> 'w"
  rt_randInt :: "int \<Rightarrow> 'w \<Rightarrow> int result \<times> 'w"
  rt_randBytes :: "nat \<Rightarrow> 'w \<Rightarrow> nat list result \<times> 'w"

text \<open>event.EventPublisher.\<close>

type_synonym 'w publisher = "ctx \<Rightarrow> Event \<Rightarrow> 'w \<Rightarrow> error \<times> 'w"

section \<open>The platform\<close>

definition tables ::
  "dbstate \<Rightarrow> User list \<times> Post list \<times> PostStep list \<times> Like list \<times> Follow list \<times> AuditLog list" where
  "tables s = (t_users s, t_posts s, t_steps s, t_likes s, t_follows s, t_audit s)"

lemma tables_advance [simp]: "tables (advance d g s) = tables s"
  by (simp add: tables_def)

text \<open>Nothing but time happens to the keyspace, the tables, the bus.\<close>

definition idle_kv :: "rstate \<Rightarrow> rstate \<Rightarrow> bool" where
  "idle_kv s s' \<longleftrightarrow> (\<exists>d\<ge>0. s' = tick d s)"

lemma idle_kv_refl [simp]: "idle_kv s s"
  unfolding idle_kv_def by (rule exI [of _ 0]) simp

lemma idle_kv_trans: "idle_kv s s' \<Longrightarrow> idle_kv s' s'' \<Longrightarrow> idle_kv s s''"
  unfolding idle_kv_def by (metis add_nonneg_nonneg tick_tick)

context redis_server
begin

lemma redis_readonly:
  assumes "rdb c w = (r, w')" and "\<And>s. snd (exec c s) = s"
  shows "idle_kv (kv w) (kv w')"
proof -
  obtain d where "0 \<le> d" "kv w' = tick d (kv w) \<or> kv w' = snd (exec c (tick d (kv w)))"
    using redis_effect [OF assms(1)] by blast
  with assms(2) show ?thesis by (auto simp: idle_kv_def)
qed

end

locale platform = redis_server rdb kv + mysql_server db master replica
  for rdb :: "'w rdb" and kv and db :: "'w gorm" and master and replica +
  fixes pub :: "'w publisher" and sent :: "'w \<Rightarrow> Event list" and rt :: "'w runtime"
  assumes pub_call:
    "pub c e w = (r, w') \<Longrightarrow>
       sent w' = (if r = None then sent w @ [e] else sent w)
       \<and> idle_kv (kv w) (kv w') \<and> tables (master w') = tables (master w)"
  and rdb_frame: "rdb cmd w = (rr, w') \<Longrightarrow> sent w' = sent w \<and> tables (master w') = tables (master w)"
  and db_frame: "db q w = (rs, w') \<Longrightarrow> sent w' = sent w \<and> idle_kv (kv w) (kv w')"
  and now_frame: "rt_now rt w = (t, w') \<Longrightarrow>
       sent w' = sent w \<and> idle_kv (kv w) (kv w') \<and> tables (master w') = tables (master w)"
  and uuid_frame: "rt_uuid rt w = (i, w') \<Longrightarrow>
       sent w' = sent w \<and> idle_kv (kv w) (kv w') \<and> tables (master w') = tables (master w)"

context platform
begin

lemma rdb_calls_frame:
  "rdb_calls rdb w w' \<Longrightarrow> sent w' = sent w \<and> tables (master w') = tables (master w)"
  by (induction rule: rdb_calls.induct) (auto dest: rdb_frame)

end

section \<open>The documented environment\<close>

text \<open>
  w_faults lists, call by call, whether the next call to a server fails; when it is
  empty every call is answered.
\<close>

record world =
  w_kv :: rstate
  w_db :: dbstate
  w_replica :: dbstate
  w_bus :: ChannelBus
  w_sent :: "Event list"
  w_clock :: int
  w_serial :: nat
  w_faults :: "bool list"

definition fault :: "world \<Rightarrow> bool \<times> world" where
  "fault w = (case w_faults w of [] \<Rightarrow> (False, w) | f # fs \<Rightarrow> (f, w\<lparr>w_faults := fs\<rparr>))"

definition doc_rdb :: "world rdb" where
  "doc_rdb c w =
     (let (f, w1) = fault w
      in if f then (RError ''i/o timeout'', w1)
         else (let (r, s) = exec c (w_kv w1) in (r, w1\<lparr>w_kv := s\<rparr>)))"

definition doc_db :: "world gorm" where
  "doc_db q w =
     (let (f, w1) = fault w
      in if f then (SqlErr (Plain ''i/o timeout''), w1)
         else (case read_route q of
                 None \<Rightarrow> (let (r, s) = dml q (w_db w1) in (r, w1\<lparr>w_db := s\<rparr>))
               | Some Write \<Rightarrow> (run_read q (w_db w1), w1)
               | Some Default \<Rightarrow> (run_read q (w_replica w1), w1)))"

definition doc_pub :: "world publisher" where
  "doc_pub c e w =
     (case ChannelBus_Publish e (w_bus w) of
        (r, b) \<Rightarrow> (r, w\<lparr>w_bus := b, w_sent := (if r = None then w_sent w @ [e] else w_sent w)\<rparr>))"

definition doc_rt :: "world runtime" where
  "doc_rt =
     \<lparr>rt_now = (\<lambda>w. (w_clock w, w)),
      rt_uuid = (\<lambda>w. (''uuid-'' @ FormatInt (int (w_serial w)), w\<lparr>w_serial := w_serial w + 1\<rparr>)),
      rt_randInt = (\<lambda>n w. (Inr (int (w_serial w) mod n), w\<lparr>w_serial := w_serial w + 1\<rparr>)),
      rt_randBytes = (\<lambda>n w. (Inr (replicate n (w_serial w mod 256)), w\<lparr>w_serial := w_serial w + 1\<rparr>))\<rparr>"

lemma fault_simps [simp]:
  "w_kv (snd (fault w)) = w_kv w" "w_db (snd (fault w)) = w_db w"
  "w_replica (snd (fault w)) = w_replica w" "w_bus (snd (fault w)) = w_bus w"
  "w_sent (snd (fault w)) = w_sent w" "w_clock (snd (fault w)) = w_clock w"
  by (simp_all add: fault_def split: list.splits)

lemma doc_rdb_eq:
  "doc_rdb c w =
     (if fst (fault w) then (RError ''i/o timeout'', snd (fault w))
      else (fst (exec c (w_kv w)), (snd (fault w))\<lparr>w_kv := snd (exec c (w_kv w))\<rparr>))"
  by (simp add: doc_rdb_def split: prod.splits) (metis fault_simps(1) snd_conv fst_conv)

lemma doc_db_eq:
  "doc_db q w =
     (if fst (fault w) then (SqlErr (Plain ''i/o timeout''), snd (fault w))
      else (case read_route q of
              None \<Rightarrow> (fst (dml q (w_db w)), (snd (fault w))\<lparr>w_db := snd (dml q (w_db w))\<rparr>)
            | Some rt \<Rightarrow> (run_read q (if rt = Write then w_db w else w_replica w), snd (fault w))))"
proof (cases "fault w")
  case (Pair f w1)
  have "w_db w1 = w_db w" "w_replica w1 = w_replica w"
    using fault_simps [of w] Pair by simp_all
  with Pair show ?thesis
    by (simp add: doc_db_def split: prod.splits option.splits route.splits)
qed

interpretation doc: platform doc_rdb w_kv doc_db w_db w_replica doc_pub w_sent doc_rt
proof unfold_locales
  show "\<exists>d\<ge>0. exec c (tick d (w_kv w)) = (r, w_kv w') \<or>
            (\<exists>m. r = RError m) \<and>
            (w_kv w' = tick d (w_kv w) \<or> w_kv w' = snd (exec c (tick d (w_kv w))))"
    if "doc_rdb c w = (r, w')" for c w r w'
    using that by (intro exI [of _ 0]) (auto simp: doc_rdb_eq split: if_splits)
  show "\<exists>d\<ge>0. \<exists>g. (\<forall>t. 0 \<le> g t) \<and>
         (case read_route q of
            None \<Rightarrow>
              dml q (advance d g (w_db w)) = (r, w_db w')
              \<or> (\<exists>m. r = SqlErr (Plain m)) \<and>
                 (w_db w' = advance d g (w_db w)
                  \<or> w_db w' = snd (dml q (advance d g (w_db w))))
          | Some rt \<Rightarrow>
              w_db w' = advance d g (w_db w)
              \<and> ((\<exists>m. r = SqlErr (Plain m))
                 \<or> answers q (if rt = Write then w_db w else w_replica w) r))"
    if "doc_db q w = (r, w')" for q w r w'
    using that answers_run_read [of q]
    by (intro exI [of _ 0] exI [of _ "\<lambda>_. 0"])
      (auto simp: doc_db_eq split: if_splits option.splits)
qed (auto simp: doc_pub_def doc_rdb_eq doc_db_eq doc_rt_def ChannelBus_Publish_def tables_def
       split: if_splits option.splits prod.splits)

text \<open>An empty environment, and the one the examples start from.\<close>

definition empty_kv :: "int \<Rightarrow> rstate" where
  "empty_kv t = \<lparr>rs_now = t, rs_db = (\<lambda>_. None)\<rparr>"

definition empty_db :: "int \<Rightarrow> dbstate" where
  "empty_db t = \<lparr>db_now = t, db_next = (\<lambda>_. 1), t_users = [], t_posts = [], t_steps = [],
                t_likes = [], t_follows = [], t_audit = []\<rparr>"

definition fresh_world :: "int \<Rightarrow> world" where
  "fresh_world t =
     \<lparr>w_kv = empty_kv t, w_db = empty_db t, w_replica = empty_db t, w_bus = NewChannelBus 16,
      w_sent = [], w_clock = t, w_serial = 0, w_faults = []\<rparr>"

text \<open>Two users, a visible post of the first and a pending one of the second.\<close>

definition demo_user :: "int \<Rightarrow> string \<Rightarrow> User" where
  "demo_user i nick = zero_User\<lparr>u_ID := i, u_Nickname := nick, u_PhoneHash := FormatInt i,
                        u_CreatedAt := 500, u_UpdatedAt := 500\<rparr>"

definition demo_post :: "int \<Rightarrow> int \<Rightarrow> int \<Rightarrow> Post" where
  "demo_post i owner vis = zero_Post\<lparr>p_ID := i, p_UserID := owner, p_Title := ''soup'', p_SceneTag := 1,
                        p_IsVisible := vis, p_AuditStatus := vis, p_CreatedAt := 600 + i, p_UpdatedAt := 600 + i\<rparr>"

definition demo_db :: dbstate where
  "demo_db = (empty_db 1000)\<lparr>t_users := [demo_user 7 ''ann'', demo_user 42 ''bob''],
                 t_posts := [demo_post 1 7 1, demo_post 2 42 0],
                 db_next := (\<lambda>_. 100)\<rparr>"

definition demo_world :: world where
  "demo_world = (fresh_world 1000)\<lparr>w_db := demo_db, w_replica := demo_db\<rparr>"

end
