(* ===== verification/LikeCache.thy ===== *)
theory LikeCache
  imports World
begin

text \<open>
  internal/cache/like_cache.go: who likes a post (a Redis set), how many do (a Redis
  counter), the scripts that change both, and what they keep: the counter of a post is the
  number of its members as long as neither key expires.
\<close>

section \<open>The cache\<close>

record 'w LikeCache =
  lc_rdb :: "'w rdb"
  lc_stateTTL :: int

definition NewLikeCache :: "'w rdb \<Rightarrow> int \<Rightarrow> 'w LikeCache" where
  "NewLikeCache rdb stateTTL = \<lparr>lc_rdb = rdb, lc_stateTTL = stateTTL\<rparr>"

definition keyLikeSet :: "int \<Rightarrow> string" where
  "keyLikeSet postID = ''like:set:'' @ FormatInt postID"

definition keyLikeCount :: "int \<Rightarrow> string" where
  "keyLikeCount postID = ''like:cnt:'' @ FormatInt postID"

text \<open>The posts of the answer that the viewer likes, as the map from post to true.\<close>

fun collect_liked :: "int list \<Rightarrow> rreply list \<Rightarrow> (int \<rightharpoonup> bool) \<Rightarrow> (int \<rightharpoonup> bool) result" where
  "collect_liked (pid # pids) (r # rs) out =
     (case bool_cmd r of
        Inl e \<Rightarrow> if errors_is e redis_Nil then collect_liked pids rs out
                 else err (Wrap ''redis SISMEMBER like:set'' e)
      | Inr liked \<Rightarrow> collect_liked pids rs (if liked then out(pid \<mapsto> True) else out))"
| "collect_liked _ _ out = ok out"

definition BatchHasLiked ::
  "'w LikeCache \<Rightarrow> int \<Rightarrow> int list \<Rightarrow> 'w \<Rightarrow> (int \<rightharpoonup> bool) result \<times> 'w" where
  "BatchHasLiked c viewerID postIDs w =
     (if viewerID = 0 \<or> postIDs = [] then (ok Map.empty, w)
      else (case pipe_exec (lc_rdb c)
                   (map (\<lambda>pid. SISMEMBER (keyLikeSet pid) (FormatInt viewerID)) postIDs) w of
              (rs, w') \<Rightarrow>
                (case first_error rs of
                   Some e \<Rightarrow> (err (Wrap ''redis pipeline SISMEMBER like:set:'' e), w')
                 | None \<Rightarrow> (collect_liked postIDs rs Map.empty, w'))))"

definition HasLiked :: "'w LikeCache \<Rightarrow> int \<Rightarrow> int \<Rightarrow> 'w \<Rightarrow> bool result \<times> 'w" where
  "HasLiked c postID userID w =
     (case lc_rdb c (Cmd (SISMEMBER (keyLikeSet postID) (FormatInt userID))) w of
        (r, w') \<Rightarrow>
          (case bool_cmd r of
             Inl e \<Rightarrow> (err (Wrap ''redis SISMEMBER like:set'' e), w')
           | Inr b \<Rightarrow> (ok b, w')))"

text \<open>The script of AddLike; the TTL argument is in seconds.\<close>

definition addLikeScript :: "string \<Rightarrow> string \<Rightarrow> string \<Rightarrow> int \<Rightarrow> lua" where
  "addLikeScript key1 key2 arg1 ttl =
     LCall (SADD key1 arg1) (\<lambda>added.
     LCall (EXPIRE key1 (1000 * ttl)) (\<lambda>_.
     if added = RInt 0 then
       LCall (GET key2) (\<lambda>v.
         if lua_nil v then LReturn (RInt 0)
         else LReturn (case tonumber v of Some n \<Rightarrow> RInt n | None \<Rightarrow> RNil))
     else
       LCall (INCR key2) (\<lambda>n.
       LCall (EXPIRE key2 (1000 * ttl)) (\<lambda>_. LReturn n))))"

text \<open>What the callers make of the integer a script returns.\<close>

definition script_count :: "rreply \<Rightarrow> int" where
  "script_count r = (case r of RInt n \<Rightarrow> if n < 0 then 0 else uint32 n | _ \<Rightarrow> 0)"

definition AddLike :: "'w LikeCache \<Rightarrow> int \<Rightarrow> int \<Rightarrow> 'w \<Rightarrow> int result \<times> 'w" where
  "AddLike c postID userID w =
     (case lc_rdb c (EVAL (addLikeScript (keyLikeSet postID) (keyLikeCount postID)
                             (FormatInt userID) (seconds_of (lc_stateTTL c)))) w of
        (r, w') \<Rightarrow>
          (case status_cmd r of
             Some e \<Rightarrow> (err (Wrap ''redis EVAL AddLike'' e), w')
           | None \<Rightarrow> (ok (script_count r), w')))"

definition decrClampScript :: "string \<Rightarrow> int \<Rightarrow> lua" where
  "decrClampScript key1 ttl =
     LCall (GET key1) (\<lambda>v.
     if lua_nil v \<or> (case tonumber v of Some n \<Rightarrow> n \<le> 0 | None \<Rightarrow> False) then
       LCall (SET key1 (Text (FormatInt 0)) (1000 * ttl)) (\<lambda>_. LReturn (RInt 0))
     else
       LCall (DECR key1) (\<lambda>n.
       LCall (EXPIRE key1 (1000 * ttl)) (\<lambda>_. LReturn n)))"

definition RemoveLike :: "'w LikeCache \<Rightarrow> int \<Rightarrow> int \<Rightarrow> 'w \<Rightarrow> int result \<times> 'w" where
  "RemoveLike c postID userID w =
     (case pipe_exec (lc_rdb c)
             [SREM (keyLikeSet postID) (FormatInt userID),
              EXPIRE (keyLikeSet postID) (lc_stateTTL c)] w of
        (rs, w1) \<Rightarrow>
          (case first_error rs of
             Some e \<Rightarrow> (err (Wrap ''redis pipeline RemoveLike (SREM)'' e), w1)
           | None \<Rightarrow>
               (case lc_rdb c (EVAL (decrClampScript (keyLikeCount postID)
                                       (seconds_of (lc_stateTTL c)))) w1 of
                  (r, w2) \<Rightarrow>
                    (case status_cmd r of
                       Some e \<Rightarrow> (err (Wrap ''redis EVAL DECR-clamp'' e), w2)
                     | None \<Rightarrow> (ok (script_count r), w2)))))"

definition GetLikeCount :: "'w LikeCache \<Rightarrow> int \<Rightarrow> 'w \<Rightarrow> int result \<times> 'w" where
  "GetLikeCount c postID w =
     (case lc_rdb c (Cmd (GET (keyLikeCount postID))) w of
        (r, w') \<Rightarrow>
          (case get_int64 r of
             Inl e \<Rightarrow> if errors_is e redis_Nil then (ok 0, w')
                      else (err (Wrap ''redis GET like:cnt'' e), w')
           | Inr v \<Rightarrow> (ok (if v < 0 then 0 else uint32 v), w')))"

section \<open>The abstract state of a post\<close>

definition like_members :: "rstate \<Rightarrow> int \<Rightarrow> string fset" where
  "like_members s pid = (case rget s (keyLikeSet pid) of Some (VSet M) \<Rightarrow> M | _ \<Rightarrow> {||})"

definition like_count :: "rstate \<Rightarrow> int \<Rightarrow> int" where
  "like_count s pid =
     (case rget s (keyLikeCount pid) of
        Some (VStr b) \<Rightarrow> (case counter_value b of Some n \<Rightarrow> n | None \<Rightarrow> 0)
      | _ \<Rightarrow> 0)"

text \<open>The keys of a post hold what this cache writes there: a set, a counter that is not negative.\<close>

definition like_wf :: "rstate \<Rightarrow> int \<Rightarrow> bool" where
  "like_wf s pid \<longleftrightarrow>
     (case rget s (keyLikeSet pid) of None \<Rightarrow> True | Some (VSet M) \<Rightarrow> True | _ \<Rightarrow> False)
     \<and> (case rget s (keyLikeCount pid) of
          None \<Rightarrow> True
        | Some (VStr b) \<Rightarrow> (case counter_value b of Some n \<Rightarrow> 0 \<le> n | None \<Rightarrow> False)
        | _ \<Rightarrow> False)"

lemma like_keys [simp, key_simps]:
  "keyLikeSet p \<noteq> keyLikeCount q" "keyLikeCount q \<noteq> keyLikeSet p"
  "keyLikeSet p = keyLikeSet q \<longleftrightarrow> p = q" "keyLikeCount p = keyLikeCount q \<longleftrightarrow> p = q"
  by (simp_all add: keyLikeSet_def keyLikeCount_def)

text \<open>The two scripts as functions of the abstract state.\<close>

lemma in_int64_intro: "- 1 \<le> n \<Longrightarrow> n \<le> int64_max \<Longrightarrow> in_int64 n"
  by (simp add: in_int64_def int64_max_def int64_min_def)

lemma formatSec_seconds [simp]: "0 \<le> t \<Longrightarrow> formatSec (1000 * t) = t"
  by (auto simp: formatSec_def)

lemma like_wf_cases:
  assumes "like_wf s pid"
  obtains
    (both) M b n where "rget s (keyLikeSet pid) = Some (VSet M)" "rget s (keyLikeCount pid) = Some (VStr b)"
      "counter_value b = Some n" "0 \<le> n"
  | (set) M where "rget s (keyLikeSet pid) = Some (VSet M)" "rget s (keyLikeCount pid) = None"
  | (count) b n where "rget s (keyLikeSet pid) = None" "rget s (keyLikeCount pid) = Some (VStr b)"
      "counter_value b = Some n" "0 \<le> n"
  | (none) "rget s (keyLikeSet pid) = None" "rget s (keyLikeCount pid) = None"
  using assms by (auto simp: like_wf_def split: option.splits rval.splits)

lemma counter_tonumber: "counter_value b = Some n \<Longrightarrow> tonumber (RBulk b) = Some n"
  by (auto simp: counter_value_def split: bulk.splits option.splits if_splits)

definition like_frame :: "int \<Rightarrow> rstate \<Rightarrow> rstate \<Rightarrow> bool" where
  "like_frame pid s s' \<longleftrightarrow>
     (\<forall>k. k \<noteq> keyLikeSet pid \<and> k \<noteq> keyLikeCount pid \<longrightarrow> rget s' k = rget s k)"

lemmas like_eval = addLikeScript_def decrClampScript_def Let_def lua_nil_def counter_tonumber
  add_counter_def like_wf_def like_members_def like_count_def like_frame_def in_int64_intro

lemma addLikeScript_run:
  assumes "like_wf s pid" "0 < ttl" "like_count s pid < 4294967295"
    "exec (EVAL (addLikeScript (keyLikeSet pid) (keyLikeCount pid) u ttl)) s = (r, s')"
  shows "r = RInt (like_count s' pid)" "like_wf s' pid" "like_frame pid s s'"
    "like_members s' pid = finsert u (like_members s pid)"
    "like_count s' pid = like_count s pid + (if u |\<in>| like_members s pid then 0 else 1)"
proof -
  have b: "n + 1 \<le> int64_max" if "n < 4294967295" for n
    using that by (simp add: int64_max_def)
  have "r = RInt (like_count s' pid) \<and> like_wf s' pid \<and> like_frame pid s s' \<and>
    like_members s' pid = finsert u (like_members s pid) \<and>
    like_count s' pid = like_count s pid + (if u |\<in>| like_members s pid then 0 else 1)"
    using assms(1)
  proof (cases rule: like_wf_cases)
    case (both M bb n)
    with assms(2-4) b show ?thesis by (auto simp: like_eval split: if_splits)
  next
    case (set M)
    with assms(2-4) b show ?thesis by (auto simp: like_eval int64_max_def split: if_splits)
  next
    case (count bb n)
    with assms(2-4) b show ?thesis by (auto simp: like_eval split: if_splits)
  next
    case none
    with assms(2-4) b show ?thesis by (auto simp: like_eval int64_max_def split: if_splits)
  qed
  then show "r = RInt (like_count s' pid)" "like_wf s' pid" "like_frame pid s s'"
    "like_members s' pid = finsert u (like_members s pid)"
    "like_count s' pid = like_count s pid + (if u |\<in>| like_members s pid then 0 else 1)"
    by blast+
qed

lemma decrClampScript_run:
  assumes "like_wf s pid" "0 < ttl"
    "exec (EVAL (decrClampScript (keyLikeCount pid) ttl)) s = (r, s')"
  shows "r = RInt (like_count s' pid)" "like_wf s' pid" "like_frame pid s s'"
    "like_members s' pid = like_members s pid"
    "like_count s' pid = max 0 (like_count s pid - 1)"
proof -
  have b: "n + -1 \<le> int64_max" if "counter_value bb = Some n" for n bb
    using that by (auto simp: counter_value_def ParseInt_def Let_def in_int64_def
        split: bulk.splits option.splits if_splits)
  have "r = RInt (like_count s' pid) \<and> like_wf s' pid \<and> like_frame pid s s' \<and>
    like_members s' pid = like_members s pid \<and> like_count s' pid = max 0 (like_count s pid - 1)"
    using assms(1)
  proof (cases rule: like_wf_cases)
    case (both M bb n)
    with assms(2-3) b [of bb n] show ?thesis by (auto simp: like_eval int64_max_def split: if_splits)
  next
    case (set M)
    with assms(2-3) show ?thesis by (auto simp: like_eval int64_max_def split: if_splits)
  next
    case (count bb n)
    with assms(2-3) b [of bb n] show ?thesis by (auto simp: like_eval int64_max_def split: if_splits)
  next
    case none
    with assms(2-3) show ?thesis by (auto simp: like_eval int64_max_def split: if_splits)
  qed
  then show "r = RInt (like_count s' pid)" "like_wf s' pid" "like_frame pid s s'"
    "like_members s' pid = like_members s pid"
    "like_count s' pid = max 0 (like_count s pid - 1)"
    by blast+
qed

section \<open>Time\<close>

lemma rget_tick_cases:
  assumes "0 \<le> d" shows "rget (tick d s) k = rget s k \<or> rget (tick d s) k = None"
  using assms rget_tick by (metis not_None_eq)

lemma like_wf_tick: "0 \<le> d \<Longrightarrow> like_wf s pid \<Longrightarrow> like_wf (tick d s) pid"
  using rget_tick_cases [of d s "keyLikeSet pid"] rget_tick_cases [of d s "keyLikeCount pid"]
  by (auto simp: like_wf_def)

lemma like_members_tick: "0 \<le> d \<Longrightarrow> like_members (tick d s) pid |\<subseteq>| like_members s pid"
  using rget_tick_cases [of d s "keyLikeSet pid"] by (auto simp: like_members_def)

lemma like_members_idle: "idle_kv s s' \<Longrightarrow> like_members s' pid |\<subseteq>| like_members s pid"
  using like_members_tick by (auto simp only: idle_kv_def)

lemma like_count_nonneg: "like_wf s pid \<Longrightarrow> 0 \<le> like_count s pid"
  by (auto simp: like_wf_def like_count_def split: option.splits rval.splits)

lemma like_count_tick: "0 \<le> d \<Longrightarrow> like_wf s pid \<Longrightarrow> like_count (tick d s) pid \<le> like_count s pid"
  using rget_tick_cases [of d s "keyLikeCount pid"] like_count_nonneg [of s pid]
  by (auto simp: like_count_def)

section \<open>The pipeline of RemoveLike\<close>

lemma SREM_run:
  assumes "like_wf s pid" "kv_step (SREM (keyLikeSet pid) u) s = (r, s')"
  shows "\<exists>n. r = RInt n" "like_wf s' pid" "like_members s' pid = like_members s pid |-| {|u|}"
    "like_count s' pid = like_count s pid" "like_frame pid s s'"
  using assms(1)
  by (cases rule: like_wf_cases;
      use assms(2) in \<open>auto simp: like_wf_def like_members_def like_count_def like_frame_def
                          split: if_splits\<close>)+

lemma EXPIRE_run:
  assumes "like_wf s pid" "0 < ttl" "kv_step (EXPIRE (keyLikeSet pid) ttl) s = (r, s')"
  shows "\<exists>n. r = RInt n" "like_wf s' pid" "like_members s' pid = like_members s pid"
    "like_count s' pid = like_count s pid" "like_frame pid s s'"
proof -
  have "0 < formatSec ttl \<or> ttl < 1000" using assms(2) by (auto simp: formatSec_def)
  then have f: "0 < formatSec ttl" using assms(2) by (auto simp: formatSec_def)
  show "\<exists>n. r = RInt n" "like_wf s' pid" "like_members s' pid = like_members s pid"
    "like_count s' pid = like_count s pid" "like_frame pid s s'"
    using assms(1)
    by (cases rule: like_wf_cases;
        use assms(3) f in \<open>auto simp: like_wf_def like_members_def like_count_def like_frame_def\<close>)+
qed

section \<open>The operations against a server\<close>

context redis_server
begin

lemma HasLiked_ok:
  assumes "HasLiked (NewLikeCache rdb ttl) pid uid w = (Inr b, w')" "like_wf (kv w) pid"
  obtains d where "0 \<le> d" "kv w' = tick d (kv w)" "b = (FormatInt uid |\<in>| like_members (kv w') pid)"
proof -
  obtain r where r: "rdb (Cmd (SISMEMBER (keyLikeSet pid) (FormatInt uid))) w = (r, w')"
    and b: "bool_cmd r = Inr b"
    using assms(1) by (auto simp: HasLiked_def NewLikeCache_def split: prod.splits sum.splits)
  then obtain n where n: "r = RInt n" "b = (n = 1)" by (auto simp: cmd_ok)
  obtain d where d: "0 \<le> d" "exec (Cmd (SISMEMBER (keyLikeSet pid) (FormatInt uid))) (tick d (kv w)) = (r, kv w')"
    by (rule redis_answered [OF r]) (use n in auto)
  from like_wf_tick [OF d(1) assms(2)]
  have "kv w' = tick d (kv w)" "b = (FormatInt uid |\<in>| like_members (tick d (kv w)) pid)"
    using d(2) n by (auto simp: like_wf_def like_members_def split: option.splits rval.splits if_splits)
  with d(1) that show thesis by metis
qed

lemma HasLiked_effect:
  assumes "HasLiked (NewLikeCache rdb ttl) pid uid w = (res, w')"
  shows "\<exists>r. rdb (Cmd (SISMEMBER (keyLikeSet pid) (FormatInt uid))) w = (r, w')" "idle_kv (kv w) (kv w')"
proof -
  show ex: "\<exists>r. rdb (Cmd (SISMEMBER (keyLikeSet pid) (FormatInt uid))) w = (r, w')"
    using assms by (auto simp: HasLiked_def NewLikeCache_def split: prod.splits sum.splits)
  then show "idle_kv (kv w) (kv w')"
    by (rule exE) (erule redis_readonly, auto split: option.splits rval.splits)
qed

lemma GetLikeCount_ok:
  assumes "GetLikeCount (NewLikeCache rdb ttl) pid w = (Inr n, w')" "like_wf (kv w) pid"
  obtains d where "0 \<le> d" "kv w' = tick d (kv w)" "n = uint32 (like_count (kv w') pid)"
proof -
  obtain r where r: "rdb (Cmd (GET (keyLikeCount pid))) w = (r, w')"
    and v: "n = (case get_int64 r of Inl e \<Rightarrow> 0 | Inr v \<Rightarrow> if v < 0 then 0 else uint32 v)"
           "\<forall>e. get_int64 r = Inl e \<longrightarrow> errors_is e redis_Nil"
    using assms(1) by (auto simp: GetLikeCount_def NewLikeCache_def split: prod.splits sum.splits if_splits)
  have "r \<noteq> RError m" for m using v(2) by (auto simp: redis_Nil_def)
  then obtain d where d: "0 \<le> d" "exec (Cmd (GET (keyLikeCount pid))) (tick d (kv w)) = (r, kv w')"
    using redis_answered [OF r] by blast
  from like_wf_tick [OF d(1) assms(2)]
  have "kv w' = tick d (kv w)" "n = uint32 (like_count (tick d (kv w)) pid)"
    using d(2) v(1) by (auto simp: like_wf_def like_count_def int64_of_counter uint32_def
        split: option.splits rval.splits)
  with d(1) that show thesis by metis
qed

lemma GetLikeCount_effect:
  assumes "GetLikeCount (NewLikeCache rdb ttl) pid w = (res, w')"
  shows "idle_kv (kv w) (kv w')"
proof -
  have "\<exists>r. rdb (Cmd (GET (keyLikeCount pid))) w = (r, w')"
    using assms by (auto simp: GetLikeCount_def NewLikeCache_def split: prod.splits sum.splits if_splits)
  then show ?thesis
    by (rule exE) (erule redis_readonly, auto split: option.splits rval.splits)
qed

lemma AddLike_ok:
  assumes "AddLike (NewLikeCache rdb ttl) pid uid w = (Inr n, w')" "like_wf (kv w) pid"
    "1000 \<le> ttl" "like_count (kv w) pid < 4294967295"
  obtains d where "0 \<le> d" "like_wf (kv w') pid" "n = like_count (kv w') pid"
    "like_frame pid (tick d (kv w)) (kv w')"
    "like_members (kv w') pid = finsert (FormatInt uid) (like_members (tick d (kv w)) pid)"
    "like_count (kv w') pid = like_count (tick d (kv w)) pid
       + (if FormatInt uid |\<in>| like_members (tick d (kv w)) pid then 0 else 1)"
proof -
  define scr where "scr = addLikeScript (keyLikeSet pid) (keyLikeCount pid) (FormatInt uid) (seconds_of ttl)"
  obtain r where r: "rdb (EVAL scr) w = (r, w')" and n: "status_cmd r = None" "n = script_count r"
    using assms(1) by (auto simp: AddLike_def NewLikeCache_def scr_def split: prod.splits option.splits)
  obtain d where d: "0 \<le> d" "exec (EVAL scr) (tick d (kv w)) = (r, kv w')"
    by (rule redis_answered [OF r]) (use n in auto)
  have "0 < seconds_of ttl" using assms(3) by (simp add: seconds_of_def)
  moreover have c: "like_count (tick d (kv w)) pid < 4294967295"
    using like_count_tick [OF d(1) assms(2)] assms(4) by simp
  moreover note wf = like_wf_tick [OF d(1) assms(2)]
  ultimately have *: "r = RInt (like_count (kv w') pid)" "like_wf (kv w') pid"
    "like_frame pid (tick d (kv w)) (kv w')"
    "like_members (kv w') pid = finsert (FormatInt uid) (like_members (tick d (kv w)) pid)"
    "like_count (kv w') pid = like_count (tick d (kv w)) pid
       + (if FormatInt uid |\<in>| like_members (tick d (kv w)) pid then 0 else 1)"
    using addLikeScript_run [OF _ _ _ d(2) [unfolded scr_def]] by blast+
  have "n = like_count (kv w') pid"
    using n(2) * c like_count_nonneg [OF *(2)] by (simp add: script_count_def split: if_splits)
  with that d(1) * show thesis by blast
qed

lemma RemoveLike_ok:
  assumes "RemoveLike (NewLikeCache rdb ttl) pid uid w = (Inr n, w')" "like_wf (kv w) pid"
    "1000 \<le> ttl"
  shows "like_wf (kv w') pid" "n = uint32 (like_count (kv w') pid)"
    "like_members (kv w') pid |\<subseteq>| like_members (kv w) pid |-| {|FormatInt uid|}"
    "like_count (kv w') pid \<le> max 0 (like_count (kv w) pid - 1)"
proof -
  let ?k = "keyLikeSet pid" and ?u = "FormatInt uid"
  obtain r1 w1 where 1: "rdb (Cmd (SREM ?k ?u)) w = (r1, w1)" by fastforce
  obtain r2 w2 where 2: "rdb (Cmd (EXPIRE ?k ttl)) w1 = (r2, w2)" by fastforce
  have fe: "first_error [r1, r2] = None"
    and n0: "\<exists>r. rdb (EVAL (decrClampScript (keyLikeCount pid) (seconds_of ttl))) w2 = (r, w')
               \<and> status_cmd r = None \<and> n = script_count r"
    using assms(1) 1 2 by (auto simp: RemoveLike_def NewLikeCache_def split: prod.splits option.splits)
  obtain r3 where 3: "rdb (EVAL (decrClampScript (keyLikeCount pid) (seconds_of ttl))) w2 = (r3, w')"
    and n: "status_cmd r3 = None" "n = script_count r3"
    using n0 by blast
  obtain d1 where d1: "0 \<le> d1" "exec (Cmd (SREM ?k ?u)) (tick d1 (kv w)) = (r1, kv w1)"
    by (rule redis_answered [OF 1]) (use fe in auto)
  have s1: "like_wf (kv w1) pid"
      "like_members (kv w1) pid = like_members (tick d1 (kv w)) pid |-| {|?u|}"
      "like_count (kv w1) pid = like_count (tick d1 (kv w)) pid"
    using SREM_run [OF like_wf_tick [OF d1(1) assms(2)]] d1(2) by (metis exec.simps(1))+
  obtain d2 where d2: "0 \<le> d2" "exec (Cmd (EXPIRE ?k ttl)) (tick d2 (kv w1)) = (r2, kv w2)"
    by (rule redis_answered [OF 2]) (use fe in \<open>cases r1; auto\<close>)
  have "0 < ttl" using assms(3) by simp
  then have s2: "like_wf (kv w2) pid"
      "like_members (kv w2) pid = like_members (tick d2 (kv w1)) pid"
      "like_count (kv w2) pid = like_count (tick d2 (kv w1)) pid"
    using EXPIRE_run [OF like_wf_tick [OF d2(1) s1(1)]] d2(2) by (metis exec.simps(1))+
  obtain d3 where d3: "0 \<le> d3"
      "exec (EVAL (decrClampScript (keyLikeCount pid) (seconds_of ttl))) (tick d3 (kv w2)) = (r3, kv w')"
    by (rule redis_answered [OF 3]) (use n in auto)
  have "0 < seconds_of ttl" using assms(3) by (simp add: seconds_of_def)
  note s3 = decrClampScript_run [OF like_wf_tick [OF d3(1) s2(1)] this d3(2)]
  show "like_wf (kv w') pid" by (rule s3(2))
  show "n = uint32 (like_count (kv w') pid)"
    using n(2) s3(1) like_count_nonneg [OF s3(2)] by (simp add: script_count_def)
  show "like_members (kv w') pid |\<subseteq>| like_members (kv w) pid |-| {|?u|}"
    using s3(4) s2(2) s1(2) like_members_tick [OF d1(1), of "kv w" pid]
      like_members_tick [OF d2(1), of "kv w1" pid] like_members_tick [OF d3(1), of "kv w2" pid]
    by auto
  show "like_count (kv w') pid \<le> max 0 (like_count (kv w) pid - 1)"
    using s3(5) s2(3) s1(3) like_count_tick [OF d1(1) assms(2)]
      like_count_tick [OF d2(1) s1(1)] like_count_tick [OF d3(1) s2(1)] by auto
qed

end

section \<open>Frames\<close>

text \<open>Every operation of the cache talks to Redis only; the reads leave it alone up to time.\<close>

lemma like_cache_calls:
  "HasLiked c pid uid w = (r1, w') \<Longrightarrow> rdb_calls (lc_rdb c) w w'"
  "AddLike c pid uid w = (r2, w') \<Longrightarrow> rdb_calls (lc_rdb c) w w'"
  "RemoveLike c pid uid w = (r3, w') \<Longrightarrow> rdb_calls (lc_rdb c) w w'"
  "GetLikeCount c pid w = (r4, w') \<Longrightarrow> rdb_calls (lc_rdb c) w w'"
  "BatchHasLiked c uid pids w = (r5, w') \<Longrightarrow> rdb_calls (lc_rdb c) w w'"
  by (auto simp: HasLiked_def AddLike_def GetLikeCount_def split: prod.splits sum.splits option.splits if_splits)
    (auto simp: RemoveLike_def BatchHasLiked_def simp del: pipe_exec.simps dest!: pipe_exec_calls intro: rdb_calls_trans
       split: prod.splits sum.splits option.splits if_splits)

section \<open>Properties\<close>

text \<open>The counter agrees with the set.\<close>

definition like_sync :: "rstate \<Rightarrow> int \<Rightarrow> bool" where
  "like_sync s pid \<longleftrightarrow> like_count s pid = int (fcard (like_members s pid))"

lemma like_sync_finsert:
  assumes "like_sync s pid" "like_members s' pid = finsert u (like_members s pid)"
    "like_count s' pid = like_count s pid + (if u |\<in>| like_members s pid then 0 else 1)"
  shows "like_sync s' pid"
  using assms by (auto simp: like_sync_def fcard_finsert_disjoint finsert_absorb)

definition add_like_cmd :: "int \<Rightarrow> int \<Rightarrow> int \<Rightarrow> rcmd" where
  "add_like_cmd pid ttl uid =
     EVAL (addLikeScript (keyLikeSet pid) (keyLikeCount pid) (FormatInt uid) ttl)"

text \<open>
  C14: However many clients race with likes of one post, double taps included, the scripts leave
  the set extended by exactly the users that liked, and a counter that is the number of its
  members: a duplicate like never counts twice.
\<close>

theorem add_like_sequence:
  assumes "like_wf s pid" "like_sync s pid" "0 < ttl"
    and "like_count s pid + int (length uids) < 4294967295"
    and "run_cmds (map (add_like_cmd pid ttl) uids) s = (rs, s')"
  shows "like_members s' pid = like_members s pid |\<union>| fset_of_list (map FormatInt uids)
       \<and> like_count s' pid = int (fcard (like_members s' pid)) \<and> like_wf s' pid"
  using assms
proof (induction uids arbitrary: s rs)
  case Nil
  then show ?case by (simp add: like_sync_def)
next
  case (Cons u us)
  obtain r s1 where 1: "exec (add_like_cmd pid ttl u) s = (r, s1)" by fastforce
  obtain rs2 where 2: "run_cmds (map (add_like_cmd pid ttl) us) s1 = (rs2, s')"
    using Cons.prems(5) 1 by (auto split: prod.splits)
  have c: "like_count s pid < 4294967295" using Cons.prems(4) by simp
  note run = addLikeScript_run [OF Cons.prems(1,3) c 1 [unfolded add_like_cmd_def]]
  have "like_sync s1 pid" by (rule like_sync_finsert [OF Cons.prems(2) run(4,5)])
  moreover have "like_count s1 pid + int (length us) < 4294967295"
    using run(5) Cons.prems(4) by simp
  ultimately show ?case
    using Cons.IH [OF run(2) _ Cons.prems(3) _ 2] run(4) by auto
qed

text \<open>A keyspace where users 5 and 6 like post 1.\<close>

definition demo_likes_kv :: rstate where
  "demo_likes_kv =
     snd (run_cmds (map (add_like_cmd 1 604800) [5, 6]) \<lparr>rs_now = 0, rs_db = (\<lambda>_. None)\<rparr>)"

lemma demo_likes_kv_facts:
  "like_wf demo_likes_kv 1" "like_count demo_likes_kv 1 = 2"
  "like_sync demo_likes_kv 1" "like_members demo_likes_kv 1 = {|''5'', ''6''|}"
  by code_simp+

theorem add_like_sequence_witness:
  "\<exists>rs s'. run_cmds (map (add_like_cmd 1 604800) [7, 5, 7]) demo_likes_kv = (rs, s')
     \<and> like_members s' 1 = {|''5'', ''6''|} |\<union>| fset_of_list (map FormatInt [7, 5, 7])
     \<and> like_count s' 1 = int (fcard (like_members s' 1))"
proof -
  obtain rs s' where r: "run_cmds (map (add_like_cmd 1 604800) [7, 5, 7]) demo_likes_kv = (rs, s')"
    by fastforce
  have b: "like_count demo_likes_kv 1 + int (length [7, 5, 7::int]) < 4294967295"
    by (simp add: demo_likes_kv_facts)
  from add_like_sequence [OF demo_likes_kv_facts(1,3) _ b r] r show ?thesis
    unfolding demo_likes_kv_facts(4) by (metis zero_less_numeral)
qed

definition remove_like_cmds :: "int \<Rightarrow> int \<Rightarrow> int \<Rightarrow> rcmd list" where
  "remove_like_cmds pid ttl uid =
     [Cmd (SREM (keyLikeSet pid) (FormatInt uid)), Cmd (EXPIRE (keyLikeSet pid) (1000 * ttl)),
      EVAL (decrClampScript (keyLikeCount pid) ttl)]"

text \<open>
  RemoveLike is not idempotent: its script decrements whether or not the SREM before it
  removed the user.  When two unlikes of the same user both pass the membership probe (a double
  tap), the second decrements again, and from then on the counter of the post is one less than
  the number of users that like it.
\<close>

theorem remove_like_race:
  assumes "like_wf s pid" "like_sync s pid" "0 < ttl"
    and "FormatInt uid |\<in>| like_members s pid" "2 \<le> like_count s pid"
    and "run_cmds (remove_like_cmds pid ttl uid @ remove_like_cmds pid ttl uid) s = (rs, s')"
  shows "like_members s' pid = like_members s pid |-| {|FormatInt uid|}
       \<and> like_count s' pid = int (fcard (like_members s' pid)) - 1"
proof -
  have one: "like_wf t' pid \<and> like_members t' pid = like_members t pid |-| {|FormatInt uid|}
      \<and> like_count t' pid = max 0 (like_count t pid - 1)"
    if wf: "like_wf t pid" and run: "run_cmds (remove_like_cmds pid ttl uid) t = (rs, t')" for t t' rs
  proof -
    obtain r1 t1 where 1: "kv_step (SREM (keyLikeSet pid) (FormatInt uid)) t = (r1, t1)" by fastforce
    obtain r2 t2 where 2: "kv_step (EXPIRE (keyLikeSet pid) (1000 * ttl)) t1 = (r2, t2)" by fastforce
    obtain r3 where 3: "exec (EVAL (decrClampScript (keyLikeCount pid) ttl)) t2 = (r3, t')"
      using run 1 2 by (auto simp: remove_like_cmds_def simp del: kv_step.simps split: prod.splits)
    note s1 = SREM_run [OF wf 1]
    have "0 < 1000 * ttl" using assms(3) by simp
    note s2 = EXPIRE_run [OF s1(2) this 2]
    note s3 = decrClampScript_run [OF s2(2) assms(3) 3]
    show ?thesis using s1 s2 s3 by simp
  qed
  obtain rs1 s1 where 1: "run_cmds (remove_like_cmds pid ttl uid) s = (rs1, s1)" by fastforce
  obtain rs2 where 2: "run_cmds (remove_like_cmds pid ttl uid) s1 = (rs2, s')"
    using assms(6) 1 by (auto simp: run_cmds_append split: prod.splits)
  have m: "like_members s' pid = like_members s pid |-| {|FormatInt uid|}"
    using one [OF assms(1) 1] one [OF _ 2] by auto
  have "fcard (like_members s pid) = Suc (fcard (like_members s pid |-| {|FormatInt uid|}))"
    using assms(4) by (metis fcard_Suc_fminus1)
  then show ?thesis
    using m one [OF assms(1) 1] one [OF _ 2] assms(2,5) by (auto simp: like_sync_def)
qed

theorem remove_like_race_witness:
  "\<exists>rs s'. run_cmds (remove_like_cmds 1 604800 5 @ remove_like_cmds 1 604800 5) demo_likes_kv = (rs, s')
     \<and> like_members s' 1 = {|''6''|} \<and> like_count s' 1 = 0"
proof -
  obtain rs s' where r: "run_cmds (remove_like_cmds 1 604800 5 @ remove_like_cmds 1 604800 5)
      demo_likes_kv = (rs, s')"
    by fastforce
  have f: "FormatInt 5 = ''5''" by code_simp
  have m: "FormatInt 5 |\<in>| like_members demo_likes_kv 1"
    by (simp add: f demo_likes_kv_facts)
  have "like_members s' 1 = {|''6''|} \<and> like_count s' 1 = int (fcard (like_members s' 1)) - 1"
    using remove_like_race [OF demo_likes_kv_facts(1,3) _ m _ r]
    unfolding demo_likes_kv_facts(2,4) f by auto
  moreover have "fcard {|''6''|} = 1" by code_simp
  ultimately show ?thesis using r by simp
qed

end
