(* ===== verification/PostRepository.thy ===== *)
theory PostRepository
  imports World
begin

text \<open>
  internal/repository/post_repository.go: the interface the services and consumers
  depend on, as a record of operations, and its GORM implementation, each operation with the
  statement it sends.  GORM adds deleted_at IS NULL to the queries and updates of a
  model with a soft-delete column, and sets updated_at on every Update and
  Updates of a model that has it.
\<close>

definition repo_ErrPostNotFound :: goerr where
  "repo_ErrPostNotFound = Sentinel ''post not found''"

text \<open>The replies the driver never gives for a statement.\<close>

abbreviation bad_reply :: goerr where
  "bad_reply \<equiv> Plain ''unexpected reply''"

section \<open>The interface\<close>

record 'w PostRepository =
  pr_Create :: "ctx \<Rightarrow> Post \<Rightarrow> 'w \<Rightarrow> Post result \<times> 'w"
  pr_CreateWithSteps :: "ctx \<Rightarrow> Post \<Rightarrow> PostStep list \<Rightarrow> 'w \<Rightarrow> (Post \<times> PostStep list) result \<times> 'w"
  pr_FindByID :: "ctx \<Rightarrow> int \<Rightarrow> 'w \<Rightarrow> Post result \<times> 'w"
  pr_LoadSteps :: "ctx \<Rightarrow> int \<Rightarrow> 'w \<Rightarrow> PostStep list result \<times> 'w"
  pr_ListFeed :: "ctx \<Rightarrow> int \<Rightarrow> int \<Rightarrow> int \<Rightarrow> 'w \<Rightarrow> Post list result \<times> 'w"
  pr_ListByUser :: "ctx \<Rightarrow> int \<Rightarrow> bool \<Rightarrow> int \<Rightarrow> int \<Rightarrow> 'w \<Rightarrow> Post list result \<times> 'w"
  pr_UpdateAuditStatus :: "ctx \<Rightarrow> int \<Rightarrow> int \<Rightarrow> int \<Rightarrow> string \<Rightarrow> 'w \<Rightarrow> error \<times> 'w"
  pr_SoftDeleteByOwner :: "ctx \<Rightarrow> int \<Rightarrow> int \<Rightarrow> 'w \<Rightarrow> int result \<times> 'w"

section \<open>The GORM implementation\<close>

text \<open>The soft-delete clause of GORM.\<close>

definition post_live :: "Post \<Rightarrow> bool" where
  "post_live p \<longleftrightarrow> p_DeletedAt p = None"

definition by_id_query :: "('r \<Rightarrow> bool) \<Rightarrow> ('r \<Rightarrow> int) \<Rightarrow> 'r query" where
  "by_id_query p key = \<lparr>q_where = p, q_order = [\<lambda>r. - key r], q_offset = 0, q_limit = Some 1\<rparr>"

definition posts_Create :: "'w gorm \<Rightarrow> ctx \<Rightarrow> Post \<Rightarrow> 'w \<Rightarrow> Post result \<times> 'w" where
  "posts_Create db c p w =
     (case db (InsertPost p []) w of
        (InsertedPost p' _, w') \<Rightarrow> (ok p', w')
      | (SqlErr e, w') \<Rightarrow> (err e, w')
      | (_, w') \<Rightarrow> (err bad_reply, w'))"

text \<open>
  The transaction of CreateWithSteps inserts the post and then its steps, each with
  the identifier of the post; both happen or neither does.
\<close>

definition posts_CreateWithSteps ::
  "'w gorm \<Rightarrow> ctx \<Rightarrow> Post \<Rightarrow> PostStep list \<Rightarrow> 'w \<Rightarrow> (Post \<times> PostStep list) result \<times> 'w" where
  "posts_CreateWithSteps db c p steps w =
     (case db (InsertPost p steps) w of
        (InsertedPost p' steps', w') \<Rightarrow> (ok (p', steps'), w')
      | (SqlErr e, w') \<Rightarrow> (err e, w')
      | (_, w') \<Rightarrow> (err bad_reply, w'))"

definition posts_FindByID :: "'w gorm \<Rightarrow> ctx \<Rightarrow> int \<Rightarrow> 'w \<Rightarrow> Post result \<times> 'w" where
  "posts_FindByID db c pid w =
     (case db (SelectPosts (Apply c) (by_id_query (\<lambda>p. p_ID p = pid \<and> post_live p) p_ID)) w of
        (Posts (p # _), w') \<Rightarrow> (ok p, w')
      | (Posts [], w') \<Rightarrow> (err repo_ErrPostNotFound, w')
      | (SqlErr e, w') \<Rightarrow>
          (err (if errors_is e gorm_ErrRecordNotFound then repo_ErrPostNotFound else e), w')
      | (_, w') \<Rightarrow> (err bad_reply, w'))"

definition posts_LoadSteps :: "'w gorm \<Rightarrow> ctx \<Rightarrow> int \<Rightarrow> 'w \<Rightarrow> PostStep list result \<times> 'w" where
  "posts_LoadSteps db c pid w =
     (case db (SelectSteps (Apply c)
                 \<lparr>q_where = (\<lambda>s. ps_PostID s = pid), q_order = [\<lambda>s. - ps_StepNo s],
                  q_offset = 0, q_limit = None\<rparr>) w of
        (Steps xs, w') \<Rightarrow> (ok xs, w')
      | (SqlErr e, w') \<Rightarrow> (err e, w')
      | (_, w') \<Rightarrow> (err bad_reply, w'))"

definition feed_query :: "int \<Rightarrow> int \<Rightarrow> int \<Rightarrow> Post query" where
  "feed_query scene cursorTime sz =
     \<lparr>q_where = (\<lambda>p. post_live p \<and> p_IsVisible p = PostVisible
                   \<and> (scene \<noteq> 0 \<longrightarrow> p_SceneTag p = scene)
                   \<and> (\<not> IsZero cursorTime \<longrightarrow> p_CreatedAt p < cursorTime)),
      q_order = [p_CreatedAt], q_offset = 0, q_limit = Some sz\<rparr>"

text \<open>ListFeed does not go through Apply: the feed is read from a replica.\<close>

definition posts_ListFeed :: "'w gorm \<Rightarrow> ctx \<Rightarrow> int \<Rightarrow> int \<Rightarrow> int \<Rightarrow> 'w \<Rightarrow> Post list result \<times> 'w" where
  "posts_ListFeed db c scene cursorTime sz w =
     (case db (SelectPosts Default (feed_query scene cursorTime sz)) w of
        (Posts xs, w') \<Rightarrow> (ok xs, w')
      | (SqlErr e, w') \<Rightarrow> (err e, w')
      | (_, w') \<Rightarrow> (err bad_reply, w'))"

definition user_posts_query :: "int \<Rightarrow> bool \<Rightarrow> int \<Rightarrow> int \<Rightarrow> Post query" where
  "user_posts_query uid includeInvisible cursorTime sz =
     \<lparr>q_where = (\<lambda>p. post_live p \<and> p_UserID p = uid
                   \<and> (\<not> includeInvisible \<longrightarrow> p_IsVisible p = PostVisible)
                   \<and> (\<not> IsZero cursorTime \<longrightarrow> p_CreatedAt p < cursorTime)),
      q_order = [p_CreatedAt], q_offset = 0, q_limit = Some sz\<rparr>"

definition posts_ListByUser ::
  "'w gorm \<Rightarrow> ctx \<Rightarrow> int \<Rightarrow> bool \<Rightarrow> int \<Rightarrow> int \<Rightarrow> 'w \<Rightarrow> Post list result \<times> 'w" where
  "posts_ListByUser db c uid includeInvisible cursorTime sz w =
     (case db (SelectPosts (Apply c) (user_posts_query uid includeInvisible cursorTime sz)) w of
        (Posts xs, w') \<Rightarrow> (ok xs, w')
      | (SqlErr e, w') \<Rightarrow> (err e, w')
      | (_, w') \<Rightarrow> (err bad_reply, w'))"

definition set_audit :: "int \<Rightarrow> int \<Rightarrow> string \<Rightarrow> int \<Rightarrow> Post \<Rightarrow> Post" where
  "set_audit auditStatus isVisible remark t0 p =
     p\<lparr>p_AuditStatus := auditStatus, p_IsVisible := isVisible, p_AuditRemark := remark,
       p_UpdatedAt := t0\<rparr>"

definition posts_UpdateAuditStatus ::
  "'w gorm \<Rightarrow> ctx \<Rightarrow> int \<Rightarrow> int \<Rightarrow> int \<Rightarrow> string \<Rightarrow> 'w \<Rightarrow> error \<times> 'w" where
  "posts_UpdateAuditStatus db c pid auditStatus isVisible remark w =
     (case db (UpdatePosts (\<lambda>p. p_ID p = pid \<and> post_live p) (set_audit auditStatus isVisible remark)) w of
        (Affected _, w') \<Rightarrow> (None, w')
      | (SqlErr e, w') \<Rightarrow> (Some e, w')
      | (_, w') \<Rightarrow> (Some bad_reply, w'))"

text \<open>The application's clock gives the value of deleted_at.\<close>

definition set_deleted :: "int \<Rightarrow> int \<Rightarrow> Post \<Rightarrow> Post" where
  "set_deleted now t0 p = p\<lparr>p_DeletedAt := Some now, p_UpdatedAt := t0\<rparr>"

definition posts_SoftDeleteByOwner ::
  "'w runtime \<Rightarrow> 'w gorm \<Rightarrow> ctx \<Rightarrow> int \<Rightarrow> int \<Rightarrow> 'w \<Rightarrow> int result \<times> 'w" where
  "posts_SoftDeleteByOwner rt db c pid ownerID w =
     (case rt_now rt w of (now, w1) \<Rightarrow>
      (case db (UpdatePosts (\<lambda>p. p_ID p = pid \<and> p_UserID p = ownerID \<and> post_live p) (set_deleted now)) w1 of
         (Affected n, w') \<Rightarrow> (ok n, w')
       | (SqlErr e, w') \<Rightarrow> (err e, w')
       | (_, w') \<Rightarrow> (err bad_reply, w')))"

definition NewPostRepository :: "'w runtime \<Rightarrow> 'w gorm \<Rightarrow> 'w PostRepository" where
  "NewPostRepository rt db =
     \<lparr>pr_Create = posts_Create db, pr_CreateWithSteps = posts_CreateWithSteps db,
      pr_FindByID = posts_FindByID db, pr_LoadSteps = posts_LoadSteps db,
      pr_ListFeed = posts_ListFeed db, pr_ListByUser = posts_ListByUser db,
      pr_UpdateAuditStatus = posts_UpdateAuditStatus db,
      pr_SoftDeleteByOwner = posts_SoftDeleteByOwner rt db\<rparr>"

section \<open>The contract of the interface\<close>

text \<open>What a call leaves alone: the events sent, the keyspace up to time.\<close>

definition db_only :: "('w \<Rightarrow> Event list) \<Rightarrow> ('w \<Rightarrow> rstate) \<Rightarrow> 'w \<Rightarrow> 'w \<Rightarrow> bool" where
  "db_only sent kv w w' \<longleftrightarrow> sent w' = sent w \<and> idle_kv (kv w) (kv w')"

definition readonly ::
  "('w \<Rightarrow> Event list) \<Rightarrow> ('w \<Rightarrow> rstate) \<Rightarrow> ('w \<Rightarrow> dbstate) \<Rightarrow> 'w \<Rightarrow> 'w \<Rightarrow> bool" where
  "readonly sent kv master w w' \<longleftrightarrow> db_only sent kv w w' \<and> tables (master w') = tables (master w)"

lemma db_only_refl [simp]: "db_only sent kv w w"
  by (simp add: db_only_def)

lemma db_only_trans: "db_only sent kv w w' \<Longrightarrow> db_only sent kv w' w'' \<Longrightarrow> db_only sent kv w w''"
  by (auto simp: db_only_def intro: idle_kv_trans)

lemma readonly_refl [simp]: "readonly sent kv master w w"
  by (simp add: readonly_def)

lemma readonly_trans:
  "readonly sent kv master w w' \<Longrightarrow> readonly sent kv master w' w'' \<Longrightarrow> readonly sent kv master w w''"
  by (auto simp: readonly_def intro: db_only_trans)

locale post_repository = platform +
  fixes posts :: "'a PostRepository"
  assumes find_law:
    "pr_FindByID posts c pid w = (res, w') \<Longrightarrow>
       readonly sent kv master w w'
       \<and> (case res of
            Inr p \<Rightarrow> p_ID p = pid \<and> post_live p
                      \<and> p \<in> set (t_posts (if ForceMaster c then master w else replica w))
          | Inl e \<Rightarrow> errors_is e repo_ErrPostNotFound \<longrightarrow>
              \<not> (\<exists>p \<in> set (t_posts (if ForceMaster c then master w else replica w)).
                   p_ID p = pid \<and> post_live p))"
  and create_law:
    "pr_CreateWithSteps posts c p sts w = (cres, w') \<Longrightarrow>
       db_only sent kv w w'
       \<and> (\<forall>p' sts'. cres = Inr (p', sts') \<longrightarrow>
            (\<exists>pid ct ut. p' = p\<lparr>p_ID := pid, p_CreatedAt := ct, p_UpdatedAt := ut\<rparr>
               \<and> t_posts (master w') = t_posts (master w) @ [p'])
            \<and> t_steps (master w') = t_steps (master w) @ sts'
            \<and> map ps_Text sts' = map ps_Text sts \<and> (\<forall>x\<in>set sts'. ps_PostID x = p_ID p'))"
  and feed_law:
    "pr_ListFeed posts c scene ct n w = (fres, w') \<Longrightarrow>
       readonly sent kv master w w'
       \<and> (\<forall>xs. fres = Inr xs \<longrightarrow> query_ok (feed_query scene ct n) (t_posts (replica w)) xs)"
  and user_posts_law:
    "pr_ListByUser posts c uid invis ct n w = (lres, w') \<Longrightarrow>
       readonly sent kv master w w'
       \<and> (\<forall>xs. lres = Inr xs \<longrightarrow>
            query_ok (user_posts_query uid invis ct n)
              (t_posts (if ForceMaster c then master w else replica w)) xs)"
  and audit_law:
    "pr_UpdateAuditStatus posts c pid st vis remark w = (ares, w') \<Longrightarrow>
       db_only sent kv w w'
       \<and> (\<exists>t0. t_posts (master w') =
                update_rows (\<lambda>p. p_ID p = pid \<and> post_live p) (set_audit st vis remark t0) (t_posts (master w))
            \<or> ares \<noteq> None \<and> t_posts (master w') = t_posts (master w))"
  and delete_law:
    "pr_SoftDeleteByOwner posts c pid owner w = (dres, w') \<Longrightarrow>
       db_only sent kv w w'
       \<and> (\<exists>now t0. t_posts (master w') =
                update_rows (\<lambda>p. p_ID p = pid \<and> p_UserID p = owner \<and> post_live p)
                  (set_deleted now t0) (t_posts (master w))
              \<and> (\<forall>n. dres = Inr n \<longrightarrow>
                    n = int (length (filter (\<lambda>p. p_ID p = pid \<and> p_UserID p = owner \<and> post_live p)
                                       (t_posts (master w)))))
            \<or> (\<exists>e. dres = Inl e) \<and> t_posts (master w') = t_posts (master w))"

section \<open>The implementation keeps the contract\<close>

lemma changed_set_deleted:
  "changed_rows (\<lambda>p. Q p \<and> post_live p) (set_deleted now t0) rows
     = int (length (filter (\<lambda>p. Q p \<and> post_live p) rows))"
proof -
  have "set_deleted now t0 p \<noteq> p" if "post_live p" for p
    using that by (cases p) (auto simp: set_deleted_def post_live_def)
  then have "filter (\<lambda>p. (Q p \<and> post_live p) \<and> set_deleted now t0 p \<noteq> p) rows
           = filter (\<lambda>p. Q p \<and> post_live p) rows"
    by (intro filter_cong) auto
  then show ?thesis by (simp add: changed_rows_def)
qed

lemma number_steps_facts:
  "map ps_Text (number_steps pid nxt t0 xs) = map ps_Text xs"
  "x \<in> set (number_steps pid nxt t0 xs) \<Longrightarrow> ps_PostID x = pid"
  by (induction pid nxt t0 xs rule: number_steps.induct) auto

lemma dml_InsertPost:
  assumes "dml (InsertPost p sts) s = (InsertedPost p' sts', s')"
  shows "\<exists>pid ct ut. p' = p\<lparr>p_ID := pid, p_CreatedAt := ct, p_UpdatedAt := ut\<rparr>"
    "t_posts s' = t_posts s @ [p']" "t_steps s' = t_steps s @ sts'"
    "map ps_Text sts' = map ps_Text sts" "\<forall>x\<in>set sts'. ps_PostID x = p_ID p'"
  using assms by (auto simp: Let_def bump_def number_steps_facts)

context platform
begin

lemma sql_readonly:
  assumes "db q w = (r, w')" and "read_route q = Some rt'"
  shows "readonly sent kv master w w'"
  using sql_read [OF assms] db_frame [OF assms(1)] 
  by (metis db_only_def readonly_def tables_advance)

lemma sql_db_only: "db q w = (r, w') \<Longrightarrow> db_only sent kv w w'"
  using db_frame by (auto simp: db_only_def)

lemma posts_find:
  assumes "posts_FindByID db c pid w = (res, w')"
  shows "readonly sent kv master w w'
       \<and> (case res of
            Inr p \<Rightarrow> p_ID p = pid \<and> post_live p
                      \<and> p \<in> set (t_posts (if ForceMaster c then master w else replica w))
          | Inl e \<Rightarrow> errors_is e repo_ErrPostNotFound \<longrightarrow>
              \<not> (\<exists>p \<in> set (t_posts (if ForceMaster c then master w else replica w)).
                   p_ID p = pid \<and> post_live p))"
proof -
  define q where "q = by_id_query (\<lambda>p. p_ID p = pid \<and> post_live p) p_ID"
  define src where "src = t_posts (if ForceMaster c then master w else replica w)"
  obtain r where r: "db (SelectPosts (Apply c) q) w = (r, w')"
    using assms by (auto simp: posts_FindByID_def q_def split: prod.splits sqlreply.splits list.splits)
  have ro: "readonly sent kv master w w'"
    by (rule sql_readonly [OF r]) simp
  have ans: "(\<exists>m. r = SqlErr (Plain m)) \<or> (\<exists>xs. r = Posts xs \<and> query_ok q src xs)"
    by (rule sql_read [OF r, of "Apply c"])
      (auto simp: Apply_def IsForceMaster_def src_def split: if_splits)
  show ?thesis
  proof (cases "\<exists>m. r = SqlErr (Plain m)")
    case True
    then show ?thesis
      using assms r ro by (auto simp: posts_FindByID_def q_def repo_ErrPostNotFound_def gorm_ErrRecordNotFound_def)
  next
    case False
    then obtain xs where xs: "r = Posts xs" "query_ok q src xs" using ans by blast
    show ?thesis
    proof (cases xs)
      case Nil
      then have "filter (q_where q) src = []"
        using xs(2) query_ok_empty by (force simp: q_def by_id_query_def)
      then have "\<not> (\<exists>p \<in> set src. p_ID p = pid \<and> post_live p)"
        by (auto simp: q_def by_id_query_def filter_empty_conv)
      then show ?thesis
        using assms r ro xs Nil by (auto simp: posts_FindByID_def q_def src_def)
    next
      case (Cons p ps)
      then have "p \<in> set src" "p_ID p = pid \<and> post_live p"
        using query_ok_subset [OF xs(2), of p] by (auto simp: q_def by_id_query_def)
      then show ?thesis
        using assms r ro xs Cons by (auto simp: posts_FindByID_def q_def src_def)
    qed
  qed
qed

lemma posts_create:
  assumes "posts_CreateWithSteps db c p sts w = (res, w')"
  shows "db_only sent kv w w'
       \<and> (\<forall>p' sts'. res = Inr (p', sts') \<longrightarrow>
            (\<exists>pid ct ut. p' = p\<lparr>p_ID := pid, p_CreatedAt := ct, p_UpdatedAt := ut\<rparr>
               \<and> t_posts (master w') = t_posts (master w) @ [p'])
            \<and> t_steps (master w') = t_steps (master w) @ sts'
            \<and> map ps_Text sts' = map ps_Text sts \<and> (\<forall>x\<in>set sts'. ps_PostID x = p_ID p'))"
proof -
  obtain r where r: "db (InsertPost p sts) w = (r, w')"
    using assms by (auto simp: posts_CreateWithSteps_def split: prod.splits sqlreply.splits)
  have "(\<exists>pid ct ut. p' = p\<lparr>p_ID := pid, p_CreatedAt := ct, p_UpdatedAt := ut\<rparr>
               \<and> t_posts (master w') = t_posts (master w) @ [p'])
            \<and> t_steps (master w') = t_steps (master w) @ sts'
            \<and> map ps_Text sts' = map ps_Text sts \<and> (\<forall>x\<in>set sts'. ps_PostID x = p_ID p')"
    if "res = Inr (p', sts')" for p' sts'
  proof -
    have r': "r = InsertedPost p' sts'"
      using assms r that by (auto simp: posts_CreateWithSteps_def split: sqlreply.splits)
    obtain d g where "dml (InsertPost p sts) (advance d g (master w)) = (r, master w')"
      by (rule sql_write [OF r]) (use r' in auto)
    from dml_InsertPost [OF this [unfolded r']] show ?thesis by auto
  qed
  with sql_db_only [OF r] show ?thesis by blast
qed

lemma posts_feed:
  assumes "posts_ListFeed db c scene ct n w = (res, w')"
  shows "readonly sent kv master w w'
       \<and> (\<forall>xs. res = Inr xs \<longrightarrow> query_ok (feed_query scene ct n) (t_posts (replica w)) xs)"
proof -
  obtain r where r: "db (SelectPosts Default (feed_query scene ct n)) w = (r, w')"
    using assms by (auto simp: posts_ListFeed_def split: prod.splits sqlreply.splits)
  have "(\<exists>m. r = SqlErr (Plain m)) \<or> answers (SelectPosts Default (feed_query scene ct n)) (replica w) r"
    by (rule sql_read [OF r, of Default]) auto
  with assms r sql_readonly [OF r] show ?thesis
    by (auto simp: posts_ListFeed_def)
qed

lemma posts_by_user:
  assumes "posts_ListByUser db c uid invis ct n w = (res, w')"
  shows "readonly sent kv master w w'
       \<and> (\<forall>xs. res = Inr xs \<longrightarrow>
            query_ok (user_posts_query uid invis ct n)
              (t_posts (if ForceMaster c then master w else replica w)) xs)"
proof -
  define q where "q = SelectPosts (Apply c) (user_posts_query uid invis ct n)"
  obtain r where r: "db q w = (r, w')"
    using assms by (auto simp: posts_ListByUser_def q_def split: prod.splits sqlreply.splits)
  have "(\<exists>m. r = SqlErr (Plain m)) \<or> answers q (if ForceMaster c then master w else replica w) r"
    by (rule sql_read [OF r, of "Apply c"]) (auto simp: q_def Apply_def IsForceMaster_def split: if_splits)
  with assms r sql_readonly [OF r] show ?thesis
    by (auto simp: posts_ListByUser_def q_def)
qed

lemma posts_audit:
  assumes "posts_UpdateAuditStatus db c pid st vis remark w = (res, w')"
  shows "db_only sent kv w w'
       \<and> (\<exists>t0. t_posts (master w') =
                update_rows (\<lambda>p. p_ID p = pid \<and> post_live p) (set_audit st vis remark t0) (t_posts (master w))
            \<or> res \<noteq> None \<and> t_posts (master w') = t_posts (master w))"
proof -
  define q where "q = UpdatePosts (\<lambda>p. p_ID p = pid \<and> post_live p) (set_audit st vis remark)"
  obtain r where r: "db q w = (r, w')"
    using assms by (auto simp: posts_UpdateAuditStatus_def q_def split: prod.splits sqlreply.splits)
  have err: "res \<noteq> None" if "r = SqlErr e" for e
    using assms r that by (auto simp: posts_UpdateAuditStatus_def q_def)
  show ?thesis
    using sql_db_only [OF r] sql_update_posts [OF r [unfolded q_def]] err by blast
qed

lemma posts_delete:
  assumes "posts_SoftDeleteByOwner rt db c pid owner w = (res, w')"
  shows "db_only sent kv w w'
       \<and> (\<exists>now t0. t_posts (master w') =
                update_rows (\<lambda>p. p_ID p = pid \<and> p_UserID p = owner \<and> post_live p)
                  (set_deleted now t0) (t_posts (master w))
              \<and> (\<forall>n. res = Inr n \<longrightarrow>
                    n = int (length (filter (\<lambda>p. p_ID p = pid \<and> p_UserID p = owner \<and> post_live p)
                                       (t_posts (master w)))))
            \<or> (\<exists>e. res = Inl e) \<and> t_posts (master w') = t_posts (master w))"
proof -
  obtain now w1 where n: "rt_now rt w = (now, w1)" by fastforce
  define q where "q = UpdatePosts (\<lambda>p. p_ID p = pid \<and> p_UserID p = owner \<and> post_live p) (set_deleted now)"
  obtain r where r: "db q w1 = (r, w')"
    using assms n by (auto simp: posts_SoftDeleteByOwner_def q_def split: prod.splits sqlreply.splits)
  have err: "\<exists>e. res = Inl e" if "r = SqlErr e" for e
    using assms n r that by (auto simp: posts_SoftDeleteByOwner_def q_def)
  have aff: "res = Inr k" if "r = Affected k" for k
    using assms n r that by (auto simp: posts_SoftDeleteByOwner_def q_def)
  have same: "t_posts (master w1) = t_posts (master w)"
    using now_frame [OF n] by (simp add: tables_def)
  have frame: "db_only sent kv w w'"
    using sql_db_only [OF r] now_frame [OF n] db_only_trans by (fastforce simp: db_only_def)
  have ch: "changed_rows (\<lambda>p. p_ID p = pid \<and> p_UserID p = owner \<and> post_live p) (set_deleted now t0) rows
      = int (length (filter (\<lambda>p. p_ID p = pid \<and> p_UserID p = owner \<and> post_live p) rows))" for t0 rows
    using changed_set_deleted [of "\<lambda>p. p_ID p = pid \<and> p_UserID p = owner"] by simp
  let ?Q = "\<lambda>p. p_ID p = pid \<and> p_UserID p = owner \<and> post_live p"
  obtain t0 where "t_posts (master w') = update_rows ?Q (set_deleted now t0) (t_posts (master w))
        \<and> (r = Affected (int (length (filter ?Q (t_posts (master w))))) \<or> (\<exists>e. r = SqlErr e))
      \<or> (\<exists>e. r = SqlErr e) \<and> t_posts (master w') = t_posts (master w)"
    using sql_update_posts [OF r [unfolded q_def]] unfolding ch same by blast
  then show ?thesis
    using frame err aff by (elim disjE conjE exE) auto
qed

lemma steps_load: "posts_LoadSteps db c pid w = (res, w') \<Longrightarrow> readonly sent kv master w w'"
  using sql_readonly [of "SelectSteps (Apply c) \<lparr>q_where = (\<lambda>s. ps_PostID s = pid), q_order = [\<lambda>s. - ps_StepNo s],
                  q_offset = 0, q_limit = None\<rparr>" w]
  by (auto simp: posts_LoadSteps_def split: prod.splits sqlreply.splits)

end

text \<open>So the implementation over GORM is a provider of the contract, in every environment.\<close>

sublocale platform \<subseteq> gorm_posts: post_repository rdb kv db master replica pub sent rt
  "NewPostRepository rt db"
  by (unfold_locales; unfold NewPostRepository_def PostRepository.simps)
    (rule posts_find posts_create posts_feed posts_by_user posts_audit posts_delete, assumption)+

context platform
begin

lemma gorm_post_repository:
  "post_repository rdb kv db master replica pub sent rt (NewPostRepository rt db)"
  by (rule gorm_posts.post_repository_axioms)

end

end
