(* ===== verification/LikeService.thy ===== *)
theory LikeService
  imports LikeCache PostRepository
begin

text \<open>
  internal/service/like_service.go: the like and unlike flow over the post
  repository, the like cache and the event publisher.  Publishing is best effort: its error
  is logged and dropped.
\<close>

record 'w LikeService =
  ls_postRepo :: "'w PostRepository"
  ls_likeCache :: "'w LikeCache"
  ls_bus :: "'w publisher"

definition NewLikeService ::
  "'w PostRepository \<Rightarrow> 'w LikeCache \<Rightarrow> 'w publisher \<Rightarrow> 'w LikeService" where
  "NewLikeService postRepo likeCache bus =
     \<lparr>ls_postRepo = postRepo, ls_likeCache = likeCache, ls_bus = bus\<rparr>"

definition like_event :: "string \<Rightarrow> int \<Rightarrow> int \<Rightarrow> int \<Rightarrow> int \<Rightarrow> Event" where
  "like_event i now userID postID authorID =
     \<lparr>ev_ID = i, ev_Topic = TopicLike, ev_Timestamp = now,
      ev_Payload = json_of_LikeEvent
        \<lparr>le_EventID = i, le_UserID = userID, le_PostID = postID, le_AuthorID = authorID,
         le_Timestamp = now\<rparr>\<rparr>"

definition unlike_event :: "string \<Rightarrow> int \<Rightarrow> int \<Rightarrow> int \<Rightarrow> int \<Rightarrow> Event" where
  "unlike_event i now userID postID authorID =
     \<lparr>ev_ID = i, ev_Topic = TopicUnlike, ev_Timestamp = now,
      ev_Payload = json_of_UnlikeEvent
        \<lparr>ue_EventID = i, ue_UserID = userID, ue_PostID = postID, ue_AuthorID = authorID,
         ue_Timestamp = now\<rparr>\<rparr>"

definition publishLikeEvent ::
  "'w runtime \<Rightarrow> 'w LikeService \<Rightarrow> ctx \<Rightarrow> int \<Rightarrow> int \<Rightarrow> int \<Rightarrow> 'w \<Rightarrow> 'w" where
  "publishLikeEvent rt s c userID postID authorID w =
     (let (now, w) = rt_now rt w;
          (i, w) = rt_uuid rt w
      in snd (ls_bus s c (like_event i now userID postID authorID) w))"

definition publishUnlikeEvent ::
  "'w runtime \<Rightarrow> 'w LikeService \<Rightarrow> ctx \<Rightarrow> int \<Rightarrow> int \<Rightarrow> int \<Rightarrow> 'w \<Rightarrow> 'w" where
  "publishUnlikeEvent rt s c userID postID authorID w =
     (let (now, w) = rt_now rt w;
          (i, w) = rt_uuid rt w
      in snd (ls_bus s c (unlike_event i now userID postID authorID) w))"

definition map_post_error :: "string \<Rightarrow> goerr \<Rightarrow> goerr" where
  "map_post_error msg e =
     (if errors_is e repo_ErrPostNotFound then App ErrPostNotFound else Wrap msg e)"

definition LikeService_Like ::
  "'w runtime \<Rightarrow> 'w LikeService \<Rightarrow> ctx \<Rightarrow> int \<Rightarrow> int \<Rightarrow> 'w \<Rightarrow> LikeResp result \<times> 'w" where
  "LikeService_Like rt s c userID postID w =
     (case pr_FindByID (ls_postRepo s) c postID w of
        (Inl e, w) \<Rightarrow> (err (map_post_error ''find post for like'' e), w)
      | (Inr post, w) \<Rightarrow>
     (case HasLiked (ls_likeCache s) postID userID w of
        (Inl e, w) \<Rightarrow> (err (Wrap ''check liked'' e), w)
      | (Inr True, w) \<Rightarrow>
          (case GetLikeCount (ls_likeCache s) postID w of
             (Inl e, w) \<Rightarrow> (err (Wrap ''get like count (idempotent path)'' e), w)
           | (Inr cnt, w) \<Rightarrow> (ok \<lparr>lr_Liked = True, lr_Count = cnt\<rparr>, w))
      | (Inr False, w) \<Rightarrow>
          (case AddLike (ls_likeCache s) postID userID w of
             (Inl e, w) \<Rightarrow> (err (Wrap ''add like'' e), w)
           | (Inr cnt, w) \<Rightarrow>
               (let w = publishLikeEvent rt s c userID postID (p_UserID post) w
                in (ok \<lparr>lr_Liked = True, lr_Count = cnt\<rparr>, w)))))"

definition LikeService_Unlike ::
  "'w runtime \<Rightarrow> 'w LikeService \<Rightarrow> ctx \<Rightarrow> int \<Rightarrow> int \<Rightarrow> 'w \<Rightarrow> LikeResp result \<times> 'w" where
  "LikeService_Unlike rt s c userID postID w =
     (case pr_FindByID (ls_postRepo s) c postID w of
        (Inl e, w) \<Rightarrow> (err (map_post_error ''find post for unlike'' e), w)
      | (Inr post, w) \<Rightarrow>
     (case HasLiked (ls_likeCache s) postID userID w of
        (Inl e, w) \<Rightarrow> (err (Wrap ''check liked'' e), w)
      | (Inr False, w) \<Rightarrow>
          (case GetLikeCount (ls_likeCache s) postID w of
             (Inl e, w) \<Rightarrow> (err (Wrap ''get like count (idempotent path)'' e), w)
           | (Inr cnt, w) \<Rightarrow> (ok \<lparr>lr_Liked = False, lr_Count = cnt\<rparr>, w))
      | (Inr True, w) \<Rightarrow>
          (case RemoveLike (ls_likeCache s) postID userID w of
             (Inl e, w) \<Rightarrow> (err (Wrap ''remove like'' e), w)
           | (Inr cnt, w) \<Rightarrow>
               (let w = publishUnlikeEvent rt s c userID postID (p_UserID post) w
                in (ok \<lparr>lr_Liked = False, lr_Count = cnt\<rparr>, w)))))"

definition GetLikeStatus ::
  "'w LikeService \<Rightarrow> ctx \<Rightarrow> int \<Rightarrow> int \<Rightarrow> 'w \<Rightarrow> LikeResp result \<times> 'w" where
  "GetLikeStatus s c userID postID w =
     (case pr_FindByID (ls_postRepo s) c postID w of
        (Inl e, w) \<Rightarrow> (err (map_post_error ''find post for get-like-status'' e), w)
      | (Inr _, w) \<Rightarrow>
     (case HasLiked (ls_likeCache s) postID userID w of
        (Inl e, w) \<Rightarrow> (err (Wrap ''check liked'' e), w)
      | (Inr liked, w) \<Rightarrow>
     (case GetLikeCount (ls_likeCache s) postID w of
        (Inl e, w) \<Rightarrow> (err (Wrap ''get like count'' e), w)
      | (Inr cnt, w) \<Rightarrow> (ok \<lparr>lr_Liked = liked, lr_Count = cnt\<rparr>, w))))"

section \<open>The service over any post repository\<close>

context post_repository
begin

abbreviation like_service :: "int \<Rightarrow> 'a LikeService" where
  "like_service ttl \<equiv> NewLikeService posts (NewLikeCache rdb ttl) pub"

lemma publish_frame:
  assumes "publishLikeEvent rt (like_service ttl) c uid pid aid w = w'"
  shows "(\<exists>i now. sent w' = sent w \<or> sent w' = sent w @ [like_event i now uid pid aid])
      \<and> idle_kv (kv w) (kv w') \<and> tables (master w') = tables (master w)"
proof -
  obtain t w1 where 1: "rt_now rt w = (t, w1)" by fastforce
  obtain i w2 where 2: "rt_uuid rt w1 = (i, w2)" by fastforce
  obtain r where 3: "pub c (like_event i t uid pid aid) w2 = (r, w')"
    using assms 1 2 by (auto simp: publishLikeEvent_def NewLikeService_def split: prod.splits)
      (metis prod.collapse)
  show ?thesis
    using now_frame [OF 1] uuid_frame [OF 2] pub_call [OF 3]
    by (auto split: if_splits intro: idle_kv_trans)
qed

lemma unpublish_frame:
  assumes "publishUnlikeEvent rt (like_service ttl) c uid pid aid w = w'"
  shows "(\<exists>i now. sent w' = sent w \<or> sent w' = sent w @ [unlike_event i now uid pid aid])
      \<and> idle_kv (kv w) (kv w') \<and> tables (master w') = tables (master w)"
proof -
  obtain t w1 where 1: "rt_now rt w = (t, w1)" by fastforce
  obtain i w2 where 2: "rt_uuid rt w1 = (i, w2)" by fastforce
  obtain r where 3: "pub c (unlike_event i t uid pid aid) w2 = (r, w')"
    using assms 1 2 by (auto simp: publishUnlikeEvent_def NewLikeService_def split: prod.splits)
      (metis prod.collapse)
  show ?thesis
    using now_frame [OF 1] uuid_frame [OF 2] pub_call [OF 3]
    by (auto split: if_splits intro: idle_kv_trans)
qed

text \<open>What a like or unlike has seen when the post was found and the membership was read.\<close>

lemma like_checked:
  assumes 1: "pr_FindByID posts c pid w = (Inr p, w1)" and 2: "HasLiked (NewLikeCache rdb ttl) pid uid w1 = (Inr b, w2)"
    and wf: "like_wf (kv w) pid"
  shows "p \<in> set (t_posts (if ForceMaster c then master w else replica w)) \<and> p_ID p = pid \<and> post_live p"
    "b \<longleftrightarrow> FormatInt uid |\<in>| like_members (kv w2) pid" "idle_kv (kv w) (kv w2)" "like_wf (kv w2) pid"
    "like_count (kv w2) pid \<le> like_count (kv w) pid" "like_members (kv w2) pid |\<subseteq>| like_members (kv w) pid"
    "sent w2 = sent w" "tables (master w2) = tables (master w)"
proof -
  note find = find_law [OF 1, simplified]
  then show "p \<in> set (t_posts (if ForceMaster c then master w else replica w)) \<and> p_ID p = pid \<and> post_live p" by simp
  obtain d0 where d0: "0 \<le> d0" "kv w1 = tick d0 (kv w)"
    using find by (auto simp: readonly_def db_only_def idle_kv_def)
  have wf1: "like_wf (kv w1) pid" using d0 wf by (auto intro: like_wf_tick)
  obtain d where d: "0 \<le> d" "kv w2 = tick d (kv w1)" "b = (FormatInt uid |\<in>| like_members (kv w2) pid)"
    by (rule HasLiked_ok [OF 2 wf1])
  from d(3) show "b \<longleftrightarrow> FormatInt uid |\<in>| like_members (kv w2) pid" .
  show idle: "idle_kv (kv w) (kv w2)" using d0 d(1,2) unfolding idle_kv_def by (intro exI [of _ "d0 + d"]) simp
  then show "like_members (kv w2) pid |\<subseteq>| like_members (kv w) pid" by (rule like_members_idle)
  show "like_wf (kv w2) pid" using d(1,2) wf1 by (auto intro: like_wf_tick)
  show "like_count (kv w2) pid \<le> like_count (kv w) pid"
    using like_count_tick [OF d0(1) wf] like_count_tick [OF d(1) wf1] d0(2) d(2) by simp
  show "sent w2 = sent w" "tables (master w2) = tables (master w)"
    using rdb_calls_frame [OF like_cache_calls(1) [OF 2, unfolded NewLikeCache_def, simplified]] find
    by (simp_all add: readonly_def db_only_def)
qed

lemma like_counted:
  assumes "GetLikeCount (NewLikeCache rdb ttl) pid w = (Inr n, w')" "like_wf (kv w) pid"
  shows "n = uint32 (like_count (kv w') pid)" "idle_kv (kv w) (kv w')" "sent w' = sent w"
    "tables (master w') = tables (master w)"
proof -
  obtain d where "0 \<le> d" "kv w' = tick d (kv w)" "n = uint32 (like_count (kv w') pid)"
    by (rule GetLikeCount_ok [OF assms])
  then show "n = uint32 (like_count (kv w') pid)" "idle_kv (kv w) (kv w')" by (auto simp: idle_kv_def)
  show "sent w' = sent w" "tables (master w') = tables (master w)"
    using rdb_calls_frame [OF like_cache_calls(4) [OF assms(1), unfolded NewLikeCache_def, simplified]] by simp_all
qed

lemma like_added:
  assumes 3: "AddLike (NewLikeCache rdb ttl) pid uid w = (Inr n, w')" and "like_wf (kv w) pid" "1000 \<le> ttl"
    and cnt: "like_count (kv w) pid < 4294967295" and "FormatInt uid |\<notin>| like_members (kv w) pid"
  obtains d where "0 \<le> d" "n = uint32 (like_count (kv w') pid)" "like_frame pid (tick d (kv w)) (kv w')"
    "like_members (kv w') pid = finsert (FormatInt uid) (like_members (tick d (kv w)) pid)"
    "like_count (kv w') pid = like_count (tick d (kv w)) pid + 1"
    "sent w' = sent w" "tables (master w') = tables (master w)"
proof -
  obtain d where d: "0 \<le> d" "like_wf (kv w') pid" "n = like_count (kv w') pid" "like_frame pid (tick d (kv w)) (kv w')"
    "like_members (kv w') pid = finsert (FormatInt uid) (like_members (tick d (kv w)) pid)"
    "like_count (kv w') pid = like_count (tick d (kv w)) pid
       + (if FormatInt uid |\<in>| like_members (tick d (kv w)) pid then 0 else 1)"
    by (rule AddLike_ok [OF assms(1-4)])
  have new: "FormatInt uid |\<notin>| like_members (tick d (kv w)) pid"
    using assms(5) like_members_tick [OF d(1), of "kv w" pid] by auto
  have "like_count (kv w') pid \<le> 4294967295" using d(6) like_count_tick [OF d(1) assms(2)] cnt new by simp
  then have "n = uint32 (like_count (kv w') pid)" using d(3) like_count_nonneg [OF d(2)] by simp
  moreover have "sent w' = sent w" "tables (master w') = tables (master w)"
    using rdb_calls_frame [OF like_cache_calls(2) [OF 3, unfolded NewLikeCache_def, simplified]] by simp_all
  ultimately show thesis using that [of d] d new by simp
qed

lemma Like_ok:
  assumes "LikeService_Like rt (like_service ttl) c uid pid w = (Inr resp, w')"
    and wf: "like_wf (kv w) pid" and ttl: "1000 \<le> ttl" and cnt: "like_count (kv w) pid < 4294967295"
  obtains p s0 s1 where
    "p \<in> set (t_posts (if ForceMaster c then master w else replica w))" "p_ID p = pid" "post_live p"
    "lr_Liked resp" "tables (master w') = tables (master w)"
    "idle_kv (kv w) s0" "idle_kv s1 (kv w')" "lr_Count resp = uint32 (like_count s1 pid)"
    "if FormatInt uid |\<in>| like_members s0 pid then s1 = kv w' \<and> idle_kv s0 s1 \<and> sent w' = sent w
     else (\<exists>d\<ge>0. like_frame pid (tick d s0) s1
            \<and> like_members s1 pid = finsert (FormatInt uid) (like_members (tick d s0) pid)
            \<and> like_count s1 pid = like_count (tick d s0) pid + 1)
          \<and> (sent w' = sent w \<or> (\<exists>i now. sent w' = sent w @ [like_event i now uid pid (p_UserID p)]))"
proof -
  note run = assms(1) [unfolded LikeService_Like_def NewLikeService_def, simplified]
  obtain p w1 b w2 where 1: "pr_FindByID posts c pid w = (Inr p, w1)" and 2: "HasLiked (NewLikeCache rdb ttl) pid uid w1 = (Inr b, w2)"
    using run by (auto split: prod.splits sum.splits)
  note ch = like_checked [OF 1 2 wf]
  show thesis
  proof (cases b)
    case True
    then obtain n where 3: "GetLikeCount (NewLikeCache rdb ttl) pid w2 = (Inr n, w')"
        and resp: "resp = \<lparr>lr_Liked = True, lr_Count = n\<rparr>"
      using run 1 2 by (auto split: prod.splits sum.splits)
    from that [of p "kv w2" "kv w'"] like_counted [OF 3 ch(4)] ch True resp show thesis by simp
  next
    case False
    then obtain n w3 where 3: "AddLike (NewLikeCache rdb ttl) pid uid w2 = (Inr n, w3)"
        and w': "w' = publishLikeEvent rt (like_service ttl) c uid pid (p_UserID p) w3"
        and resp: "resp = \<lparr>lr_Liked = True, lr_Count = n\<rparr>"
      using assms(1) 1 2 by (auto simp: LikeService_Like_def NewLikeService_def Let_def split: prod.splits sum.splits)
    have "like_count (kv w2) pid < 4294967295" "FormatInt uid |\<notin>| like_members (kv w2) pid"
      using ch(2,5) cnt False by simp_all
    from like_added [OF 3 ch(4) ttl this] obtain d where "0 \<le> d" "n = uint32 (like_count (kv w3) pid)"
      "like_frame pid (tick d (kv w2)) (kv w3)" "like_members (kv w3) pid = finsert (FormatInt uid) (like_members (tick d (kv w2)) pid)"
      "like_count (kv w3) pid = like_count (tick d (kv w2)) pid + 1" "sent w3 = sent w2" "tables (master w3) = tables (master w2)"
      by blast
    with that [of p "kv w2" "kv w3"] publish_frame [OF w' [symmetric]] ch False resp show thesis by auto
  qed
qed

lemma GetLikeStatus_readonly:
  assumes "GetLikeStatus (like_service ttl) c uid pid w = (res, w')"
  shows "readonly sent kv master w w'"
proof -
  have has: "readonly sent kv master v v'"
    if "HasLiked (NewLikeCache rdb ttl) pid uid v = (r, v')" for r v v'
    using HasLiked_effect [OF that] rdb_calls_frame [OF like_cache_calls(1) [OF that, unfolded NewLikeCache_def, simplified]]
    by (simp add: readonly_def db_only_def)
  have cnt: "readonly sent kv master v v'"
    if "GetLikeCount (NewLikeCache rdb ttl) pid v = (r, v')" for r v v'
    using GetLikeCount_effect [OF that] rdb_calls_frame [OF like_cache_calls(4) [OF that, unfolded NewLikeCache_def, simplified]]
    by (simp add: readonly_def db_only_def)
  have find: "readonly sent kv master v v'" if "pr_FindByID posts c pid v = (r, v')" for r v v'
    using find_law [OF that] by simp
  show ?thesis
    using assms
    by (auto simp: GetLikeStatus_def NewLikeService_def split: prod.splits sum.splits
        dest!: has cnt find intro: readonly_trans)
qed

lemma Like_error:
  assumes "LikeService_Like rt (like_service ttl) c uid pid w = (Inl e, w')"
  shows "sent w' = sent w \<and> tables (master w') = tables (master w)"
proof -
  have find: "sent w1 = sent w \<and> tables (master w1) = tables (master w)"
    if "pr_FindByID posts c pid w = (r, w1)" for r w1
    using find_law [OF that] by (auto simp: readonly_def db_only_def)
  show ?thesis
    using assms
    by (auto simp: LikeService_Like_def NewLikeService_def Let_def split: prod.splits sum.splits bool.splits
        dest!: find like_cache_calls rdb_calls_frame [unfolded NewLikeCache_def] simp: NewLikeCache_def)
qed

lemma Unlike_ok:
  assumes "LikeService_Unlike rt (like_service ttl) c uid pid w = (Inr resp, w')"
    and wf: "like_wf (kv w) pid" and ttl: "1000 \<le> ttl"
  shows "\<not> lr_Liked resp" "tables (master w') = tables (master w)"
    "like_members (kv w') pid |\<subseteq>| like_members (kv w) pid |-| {|FormatInt uid|}"
    "sent w' = sent w \<or>
       (\<exists>i now (p::Post). sent w' = sent w @ [unlike_event i now uid pid (p_UserID p)]
          \<and> p_ID p = pid \<and> FormatInt uid |\<in>| like_members (kv w) pid)"
proof -
  let ?u = "FormatInt uid"
  note run = assms(1) [unfolded LikeService_Unlike_def NewLikeService_def, simplified]
  obtain p w1 b w2 where 1: "pr_FindByID posts c pid w = (Inr p, w1)" and 2: "HasLiked (NewLikeCache rdb ttl) pid uid w1 = (Inr b, w2)"
    using run by (auto split: prod.splits sum.splits)
  note ch = like_checked [OF 1 2 wf]
  have "\<not> lr_Liked resp \<and> tables (master w') = tables (master w)
    \<and> like_members (kv w') pid |\<subseteq>| like_members (kv w) pid |-| {|?u|}
    \<and> (sent w' = sent w \<or>
       (\<exists>i now (p::Post). sent w' = sent w @ [unlike_event i now uid pid (p_UserID p)]
          \<and> p_ID p = pid \<and> ?u |\<in>| like_members (kv w) pid))"
  proof (cases b)
    case False
    then obtain n where 3: "GetLikeCount (NewLikeCache rdb ttl) pid w2 = (Inr n, w')"
        and resp: "resp = \<lparr>lr_Liked = False, lr_Count = n\<rparr>"
      using run 1 2 by (auto split: prod.splits sum.splits)
    note cn = like_counted [OF 3 ch(4)]
    from like_members_idle [OF cn(2), of pid] cn(3,4) ch(2,6-8) resp False show ?thesis by auto
  next
    case True
    then obtain n w3 where 3: "RemoveLike (NewLikeCache rdb ttl) pid uid w2 = (Inr n, w3)"
        and w': "w' = publishUnlikeEvent rt (like_service ttl) c uid pid (p_UserID p) w3"
        and resp: "resp = \<lparr>lr_Liked = False, lr_Count = n\<rparr>"
      using assms(1) 1 2 by (auto simp: LikeService_Unlike_def NewLikeService_def Let_def split: prod.splits sum.splits)
    note r = RemoveLike_ok [OF 3 ch(4) ttl] and up = unpublish_frame [OF w' [symmetric]]
    have sub3: "like_members (kv w') pid |\<subseteq>| like_members (kv w3) pid" using up like_members_idle by blast
    have fr3: "sent w3 = sent w" "tables (master w3) = tables (master w)"
      using rdb_calls_frame [OF like_cache_calls(3) [OF 3, unfolded NewLikeCache_def, simplified]] ch(7,8) by simp_all
    have mem: "?u |\<in>| like_members (kv w) pid" using ch(2,6) True by auto
    with up fr3 ch(1) have "sent w' = sent w \<or>
       (\<exists>i now (p::Post). sent w' = sent w @ [unlike_event i now uid pid (p_UserID p)]
          \<and> p_ID p = pid \<and> ?u |\<in>| like_members (kv w) pid)"
      by metis
    with sub3 up fr3 r(3) resp ch(6) show ?thesis by auto
  qed
  then show "\<not> lr_Liked resp" "tables (master w') = tables (master w)"
    "like_members (kv w') pid |\<subseteq>| like_members (kv w) pid |-| {|?u|}"
    "sent w' = sent w \<or>
       (\<exists>i now (p::Post). sent w' = sent w @ [unlike_event i now uid pid (p_UserID p)]
          \<and> p_ID p = pid \<and> ?u |\<in>| like_members (kv w) pid)"
    by blast+
qed

end

section \<open>Properties\<close>

text \<open>
  C12: A successful Like.  In every environment with the documented behaviour, if
  LikeService.Like answers without error then the post existed, the answer says
  liked, and with the keyspace as it was when membership was probed: either the user was a
  member already, and neither the keyspace (up to time) nor the events sent change; or the
  user was not, and is added, the counter goes up by exactly one, the answer carries that
  counter, and at most one event is sent, the LikeEvent of the user, the post and its author.
  The tables are not touched.
\<close>

theorem like_success:
  fixes db :: "'w gorm"
  assumes "platform rdb kv db master replica pub sent rt"
    and "LikeService_Like rt
           (NewLikeService (NewPostRepository rt db) (NewLikeCache rdb ttl) pub) c uid pid w
         = (Inr resp, w')"
    and "like_wf (kv w) pid" and "1000 \<le> ttl" and "like_count (kv w) pid < 4294967295"
  shows "\<exists>(p::Post) s0 s1.
    p \<in> set (t_posts (if ForceMaster c then master w else replica w))
    \<and> p_ID p = pid \<and> p_DeletedAt p = None
    \<and> lr_Liked resp \<and> tables (master w') = tables (master w)
    \<and> idle_kv (kv w) s0 \<and> idle_kv s1 (kv w') \<and> lr_Count resp = uint32 (like_count s1 pid)
    \<and> (if FormatInt uid |\<in>| like_members s0 pid
       then idle_kv s0 s1 \<and> sent w' = sent w
       else (\<exists>d\<ge>0. like_frame pid (tick d s0) s1
               \<and> like_members s1 pid = finsert (FormatInt uid) (like_members (tick d s0) pid)
               \<and> like_count s1 pid = like_count (tick d s0) pid + 1)
            \<and> (sent w' = sent w
               \<or> (\<exists>i now. sent w' = sent w @ [like_event i now uid pid (p_UserID p)])))"
proof -
  note repo = platform.gorm_post_repository [OF assms(1)]
  show ?thesis
    by (rule post_repository.Like_ok [OF repo assms(2-5)])
      (intro exI conjI, auto simp: post_live_def split: if_splits)
qed

definition doc_likes :: "world LikeService" where
  "doc_likes = NewLikeService (NewPostRepository doc_rt doc_db) (NewLikeCache doc_rdb 604800000) doc_pub"

theorem like_success_witness:
  "\<exists>w'. LikeService_Like doc_rt doc_likes Background 42 1 demo_world
            = (Inr \<lparr>lr_Liked = True, lr_Count = 1\<rparr>, w')
     \<and> tables (w_db w') = tables (w_db demo_world)"
proof -
  let ?r = "LikeService_Like doc_rt doc_likes Background 42 1 demo_world"
  have "fst ?r = Inr \<lparr>lr_Liked = True, lr_Count = 1\<rparr>" by code_simp
  then obtain w' where r: "?r = (Inr \<lparr>lr_Liked = True, lr_Count = 1\<rparr>, w')"
    by (metis prod.collapse)
  have wf: "like_wf (w_kv demo_world) 1" "like_count (w_kv demo_world) 1 = 0" by code_simp+
  have "like_count (w_kv demo_world) 1 < 4294967295" by (simp add: wf)
  from like_success [OF doc.platform_axioms r [unfolded doc_likes_def] wf(1) _ this] r
  show ?thesis by auto
qed

text \<open>
  A failed Like has no effect outside Redis: no event is sent and the tables are as before;
  an event is only ever sent by a Like that answers with success.
\<close>

theorem like_error_silent:
  fixes db :: "'w gorm"
  assumes "platform rdb kv db master replica pub sent rt"
    and "LikeService_Like rt
           (NewLikeService (NewPostRepository rt db) (NewLikeCache rdb ttl) pub) c uid pid w
         = (Inl e, w')"
  shows "sent w' = sent w \<and> tables (master w') = tables (master w)"
  by (rule post_repository.Like_error [OF platform.gorm_post_repository [OF assms(1)] assms(2)])

theorem like_error_silent_witness:
  "\<exists>w'. LikeService_Like doc_rt doc_likes Background 42 3 demo_world = (Inl (App ErrPostNotFound), w')
     \<and> w_sent w' = []"
proof -
  let ?r = "LikeService_Like doc_rt doc_likes Background 42 3 demo_world"
  have "fst ?r = Inl (App ErrPostNotFound)" by code_simp
  then obtain w' where r: "?r = (Inl (App ErrPostNotFound), w')"
    by (metis prod.collapse)
  have "w_sent demo_world = []" by (simp add: demo_world_def fresh_world_def)
  with like_error_silent [OF doc.platform_axioms r [unfolded doc_likes_def]] r
  show ?thesis by auto
qed

text \<open>
  A successful Unlike.  The answer says not liked, the user is not a member afterwards and
  nobody became one, the tables are not touched, and at most one event is sent: the UnlikeEvent
  for the author of the post, and only if the user was a member before.
\<close>

theorem unlike_success:
  fixes db :: "'w gorm"
  assumes "platform rdb kv db master replica pub sent rt"
    and "LikeService_Unlike rt
           (NewLikeService (NewPostRepository rt db) (NewLikeCache rdb ttl) pub) c uid pid w
         = (Inr resp, w')"
    and "like_wf (kv w) pid" and "1000 \<le> ttl"
  shows "\<not> lr_Liked resp \<and> tables (master w') = tables (master w)
    \<and> like_members (kv w') pid |\<subseteq>| like_members (kv w) pid |-| {|FormatInt uid|}
    \<and> (sent w' = sent w
       \<or> (\<exists>i now (p::Post). sent w' = sent w @ [unlike_event i now uid pid (p_UserID p)]
            \<and> p_ID p = pid \<and> FormatInt uid |\<in>| like_members (kv w) pid))"
  using post_repository.Unlike_ok [OF platform.gorm_post_repository [OF assms(1)] assms(2-4)] by blast

definition liked_world :: world where
  "liked_world = snd (LikeService_Like doc_rt doc_likes Background 42 1 demo_world)"

theorem unlike_success_witness:
  "\<exists>w'. LikeService_Unlike doc_rt doc_likes Background 42 1 liked_world
            = (Inr \<lparr>lr_Liked = False, lr_Count = 0\<rparr>, w')
     \<and> FormatInt 42 |\<notin>| like_members (w_kv w') 1 \<and> tables (w_db w') = tables (w_db liked_world)"
proof -
  let ?r = "LikeService_Unlike doc_rt doc_likes Background 42 1 liked_world"
  have "fst ?r = Inr \<lparr>lr_Liked = False, lr_Count = 0\<rparr>" by code_simp
  then obtain w' where r: "?r = (Inr \<lparr>lr_Liked = False, lr_Count = 0\<rparr>, w')"
    by (metis prod.collapse)
  have wf: "like_wf (w_kv liked_world) 1" by code_simp
  from unlike_success [OF doc.platform_axioms r [unfolded doc_likes_def] wf] r
  show ?thesis by auto
qed

text \<open>
  The status query is a pure read: whatever it answers, no key of Redis changes its value or
  its deadline, no event is sent and no table changes.  In particular a read does not slide the
  TTL of the like keys: a post that is only read loses its like state when the TTL set by the
  last write runs out.
\<close>

theorem like_status_readonly:
  fixes db :: "'w gorm"
  assumes "platform rdb kv db master replica pub sent rt"
    and "GetLikeStatus
           (NewLikeService (NewPostRepository rt db) (NewLikeCache rdb ttl) pub) c uid pid w
         = (res, w')"
  shows "rs_db (kv w') = rs_db (kv w) \<and> rs_now (kv w) \<le> rs_now (kv w')
    \<and> sent w' = sent w \<and> tables (master w') = tables (master w)"
proof -
  note repo = platform.gorm_post_repository [OF assms(1)]
  have "readonly sent kv master w w'"
    using assms(2) post_repository.GetLikeStatus_readonly [OF repo] by blast
  then show ?thesis
    by (auto simp: readonly_def db_only_def idle_kv_def tick_def)
qed

theorem like_status_readonly_witness:
  "\<exists>w'. GetLikeStatus doc_likes Background 42 1 liked_world
            = (Inr \<lparr>lr_Liked = True, lr_Count = 1\<rparr>, w')
     \<and> rs_db (w_kv w') = rs_db (w_kv liked_world)"
proof -
  let ?r = "GetLikeStatus doc_likes Background 42 1 liked_world"
  have "fst ?r = Inr \<lparr>lr_Liked = True, lr_Count = 1\<rparr>" by code_simp
  then obtain w' where r: "?r = (Inr \<lparr>lr_Liked = True, lr_Count = 1\<rparr>, w')"
    by (metis prod.collapse)
  from like_status_readonly [OF doc.platform_axioms r [unfolded doc_likes_def]] r
  show ?thesis by auto
qed

end
