(* ===== verification/LikeRepository.thy ===== *)
theory LikeRepository
  imports PostRepository
begin

text \<open>
  internal/repository/like_repository.go: the batched statements on the likes table and the
  two updates of posts.like_count.  The raw UPDATE statements do not pass through GORM's
  soft-delete clause; updated_at follows its ON UPDATE CURRENT_TIMESTAMP(3) clause (migration
  000002), which acts when another column changes.
\<close>

record UserPostPair =
  up_UserID :: int
  up_PostID :: int

record 'w LikeRepository =
  lk_BatchInsert :: "ctx \<Rightarrow> Like list \<Rightarrow> 'w \<Rightarrow> int result \<times> 'w"
  lk_BatchDelete :: "ctx \<Rightarrow> UserPostPair list \<Rightarrow> 'w \<Rightarrow> int result \<times> 'w"
  lk_IncrPostLikeCount :: "ctx \<Rightarrow> (int \<times> int) list \<Rightarrow> 'w \<Rightarrow> error \<times> 'w"
  lk_DecrPostLikeCount :: "ctx \<Rightarrow> (int \<times> int) list \<Rightarrow> 'w \<Rightarrow> error \<times> 'w"

definition likes_BatchInsert ::
  "'w runtime \<Rightarrow> 'w gorm \<Rightarrow> ctx \<Rightarrow> Like list \<Rightarrow> 'w \<Rightarrow> int result \<times> 'w" where
  "likes_BatchInsert rt db c rows w =
     (if rows = [] then (ok 0, w)
      else (case rt_now rt w of (now, w1) \<Rightarrow>
        (let args = map (\<lambda>r. r\<lparr>l_CreatedAt := stamp now (l_CreatedAt r)\<rparr>) rows
         in case db (InsertIgnoreLikes args) w1 of
              (Affected n, w2) \<Rightarrow> (ok n, w2)
            | (SqlErr e, w2) \<Rightarrow> (err (Wrap ''like batch insert'' e), w2)
            | (_, w2) \<Rightarrow> (err bad_reply, w2))))"

text \<open>The predicate of DELETE ... WHERE (user_id, post_id) IN (...).\<close>

definition pair_in :: "UserPostPair list \<Rightarrow> Like \<Rightarrow> bool" where
  "pair_in pairs r \<longleftrightarrow> list_ex (\<lambda>p. up_UserID p = l_UserID r \<and> up_PostID p = l_PostID r) pairs"

definition likes_BatchDelete ::
  "'w gorm \<Rightarrow> ctx \<Rightarrow> UserPostPair list \<Rightarrow> 'w \<Rightarrow> int result \<times> 'w" where
  "likes_BatchDelete db c pairs w =
     (if pairs = [] then (ok 0, w)
      else (case db (DeleteLikes (pair_in pairs)) w of
              (Affected n, w1) \<Rightarrow> (ok n, w1)
            | (SqlErr e, w1) \<Rightarrow> (err (Wrap ''like batch delete'' e), w1)
            | (_, w1) \<Rightarrow> (err bad_reply, w1)))"

definition on_update_post :: "int \<Rightarrow> Post \<Rightarrow> Post \<Rightarrow> Post" where
  "on_update_post t0 p p' = (if p' = p then p else p'\<lparr>p_UpdatedAt := t0\<rparr>)"

definition incr_like_count :: "int \<Rightarrow> int \<Rightarrow> Post \<Rightarrow> Post" where
  "incr_like_count delta t0 p = on_update_post t0 p (p\<lparr>p_LikeCount := p_LikeCount p + delta\<rparr>)"

definition decr_like_count :: "int \<Rightarrow> int \<Rightarrow> Post \<Rightarrow> Post" where
  "decr_like_count delta t0 p =
     on_update_post t0 p (p\<lparr>p_LikeCount := max 0 (p_LikeCount p - delta)\<rparr>)"

text \<open>A map is the list of its entries in the order in which range visits them.\<close>

fun likes_IncrPostLikeCount :: "'w gorm \<Rightarrow> ctx \<Rightarrow> (int \<times> int) list \<Rightarrow> 'w \<Rightarrow> error \<times> 'w" where
  "likes_IncrPostLikeCount db c [] w = (None, w)"
| "likes_IncrPostLikeCount db c ((postID, delta) # ds) w =
     (if delta \<le> 0 then likes_IncrPostLikeCount db c ds w
      else (case db (UpdatePosts (\<lambda>p. p_ID p = postID) (incr_like_count delta)) w of
              (SqlErr e, w1) \<Rightarrow> (Some (Wrap ''incr like_count'' e), w1)
            | (_, w1) \<Rightarrow> likes_IncrPostLikeCount db c ds w1))"

fun likes_DecrPostLikeCount :: "'w gorm \<Rightarrow> ctx \<Rightarrow> (int \<times> int) list \<Rightarrow> 'w \<Rightarrow> error \<times> 'w" where
  "likes_DecrPostLikeCount db c [] w = (None, w)"
| "likes_DecrPostLikeCount db c ((postID, delta) # ds) w =
     (if delta \<le> 0 then likes_DecrPostLikeCount db c ds w
      else (case db (UpdatePosts (\<lambda>p. p_ID p = postID) (decr_like_count delta)) w of
              (SqlErr e, w1) \<Rightarrow> (Some (Wrap ''decr like_count'' e), w1)
            | (_, w1) \<Rightarrow> likes_DecrPostLikeCount db c ds w1))"

definition NewLikeRepository :: "'w runtime \<Rightarrow> 'w gorm \<Rightarrow> 'w LikeRepository" where
  "NewLikeRepository rt db =
     \<lparr>lk_BatchInsert = likes_BatchInsert rt db, lk_BatchDelete = likes_BatchDelete db,
      lk_IncrPostLikeCount = likes_IncrPostLikeCount db,
      lk_DecrPostLikeCount = likes_DecrPostLikeCount db\<rparr>"

section \<open>The likes table as a set of pairs\<close>

definition like_pairs :: "Like list \<Rightarrow> (int \<times> int) set" where
  "like_pairs rows = (\<lambda>r. (l_UserID r, l_PostID r)) ` set rows"

definition pair_of :: "Like \<Rightarrow> int \<times> int" where
  "pair_of r = (l_UserID r, l_PostID r)"

text \<open>The unique index uk_user_post.\<close>

definition likes_unique :: "Like list \<Rightarrow> bool" where
  "likes_unique rows \<longleftrightarrow> distinct (map pair_of rows)"

lemma like_pairs_alt: "like_pairs rows = set (map pair_of rows)"
  by (simp add: like_pairs_def pair_of_def)

lemma pair_of_ID [simp]: "pair_of (r\<lparr>l_ID := n\<rparr>) = pair_of r"
  by (simp add: pair_of_def)

lemma like_dup_iff:
  fixes r :: Like and rows :: "Like list"
  shows "list_ex (\<lambda>x. l_UserID x = l_UserID r \<and> l_PostID x = l_PostID r) rows
   \<longleftrightarrow> pair_of r \<in> set (map pair_of rows)"
  by (induction rows) (auto simp: pair_of_def)

lemma insert_ignore_Cons:
  "insert_ignore (r # rs) (rows, nxt) =
     (if pair_of r \<in> set (map pair_of rows) then insert_ignore rs (rows, nxt)
      else insert_ignore rs (rows @ [r\<lparr>l_ID := nxt\<rparr>], nxt + 1))"
  by (simp only: insert_ignore.simps like_dup_iff)

lemma insert_ignore_pairs:
  "like_pairs (fst (insert_ignore rs (rows, nxt))) = like_pairs rows \<union> like_pairs rs"
  by (induction rs arbitrary: rows nxt)
    (auto simp: like_pairs_alt insert_ignore_Cons simp del: insert_ignore.simps(2))

lemma insert_ignore_unique:
  "likes_unique rows \<Longrightarrow> likes_unique (fst (insert_ignore rs (rows, nxt)))"
proof (induction rs arbitrary: rows nxt)
  case (Cons r rs)
  have "likes_unique (rows @ [r\<lparr>l_ID := nxt\<rparr>])" if "pair_of r \<notin> set (map pair_of rows)"
    using that Cons.prems by (simp add: likes_unique_def)
  then show ?case
    using Cons by (simp add: insert_ignore_Cons del: insert_ignore.simps(2))
qed simp

lemma insert_ignore_fresh:
  assumes "distinct (map pair_of rs)" "set (map pair_of rs) \<inter> set (map pair_of rows) = {}"
  shows "map pair_of (fst (insert_ignore rs (rows, nxt))) = map pair_of rows @ map pair_of rs"
  using assms
proof (induction rs arbitrary: rows nxt)
  case (Cons r rs)
  have "pair_of r \<notin> set (map pair_of rows)" using Cons.prems by auto
  moreover have "set (map pair_of rs) \<inter> set (map pair_of (rows @ [r\<lparr>l_ID := nxt\<rparr>])) = {}"
    using Cons.prems by auto
  ultimately show ?case
    using Cons by (simp add: insert_ignore_Cons del: insert_ignore.simps(2))
qed simp

lemma insert_ignore_length:
  "length rows \<le> length (fst (insert_ignore rs (rows, nxt)))
   \<and> length (fst (insert_ignore rs (rows, nxt))) \<le> length rows + length rs"
  by (induction rs "(rows, nxt)" arbitrary: rows nxt rule: insert_ignore.induct) auto

definition pairs_of :: "UserPostPair list \<Rightarrow> (int \<times> int) set" where
  "pairs_of ps = (\<lambda>p. (up_UserID p, up_PostID p)) ` set ps"

lemma pair_in_iff: "pair_in ps r \<longleftrightarrow> pair_of r \<in> pairs_of ps"
  by (induction ps) (auto simp: pair_in_def pairs_of_def pair_of_def)

lemma dml_InsertIgnoreLikes:
  assumes "dml (InsertIgnoreLikes rs) s = (r, s')"
  shows "t_likes s' = fst (insert_ignore rs (t_likes s, db_next s TLikes)) \<and> t_posts s' = t_posts s
    \<and> r = Affected (int (length (t_likes s')) - int (length (t_likes s)))"
  using assms by (auto simp: Let_def split: prod.splits)

lemma dml_DeleteLikes:
  assumes "dml (DeleteLikes p) s = (r, s')"
  shows "t_likes s' = filter (\<lambda>x. \<not> p x) (t_likes s) \<and> t_posts s' = t_posts s
    \<and> r = Affected (int (length (t_likes s)) - int (length (t_likes s')))"
  using assms sum_length_filter_compl [of p "t_likes s"] by auto

context platform
begin

lemma likes_insert:
  assumes "likes_BatchInsert rt db c rows w = (Inr n, w')"
  shows "\<exists>args nxt. map pair_of args = map pair_of rows
      \<and> t_likes (master w') = fst (insert_ignore args (t_likes (master w), nxt))
      \<and> n = int (length (t_likes (master w'))) - int (length (t_likes (master w)))"
    and "t_posts (master w') = t_posts (master w)"
proof -
  have "(\<exists>args nxt. map pair_of args = map pair_of rows
      \<and> t_likes (master w') = fst (insert_ignore args (t_likes (master w), nxt))
      \<and> n = int (length (t_likes (master w'))) - int (length (t_likes (master w))))
      \<and> t_posts (master w') = t_posts (master w)"
  proof (cases "rows = []")
    case True
    then show ?thesis using assms by (auto simp: likes_BatchInsert_def intro: exI [of _ "[]"])
  next
    case False
    obtain now w1 where 1: "rt_now rt w = (now, w1)" by fastforce
    define args where "args = map (\<lambda>r. r\<lparr>l_CreatedAt := stamp now (l_CreatedAt r)\<rparr>) rows"
    have r: "db (InsertIgnoreLikes args) w1 = (Affected n, w')"
      using assms 1 False
      by (auto simp: likes_BatchInsert_def args_def Let_def split: prod.splits sqlreply.splits)
    obtain d g where dg: "dml (InsertIgnoreLikes args) (advance d g (master w1)) = (Affected n, master w')"
      by (rule sql_write [OF r]) auto
    have same: "t_likes (master w1) = t_likes (master w)" "t_posts (master w1) = t_posts (master w)"
      using now_frame [OF 1] by (auto simp: tables_def)
    have pa: "map pair_of args = map pair_of rows"
      by (simp add: args_def pair_of_def)
    show ?thesis
      using dml_InsertIgnoreLikes [OF dg] same pa by (intro conjI exI [of _ args]) auto
  qed
  then show "\<exists>args nxt. map pair_of args = map pair_of rows
      \<and> t_likes (master w') = fst (insert_ignore args (t_likes (master w), nxt))
      \<and> n = int (length (t_likes (master w'))) - int (length (t_likes (master w)))"
    "t_posts (master w') = t_posts (master w)"
    by blast+
qed

lemma likes_delete:
  assumes "likes_BatchDelete db c ps w = (Inr n, w')"
  shows "t_likes (master w') = filter (\<lambda>r. pair_of r \<notin> pairs_of ps) (t_likes (master w))"
    "n = int (length (t_likes (master w))) - int (length (t_likes (master w')))"
    "t_posts (master w') = t_posts (master w)"
proof -
  have "t_likes (master w') = filter (\<lambda>r. pair_of r \<notin> pairs_of ps) (t_likes (master w))
    \<and> n = int (length (t_likes (master w))) - int (length (t_likes (master w')))
    \<and> t_posts (master w') = t_posts (master w)"
  proof (cases "ps = []")
    case True
    then show ?thesis using assms by (auto simp: likes_BatchDelete_def pairs_of_def)
  next
    case False
    have r: "db (DeleteLikes (pair_in ps)) w = (Affected n, w')"
      using assms False by (auto simp: likes_BatchDelete_def split: prod.splits sqlreply.splits)
    obtain d g where dg: "dml (DeleteLikes (pair_in ps)) (advance d g (master w)) = (Affected n, master w')"
      by (rule sql_write [OF r]) auto
    from dml_DeleteLikes [OF dg] show ?thesis by (auto simp: pair_in_iff)
  qed
  then show "t_likes (master w') = filter (\<lambda>r. pair_of r \<notin> pairs_of ps) (t_likes (master w))"
    "n = int (length (t_likes (master w))) - int (length (t_likes (master w')))"
    "t_posts (master w') = t_posts (master w)"
    by blast+
qed

end

section \<open>The counters after the updates\<close>

definition like_counts :: "Post list \<Rightarrow> (int \<times> int) list" where
  "like_counts ps = map (\<lambda>p. (p_ID p, p_LikeCount p)) ps"

definition delta_for :: "(int \<times> int) list \<Rightarrow> int \<Rightarrow> int" where
  "delta_for ds i = sum_list (map (\<lambda>(k, d). if k = i \<and> 0 < d then d else 0) ds)"

lemma delta_for_simps [simp]:
  "delta_for [] i = 0"
  "delta_for ((k, d) # ds) i = (if k = i \<and> 0 < d then d else 0) + delta_for ds i"
  by (simp_all add: delta_for_def)

lemma delta_for_nonneg: "0 \<le> delta_for ds i"
  by (induction ds) auto

lemma on_update_post_fields [simp]:
  "p_LikeCount (on_update_post t0 p p') = p_LikeCount p'" "p_ID (on_update_post t0 p p') = p_ID p'"
  by (simp_all add: on_update_post_def)

lemma like_counts_incr:
  "like_counts (update_rows (\<lambda>p. p_ID p = k) (incr_like_count d t0) ps)
     = map (\<lambda>(i, n). (i, n + (if k = i then d else 0))) (like_counts ps)"
  by (induction ps) (auto simp: like_counts_def update_rows_def incr_like_count_def)

lemma like_counts_decr:
  "\<forall>p\<in>set ps. 0 \<le> p_LikeCount p \<Longrightarrow>
   like_counts (update_rows (\<lambda>p. p_ID p = k) (decr_like_count d t0) ps)
     = map (\<lambda>(i, n). (i, if k = i then max 0 (n - d) else n)) (like_counts ps)"
  by (induction ps) (auto simp: like_counts_def update_rows_def decr_like_count_def)

lemma decr_nonneg:
  "\<forall>p\<in>set ps. 0 \<le> p_LikeCount p \<Longrightarrow>
   \<forall>p\<in>set (update_rows (\<lambda>p. p_ID p = k) (decr_like_count d t0) ps). 0 \<le> p_LikeCount p"
  by (auto simp: update_rows_def decr_like_count_def)

context platform
begin

lemma update_posts_keeps_likes:
  assumes "db (UpdatePosts p f) w = (r, w')"
  shows "t_likes (master w') = t_likes (master w)"
proof -
  have d: "t_likes (snd (dml (UpdatePosts p f) s)) = t_likes s" for s
    using dml_UpdatePosts [of p f s] by (elim disjE conjE) (simp_all del: dml.simps)
  obtain d' g where "master w' = advance d' g (master w)
      \<or> master w' = snd (dml (UpdatePosts p f) (advance d' g (master w)))"
    by (rule sql_write_effect [OF assms]) auto
  then show ?thesis by (elim disjE) (simp_all add: d del: dml.simps)
qed

lemma likes_incr:
  assumes "likes_IncrPostLikeCount db c ds w = (None, w')"
  shows "like_counts (t_posts (master w'))
       = map (\<lambda>(i, n). (i, n + delta_for ds i)) (like_counts (t_posts (master w)))
     \<and> t_likes (master w') = t_likes (master w)"
  using assms
proof (induction ds arbitrary: w)
  case Nil
  then show ?case by (simp add: case_prod_unfold)
next
  case (Cons kd ds)
  obtain k d where kd: "kd = (k, d)" by fastforce
  have step: "\<exists>w1. likes_IncrPostLikeCount db c ds w1 = (None, w') \<and> t_likes (master w1) = t_likes (master w)
      \<and> like_counts (t_posts (master w1))
        = map (\<lambda>(i, n). (i, n + (if k = i \<and> 0 < d then d else 0))) (like_counts (t_posts (master w)))"
    if prem: "likes_IncrPostLikeCount db c (kd # ds) w = (None, w')"
  proof (cases "d \<le> 0")
    case True
    then show ?thesis using prem kd by (auto intro!: exI [of _ w] simp: case_prod_unfold)
  next
    case False
    obtain r w1 where r: "db (UpdatePosts (\<lambda>p. p_ID p = k) (incr_like_count d)) w = (r, w1)" by fastforce
    have nr: "r \<noteq> SqlErr e" for e using prem kd False r by auto
    then have "likes_IncrPostLikeCount db c ds w1 = (None, w')"
      using prem kd False r by (cases r) auto
    with sql_update_posts [OF r] nr update_posts_keeps_likes [OF r] False show ?thesis
      by (auto simp: like_counts_incr intro!: exI [of _ w1])
  qed
  from step [OF Cons.prems] Cons.IH show ?case by (force simp: kd case_prod_unfold)
qed

lemma likes_decr:
  assumes "likes_DecrPostLikeCount db c ds w = (None, w')"
    and "\<forall>p\<in>set (t_posts (master w)). 0 \<le> p_LikeCount p"
  shows "like_counts (t_posts (master w'))
       = map (\<lambda>(i, n). (i, max 0 (n - delta_for ds i))) (like_counts (t_posts (master w)))
     \<and> t_likes (master w') = t_likes (master w)"
  using assms
proof (induction ds arbitrary: w)
  case Nil
  then show ?case by (force simp: like_counts_def)
next
  case (Cons kd ds)
  obtain k d where kd: "kd = (k, d)" by fastforce
  have step: "\<exists>w1. likes_DecrPostLikeCount db c ds w1 = (None, w') \<and> t_likes (master w1) = t_likes (master w)
      \<and> (\<forall>p\<in>set (t_posts (master w1)). 0 \<le> p_LikeCount p)
      \<and> like_counts (t_posts (master w1))
        = map (\<lambda>(i, n). (i, if k = i \<and> 0 < d then max 0 (n - d) else n)) (like_counts (t_posts (master w)))"
    if prem: "likes_DecrPostLikeCount db c (kd # ds) w = (None, w')"
      and nn: "\<forall>p\<in>set (t_posts (master w)). 0 \<le> p_LikeCount p"
  proof (cases "d \<le> 0")
    case True
    then show ?thesis using prem nn kd by (auto intro!: exI [of _ w] simp: case_prod_unfold)
  next
    case False
    obtain r w1 where r: "db (UpdatePosts (\<lambda>p. p_ID p = k) (decr_like_count d)) w = (r, w1)" by fastforce
    have nr: "r \<noteq> SqlErr e" for e using prem kd False r by auto
    then have "likes_DecrPostLikeCount db c ds w1 = (None, w')"
      using prem kd False r by (cases r) auto
    moreover obtain t0 where "t_posts (master w1)
        = update_rows (\<lambda>p. p_ID p = k) (decr_like_count d t0) (t_posts (master w))"
      using sql_update_posts [OF r] nr by auto
    ultimately show ?thesis
      using update_posts_keeps_likes [OF r] False decr_nonneg [OF nn] like_counts_decr [OF nn]
      by (auto intro!: exI [of _ w1])
  qed
  obtain w1 where w1: "likes_DecrPostLikeCount db c ds w1 = (None, w')"
    "t_likes (master w1) = t_likes (master w)"
    "\<forall>p\<in>set (t_posts (master w1)). 0 \<le> p_LikeCount p"
    "like_counts (t_posts (master w1))
      = map (\<lambda>(i, n). (i, if k = i \<and> 0 < d then max 0 (n - d) else n)) (like_counts (t_posts (master w)))"
    using step [OF Cons.prems] by blast
  have "max 0 ((if k = i \<and> 0 < d then max 0 (n - d) else n) - delta_for ds i)
      = max 0 (n - delta_for ((k, d) # ds) i)" for i n
    using delta_for_nonneg [of ds i] by auto
  then show ?case
    using Cons.IH [OF w1(1,3)] w1(2,4) by (simp add: kd comp_def case_prod_unfold)
qed

text \<open>Whatever a statement answers, the pairs afterwards are those before or those it asks for.\<close>

lemma likes_insert_effect:
  assumes "likes_BatchInsert rt db c rows w = (res, w')" "likes_unique (t_likes (master w))"
  shows "like_pairs (t_likes (master w')) = like_pairs (t_likes (master w))
      \<or> like_pairs (t_likes (master w')) = like_pairs (t_likes (master w)) \<union> like_pairs rows"
    "likes_unique (t_likes (master w'))"
    "res = Inr n \<Longrightarrow> 0 < n \<Longrightarrow>
       like_pairs (t_likes (master w')) = like_pairs (t_likes (master w)) \<union> like_pairs rows"
proof -
  have fin: "(like_pairs (t_likes (master w')) = like_pairs (t_likes (master w))
      \<or> like_pairs (t_likes (master w')) = like_pairs (t_likes (master w)) \<union> like_pairs rows)
      \<and> likes_unique (t_likes (master w'))"
  proof (cases "rows = []")
    case True
    then show ?thesis using assms by (auto simp: likes_BatchInsert_def)
  next
    case False
    obtain now w1 where 1: "rt_now rt w = (now, w1)" by fastforce
    define args where "args = map (\<lambda>r. r\<lparr>l_CreatedAt := stamp now (l_CreatedAt r)\<rparr>) rows"
    obtain r where r: "db (InsertIgnoreLikes args) w1 = (r, w')"
      using assms 1 False
      by (auto simp: likes_BatchInsert_def args_def Let_def split: prod.splits sqlreply.splits)
    have same: "t_likes (master w1) = t_likes (master w)"
      using now_frame [OF 1] by (auto simp: tables_def)
    have pa: "like_pairs args = like_pairs rows"
      by (simp add: args_def like_pairs_def image_image)
    obtain d g where e: "master w' = advance d g (master w1)
        \<or> master w' = snd (dml (InsertIgnoreLikes args) (advance d g (master w1)))"
      by (rule sql_write_effect [OF r]) auto
    have "t_likes (snd (dml (InsertIgnoreLikes args) s)) = fst (insert_ignore args (t_likes s, db_next s TLikes))" for s
      using dml_InsertIgnoreLikes by (metis prod.collapse)
    with e same pa assms(2) show ?thesis
      by (auto simp: insert_ignore_pairs insert_ignore_unique simp del: dml.simps)
  qed
  then show "like_pairs (t_likes (master w')) = like_pairs (t_likes (master w))
      \<or> like_pairs (t_likes (master w')) = like_pairs (t_likes (master w)) \<union> like_pairs rows"
    "likes_unique (t_likes (master w'))" by blast+
  show "like_pairs (t_likes (master w')) = like_pairs (t_likes (master w)) \<union> like_pairs rows"
    if "res = Inr n"
  proof -
    note ins = likes_insert(1) [OF assms(1) [unfolded that]]
    obtain args nxt where "map pair_of args = map pair_of rows"
        "t_likes (master w') = fst (insert_ignore args (t_likes (master w), nxt))"
      using ins by blast
    then show ?thesis by (simp add: insert_ignore_pairs) (simp add: like_pairs_alt)
  qed
qed

lemma likes_delete_effect:
  assumes "likes_BatchDelete db c ps w = (res, w')" "likes_unique (t_likes (master w))"
  shows "like_pairs (t_likes (master w')) = like_pairs (t_likes (master w))
      \<or> like_pairs (t_likes (master w')) = like_pairs (t_likes (master w)) - pairs_of ps"
    "likes_unique (t_likes (master w'))"
    "res = Inr n \<Longrightarrow>
       like_pairs (t_likes (master w')) = like_pairs (t_likes (master w)) - pairs_of ps"
proof -
  have sub: "like_pairs (filter (\<lambda>r. pair_of r \<notin> S) xs) = like_pairs xs - S" for S xs
    by (auto simp: like_pairs_alt)
  have un: "likes_unique (filter P xs)" if "likes_unique xs" for P xs
    using that by (simp add: likes_unique_def distinct_map_filter)
  have fin: "(like_pairs (t_likes (master w')) = like_pairs (t_likes (master w))
      \<or> like_pairs (t_likes (master w')) = like_pairs (t_likes (master w)) - pairs_of ps)
      \<and> likes_unique (t_likes (master w'))"
  proof (cases "ps = []")
    case True
    then show ?thesis using assms by (auto simp: likes_BatchDelete_def)
  next
    case False
    obtain r where r: "db (DeleteLikes (pair_in ps)) w = (r, w')"
      using assms False by (auto simp: likes_BatchDelete_def split: prod.splits sqlreply.splits)
    obtain d g where e: "master w' = advance d g (master w)
        \<or> master w' = snd (dml (DeleteLikes (pair_in ps)) (advance d g (master w)))"
      by (rule sql_write_effect [OF r]) auto
    then show ?thesis using assms(2) by (auto simp: pair_in_iff sub un)
  qed
  then show "like_pairs (t_likes (master w')) = like_pairs (t_likes (master w))
      \<or> like_pairs (t_likes (master w')) = like_pairs (t_likes (master w)) - pairs_of ps"
    "likes_unique (t_likes (master w'))" by blast+
  show "like_pairs (t_likes (master w')) = like_pairs (t_likes (master w)) - pairs_of ps"
    if "res = Inr n"
    unfolding likes_delete(1) [OF assms(1) [unfolded that]] by (rule sub)
qed

lemma likes_counts_keep_likes:
  "likes_IncrPostLikeCount db c ds w = (r, w') \<Longrightarrow> t_likes (master w') = t_likes (master w)"
  "likes_DecrPostLikeCount db c ds w = (r', w') \<Longrightarrow> t_likes (master w') = t_likes (master w)"
proof -
  note k = update_posts_keeps_likes
  show "likes_IncrPostLikeCount db c ds w = (r, w') \<Longrightarrow> t_likes (master w') = t_likes (master w)"
  proof (induction ds arbitrary: w)
    case (Cons kd ds)
    obtain i d where kd: "kd = (i, d)" by fastforce
    obtain r0 w1 where r0: "db (UpdatePosts (\<lambda>p. p_ID p = i) (incr_like_count d)) w = (r0, w1)" by fastforce
    show ?case using Cons k [OF r0] r0 kd by (auto split: if_splits sqlreply.splits)
  qed simp
  show "likes_DecrPostLikeCount db c ds w = (r', w') \<Longrightarrow> t_likes (master w') = t_likes (master w)"
  proof (induction ds arbitrary: w)
    case (Cons kd ds)
    obtain i d where kd: "kd = (i, d)" by fastforce
    obtain r0 w1 where r0: "db (UpdatePosts (\<lambda>p. p_ID p = i) (decr_like_count d)) w = (r0, w1)" by fastforce
    show ?case using Cons k [OF r0] r0 kd by (auto split: if_splits sqlreply.splits)
  qed simp
qed

end

end
