(* ===== verification/ConsumerLoop.thy ===== *)
theory ConsumerLoop
  imports ChannelBus "HOL-Library.Sublist"
begin

text \<open>
  What the consumers of internal/consumer share: DrainChan (helper.go), and the send of their
  handlers, a select between the internal event channel and the Done channel of the context
  that was passed to Start.  That context is the one whose cancellation starts the shutdown:
  the handlers capture it, so they see it cancelled even when the bus calls them with
  context.Background() while it drains.
\<close>

fun DrainChan :: "('a \<Rightarrow> 's \<Rightarrow> 's) \<Rightarrow> 'a list \<Rightarrow> 's \<Rightarrow> 's" where
  "DrainChan fn [] s = s"
| "DrainChan fn (x # xs) s = DrainChan fn xs (fn x s)"

lemma DrainChan_fold: "DrainChan fn xs s = fold fn xs s"
  by (induction xs arbitrary: s) auto

text \<open>
  The state a handler sends into: the events sent so far in order, whether the context of
  Start is cancelled, and the outcomes of the scheduler for the coming selects: whether the
  channel has room at that moment, and which ready case the runtime picks.  Without room the
  send waits for the flush loop, unless the context is cancelled.
\<close>

record 'e inbox =
  ib_sent :: "'e list"
  ib_done :: bool
  ib_sched :: "(bool \<times> bool) list"

definition next_sched :: "'e inbox \<Rightarrow> (bool \<times> bool) \<times> 'e inbox" where
  "next_sched s = (case ib_sched s of [] \<Rightarrow> ((True, True), s) | x # xs \<Rightarrow> (x, s\<lparr>ib_sched := xs\<rparr>))"

definition select_send :: "'e \<Rightarrow> 'e inbox \<Rightarrow> 'e inbox" where
  "select_send x s =
     (case next_sched s of ((room, pick_send), s1) \<Rightarrow>
        if ib_done s1 \<and> (\<not> room \<or> \<not> pick_send) then s1
        else s1\<lparr>ib_sent := ib_sent s1 @ [x]\<rparr>)"

lemma select_send_done [simp]: "ib_done (select_send x s) = ib_done s"
  by (auto simp: select_send_def next_sched_def split: list.splits prod.splits)

lemma select_send_live: "\<not> ib_done s \<Longrightarrow> ib_sent (select_send x s) = ib_sent s @ [x]"
  by (auto simp: select_send_def next_sched_def split: list.splits prod.splits)

text \<open>The handler of a topic: decode the payload, turn it into an event, send it; never an error.\<close>

definition topic_handler ::
  "(json \<Rightarrow> 'p result) \<Rightarrow> ('p \<Rightarrow> 'e) \<Rightarrow> 'e inbox handler" where
  "topic_handler decode mk payload s =
     (case decode payload of
        Inl e \<Rightarrow> (None, s)
      | Inr p \<Rightarrow> (None, select_send (mk p) s))"

lemma topic_handler_simps:
  "decode j = Inl e \<Longrightarrow> topic_handler decode mk j s = (None, s)"
  "decode j = Inr p \<Longrightarrow> topic_handler decode mk j s = (None, select_send (mk p) s)"
  by (simp_all add: topic_handler_def)

definition decoded :: "(json \<Rightarrow> 'p result) \<Rightarrow> ('p \<Rightarrow> 'e) \<Rightarrow> json list \<Rightarrow> 'e list" where
  "decoded decode mk payloads =
     concat (map (\<lambda>j. case decode j of Inl e \<Rightarrow> [] | Inr p \<Rightarrow> [mk p]) payloads)"

lemma decoded_simps [simp]:
  "decoded decode mk [] = []"
  "decoded decode mk (j # js) =
     (case decode j of Inl e \<Rightarrow> [] | Inr p \<Rightarrow> [mk p]) @ decoded decode mk js"
  by (simp_all add: decoded_def)

text \<open>As long as the context is live, every decodable payload is sent, in order.\<close>

lemma drain_live:
  "\<not> ib_done s \<Longrightarrow>
     ib_sent (drain (topic_handler decode mk) js s) = ib_sent s @ decoded decode mk js"
  by (induction js arbitrary: s)
    (auto simp: topic_handler_simps select_send_live split: sum.splits)

text \<open>
  Once it is cancelled, which events survive is up to the scheduler: every subsequence of the
  events can be what is left, the empty one included.
\<close>

lemma drain_done:
  assumes "subseq ys (decoded decode mk js)"
  shows "\<exists>sched. ib_sent (drain (topic_handler decode mk) js
                  \<lparr>ib_sent = zs, ib_done = True, ib_sched = sched\<rparr>) = zs @ ys"
  using assms
proof (induction js arbitrary: ys zs)
  case Nil
  then show ?case by simp
next
  case (Cons j js)
  show ?case
  proof (cases "decode j")
    case (Inl e)
    with Cons show ?thesis by (auto simp: topic_handler_simps)
  next
    case (Inr p)
    consider (drop) "subseq ys (decoded decode mk js)"
      | (keep) ys' where "ys = mk p # ys'" "subseq ys' (decoded decode mk js)"
      using Cons.prems Inr by (cases ys) (auto split: if_splits)
    then show ?thesis
    proof cases
      case drop
      then obtain sched where
        "ib_sent (drain (topic_handler decode mk) js
           \<lparr>ib_sent = zs, ib_done = True, ib_sched = sched\<rparr>) = zs @ ys"
        using Cons.IH by blast
      then show ?thesis
        using Inr by (intro exI [of _ "(True, False) # sched"])
          (simp add: topic_handler_simps select_send_def next_sched_def)
    next
      case keep
      then obtain sched where
        "ib_sent (drain (topic_handler decode mk) js
           \<lparr>ib_sent = zs @ [mk p], ib_done = True, ib_sched = sched\<rparr>) = (zs @ [mk p]) @ ys'"
        using Cons.IH by blast
      then show ?thesis
        using Inr keep by (intro exI [of _ "(True, True) # sched"])
          (simp add: topic_handler_simps select_send_def next_sched_def)
    qed
  qed
qed

text \<open>A map of counters, as the list of its entries.\<close>

fun bump_count :: "int \<Rightarrow> int \<Rightarrow> (int \<times> int) list \<Rightarrow> (int \<times> int) list" where
  "bump_count k d [] = [(k, d)]"
| "bump_count k d ((k', n) # kvs) = (if k' = k then (k', n + d) # kvs else (k', n) # bump_count k d kvs)"

definition lookup_count :: "(int \<times> int) list \<Rightarrow> int \<Rightarrow> int" where
  "lookup_count kvs k = (case map_of kvs k of None \<Rightarrow> 0 | Some n \<Rightarrow> n)"

lemma bump_count_keys: "set (map fst (bump_count k d kvs)) = insert k (set (map fst kvs))"
  by (induction k d kvs rule: bump_count.induct) auto

lemma bump_count_distinct: "distinct (map fst kvs) \<Longrightarrow> distinct (map fst (bump_count k d kvs))"
proof (induction k d kvs rule: bump_count.induct)
  case (2 k d k' n kvs)
  then show ?case using bump_count_keys [of k d kvs] by auto
qed simp

lemma lookup_bump_count [simp]:
  "lookup_count (bump_count k d kvs) k' = lookup_count kvs k' + (if k' = k then d else 0)"
  by (induction kvs) (auto simp: lookup_count_def)

lemma sum_bump_count: "sum_list (map snd (bump_count k d kvs)) = sum_list (map snd kvs) + d"
  by (induction kvs) auto

lemma lookup_count_Nil [simp]: "lookup_count [] k = 0"
  by (simp add: lookup_count_def)

section \<open>The flush loops\<close>

text \<open>
  What the select of a flush loop sees, one after the other: an event, a tick of the ticker, or
  the cancellation, with the events then left in the channel.
\<close>

datatype 'e loop_input = Ev 'e | Tick | Done "'e list"

fun loop_events :: "'e loop_input list \<Rightarrow> 'e list" where
  "loop_events [] = []"
| "loop_events (Ev e # is) = e # loop_events is"
| "loop_events (Tick # is) = loop_events is"
| "loop_events (Done rest # is) = rest"

text \<open>
  The loop the batching consumers share, over the way an event is added to the buffer, the test
  for an early flush, the test for anything to flush, and the flush; the flush at the
  cancellation runs with a background context (the argument True).
\<close>

fun consumer_loop ::
  "('e \<Rightarrow> 'b \<Rightarrow> 'b) \<Rightarrow> ('b \<Rightarrow> bool) \<Rightarrow> ('b \<Rightarrow> bool) \<Rightarrow> 'b \<Rightarrow> (bool \<Rightarrow> 'b \<Rightarrow> 'w \<Rightarrow> 'w)
     \<Rightarrow> 'e loop_input list \<Rightarrow> 'b \<Rightarrow> 'w \<Rightarrow> 'b \<times> 'w" where
  "consumer_loop add full pending start fl [] b w = (b, w)"
| "consumer_loop add full pending start fl (Ev e # is) b w =
     (let b' = add e b
      in if full b' then consumer_loop add full pending start fl is start (fl False b' w)
         else consumer_loop add full pending start fl is b' w)"
| "consumer_loop add full pending start fl (Tick # is) b w =
     (if pending b then consumer_loop add full pending start fl is start (fl False b w)
      else consumer_loop add full pending start fl is b w)"
| "consumer_loop add full pending start fl (Done rest # is) b w =
     (let b' = DrainChan add rest b
      in if pending b' then (start, fl True b' w) else (b', w))"

text \<open>A buffer is the events added since it was empty, and pending tells whether there are any.\<close>

locale flush_buffer =
  fixes add :: "'e \<Rightarrow> 'b \<Rightarrow> 'b" and pending :: "'b \<Rightarrow> bool" and start :: 'b
  assumes pending_iff: "pending (fold add es start) \<longleftrightarrow> es \<noteq> []"
begin

text \<open>A batch that was just flushed goes in front of those of the rest of the run.\<close>

lemma batch_flushed:
  assumes "es \<noteq> []" and "\<exists>batches rest. concat (map snd batches) @ rest = [] @ loop_events is
     \<and> consumer_loop add full pending start fl is (fold add [] start) (fl bg (fold add es start) w)
         = (fold add rest start, fold (\<lambda>(bg, es). fl bg (fold add es start)) batches (fl bg (fold add es start) w))
     \<and> [] \<notin> snd ` set batches
     \<and> ((\<exists>left. Done left \<in> set is) \<longrightarrow> rest = [])"
  shows "\<exists>batches rest. concat (map snd batches) @ rest = es @ loop_events is
     \<and> consumer_loop add full pending start fl is start (fl bg (fold add es start) w)
         = (fold add rest start, fold (\<lambda>(bg, es). fl bg (fold add es start)) batches w)
     \<and> [] \<notin> snd ` set batches
     \<and> ((\<exists>left. Done left \<in> set is) \<longrightarrow> rest = [])"
proof -
  let ?w = "fl bg (fold add es start) w"
  from assms(2) obtain bs rest where "concat (map snd bs) @ rest = loop_events is"
    "consumer_loop add full pending start fl is start ?w
       = (fold add rest start, fold (\<lambda>(bg, es). fl bg (fold add es start)) bs ?w)"
    "[] \<notin> snd ` set bs" "(\<exists>left. Done left \<in> set is) \<longrightarrow> rest = []" by auto
  with assms(1) show ?thesis by (intro exI [of _ "(bg, es) # bs"] exI [of _ rest]) simp
qed

lemma loop_batches:
  "\<exists>batches rest. concat (map snd batches) @ rest = es0 @ loop_events is
     \<and> consumer_loop add full pending start fl is (fold add es0 start) w
         = (fold add rest start, fold (\<lambda>(bg, es). fl bg (fold add es start)) batches w)
     \<and> [] \<notin> snd ` set batches
     \<and> ((\<exists>left. Done left \<in> set is) \<longrightarrow> rest = [])"
proof (induction "is" arbitrary: es0 w)
  case Nil
  show ?case by (intro exI [of _ "[]"] exI [of _ es0]) simp
next
  case (Cons i "is")
  show ?case
  proof (cases i)
    case (Ev e)
    show ?thesis
    proof (cases "full (fold add (es0 @ [e]) start)")
      case True
      from batch_flushed [OF _ Cons.IH [of "[]"], of "es0 @ [e]" False w] show ?thesis using Ev True by simp
    next
      case False
      with Cons.IH [of "es0 @ [e]" w] Ev show ?thesis by simp
    qed
  next
    case Tick
    show ?thesis
    proof (cases "es0 = []")
      case True
      with Cons.IH [of "[]" w] Tick pending_iff [of "[]"] show ?thesis by simp
    next
      case False
      from batch_flushed [OF this Cons.IH [of "[]"], of False w] show ?thesis
        using Tick False pending_iff [of es0] by simp
    qed
  next
    case (Done left)
    have d: "DrainChan add left (fold add es0 start) = fold add (es0 @ left) start"
      by (simp add: DrainChan_fold)
    show ?thesis
    proof (cases "es0 @ left = []")
      case True
      with Done pending_iff [of "[]"] show ?thesis
        by (intro exI [of _ "[]"] exI [of _ "[]"]) (simp del: DrainChan.simps add: DrainChan_fold)
    next
      case False
      with Done d pending_iff [of "es0 @ left"] show ?thesis
        by (intro exI [of _ "[(True, es0 @ left)]"] exI [of _ "[]"]) simp
    qed
  qed
qed

end

end
