(* ===== verification/LikeConsumer.thy ===== *)
theory LikeConsumer
  imports LikeRepository ConsumerLoop
begin

text \<open>
  internal/consumer/like_consumer.go: the handlers of the two topics, the flush loop, and the
  flush that writes a batch to the likes table and to posts.like_count.  The order in which Go
  ranges over a map is a parameter (iter), of which only that it is a permutation is ever used.
\<close>

datatype likeAction = actionLike | actionUnlike

record likeBatchEvent =
  lb_action :: likeAction
  lb_userID :: int
  lb_postID :: int

record 'w LikeConsumer =
  lco_likeRepo :: "'w LikeRepository"
  lco_batchSize :: nat
  lco_flushInterval :: int

section \<open>Handlers\<close>

definition like_batch :: "LikeEvent \<Rightarrow> likeBatchEvent" where
  "like_batch p = \<lparr>lb_action = actionLike, lb_userID = le_UserID p, lb_postID = le_PostID p\<rparr>"

definition unlike_batch :: "UnlikeEvent \<Rightarrow> likeBatchEvent" where
  "unlike_batch p = \<lparr>lb_action = actionUnlike, lb_userID = ue_UserID p, lb_postID = ue_PostID p\<rparr>"

definition like_handler :: "likeBatchEvent inbox handler" where
  "like_handler = topic_handler LikeEvent_of_json like_batch"

definition unlike_handler :: "likeBatchEvent inbox handler" where
  "unlike_handler = topic_handler UnlikeEvent_of_json unlike_batch"

section \<open>Scaling of the deltas\<close>

text \<open>The inner loop of the insertion sort moves bucket j to the left past smaller ones.\<close>

fun sift :: "nat \<Rightarrow> (int \<times> int) list \<Rightarrow> (int \<times> int) list" where
  "sift 0 bs = bs"
| "sift (Suc j) bs =
     (if snd (bs ! Suc j) > snd (bs ! j) then sift j (bs[Suc j := bs ! j, j := bs ! Suc j]) else bs)"

definition sort_buckets :: "(int \<times> int) list \<Rightarrow> (int \<times> int) list" where
  "sort_buckets bs = fold sift [1..<length bs] bs"

fun distribute :: "int \<Rightarrow> int \<Rightarrow> (int \<times> int) list \<Rightarrow> int \<Rightarrow> (int \<times> int) list" where
  "distribute real raw [] remaining = []"
| "distribute real raw (b # bs) remaining =
     (let d = (if bs = [] then remaining
               else let d0 = snd b * real div raw in if d0 > remaining then remaining else d0);
          out = (if d > 0 then [(fst b, d)] else []);
          remaining' = remaining - d
      in if remaining' \<le> 0 then out else out @ distribute real raw bs remaining')"

definition scaleDeltas ::
  "((int \<times> int) list \<Rightarrow> (int \<times> int) list) \<Rightarrow> (int \<times> int) list \<Rightarrow> int \<Rightarrow> int \<Rightarrow> (int \<times> int) list" where
  "scaleDeltas iter perPost raw real =
     (if real \<le> 0 then []
      else if real \<ge> raw then perPost
      else distribute real raw (sort_buckets (iter perPost)) real)"

section \<open>Flush\<close>

fun stamp_likes :: "'w runtime \<Rightarrow> likeBatchEvent list \<Rightarrow> 'w \<Rightarrow> Like list \<times> 'w" where
  "stamp_likes rt [] w = ([], w)"
| "stamp_likes rt (e # es) w =
     (case rt_now rt w of (now, w1) \<Rightarrow>
      (case stamp_likes rt es w1 of (rows, w2) \<Rightarrow>
         (\<lparr>l_ID = 0, l_UserID = lb_userID e, l_PostID = lb_postID e, l_CreatedAt = now\<rparr> # rows, w2)))"

definition per_post :: "likeBatchEvent list \<Rightarrow> (int \<times> int) list" where
  "per_post es = fold (\<lambda>e. bump_count (lb_postID e) 1) es []"

definition flush_likes ::
  "'w runtime \<Rightarrow> ((int \<times> int) list \<Rightarrow> (int \<times> int) list) \<Rightarrow> 'w LikeConsumer \<Rightarrow> ctx
     \<Rightarrow> likeBatchEvent list \<Rightarrow> 'w \<Rightarrow> int \<times> 'w" where
  "flush_likes rt iter c cx likeBuf w =
     (if likeBuf = [] then (0, w)
      else (case stamp_likes rt likeBuf w of (rows, w1) \<Rightarrow>
           (case lk_BatchInsert (lco_likeRepo c) cx rows w1 of
              (Inl e, w2) \<Rightarrow> (0, w2)
            | (Inr realInserts, w2) \<Rightarrow>
                (let scaled = scaleDeltas iter (per_post likeBuf) (int (length rows)) realInserts
                 in (realInserts, snd (lk_IncrPostLikeCount (lco_likeRepo c) cx (iter scaled) w2))))))"

definition flush_unlikes ::
  "((int \<times> int) list \<Rightarrow> (int \<times> int) list) \<Rightarrow> 'w LikeConsumer \<Rightarrow> ctx
     \<Rightarrow> likeBatchEvent list \<Rightarrow> 'w \<Rightarrow> int \<times> 'w" where
  "flush_unlikes iter c cx unlikeBuf w =
     (if unlikeBuf = [] then (0, w)
      else (let pairs = map (\<lambda>e. \<lparr>up_UserID = lb_userID e, up_PostID = lb_postID e\<rparr>) unlikeBuf
            in case lk_BatchDelete (lco_likeRepo c) cx pairs w of
                 (Inl e, w1) \<Rightarrow> (0, w1)
               | (Inr realDeletes, w1) \<Rightarrow>
                   (let scaled = scaleDeltas iter (per_post unlikeBuf) (int (length pairs)) realDeletes
                    in (realDeletes, snd (lk_DecrPostLikeCount (lco_likeRepo c) cx (iter scaled) w1)))))"

text \<open>Likes first, then unlikes; both buffers are emptied whatever happened.\<close>

definition flushWithCtx ::
  "'w runtime \<Rightarrow> ((int \<times> int) list \<Rightarrow> (int \<times> int) list) \<Rightarrow> 'w LikeConsumer \<Rightarrow> ctx
     \<Rightarrow> likeBatchEvent list \<Rightarrow> likeBatchEvent list \<Rightarrow> 'w \<Rightarrow> int \<times> 'w" where
  "flushWithCtx rt iter c cx likeBuf unlikeBuf w =
     (case flush_likes rt iter c cx likeBuf w of
        (n1, w1) \<Rightarrow> (case flush_unlikes iter c cx unlikeBuf w1 of (n2, w2) \<Rightarrow> (n1 + n2, w2)))"

section \<open>The flush loop\<close>

type_synonym like_buffers = "likeBatchEvent list \<times> likeBatchEvent list"

definition buffer_event :: "likeBatchEvent \<Rightarrow> like_buffers \<Rightarrow> like_buffers" where
  "buffer_event e bufs =
     (case lb_action e of
        actionLike \<Rightarrow> (fst bufs @ [e], snd bufs)
      | actionUnlike \<Rightarrow> (fst bufs, snd bufs @ [e]))"

text \<open>The loop over any flush: early when a buffer alone reaches the batch size.\<close>

definition flushLoop ::
  "(bool \<Rightarrow> like_buffers \<Rightarrow> 'w \<Rightarrow> 'w) \<Rightarrow> nat \<Rightarrow> likeBatchEvent loop_input list \<Rightarrow> like_buffers \<Rightarrow> 'w
     \<Rightarrow> like_buffers \<times> 'w" where
  "flushLoop fl n =
     consumer_loop buffer_event (\<lambda>b. length (fst b) \<ge> n \<or> length (snd b) \<ge> n)
       (\<lambda>b. fst b \<noteq> [] \<or> snd b \<noteq> []) ([], []) fl"

definition LikeConsumer_flush ::
  "'w runtime \<Rightarrow> ((int \<times> int) list \<Rightarrow> (int \<times> int) list) \<Rightarrow> 'w LikeConsumer \<Rightarrow> ctx
     \<Rightarrow> bool \<Rightarrow> like_buffers \<Rightarrow> 'w \<Rightarrow> 'w" where
  "LikeConsumer_flush rt iter c cx background bufs w =
     snd (flushWithCtx rt iter c (if background then Background else cx) (fst bufs) (snd bufs) w)"

section \<open>Facts on the sort and the scaling\<close>

abbreviation by_count :: "(int \<times> int) \<Rightarrow> (int \<times> int) \<Rightarrow> bool" where
  "by_count a b \<equiv> snd a \<ge> snd b"

lemma mset_sift: "j < length bs \<Longrightarrow> mset (sift j bs) = mset bs \<and> length (sift j bs) = length bs"
proof (induction j bs rule: sift.induct)
  case (2 j bs)
  have "mset (bs[Suc j := bs ! j, j := bs ! Suc j]) = mset bs"
    using 2(2) mset_swap [of j bs "Suc j"] by simp
  with 2 show ?case by simp
qed simp

lemma sift_above: "j < length bs \<Longrightarrow> drop (Suc j) (sift j bs) = drop (Suc j) bs"
proof (induction j bs rule: sift.induct)
  case (2 j bs)
  show ?case
  proof (cases "snd (bs ! Suc j) > snd (bs ! j)")
    case True
    let ?ys = "bs[Suc j := bs ! j, j := bs ! Suc j]"
    have "drop (Suc j) (sift j ?ys) = drop (Suc j) ?ys" using 2 True by simp
    then have "drop 1 (drop (Suc j) (sift j ?ys)) = drop 1 (drop (Suc j) ?ys)" by simp
    then show ?thesis using True by (simp add: drop_update_cancel)
  qed simp
qed simp

lemma sift_sorted:
  "j < length bs \<Longrightarrow> sorted_wrt by_count (take j bs) \<Longrightarrow> sorted_wrt by_count (take (Suc j) (sift j bs))"
proof (induction j bs rule: sift.induct)
  case (1 bs)
  then show ?case by (cases bs) auto
next
  case (2 j bs)
  have tk: "take (Suc j) bs = take j bs @ [bs ! j]"
    using 2(2) by (simp add: take_Suc_conv_app_nth)
  have ge: "\<forall>x\<in>set (take j bs). snd x \<ge> snd (bs ! j)" and st: "sorted_wrt by_count (take j bs)"
    using 2(3) unfolding tk by (auto simp: sorted_wrt_append)
  show ?case
  proof (cases "snd (bs ! Suc j) > snd (bs ! j)")
    case False
    have "take (Suc (Suc j)) bs = take (Suc j) bs @ [bs ! Suc j]"
      using 2(2) by (simp add: take_Suc_conv_app_nth)
    with False ge st show ?thesis
      by (auto simp: sorted_wrt_append tk)
  next
    case True
    let ?ys = "bs[Suc j := bs ! j, j := bs ! Suc j]"
    have len: "j < length ?ys" using 2(2) by simp
    have so: "sorted_wrt by_count (take (Suc j) (sift j ?ys))"
      by (rule 2(1) [OF True len]) (use st in simp)
    have dr: "drop (Suc j) (sift j ?ys) = drop (Suc j) ?ys" by (rule sift_above [OF len])
    have l: "length (sift j ?ys) = length bs" using mset_sift [OF len] by simp
    have nth: "sift j ?ys ! Suc j = bs ! j"
      using dr 2(2) l by (metis hd_drop_conv_nth length_list_update nth_list_update_eq nth_list_update_neq n_not_Suc_n)
    have ms: "mset (take (Suc j) (sift j ?ys)) = mset (take (Suc j) ?ys)"
      using mset_sift [OF len] dr
      by (metis append_take_drop_id mset_append add_right_cancel)
    have "set (take (Suc j) (sift j ?ys)) = insert (bs ! Suc j) (set (take j bs))"
      using mset_eq_setD [OF ms] 2(2) by (simp add: take_Suc_conv_app_nth)
    then have "\<forall>x\<in>set (take (Suc j) (sift j ?ys)). snd x \<ge> snd (bs ! j)"
      using ge True by auto
    moreover have "take (Suc (Suc j)) (sift j ?ys) = take (Suc j) (sift j ?ys) @ [bs ! j]"
      using 2(2) l nth by (simp add: take_Suc_conv_app_nth)
    ultimately show ?thesis using so True by (simp add: sorted_wrt_append)
  qed
qed

lemma sort_buckets_upto:
  "i \<le> length bs \<Longrightarrow> 0 < i \<Longrightarrow>
     mset (fold sift [1..<i] bs) = mset bs \<and> length (fold sift [1..<i] bs) = length bs
     \<and> sorted_wrt by_count (take i (fold sift [1..<i] bs))"
proof (induction i)
  case (Suc i)
  show ?case
  proof (cases "i = 0")
    case True
    with Suc.prems show ?thesis by (cases bs) auto
  next
    case False
    with Suc have IH: "mset (fold sift [1..<i] bs) = mset bs" "length (fold sift [1..<i] bs) = length bs"
      "sorted_wrt by_count (take i (fold sift [1..<i] bs))" by auto
    have "i < length (fold sift [1..<i] bs)" using Suc.prems IH(2) by simp
    from mset_sift [OF this] sift_sorted [OF this IH(3)] IH False show ?thesis by simp
  qed
qed simp

lemma sort_buckets_facts:
  "mset (sort_buckets bs) = mset bs" "sorted_wrt by_count (sort_buckets bs)"
proof -
  have "mset (sort_buckets bs) = mset bs \<and> sorted_wrt by_count (sort_buckets bs)"
  proof (cases "bs = []")
    case False
    have "take (length bs) xs = xs" if "length xs = length bs" for xs :: "(int \<times> int) list"
      using that by simp
    with sort_buckets_upto [of "length bs" bs] False show ?thesis
      by (auto simp: sort_buckets_def)
  qed (simp add: sort_buckets_def)
  then show "mset (sort_buckets bs) = mset bs" "sorted_wrt by_count (sort_buckets bs)" by blast+
qed

lemma distribute_sum:
  assumes "bs \<noteq> []" "0 < remaining" "\<forall>b\<in>set bs. 0 \<le> snd b" "0 \<le> real" "0 < raw"
  shows "sum_list (map snd (distribute real raw bs remaining)) = remaining"
  using assms
proof (induction bs arbitrary: remaining)
  case (Cons b bs)
  have nn: "0 \<le> snd b * real div raw" using Cons.prems by (simp add: pos_imp_zdiv_nonneg_iff)
  show ?case
  proof (cases "bs = []")
    case True
    with Cons.prems show ?thesis by simp
  next
    case False
    define d where "d = (let d0 = snd b * real div raw in if d0 > remaining then remaining else d0)"
    have d: "0 \<le> d" "d \<le> remaining" using nn Cons.prems(2) by (auto simp: d_def Let_def)
    show ?thesis
    proof (cases "remaining - d \<le> 0")
      case True
      with False d Cons.prems(2) show ?thesis by (simp add: d_def Let_def)
    next
      case False
      then have "sum_list (map snd (distribute real raw bs (remaining - d))) = remaining - d"
        using Cons.IH [OF \<open>bs \<noteq> []\<close>] Cons.prems by simp
      with False \<open>bs \<noteq> []\<close> d nn show ?thesis by (auto simp: d_def Let_def)
    qed
  qed
qed simp

lemma distribute_entries:
  "(k, v) \<in> set (distribute real raw bs remaining) \<Longrightarrow> k \<in> fst ` set bs \<and> 0 < v"
  by (induction bs arbitrary: remaining) (auto simp: Let_def split: if_splits)

lemma distribute_keys:
  "distinct (map fst bs) \<Longrightarrow> distinct (map fst (distribute real raw bs remaining))"
proof (induction bs arbitrary: remaining)
  case (Cons b bs)
  have "fst b \<notin> set (map fst (distribute real raw bs r))" for r
    using distribute_entries Cons.prems by fastforce
  with Cons show ?case by (auto simp: Let_def)
qed simp

lemma per_post_fold:
  "distinct (map fst kvs) \<Longrightarrow>
     distinct (map fst (fold (\<lambda>e. bump_count (lb_postID e) 1) es kvs))
     \<and> sum_list (map snd (fold (\<lambda>e. bump_count (lb_postID e) 1) es kvs))
         = sum_list (map snd kvs) + int (length es)
     \<and> set (map fst (fold (\<lambda>e. bump_count (lb_postID e) 1) es kvs)) = set (map fst kvs) \<union> lb_postID ` set es
     \<and> lookup_count (fold (\<lambda>e. bump_count (lb_postID e) 1) es kvs) k
         = lookup_count kvs k + int (length (filter (\<lambda>e. lb_postID e = k) es))"
proof (induction es arbitrary: kvs)
  case (Cons e es)
  from Cons.IH [OF bump_count_distinct [OF Cons.prems]] show ?case
    by (auto simp: sum_bump_count bump_count_keys simp del: set_map)
qed simp

lemma per_post_facts:
  "distinct (map fst (per_post es))" "sum_list (map snd (per_post es)) = int (length es)"
  "set (map fst (per_post es)) = lb_postID ` set es"
  "lookup_count (per_post es) k = int (length (filter (\<lambda>e. lb_postID e = k) es))"
  using per_post_fold [of "[]" es k] by (simp_all add: per_post_def)

lemma per_post_pos:
  assumes "(k, v) \<in> set (per_post es)"
  shows "v = int (length (filter (\<lambda>e. lb_postID e = k) es))" "0 < v"
proof -
  have "map_of (per_post es) k = Some v"
    using assms per_post_facts(1) by simp
  then show v: "v = int (length (filter (\<lambda>e. lb_postID e = k) es))"
    using per_post_facts(4) [of es k] by (simp add: lookup_count_def)
  have "k \<in> lb_postID ` set es"
    using assms per_post_facts(3) [of es] by force
  then have "filter (\<lambda>e. lb_postID e = k) es \<noteq> []"
    by (auto simp: filter_empty_conv)
  with v show "0 < v" by simp
qed

section \<open>The flush on the tables\<close>

definition event_pairs :: "likeBatchEvent list \<Rightarrow> (int \<times> int) set" where
  "event_pairs es = (\<lambda>e. (lb_userID e, lb_postID e)) ` set es"

lemma likes_unique_card: "likes_unique xs \<Longrightarrow> card (like_pairs xs) = length xs"
  using distinct_card [of "map pair_of xs"] by (simp add: likes_unique_def like_pairs_alt)

lemma stamp_likes_map:
  "stamp_likes rt es w = (rows, w') \<Longrightarrow>
     map pair_of rows = map (\<lambda>e. (lb_userID e, lb_postID e)) es"
  by (induction es arbitrary: w rows) (auto simp: pair_of_def split: prod.splits)

lemma stamp_likes_pairs:
  "stamp_likes rt es w = (rows, w') \<Longrightarrow> like_pairs rows = event_pairs es"
  using stamp_likes_map by (fastforce simp: like_pairs_alt event_pairs_def simp del: set_map
    simp flip: set_map)

context platform
begin

lemma stamp_likes_frame:
  "stamp_likes rt es w = (rows, w') \<Longrightarrow> tables (master w') = tables (master w)"
  by (induction es arbitrary: w rows) (auto dest!: now_frame split: prod.splits)

lemma sql_refused:
  assumes "db q w = (r, w')" "read_route q = None" "\<And>s. fst (dml q s) \<noteq> r"
  shows "\<exists>e. r = SqlErr e"
proof -
  obtain d g where "dml q (advance d g (master w)) = (r, master w') \<or> (\<exists>m. r = SqlErr (Plain m))"
    using sql_call [OF assms(1)] assms(2) by auto
  then show ?thesis using assms(3) by (metis fst_conv)
qed

lemma likes_insert_settled:
  assumes "likes_BatchInsert rt db cx rows w = (res, w')" "likes_unique (t_likes (master w))"
  shows "res = Inr n \<Longrightarrow> like_pairs (t_likes (master w')) = like_pairs (t_likes (master w)) \<union> like_pairs rows
      \<and> n = int (card (like_pairs rows - like_pairs (t_likes (master w))))"
    "res = Inl x \<Longrightarrow> \<exists>args w0 e. map pair_of args = map pair_of rows \<and> tables (master w0) = tables (master w)
      \<and> db (InsertIgnoreLikes args) w0 = (SqlErr e, w')"
proof -
  assume res: "res = Inr n"
  obtain args nxt where a: "map pair_of args = map pair_of rows"
      "t_likes (master w') = fst (insert_ignore args (t_likes (master w), nxt))"
      "n = int (length (t_likes (master w'))) - int (length (t_likes (master w)))"
    using likes_insert(1) [OF assms(1) [unfolded res]] by blast
  have "like_pairs args = like_pairs rows" by (metis a(1) like_pairs_alt)
  with a(2) have p: "like_pairs (t_likes (master w')) = like_pairs (t_likes (master w)) \<union> like_pairs rows"
    by (simp add: insert_ignore_pairs)
  have fin: "finite (like_pairs xs)" for xs by (simp add: like_pairs_def)
  have "card (like_pairs (t_likes (master w)) \<union> like_pairs rows)
      = card (like_pairs (t_likes (master w))) + card (like_pairs rows - like_pairs (t_likes (master w)))"
    by (metis Un_Diff_cancel card_Un_disjoint Diff_disjoint fin finite_Diff)
  then have "length (t_likes (master w')) = length (t_likes (master w)) + card (like_pairs rows - like_pairs (t_likes (master w)))"
    using likes_unique_card [OF assms(2)] likes_unique_card [OF likes_insert_effect(2) [OF assms]] p by simp
  with p a(3) show "like_pairs (t_likes (master w')) = like_pairs (t_likes (master w)) \<union> like_pairs rows
      \<and> n = int (card (like_pairs rows - like_pairs (t_likes (master w))))" by simp
next
  assume res: "res = Inl x"
  obtain now w0 where 0: "rt_now rt w = (now, w0)" by fastforce
  define args where "args = map (\<lambda>r. r\<lparr>l_CreatedAt := stamp now (l_CreatedAt r)\<rparr>) rows"
  have "rows \<noteq> []" using assms(1) res by (auto simp: likes_BatchInsert_def)
  then obtain r where r: "db (InsertIgnoreLikes args) w0 = (r, w')" "\<forall>n. r \<noteq> Affected n"
    using assms(1) 0 res by (auto simp: likes_BatchInsert_def args_def Let_def split: prod.splits sqlreply.splits)
  have "fst (dml (InsertIgnoreLikes args) s) \<noteq> r" for s using r(2) by (auto split: prod.splits)
  then have "\<exists>e. r = SqlErr e" by (intro sql_refused [OF r(1)]) simp_all
  moreover have "map pair_of args = map pair_of rows" by (simp add: args_def pair_of_def)
  moreover have "tables (master w0) = tables (master w)" using now_frame [OF 0] by simp
  ultimately show "\<exists>args w0 e. map pair_of args = map pair_of rows \<and> tables (master w0) = tables (master w)
      \<and> db (InsertIgnoreLikes args) w0 = (SqlErr e, w')" using r(1) by metis
qed

lemma likes_delete_settled:
  assumes "likes_BatchDelete db cx ps w = (res, w')" "likes_unique (t_likes (master w))"
  shows "res = Inr n \<Longrightarrow> like_pairs (t_likes (master w')) = like_pairs (t_likes (master w)) - pairs_of ps
      \<and> n = int (card (like_pairs (t_likes (master w)) \<inter> pairs_of ps))"
    "res = Inl x \<Longrightarrow> \<exists>e. db (DeleteLikes (\<lambda>r. pair_of r \<in> pairs_of ps)) w = (SqlErr e, w')"
proof -
  assume res: "res = Inr n"
  have p: "like_pairs (t_likes (master w')) = like_pairs (t_likes (master w)) - pairs_of ps"
    by (rule likes_delete_effect(3) [OF assms res])
  have fin: "finite (like_pairs xs)" for xs by (simp add: like_pairs_def)
  have "card (like_pairs (t_likes (master w)))
      = card (like_pairs (t_likes (master w)) \<inter> pairs_of ps) + card (like_pairs (t_likes (master w)) - pairs_of ps)"
    using card_Un_disjoint [of "like_pairs (t_likes (master w)) \<inter> pairs_of ps" "like_pairs (t_likes (master w)) - pairs_of ps"] fin
    by (simp add: Int_Diff_disjoint Int_Diff_Un)
  then have "int (length (t_likes (master w))) - int (length (t_likes (master w')))
      = int (card (like_pairs (t_likes (master w)) \<inter> pairs_of ps))"
    using likes_unique_card [OF assms(2)] likes_unique_card [OF likes_delete_effect(2) [OF assms]] p by simp
  with p likes_delete(2) [OF assms(1) [unfolded res]]
  show "like_pairs (t_likes (master w')) = like_pairs (t_likes (master w)) - pairs_of ps
      \<and> n = int (card (like_pairs (t_likes (master w)) \<inter> pairs_of ps))" by simp
next
  assume res: "res = Inl x"
  have P: "pair_in ps = (\<lambda>r. pair_of r \<in> pairs_of ps)" by (simp add: fun_eq_iff pair_in_iff)
  have "ps \<noteq> []" using assms(1) res by (auto simp: likes_BatchDelete_def)
  then obtain r where r: "db (DeleteLikes (pair_in ps)) w = (r, w')" "\<forall>n. r \<noteq> Affected n"
    using assms(1) res by (auto simp: likes_BatchDelete_def split: prod.splits sqlreply.splits)
  have "fst (dml (DeleteLikes (pair_in ps)) s) \<noteq> r" for s using r(2) by auto
  then have "\<exists>e. r = SqlErr e" by (intro sql_refused [OF r(1)]) simp_all
  with r(1) show "\<exists>e. db (DeleteLikes (\<lambda>r. pair_of r \<in> pairs_of ps)) w = (SqlErr e, w')" unfolding P by auto
qed

text \<open>
  The two halves of a flush: the statement was answered, and the number is that of the pairs that
  changed, or the database refused exactly that statement and the number is none.
\<close>

lemma flush_likes_effect:
  assumes "lco_likeRepo c = NewLikeRepository rt db" and "likes_unique (t_likes (master w))"
    and "flush_likes rt iter c cx es w = (n, w')"
  shows "like_pairs (t_likes (master w')) = like_pairs (t_likes (master w)) \<union> event_pairs es
        \<and> n = int (card (event_pairs es - like_pairs (t_likes (master w))))
      \<or> n = 0 \<and> (\<exists>args w0 e. map pair_of args = map (\<lambda>e. (lb_userID e, lb_postID e)) es
              \<and> tables (master w0) = tables (master w) \<and> db (InsertIgnoreLikes args) w0 = (SqlErr e, w'))
        \<and> like_pairs (t_likes (master w')) \<in> {like_pairs (t_likes (master w)), like_pairs (t_likes (master w)) \<union> event_pairs es}"
      (is ?settled)
    and "likes_unique (t_likes (master w'))"
proof -
  have "?settled \<and> likes_unique (t_likes (master w'))"
  proof (cases "es = []")
    case True
    then show ?thesis using assms by (auto simp: flush_likes_def event_pairs_def)
  next
    case False
    obtain rows w1 where 1: "stamp_likes rt es w = (rows, w1)" by fastforce
    note t1 = stamp_likes_frame [OF 1]
    then have l1: "t_likes (master w1) = t_likes (master w)" by (simp add: tables_def)
    note pr = stamp_likes_pairs [OF 1] and mp = stamp_likes_map [OF 1]
    obtain r w2 where 2: "likes_BatchInsert rt db cx rows w1 = (r, w2)" by fastforce
    have u1: "likes_unique (t_likes (master w1))" using assms(2) l1 by simp
    note ins = likes_insert_effect [OF 2 u1, unfolded l1 pr] and settled = likes_insert_settled [OF 2 u1, unfolded l1 pr mp t1]
    show ?thesis
    proof (cases r)
      case (Inl e)
      then have "w' = w2" "n = 0"
        using assms(1,3) False 1 2 by (auto simp: flush_likes_def NewLikeRepository_def)
      with ins(1,2) settled(2) [OF Inl] show ?thesis by blast
    next
      case (Inr k)
      define ds where "ds = iter (scaleDeltas iter (per_post es) (int (length rows)) k)"
      have n: "n = k" and "w' = snd (likes_IncrPostLikeCount db cx ds w2)"
        using assms(1,3) False 1 2 Inr by (auto simp: flush_likes_def NewLikeRepository_def Let_def ds_def)
      then have "t_likes (master w') = t_likes (master w2)"
        by (cases "likes_IncrPostLikeCount db cx ds w2") (auto dest: likes_counts_keep_likes(1))
      with ins(2) settled(1) [OF Inr] n show ?thesis by simp
    qed
  qed
  then show ?settled "likes_unique (t_likes (master w'))" by simp_all
qed

lemma flush_unlikes_effect:
  assumes "lco_likeRepo c = NewLikeRepository rt db" and "likes_unique (t_likes (master w))"
    and "flush_unlikes iter c cx es w = (n, w')"
  shows "like_pairs (t_likes (master w')) = like_pairs (t_likes (master w)) - event_pairs es
        \<and> n = int (card (like_pairs (t_likes (master w)) \<inter> event_pairs es))
      \<or> n = 0 \<and> (\<exists>e. db (DeleteLikes (\<lambda>r. pair_of r \<in> event_pairs es)) w = (SqlErr e, w'))
        \<and> like_pairs (t_likes (master w')) \<in> {like_pairs (t_likes (master w)), like_pairs (t_likes (master w)) - event_pairs es}"
      (is ?settled)
    and "likes_unique (t_likes (master w'))"
proof -
  define ps where "ps = map (\<lambda>e. \<lparr>up_UserID = lb_userID e, up_PostID = lb_postID e\<rparr>) es"
  have pr: "pairs_of ps = event_pairs es"
    by (auto simp: ps_def pairs_of_def event_pairs_def image_image)
  have "?settled \<and> likes_unique (t_likes (master w'))"
  proof (cases "es = []")
    case True
    then show ?thesis using assms by (auto simp: flush_unlikes_def event_pairs_def)
  next
    case False
    obtain r w1 where 1: "likes_BatchDelete db cx ps w = (r, w1)" by fastforce
    note del = likes_delete_effect [OF 1 assms(2), unfolded pr] and settled = likes_delete_settled [OF 1 assms(2), unfolded pr]
    show ?thesis
    proof (cases r)
      case (Inl e)
      then have "w' = w1" "n = 0"
        using assms(1,3) False 1 by (auto simp: flush_unlikes_def NewLikeRepository_def ps_def Let_def)
      with del(1,2) settled(2) [OF Inl] show ?thesis by blast
    next
      case (Inr k)
      define ds where "ds = iter (scaleDeltas iter (per_post es) (int (length ps)) k)"
      have n: "n = k" and "w' = snd (likes_DecrPostLikeCount db cx ds w1)"
        using assms(1,3) False 1 Inr by (auto simp: flush_unlikes_def NewLikeRepository_def Let_def ds_def ps_def)
      then have "t_likes (master w') = t_likes (master w1)"
        by (cases "likes_DecrPostLikeCount db cx ds w1") (auto dest: likes_counts_keep_likes(2))
      with del(2) settled(1) [OF Inr] n show ?thesis by simp
    qed
  qed
  then show ?settled "likes_unique (t_likes (master w'))" by simp_all
qed

end

section \<open>Properties\<close>

text \<open>
  C28: Scaling preserves the mass.  For a batch of events and any number of rows the statement
  reported (more than none), in whatever order Go ranges over the map, the scaled deltas add up
  to that number (at most the number of events), they are positive, they concern posts of the
  batch, each once; and when nothing was filtered every post gets exactly its number of events.
\<close>

theorem scale_deltas_mass:
  assumes "\<And>xs. mset (iter xs) = mset xs" and "0 < real"
  shows "sum_list (map snd (scaleDeltas iter (per_post es) (int (length es)) real))
           = min real (int (length es))
      \<and> distinct (map fst (scaleDeltas iter (per_post es) (int (length es)) real))
      \<and> (\<forall>(k, v) \<in> set (scaleDeltas iter (per_post es) (int (length es)) real).
           0 < v \<and> k \<in> lb_postID ` set es
           \<and> (real \<ge> int (length es) \<longrightarrow> v = int (length (filter (\<lambda>e. lb_postID e = k) es))))"
proof -
  let ?bs = "sort_buckets (iter (per_post es))"
  have ms: "mset ?bs = mset (per_post es)"
    using sort_buckets_facts(1) assms(1) by metis
  have set: "set ?bs = set (per_post es)" by (rule mset_eq_setD [OF ms])
  have dist: "distinct (map fst ?bs)"
    using ms per_post_facts(1) [of es] by (metis mset_map mset_eq_imp_distinct_iff)
  have key: "k \<in> lb_postID ` set es" if "(k, v) \<in> set (per_post es)" for k v
    using that per_post_facts(3) [of es] by force
  have "sum_list (map snd (scaleDeltas iter (per_post es) (int (length es)) real))
           = min real (int (length es))"
  proof (cases "real \<ge> int (length es)")
    case True
    then show ?thesis using assms(2) per_post_facts(2) by (simp add: scaleDeltas_def)
  next
    case False
    then have ne: "es \<noteq> []" using assms(2) by auto
    then have "per_post es \<noteq> []" using per_post_facts(3) [of es] by auto
    then have "?bs \<noteq> []" using ms by auto
    moreover have "\<forall>b\<in>set ?bs. 0 \<le> snd b"
      using set per_post_pos(2) by (metis order_less_imp_le prod.collapse)
    ultimately show ?thesis
      using distribute_sum [of ?bs real real "int (length es)"] False assms(2) ne
      by (simp add: scaleDeltas_def)
  qed
  moreover have "distinct (map fst (scaleDeltas iter (per_post es) (int (length es)) real))
      \<and> (\<forall>(k, v) \<in> set (scaleDeltas iter (per_post es) (int (length es)) real).
           0 < v \<and> k \<in> lb_postID ` set es
           \<and> (real \<ge> int (length es) \<longrightarrow> v = int (length (filter (\<lambda>e. lb_postID e = k) es))))"
  proof (cases "real \<ge> int (length es)")
    case True
    then show ?thesis
      using assms(2) per_post_facts(1) per_post_pos key by (auto simp: scaleDeltas_def)
  next
    case False
    have "k \<in> lb_postID ` set es \<and> 0 < v"
      if "(k, v) \<in> set (distribute real (int (length es)) ?bs real)" for k v
      using distribute_entries [OF that] set key by force
    with False assms(2) distribute_keys [OF dist] show ?thesis
      by (auto simp: scaleDeltas_def)
  qed
  ultimately show ?thesis by blast
qed

definition demo_events :: "likeBatchEvent list" where
  "demo_events = map (\<lambda>(u, p). \<lparr>lb_action = actionLike, lb_userID = u, lb_postID = p\<rparr>)
                   [(1, 1), (2, 1), (3, 1), (4, 2), (5, 3)]"

theorem scale_deltas_mass_witness:
  "sum_list (map snd (scaleDeltas rev (per_post demo_events) 5 3)) = 3"
  using scale_deltas_mass [of rev 3 demo_events] by (simp add: demo_events_def)

text \<open>
  The scaled delta of a post can exceed its own events.  The integer remainder goes to the
  last bucket, the smallest: for one event on each of three posts of which two rows landed, one
  of the posts is credited with both, whatever the order of the map.
\<close>

theorem scale_deltas_overshoot:
  assumes "\<And>xs. mset (iter xs) = mset xs" and "p1 \<noteq> p2" "p1 \<noteq> p3" "p2 \<noteq> p3"
    and "es = map (\<lambda>(u, p). \<lparr>lb_action = actionLike, lb_userID = u, lb_postID = p\<rparr>) [(u1, p1), (u2, p2), (u3, p3)]"
  shows "\<exists>k. scaleDeltas iter (per_post es) 3 2 = [(k, 2)]
             \<and> length (filter (\<lambda>e. lb_postID e = k) es) = 1"
proof -
  let ?bs = "sort_buckets (iter (per_post es))"
  have pp: "per_post es = [(p1, 1), (p2, 1), (p3, 1)]"
    using assms(2-) by (simp add: per_post_def)
  have ms: "mset ?bs = mset (per_post es)"
    using sort_buckets_facts(1) assms(1) by metis
  then have "length ?bs = length (per_post es)" by (rule mset_eq_length)
  then have "length ?bs = 3" by (simp add: pp)
  then obtain a b c where bs: "?bs = [a, b, c]"
    by (auto simp: numeral_3_eq_3 length_Suc_conv)
  have s: "set ?bs = set (per_post es)" by (rule mset_eq_setD [OF ms])
  then have "set [a, b, c] = set (per_post es)" unfolding bs .
  then have mem: "x \<in> set [(p1, 1), (p2, 1), (p3, 1)]" if "x \<in> set [a, b, c]" for x
    using that unfolding pp by simp
  have abc: "snd a = 1" "snd b = 1" "snd c = 1" "fst c \<in> {p1, p2, p3}"
    using mem [of a] mem [of b] mem [of c] by auto
  have "scaleDeltas iter (per_post es) 3 2 = [(fst c, 2)]"
  proof -
    obtain i j k where ijk: "a = (i, 1)" "b = (j, 1)" "c = (k, 1)"
      using abc(1-3) by (metis prod.collapse)
    show ?thesis unfolding scaleDeltas_def bs ijk by (simp add: Let_def)
  qed
  moreover have "length (filter (\<lambda>e. lb_postID e = fst c) es) = 1"
    using abc(4) assms(2-) by auto
  ultimately show ?thesis by blast
qed

theorem scale_deltas_overshoot_witness:
  "\<exists>k. scaleDeltas id (per_post (map (\<lambda>(u, p). \<lparr>lb_action = actionLike, lb_userID = u, lb_postID = p\<rparr>)
          [(1, 11), (2, 12), (3, 13)])) 3 2 = [(k, 2)]"
proof -
  have "\<exists>k. scaleDeltas id (per_post (map (\<lambda>(u, p). \<lparr>lb_action = actionLike, lb_userID = u, lb_postID = p\<rparr>)
          [(1, 11), (2, 12), (3, 13)])) 3 2 = [(k, 2)]
      \<and> length (filter (\<lambda>e. lb_postID e = k) (map (\<lambda>(u, p). \<lparr>lb_action = actionLike, lb_userID = u, lb_postID = p\<rparr>)
          [(1, 11), (2, 12), (3, 13)])) = 1"
    by (rule scale_deltas_overshoot [OF _ _ _ _ refl]) simp_all
  then show ?thesis by blast
qed

text \<open>
  C26: A flush on the likes table.  The likes run first and the unlikes on the state they leave, and
  the flush reports the sum of their numbers; uk_user_post is kept.  Each half either ran: then the pairs
  stored are those before with every pair of the like buffer added (with every pair of the
  unlike buffer removed), and its number is that of the pairs which were new (which were there);
  or the database refused exactly its statement, the INSERT of the buffer's pairs or their DELETE:
  then its number is 0 and the pairs are as before or, when the failure came after the fact, as
  if it had run.  So a pair that occurs in both buffers is gone once the delete ran, also when
  the unlike came first and the like last.
\<close>

theorem flush_like_pairs:
  fixes db :: "'w gorm"
  assumes "platform rdb kv db master replica pub sent rt"
    and "lco_likeRepo c = NewLikeRepository rt db" and "likes_unique (t_likes (master w))"
    and "flush_likes rt iter c cx likeBuf w = (n1, w1)" and "flush_unlikes iter c cx unlikeBuf w1 = (n2, w2)"
  shows "flushWithCtx rt iter c cx likeBuf unlikeBuf w = (n1 + n2, w2)
    \<and> likes_unique (t_likes (master w1)) \<and> likes_unique (t_likes (master w2))
    \<and> (like_pairs (t_likes (master w1)) = like_pairs (t_likes (master w)) \<union> event_pairs likeBuf
         \<and> n1 = int (card (event_pairs likeBuf - like_pairs (t_likes (master w))))
       \<or> n1 = 0 \<and> (\<exists>args w0 e. map pair_of args = map (\<lambda>e. (lb_userID e, lb_postID e)) likeBuf
              \<and> tables (master w0) = tables (master w) \<and> db (InsertIgnoreLikes args) w0 = (SqlErr e, w1))
         \<and> like_pairs (t_likes (master w1)) \<in> {like_pairs (t_likes (master w)), like_pairs (t_likes (master w)) \<union> event_pairs likeBuf})
    \<and> (like_pairs (t_likes (master w2)) = like_pairs (t_likes (master w1)) - event_pairs unlikeBuf
         \<and> n2 = int (card (like_pairs (t_likes (master w1)) \<inter> event_pairs unlikeBuf))
       \<or> n2 = 0 \<and> (\<exists>e. db (DeleteLikes (\<lambda>r. pair_of r \<in> event_pairs unlikeBuf)) w1 = (SqlErr e, w2))
         \<and> like_pairs (t_likes (master w2)) \<in> {like_pairs (t_likes (master w1)), like_pairs (t_likes (master w1)) - event_pairs unlikeBuf})"
proof -
  note e1 = platform.flush_likes_effect [OF assms(1-4)]
  note e2 = platform.flush_unlikes_effect [OF assms(1,2) e1(2) assms(5)]
  have "flushWithCtx rt iter c cx likeBuf unlikeBuf w = (n1 + n2, w2)"
    using assms(4,5) by (simp add: flushWithCtx_def)
  with e1 e2 show ?thesis by (intro conjI)
qed

definition doc_like_consumer :: "world LikeConsumer" where
  "doc_like_consumer = \<lparr>lco_likeRepo = NewLikeRepository doc_rt doc_db, lco_batchSize = 50,
                        lco_flushInterval = 3000\<rparr>"

definition like_of :: "likeAction \<Rightarrow> int \<Rightarrow> int \<Rightarrow> likeBatchEvent" where
  "like_of a u p = \<lparr>lb_action = a, lb_userID = u, lb_postID = p\<rparr>"

theorem flush_like_pairs_witness:
  "\<exists>w'. flushWithCtx doc_rt id doc_like_consumer Background
      [like_of actionLike 42 1, like_of actionLike 7 1] [like_of actionUnlike 7 1] demo_world = (3, w')
     \<and> likes_unique (t_likes (w_db w')) \<and> like_pairs (t_likes (w_db w')) = {(42, 1)}"
proof -
  let ?ls = "[like_of actionLike 42 1, like_of actionLike 7 1]" and ?us = "[like_of actionUnlike 7 1]"
  have v: "fst (flush_likes doc_rt id doc_like_consumer Background ?ls demo_world) = 2"
    "fst (flush_unlikes id doc_like_consumer Background ?us
       (snd (flush_likes doc_rt id doc_like_consumer Background ?ls demo_world))) = 1" by code_simp+
  obtain n1 w1 where 1: "flush_likes doc_rt id doc_like_consumer Background ?ls demo_world = (n1, w1)" by fastforce
  obtain n2 w2 where 2: "flush_unlikes id doc_like_consumer Background ?us w1 = (n2, w2)" by fastforce
  have n: "n1 = 2" "n2 = 1" using v 1 2 by simp_all
  have u: "likes_unique (t_likes (w_db demo_world))"
    by (simp add: demo_world_def demo_db_def empty_db_def likes_unique_def)
  have c: "lco_likeRepo doc_like_consumer = NewLikeRepository doc_rt doc_db"
    by (simp add: doc_like_consumer_def)
  have empty_before: "like_pairs (t_likes (w_db demo_world)) = {}"
    by (simp add: demo_world_def demo_db_def empty_db_def like_pairs_def)
  have pairs: "event_pairs ?ls = {(42, 1), (7, 1)}" "event_pairs ?us = {(7, 1)}"
    by (simp_all add: event_pairs_def like_of_def)
  have nz: "n1 \<noteq> 0" "n2 \<noteq> 0" using n by simp_all
  have "flushWithCtx doc_rt id doc_like_consumer Background ?ls ?us demo_world = (n1 + n2, w2)"
    "likes_unique (t_likes (w_db w2))" "like_pairs (t_likes (w_db w1)) = {} \<union> {(42, 1), (7, 1)}"
    "like_pairs (t_likes (w_db w2)) = like_pairs (t_likes (w_db w1)) - {(7, 1)}"
    using flush_like_pairs [OF doc.platform_axioms c u 1 2] nz unfolding empty_before pairs by blast+
  then show ?thesis using n by auto
qed

text \<open>
  An example: the last event does not win.  User 42 likes post 1 and the row is stored; the user unlikes
  and likes again within one batch.  The flush inserts first (the row is already there) and
  deletes second: the user ends up without the like, and the counter of the post goes down.
\<close>

theorem flush_unlike_then_like:
  "let w1 = snd (flushLoop (LikeConsumer_flush doc_rt id doc_like_consumer Background) 50
                  [Ev (like_of actionLike 42 1), Tick] ([], []) demo_world);
       w2 = snd (flushLoop (LikeConsumer_flush doc_rt id doc_like_consumer Background) 50
                  [Ev (like_of actionUnlike 42 1), Ev (like_of actionLike 42 1), Tick] ([], []) w1)
   in map pair_of (t_likes (w_db w1)) = [(42, 1)] \<and> map p_LikeCount (t_posts (w_db w1)) = [1, 0]
      \<and> t_likes (w_db w2) = [] \<and> map p_LikeCount (t_posts (w_db w2)) = [0, 0]"
  by code_simp

definition likes_of :: "likeBatchEvent list \<Rightarrow> likeBatchEvent list" where
  "likes_of = filter (\<lambda>e. lb_action e = actionLike)"

definition unlikes_of :: "likeBatchEvent list \<Rightarrow> likeBatchEvent list" where
  "unlikes_of = filter (\<lambda>e. lb_action e = actionUnlike)"

lemma buffer_event_fold:
  "fold buffer_event es b = (fst b @ likes_of es, snd b @ unlikes_of es)"
  by (induction es arbitrary: b)
    (auto simp: buffer_event_def likes_of_def unlikes_of_def split: likeAction.splits)

lemma likes_unlikes_of_Nil: "likes_of es = [] \<and> unlikes_of es = [] \<longleftrightarrow> es = []"
  by (cases es) (auto simp: likes_of_def unlikes_of_def intro: likeAction.exhaust)

interpretation like_buffer: flush_buffer buffer_event "\<lambda>b. fst b \<noteq> [] \<or> snd b \<noteq> []" "([], [])"
  by unfold_locales (use likes_unlikes_of_Nil in \<open>auto simp: buffer_event_fold\<close>)

text \<open>
  C29: The flush loop loses no event and keeps their order.  Whatever the interleaving of events,
  ticks and the cancellation, the events received are split, in order, into batches that are not
  empty and a rest; the world at the end is that of flushing the batches one after the other,
  each as its likes and its unlikes; the rest is what the buffers hold; and when the loop ends
  by a cancellation, nothing remains.
\<close>

theorem flush_loop_batches:
  "\<exists>batches rest. concat (map snd batches) @ rest = loop_events is
     \<and> flushLoop fl n is ([], []) w
         = ((likes_of rest, unlikes_of rest),
            fold (\<lambda>(bg, es). fl bg (likes_of es, unlikes_of es)) batches w)
     \<and> [] \<notin> snd ` set batches
     \<and> ((\<exists>left. Done left \<in> set is) \<longrightarrow> rest = [])"
  using like_buffer.loop_batches [of "[]"]
  by (simp add: flushLoop_def buffer_event_fold)

theorem flush_loop_batches_witness:
  "fst (flushLoop (\<lambda>bg b w. w + length (fst b)) 2
       [Ev (like_of actionLike 1 1), Tick, Done [like_of actionUnlike 1 1]] ([], []) 0) = ([], [])"
proof -
  let ?is = "[Ev (like_of actionLike 1 1), Tick, Done [like_of actionUnlike 1 1]]"
  have d: "Done [like_of actionUnlike 1 1] \<in> set ?is" by simp
  from flush_loop_batches [of ?is "\<lambda>bg b w. w + length (fst b)" 2 0]
  obtain batches :: "(bool \<times> likeBatchEvent list) list" and rest where
    r: "flushLoop (\<lambda>bg b w. w + length (fst b)) 2 ?is ([], []) 0
       = ((likes_of rest, unlikes_of rest),
          fold (\<lambda>(bg, es) w. w + length (fst (likes_of es, unlikes_of es))) batches 0)"
    and "(\<exists>left. Done left \<in> set ?is) \<longrightarrow> rest = []"
    by blast
  with d have "rest = []" by blast
  then show ?thesis unfolding r by (simp add: likes_of_def unlikes_of_def)
qed

text \<open>
  The drain at shutdown can lose likes.  When the bus drains a subscriber after the
  cancellation, the handler's select finds both the event channel and the cancelled context of
  Start ready, and Go picks either: every subsequence of the likes still in the queue can be
  what reaches the consumer, the empty one included.
\<close>

theorem like_drain_loss:
  assumes "subseq ys (decoded LikeEvent_of_json like_batch queue)"
  shows "\<exists>sched. ib_sent (drain like_handler queue
           \<lparr>ib_sent = zs, ib_done = True, ib_sched = sched\<rparr>) = zs @ ys"
  unfolding like_handler_def by (rule drain_done [OF assms])

definition demo_queue :: "json list" where
  "demo_queue = [json_of_LikeEvent \<lparr>le_EventID = ''e1'', le_UserID = 42, le_PostID = 1,
                                    le_AuthorID = 7, le_Timestamp = 1000\<rparr>]"

theorem like_drain_loss_witness:
  "decoded LikeEvent_of_json like_batch demo_queue = [like_of actionLike 42 1]
   \<and> (\<exists>sched. ib_sent (drain like_handler demo_queue
                  \<lparr>ib_sent = [], ib_done = True, ib_sched = sched\<rparr>) = [])"
proof
  show "decoded LikeEvent_of_json like_batch demo_queue = [like_of actionLike 42 1]"
    by code_simp
  have "subseq [] (decoded LikeEvent_of_json like_batch demo_queue)" by simp
  from like_drain_loss [OF this, of "[]"]
  show "\<exists>sched. ib_sent (drain like_handler demo_queue
                  \<lparr>ib_sent = [], ib_done = True, ib_sched = sched\<rparr>) = []"
    by simp
qed

end
