(* ===== verification/UserCache.thy ===== *)
theory UserCache
  imports World
begin

text \<open>
  internal/cache/user_cache.go: verification codes and their three rate limits, the token
  blacklist, the ban flag and the cached profile of a user; and internal/cache/write_marker.go,
  the per-user marker of a recent write.
\<close>

definition ErrCacheNotFound :: goerr where
  "ErrCacheNotFound = Sentinel ''cache key not found''"

record 'w UserCache =
  uc_rdb :: "'w rdb"
  uc_smsDailyTTL :: int

definition NewUserCache :: "'w rdb \<Rightarrow> int \<Rightarrow> 'w UserCache" where
  "NewUserCache rdb smsDailyTTL = \<lparr>uc_rdb = rdb, uc_smsDailyTTL = smsDailyTTL\<rparr>"

section \<open>Keys\<close>

definition keySMSCode :: "string \<Rightarrow> string" where "keySMSCode phoneHash = ''sms:code:'' @ phoneHash"
definition keySMSWindow :: "string \<Rightarrow> string" where "keySMSWindow phoneHash = ''sms:window:'' @ phoneHash"
definition keySMSDailyPhone :: "string \<Rightarrow> string" where "keySMSDailyPhone phoneHash = ''sms:limit:'' @ phoneHash"
definition keySMSDailyIP :: "string \<Rightarrow> string" where "keySMSDailyIP ipHash = ''sms:ip:'' @ ipHash"
definition keyJWTBlacklist :: "string \<Rightarrow> string" where "keyJWTBlacklist jti = ''jwt:bl:'' @ jti"
definition keyUserBan :: "int \<Rightarrow> string" where "keyUserBan userID = ''user:ban:'' @ FormatInt userID"
definition keyUserInfo :: "int \<Rightarrow> string" where "keyUserInfo userID = ''user:info:'' @ FormatInt userID"

lemmas user_key_defs =
  keySMSCode_def keySMSWindow_def keySMSDailyPhone_def keySMSDailyIP_def keyJWTBlacklist_def
  keyUserBan_def keyUserInfo_def

section \<open>Commands with one outcome\<close>

text \<open>A command whose only result is its error, wrapped with a message.\<close>

definition run_status :: "'w rdb \<Rightarrow> string \<Rightarrow> cmd \<Rightarrow> 'w \<Rightarrow> error \<times> 'w" where
  "run_status rdb msg c w =
     (case rdb (Cmd c) w of
        (RError m, w') \<Rightarrow> (Some (Wrap msg (Plain m)), w')
      | (_, w') \<Rightarrow> (None, w'))"

definition run_int :: "'w rdb \<Rightarrow> string \<Rightarrow> cmd \<Rightarrow> 'w \<Rightarrow> int result \<times> 'w" where
  "run_int rdb msg c w =
     (case rdb (Cmd c) w of
        (r, w') \<Rightarrow> (case int_cmd r of Inl e \<Rightarrow> (err (Wrap msg e), w') | Inr n \<Rightarrow> (ok n, w')))"

text \<open>A read of a string value; a missing key is ErrCacheNotFound.\<close>

definition run_get :: "'w rdb \<Rightarrow> string \<Rightarrow> cmd \<Rightarrow> 'w \<Rightarrow> bulk result \<times> 'w" where
  "run_get rdb msg c w =
     (case rdb (Cmd c) w of
        (r, w') \<Rightarrow>
          (case bytes_cmd r of
             Inl e \<Rightarrow> if errors_is e redis_Nil then (err ErrCacheNotFound, w') else (err (Wrap msg e), w')
           | Inr b \<Rightarrow> (ok b, w')))"

section \<open>Verification codes\<close>

definition SaveSMSCode :: "'w UserCache \<Rightarrow> string \<Rightarrow> string \<Rightarrow> int \<Rightarrow> 'w \<Rightarrow> error \<times> 'w" where
  "SaveSMSCode c phoneHash code ttl =
     run_status (uc_rdb c) ''redis SET sms:code'' (SET (keySMSCode phoneHash) (Text code) ttl)"

text \<open>The text of a stored value; a stored JSON text is none of this cache's codes.\<close>

definition bulk_text :: "bulk \<Rightarrow> string" where
  "bulk_text b = (case b of Text t \<Rightarrow> t | Payload j \<Rightarrow> ''{}'')"

definition GetSMSCode :: "'w UserCache \<Rightarrow> string \<Rightarrow> 'w \<Rightarrow> string result \<times> 'w" where
  "GetSMSCode c phoneHash w =
     (case run_get (uc_rdb c) ''redis GET sms:code'' (GET (keySMSCode phoneHash)) w of
        (Inl e, w') \<Rightarrow> (err e, w')
      | (Inr b, w') \<Rightarrow> (ok (bulk_text b), w'))"

definition DeleteSMSCode :: "'w UserCache \<Rightarrow> string \<Rightarrow> 'w \<Rightarrow> error \<times> 'w" where
  "DeleteSMSCode c phoneHash =
     run_status (uc_rdb c) ''redis DEL sms:code'' (DEL (keySMSCode phoneHash))"

section \<open>Rate limits\<close>

text \<open>
  SETNX, then the remaining TTL (whole seconds, as milliseconds) where the slot is taken; a
  failed or negative TTL falls back to the full window.
\<close>

definition CheckAndConsumeSMSWindow ::
  "'w UserCache \<Rightarrow> string \<Rightarrow> int \<Rightarrow> 'w \<Rightarrow> (bool \<times> int) result \<times> 'w" where
  "CheckAndConsumeSMSWindow c phoneHash win w =
     (let key = keySMSWindow phoneHash in
      case uc_rdb c (Cmd (SETNX key (Text ''1'') win)) w of
        (r, w1) \<Rightarrow>
          (case bool_cmd r of
             Inl e \<Rightarrow> (err (Wrap ''redis SETNX sms:window'' e), w1)
           | Inr True \<Rightarrow> (ok (True, 0), w1)
           | Inr False \<Rightarrow>
               (case uc_rdb c (Cmd (TTL key)) w1 of
                  (r2, w2) \<Rightarrow>
                    (case int_cmd r2 of
                       Inl e \<Rightarrow> (ok (False, win), w2)
                     | Inr n \<Rightarrow> (ok (False, if n < 0 then win else 1000 * n), w2)))))"

definition incrAndCheck :: "'w UserCache \<Rightarrow> string \<Rightarrow> int \<Rightarrow> int \<Rightarrow> 'w \<Rightarrow> bool result \<times> 'w" where
  "incrAndCheck c key limit ttl w =
     (case run_int (uc_rdb c) (''redis INCR '' @ key) (INCR key) w of
        (Inl e, w1) \<Rightarrow> (err e, w1)
      | (Inr n, w1) \<Rightarrow>
          (if n = 1 then
             (case run_int (uc_rdb c) (''redis EXPIRE '' @ key) (EXPIRE key ttl) w1 of
                (Inl e, w2) \<Rightarrow> (err e, w2)
              | (Inr _, w2) \<Rightarrow> (ok (n \<le> limit), w2))
           else (ok (n \<le> limit), w1)))"

definition IncrementAndCheckSMSPhoneDaily ::
  "'w UserCache \<Rightarrow> string \<Rightarrow> int \<Rightarrow> 'w \<Rightarrow> bool result \<times> 'w" where
  "IncrementAndCheckSMSPhoneDaily c phoneHash limit =
     incrAndCheck c (keySMSDailyPhone phoneHash) limit (uc_smsDailyTTL c)"

definition IncrementAndCheckSMSIPDaily ::
  "'w UserCache \<Rightarrow> string \<Rightarrow> int \<Rightarrow> 'w \<Rightarrow> bool result \<times> 'w" where
  "IncrementAndCheckSMSIPDaily c ipHash limit =
     incrAndCheck c (keySMSDailyIP ipHash) limit (uc_smsDailyTTL c)"

section \<open>Blacklist, ban flag, profile\<close>

definition BlacklistJWT :: "'w UserCache \<Rightarrow> string \<Rightarrow> int \<Rightarrow> 'w \<Rightarrow> error \<times> 'w" where
  "BlacklistJWT c jti ttl w =
     (if ttl \<le> 0 then (None, w)
      else run_status (uc_rdb c) ''redis SET jwt:bl'' (SET (keyJWTBlacklist jti) (Text ''1'') ttl) w)"

definition IsJWTBlacklisted :: "'w UserCache \<Rightarrow> string \<Rightarrow> 'w \<Rightarrow> bool result \<times> 'w" where
  "IsJWTBlacklisted c jti w =
     (case run_int (uc_rdb c) ''redis EXISTS jwt:bl'' (EXISTS (keyJWTBlacklist jti)) w of
        (Inl e, w') \<Rightarrow> (err e, w')
      | (Inr n, w') \<Rightarrow> (ok (n > 0), w'))"

definition IsUserBanned :: "'w UserCache \<Rightarrow> int \<Rightarrow> 'w \<Rightarrow> bool result \<times> 'w" where
  "IsUserBanned c userID w =
     (case run_int (uc_rdb c) ''redis EXISTS user:ban'' (EXISTS (keyUserBan userID)) w of
        (Inl e, w') \<Rightarrow> (err e, w')
      | (Inr n, w') \<Rightarrow> (ok (n > 0), w'))"

definition SaveUserInfo :: "'w UserCache \<Rightarrow> int \<Rightarrow> json \<Rightarrow> int \<Rightarrow> 'w \<Rightarrow> error \<times> 'w" where
  "SaveUserInfo c userID payload ttl =
     run_status (uc_rdb c) ''redis SET user:info'' (SET (keyUserInfo userID) (Payload payload) ttl)"

definition GetUserInfo :: "'w UserCache \<Rightarrow> int \<Rightarrow> 'w \<Rightarrow> bulk result \<times> 'w" where
  "GetUserInfo c userID =
     run_get (uc_rdb c) ''redis GET user:info'' (GET (keyUserInfo userID))"

definition DeleteUserInfo :: "'w UserCache \<Rightarrow> int \<Rightarrow> 'w \<Rightarrow> error \<times> 'w" where
  "DeleteUserInfo c userID =
     run_status (uc_rdb c) ''redis DEL user:info'' (DEL (keyUserInfo userID))"

section \<open>The write marker\<close>

record 'w WriteMarker =
  wm_rdb :: "'w rdb"
  wm_ttl :: int

definition NewWriteMarker :: "'w rdb \<Rightarrow> int \<Rightarrow> 'w WriteMarker" where
  "NewWriteMarker rdb ttl = \<lparr>wm_rdb = rdb, wm_ttl = ttl\<rparr>"

definition keyWriteMarker :: "int \<Rightarrow> string" where
  "keyWriteMarker userID = ''write:user:'' @ FormatInt userID"

definition WriteMarker_Mark :: "'w WriteMarker \<Rightarrow> int \<Rightarrow> 'w \<Rightarrow> 'w" where
  "WriteMarker_Mark m userID w =
     snd (wm_rdb m (Cmd (SET (keyWriteMarker userID) (Text ''1'') (wm_ttl m))) w)"

definition WriteMarker_Has :: "'w WriteMarker \<Rightarrow> int \<Rightarrow> 'w \<Rightarrow> bool \<times> 'w" where
  "WriteMarker_Has m userID w =
     (case wm_rdb m (Cmd (EXISTS (keyWriteMarker userID))) w of
        (r, w') \<Rightarrow>
          (case int_cmd r of
             Inl e \<Rightarrow> (False, w')
           | Inr n \<Rightarrow> (n > 0, w')))"

section \<open>Against a server\<close>

lemma user_cache_calls:
  "run_status rdb msg c w = (e1, w') \<Longrightarrow> rdb_calls rdb w w'"
  "run_int rdb msg c w = (e2, w') \<Longrightarrow> rdb_calls rdb w w'"
  "run_get rdb msg c w = (e3, w') \<Longrightarrow> rdb_calls rdb w w'"
  by (auto simp: run_status_def run_int_def run_get_def split: prod.splits rreply.splits sum.splits if_splits)

context redis_server
begin

lemma set_ok:
  assumes "run_status rdb msg (SET k b ttl) w = (None, w')" "0 < ttl"
  obtains d where "0 \<le> d" "kv w' = rput k (VStr b) (Some (rs_now (kv w) + d + ttl)) (tick d (kv w))"
proof -
  obtain r where r: "rdb (Cmd (SET k b ttl)) w = (r, w')" "\<And>m. r \<noteq> RError m"
    using assms(1) by (auto simp: run_status_def split: prod.splits rreply.splits)
  obtain d where "0 \<le> d" "exec (Cmd (SET k b ttl)) (tick d (kv w)) = (r, kv w')"
    using redis_answered [OF r] by blast
  with that assms(2) show thesis by (auto simp: deadline_in_def)
qed

lemma del_ok:
  assumes "run_status rdb msg (DEL k) w = (None, w')"
  shows "rget (kv w') k = None"
proof -
  obtain r where r: "rdb (Cmd (DEL k)) w = (r, w')" "\<And>m. r \<noteq> RError m"
    using assms(1) by (auto simp: run_status_def split: prod.splits rreply.splits)
  obtain d where "0 \<le> d" "exec (Cmd (DEL k)) (tick d (kv w)) = (r, kv w')"
    using redis_answered [OF r] by blast
  then have "kv w' = snd (kv_step (DEL k) (tick d (kv w)))" by (metis exec.simps(1) snd_conv)
  then show ?thesis by (simp split: option.splits)
qed

lemma exists_ok:
  assumes "rdb (Cmd (EXISTS k)) w = (RInt n, w')"
  shows "idle_kv (kv w) (kv w')" "n = (if rget (kv w') k = None then 0 else 1)"
proof -
  obtain d where d: "0 \<le> d" "exec (Cmd (EXISTS k)) (tick d (kv w)) = (RInt n, kv w')"
    by (rule redis_answered [OF assms]) auto
  then show "idle_kv (kv w) (kv w')" "n = (if rget (kv w') k = None then 0 else 1)"
    by (auto simp: idle_kv_def)
qed

lemma get_ok:
  assumes "run_get rdb msg (GET k) w = (Inr b, w')"
  obtains d where "0 \<le> d" "kv w' = tick d (kv w)" "rget (kv w') k = Some (VStr b)"
proof -
  have r: "rdb (Cmd (GET k)) w = (RBulk b, w')"
    using assms by (auto simp: run_get_def cmd_ok split: prod.splits sum.splits if_splits)
  obtain d where d: "0 \<le> d" "exec (Cmd (GET k)) (tick d (kv w)) = (RBulk b, kv w')"
    by (rule redis_answered [OF r]) auto
  with that show thesis by (auto split: option.splits rval.splits)
qed

end

section \<open>Rate limits against a server\<close>

definition counter_at :: "rstate \<Rightarrow> string \<Rightarrow> int \<Rightarrow> int option \<Rightarrow> bool" where
  "counter_at s k n dl \<longleftrightarrow> rget s k = Some (VStr (Text (FormatInt n))) \<and> rdeadline s k = dl"

lemma counter_at_tick:
  assumes "counter_at s k n dl" "\<And>x. dl = Some x \<Longrightarrow> rs_now s + d < x"
  shows "counter_at (tick d s) k n dl"
  using assms by (auto simp: counter_at_def rdeadline_def rget_def tick_def alive_def split: option.splits if_splits)

lemma add_counter_at:
  assumes "counter_at s k n dl" "in_int64 n" "add_counter k 1 s = (RInt m, s')"
  shows "m = n + 1" "counter_at s' k (n + 1) dl" "rs_now s' = rs_now s"
  using assms by (auto simp: counter_at_def add_counter_def split: if_splits)

context redis_server
begin

lemma redis_time:
  assumes "rdb (Cmd c) w = (r, w')" shows "rs_now (kv w) \<le> rs_now (kv w')"
proof -
  obtain d where "0 \<le> d" "kv w' = tick d (kv w) \<or> kv w' = snd (exec (Cmd c) (tick d (kv w)))"
    using redis_effect [OF assms] by blast
  then show ?thesis by auto
qed

lemma run_int_ok:
  assumes "run_int rdb msg c w = (Inr n, w')"
  obtains d where "0 \<le> d" "kv_step c (tick d (kv w)) = (RInt n, kv w')"
proof -
  have r: "rdb (Cmd c) w = (RInt n, w')"
    using assms by (auto simp: run_int_def cmd_ok split: prod.splits sum.splits)
  obtain d where "0 \<le> d" "exec (Cmd c) (tick d (kv w)) = (RInt n, kv w')"
    by (rule redis_answered [OF r]) auto
  with that show thesis by auto
qed

lemma run_int_time:
  assumes "run_int rdb msg c w = (r, w')" shows "rs_now (kv w) \<le> rs_now (kv w')"
  using assms redis_time by (fastforce simp: run_int_def split: prod.splits sum.splits)

lemma incr_time:
  assumes "uc_rdb c = rdb" "incrAndCheck c k limit ttl w = (r, w')"
  shows "rs_now (kv w) \<le> rs_now (kv w')"
  using assms run_int_time
  by (auto simp: incrAndCheck_def split: prod.splits sum.splits if_splits) (meson order_trans)+

text \<open>The first call of a window sets the counter and its deadline.\<close>

lemma incr_first:
  assumes "uc_rdb c = rdb" "incrAndCheck c k limit ttl w = (Inr b, w')" "rget (kv w) k = None" "0 < ttl"
  shows "b = (1 \<le> limit)"
    "counter_at (kv w') k 1 (Some (rs_now (kv w') + 1000 * formatSec ttl))"
proof -
  obtain n w1 where 1: "run_int rdb (''redis INCR '' @ k) (INCR k) w = (Inr n, w1)"
    using assms(1,2) by (auto simp: incrAndCheck_def split: prod.splits sum.splits)
  obtain d where d: "0 \<le> d" "kv_step (INCR k) (tick d (kv w)) = (RInt n, kv w1)"
    using run_int_ok [OF 1] .
  have n: "n = 1" "kv w1 = rput k (VStr (Text (FormatInt 1))) None (tick d (kv w))"
    using d rget_tick_None [OF d(1) assms(3)] by (auto simp: add_counter_def)
  then obtain m where 2: "run_int rdb (''redis EXPIRE '' @ k) (EXPIRE k ttl) w1 = (Inr m, w')" and b: "b = (1 \<le> limit)"
    using assms(1,2) 1 by (auto simp: incrAndCheck_def split: prod.splits sum.splits)
  obtain e where e: "0 \<le> e" "kv_step (EXPIRE k ttl) (tick e (kv w1)) = (RInt m, kv w')"
    using run_int_ok [OF 2] .
  have "rget (tick e (kv w1)) k = Some (VStr (Text (FormatInt 1)))"
    by (rule rget_tick_before) (use n in auto)
  moreover have "0 < formatSec ttl" using assms(4) by (auto simp: formatSec_def)
  ultimately show "counter_at (kv w') k 1 (Some (rs_now (kv w') + 1000 * formatSec ttl))"
    using e by (auto simp: counter_at_def dest: sym)
  show "b = (1 \<le> limit)" by (rule b)
qed

lemma incr_next:
  assumes "uc_rdb c = rdb" "incrAndCheck c k limit ttl w = (Inr b, w')" "counter_at (kv w) k n dl" "1 \<le> n"
    and "in_int64 n" "\<And>x. dl = Some x \<Longrightarrow> rs_now (kv w') < x"
  shows "b = (n + 1 \<le> limit)" "counter_at (kv w') k (n + 1) dl" "in_int64 (n + 1)"
proof -
  obtain m w1 where 1: "run_int rdb (''redis INCR '' @ k) (INCR k) w = (Inr m, w1)"
    using assms(1,2) by (auto simp: incrAndCheck_def split: prod.splits sum.splits)
  obtain d where d: "0 \<le> d" "kv_step (INCR k) (tick d (kv w)) = (RInt m, kv w1)"
    using run_int_ok [OF 1] .
  have t: "rs_now (kv w1) = rs_now (kv w) + d"
    using d(2) now_exec [of "INCR k" "tick d (kv w)"] by auto
  have le: "rs_now (kv w1) \<le> rs_now (kv w')"
    using assms(1,2) 1 run_int_time
    by (auto simp: incrAndCheck_def split: prod.splits sum.splits if_splits)
  have at: "counter_at (tick d (kv w)) k n dl"
  proof (rule counter_at_tick [OF assms(3)])
    show "rs_now (kv w) + d < x" if "dl = Some x" for x
      using assms(6) [OF that] t le by linarith
  qed
  have m: "m = n + 1" "counter_at (kv w1) k (n + 1) dl"
    using add_counter_at [OF at assms(5), of m "kv w1"] d(2) by simp_all
  then have "m \<noteq> 1" using assms(4) by simp
  then have "w' = w1" "b = (n + 1 \<le> limit)"
    using assms(1,2) 1 m by (auto simp: incrAndCheck_def)
  with m show "b = (n + 1 \<le> limit)" "counter_at (kv w') k (n + 1) dl" by auto
  show "in_int64 (n + 1)"
    using d(2) at assms(5) by (simp add: add_counter_def counter_at_def split: if_splits)
qed

end

lemma upto_from_1: "[1..int (Suc m)] = 1 # map ((+) 1) [1..int m]"
proof -
  have "map ((+) 1) [1..int m] = [1 + 1..int m + 1]"
    by (induction m) (auto simp: upto_rec2 add.commute)
  then show ?thesis by (simp add: upto_rec1 add.commute)
qed

text \<open>Several calls, one after the other.\<close>

fun repeat_calls :: "('w \<Rightarrow> 'a \<times> 'w) \<Rightarrow> nat \<Rightarrow> 'w \<Rightarrow> 'a list \<times> 'w" where
  "repeat_calls f 0 w = ([], w)"
| "repeat_calls f (Suc m) w =
     (case f w of (r, w1) \<Rightarrow> (case repeat_calls f m w1 of (rs, w2) \<Rightarrow> (r # rs, w2)))"

context redis_server
begin

lemma repeat_incr_time:
  "uc_rdb c = rdb \<Longrightarrow> repeat_calls (incrAndCheck c k limit ttl) m w = (rs, w') \<Longrightarrow> rs_now (kv w) \<le> rs_now (kv w')"
proof (induction m arbitrary: w rs)
  case (Suc m)
  from Suc.prems obtain r w1 rs' where s: "incrAndCheck c k limit ttl w = (r, w1)"
      "repeat_calls (incrAndCheck c k limit ttl) m w1 = (rs', w')"
    by (auto split: prod.splits)
  from Suc.IH [OF Suc.prems(1) s(2)] incr_time [OF Suc.prems(1) s(1)] show ?case by simp
qed simp

lemma repeat_incr_counter:
  assumes "uc_rdb c = rdb"
  shows "repeat_calls (incrAndCheck c k limit ttl) m w = (map Inr bs, w') \<Longrightarrow> counter_at (kv w) k n dl \<Longrightarrow> 1 \<le> n
    \<Longrightarrow> in_int64 n \<Longrightarrow> (\<And>x. dl = Some x \<Longrightarrow> rs_now (kv w') < x)
    \<Longrightarrow> counter_at (kv w') k (n + int m) dl"
proof (induction m arbitrary: w n bs)
  case (Suc m)
  from Suc.prems(1) obtain b bs' w1 where s: "bs = b # bs'" "incrAndCheck c k limit ttl w = (Inr b, w1)"
      "repeat_calls (incrAndCheck c k limit ttl) m w1 = (map Inr bs', w')"
    by (cases bs) (auto split: prod.splits)
  have le: "rs_now (kv w1) < x" if "dl = Some x" for x
    using repeat_incr_time [OF assms s(3)] Suc.prems(5) [OF that] by simp
  note nx = incr_next [OF assms s(2) Suc.prems(2-4) le]
  have "counter_at (kv w') k (n + 1 + int m) dl"
    by (rule Suc.IH [OF s(3) nx(2) _ nx(3)]) (use Suc.prems(3,5) in auto)
  then show ?case by (simp add: add.assoc)
qed simp

lemma repeat_incr_next:
  assumes "uc_rdb c = rdb"
  shows "repeat_calls (incrAndCheck c k limit ttl) m w = (map Inr bs, w') \<Longrightarrow> counter_at (kv w) k n dl \<Longrightarrow> 1 \<le> n
    \<Longrightarrow> in_int64 n \<Longrightarrow> (\<And>x. dl = Some x \<Longrightarrow> rs_now (kv w') < x)
    \<Longrightarrow> bs = map (\<lambda>i. n + i \<le> limit) [1..int m]"
proof (induction m arbitrary: w n bs)
  case (Suc m)
  from Suc.prems(1) obtain b bs' w1 where s: "bs = b # bs'" "incrAndCheck c k limit ttl w = (Inr b, w1)"
      "repeat_calls (incrAndCheck c k limit ttl) m w1 = (map Inr bs', w')"
    by (cases bs) (auto split: prod.splits)
  have le: "rs_now (kv w1) < x" if "dl = Some x" for x
    using repeat_incr_time [OF assms s(3)] Suc.prems(5) [OF that] by simp
  note nx = incr_next [OF assms s(2) Suc.prems(2-4) le]
  have "bs' = map (\<lambda>i. (n + 1) + i \<le> limit) [1..int m]"
    by (rule Suc.IH [OF s(3) nx(2) _ nx(3)]) (use Suc.prems(3,5) in auto)
  with s(1) nx(1) show ?case by (simp add: upto_from_1 comp_def add.assoc del: of_nat_Suc)
qed simp

text \<open>A full day: the first call opens the window, the others count in it.\<close>

lemma repeat_incr_fresh:
  assumes "uc_rdb c = rdb" "repeat_calls (incrAndCheck c k limit ttl) m w = (map Inr bs, w')"
    and "rget (kv w) k = None" "0 < ttl" "rs_now (kv w') < rs_now (kv w) + 1000 * formatSec ttl"
  shows "bs = map (\<lambda>i. i \<le> limit) [1..int m]"
proof (cases m)
  case 0
  then show ?thesis using assms(2) by simp
next
  case (Suc j)
  then obtain b bs' w1 where s: "bs = b # bs'" "incrAndCheck c k limit ttl w = (Inr b, w1)"
      "repeat_calls (incrAndCheck c k limit ttl) j w1 = (map Inr bs', w')"
    using assms(2) by (cases bs) (auto split: prod.splits)
  note f = incr_first [OF assms(1) s(2) assms(3,4)]
  have t: "rs_now (kv w) \<le> rs_now (kv w1)" by (rule incr_time [OF assms(1) s(2)])
  have "bs' = map (\<lambda>i. 1 + i \<le> limit) [1..int j]"
    by (rule repeat_incr_next [OF assms(1) s(3) f(2)])
      (use assms(5) t in \<open>auto simp: in_int64_def int64_min_def int64_max_def\<close>)
  with s(1) f(1) Suc show ?thesis by (simp add: upto_from_1 comp_def del: of_nat_Suc)
qed

lemma window_taken:
  assumes "uc_rdb c = rdb" "CheckAndConsumeSMSWindow c ph win w = (Inr (a, r), w')"
    and "rget (kv w) (keySMSWindow ph) = Some v" "rdeadline (kv w) (keySMSWindow ph) = Some x"
    and "rs_now (kv w') < x" "0 \<le> win" "x \<le> rs_now (kv w) + win"
  shows "\<not> a \<and> 0 \<le> r \<and> r \<le> win + 500 \<and> rs_db (kv w') (keySMSWindow ph) = rs_db (kv w) (keySMSWindow ph)"
proof -
  let ?k = "keySMSWindow ph"
  obtain rr w1 where 1: "rdb (Cmd (SETNX ?k (Text ''1'') win)) w = (rr, w1)" by fastforce
  have "\<exists>n. rr = RInt n"
    using assms(1,2) 1 by (auto simp: CheckAndConsumeSMSWindow_def Let_def cmd_ok split: sum.splits bool.splits)
  then obtain n where n: "rr = RInt n" ..
  obtain d where d: "0 \<le> d" "exec (Cmd (SETNX ?k (Text ''1'') win)) (tick d (kv w)) = (rr, kv w1)"
    by (rule redis_answered [OF 1]) (use n in auto)
  have le: "rs_now (kv w1) \<le> rs_now (kv w')"
    using assms(1,2) 1 redis_time
    by (fastforce simp: CheckAndConsumeSMSWindow_def Let_def split: sum.splits bool.splits prod.splits if_splits)
  have t: "rs_now (kv w1) = rs_now (kv w) + d"
    using d(2) now_exec [of "SETNX ?k (Text ''1'') win" "tick d (kv w)"] by auto
  have "rget (tick d (kv w)) ?k = Some v"
    by (rule rget_tick_before [OF assms(3)]) (use assms(4,5) t le in auto)
  then have w1: "kv w1 = tick d (kv w)" "n = 0" using d(2) n by auto
  obtain r2 where 2: "rdb (Cmd (TTL ?k)) w1 = (r2, w')"
      and a: "\<not> a" "(\<exists>e. int_cmd r2 = Inl e) \<and> r = win \<or> (\<exists>m. r2 = RInt m \<and> r = (if m < 0 then win else 1000 * m))"
    using assms(1,2) 1 n w1 by (auto simp: CheckAndConsumeSMSWindow_def Let_def cmd_ok split: prod.splits sum.splits)
  obtain e where e: "0 \<le> e" "kv w' = tick e (kv w1) \<or> kv w' = snd (exec (Cmd (TTL ?k)) (tick e (kv w1)))"
    using redis_effect [OF 2] .
  have kv': "kv w' = tick (d + e) (kv w)" using e(2) w1 by (auto split: option.splits)
  have "0 \<le> r \<and> r \<le> win + 500" if m: "r2 = RInt m" "\<not> m < 0" "r = 1000 * m" for m
  proof -
    obtain g where g: "0 \<le> g" "exec (Cmd (TTL ?k)) (tick g (kv w1)) = (r2, kv w')"
      by (rule redis_answered [OF 2]) (use m in auto)
    have "m = - 1 \<or> m = - 2 \<or> m = (x - rs_now (tick g (kv w1)) + 500) div 1000"
      using g(2) m(1) w1(1) assms(4) by (auto simp: rdeadline_def rget_def tick_def split: option.splits if_splits)
    with m(2) have "1000 * m \<le> x - rs_now (tick g (kv w1)) + 500" by auto
    with m g(1) d(1) w1(1) assms(7) show ?thesis by simp
  qed
  with a assms(6) kv' show ?thesis by (auto simp: tick_def split: if_splits)
qed

lemma window_taken_by:
  assumes "uc_rdb c = rdb" "CheckAndConsumeSMSWindow c ph win w = (Inr (True, r), w')" "0 < win"
  shows "r = 0" "rs_now (kv w) \<le> rs_now (kv w')"
    "rs_db (kv w') (keySMSWindow ph) = Some (VStr (Text ''1''), Some (rs_now (kv w') + win))"
proof -
  let ?k = "keySMSWindow ph"
  have 1: "rdb (Cmd (SETNX ?k (Text ''1'') win)) w = (RInt 1, w')" "r = 0"
    using assms(1,2) by (auto simp: CheckAndConsumeSMSWindow_def Let_def cmd_ok split: prod.splits sum.splits bool.splits if_splits)
  obtain d where d: "0 \<le> d" "exec (Cmd (SETNX ?k (Text ''1'') win)) (tick d (kv w)) = (RInt 1, kv w')"
    by (rule redis_answered [OF 1(1)]) auto
  then have "kv w' = rput ?k (VStr (Text ''1'')) (deadline_in (tick d (kv w)) win) (tick d (kv w))"
    by (auto split: option.splits)
  with assms(3) d(1) show "rs_now (kv w) \<le> rs_now (kv w')"
    "rs_db (kv w') ?k = Some (VStr (Text ''1''), Some (rs_now (kv w') + win))"
    by (auto simp: rput_def deadline_in_def tick_def)
  show "r = 0" by (rule 1(2))
qed

end

section \<open>Properties\<close>

text \<open>
  One code per window.  After a call that was allowed, a later call for the same phone whose
  answer comes before the window has passed is refused, keeps the slot and its deadline as they
  are, and reports a remaining time of at most the window, rounded to the second; as long as no
  other command wrote the slot in between, at any distance of the two calls.
\<close>

theorem sms_window_spacing:
  assumes "redis_server rdb kv" "uc_rdb c = rdb" "0 < win"
    and "CheckAndConsumeSMSWindow c ph win w1 = (Inr (True, r1), w1')"
    and "rs_db (kv w2) (keySMSWindow ph) = rs_db (kv w1') (keySMSWindow ph)" "rs_now (kv w1') \<le> rs_now (kv w2)"
    and "CheckAndConsumeSMSWindow c ph win w2 = (Inr (a, r2), w2')"
    and "rs_now (kv w2') < rs_now (kv w1') + win" "rs_now (kv w2) \<le> rs_now (kv w2')"
  shows "r1 = 0 \<and> \<not> a \<and> 0 \<le> r2 \<and> r2 \<le> win + 500
     \<and> rs_db (kv w2') (keySMSWindow ph) = rs_db (kv w1') (keySMSWindow ph)"
proof -
  note by1 = redis_server.window_taken_by [OF assms(1,2,4,3)]
  have "rget (kv w2) (keySMSWindow ph) = Some (VStr (Text ''1''))"
    "rdeadline (kv w2) (keySMSWindow ph) = Some (rs_now (kv w1') + win)"
    using by1 assms(5,8,9) by (auto simp: rget_def rdeadline_def)
  from redis_server.window_taken [OF assms(1,2,7) this] assms(3,5,6,8) by1(1) show ?thesis by simp
qed

definition doc_user_cache :: "world UserCache" where
  "doc_user_cache = NewUserCache doc_rdb 86400000"

theorem sms_window_spacing_witness:
  "let s = CheckAndConsumeSMSWindow doc_user_cache ''ab'' 60000 demo_world;
       s2 = CheckAndConsumeSMSWindow doc_user_cache ''ab'' 60000 ((snd s)\<lparr>w_kv := tick 59000 (w_kv (snd s))\<rparr>)
   in fst s = Inr (True, 0) \<and> fst s2 = Inr (False, 1000)
      \<and> rs_db (w_kv (snd s2)) (keySMSWindow ''ab'') = rs_db (w_kv (snd s)) (keySMSWindow ''ab'')"
proof -
  define s where "s = CheckAndConsumeSMSWindow doc_user_cache ''ab'' 60000 demo_world"
  define w2 where "w2 = (snd s)\<lparr>w_kv := tick 59000 (w_kv (snd s))\<rparr>"
  define s2 where "s2 = CheckAndConsumeSMSWindow doc_user_cache ''ab'' 60000 w2"
  have f: "fst s = Inr (True, 0)" unfolding s_def by code_simp
  then have s: "CheckAndConsumeSMSWindow doc_user_cache ''ab'' 60000 demo_world = (Inr (True, 0), snd s)"
    by (metis s_def prod.collapse)
  have f2: "fst s2 = Inr (False, 1000)" unfolding s2_def w2_def s_def by code_simp
  then have s2: "CheckAndConsumeSMSWindow doc_user_cache ''ab'' 60000 w2 = (Inr (False, 1000), snd s2)"
    by (metis s2_def prod.collapse)
  have t: "rs_now (w_kv (snd s)) = 1000" "rs_now (w_kv (snd s2)) = 60000"
    unfolding s2_def w2_def s_def by code_simp+
  have "rs_db (w_kv (snd s2)) (keySMSWindow ''ab'') = rs_db (w_kv (snd s)) (keySMSWindow ''ab'')"
    using sms_window_spacing [OF doc.redis_server_axioms _ _ s _ _ s2] t
    by (simp add: w2_def doc_user_cache_def NewUserCache_def tick_def)
  with f f2 show ?thesis by (simp add: s_def [symmetric] w2_def [symmetric] s2_def [symmetric] Let_def)
qed

text \<open>
  The daily limit.  Starting without a counter, the answers of m calls within one period of
  the TTL are that the first `limit' of them are allowed and all others refused, whatever time
  passes between them.
\<close>

theorem sms_daily_limit:
  assumes "redis_server rdb kv" "uc_rdb c = rdb" "0 < uc_smsDailyTTL c"
    and "rget (kv w) (keySMSDailyPhone ph) = None"
    and "repeat_calls (IncrementAndCheckSMSPhoneDaily c ph limit) m w = (map Inr bs, w')"
    and "rs_now (kv w') < rs_now (kv w) + 1000 * formatSec (uc_smsDailyTTL c)"
  shows "bs = map (\<lambda>i. i \<le> limit) [1..int m]"
  using redis_server.repeat_incr_fresh [OF assms(1,2), of "keySMSDailyPhone ph" limit "uc_smsDailyTTL c"] assms(3-)
  by (simp add: IncrementAndCheckSMSPhoneDaily_def [abs_def])

theorem sms_daily_limit_witness:
  "fst (repeat_calls (IncrementAndCheckSMSPhoneDaily doc_user_cache ''ab'' 2) 3 demo_world)
     = map Inr (map (\<lambda>i. i \<le> (2::int)) [1..int 3])"
proof -
  obtain rs w' where r: "repeat_calls (IncrementAndCheckSMSPhoneDaily doc_user_cache ''ab'' 2) 3 demo_world = (rs, w')"
    by fastforce
  have "fst (repeat_calls (IncrementAndCheckSMSPhoneDaily doc_user_cache ''ab'' 2) 3 demo_world) = map Inr [True, True, False]"
    "rs_now (w_kv (snd (repeat_calls (IncrementAndCheckSMSPhoneDaily doc_user_cache ''ab'' 2) 3 demo_world))) = 1000"
    by code_simp+
  then have rs: "rs = map Inr [True, True, False]" "rs_now (w_kv w') = 1000" using r by simp_all
  have "rget (w_kv demo_world) (keySMSDailyPhone ''ab'') = None" "rs_now (w_kv demo_world) = 1000"
    "0 < formatSec 86400000"
    by code_simp+
  then have "[True, True, False] = map (\<lambda>i. i \<le> (2::int)) [1..int 3]"
    using sms_daily_limit [OF doc.redis_server_axioms _ _ _ r [unfolded rs(1)]] rs(2)
    by (simp add: doc_user_cache_def NewUserCache_def)
  with r rs show ?thesis by simp
qed

text \<open>
  A counter without a deadline is never repaired.  Once the counter of a phone is stored
  without a TTL (the EXPIRE after its first INCR failed), every later call only increments it:
  the i-th of them is allowed iff n + i is within the limit, at whatever times they come, and
  the counter still has no TTL afterwards; so the phone is refused for ever after the limit.
\<close>

theorem sms_counter_stuck:
  assumes "redis_server rdb kv" "uc_rdb c = rdb" "1 \<le> n" "in_int64 n"
    and "counter_at (kv w) (keySMSDailyPhone ph) n None"
    and "repeat_calls (IncrementAndCheckSMSPhoneDaily c ph limit) m w = (map Inr bs, w')"
  shows "bs = map (\<lambda>i. n + i \<le> limit) [1..int m] \<and> counter_at (kv w') (keySMSDailyPhone ph) (n + int m) None"
  using redis_server.repeat_incr_next [OF assms(1,2) _ assms(5,3,4)] redis_server.repeat_incr_counter [OF assms(1,2) _ assms(5,3,4)] assms(6)
  by (simp add: IncrementAndCheckSMSPhoneDaily_def [abs_def])

theorem sms_counter_stuck_witness:
  "let s = IncrementAndCheckSMSPhoneDaily doc_user_cache ''ab'' 2 (demo_world\<lparr>w_faults := [False, True]\<rparr>)
   in counter_at (w_kv (snd s)) (keySMSDailyPhone ''ab'') 1 None
      \<and> fst (repeat_calls (IncrementAndCheckSMSPhoneDaily doc_user_cache ''ab'' 2) 3
              ((snd s)\<lparr>w_kv := tick 1000000000 (w_kv (snd s))\<rparr>))
          = map Inr (map (\<lambda>i. 1 + i \<le> (2::int)) [1..int 3])"
proof -
  define w0 where "w0 = snd (IncrementAndCheckSMSPhoneDaily doc_user_cache ''ab'' 2 (demo_world\<lparr>w_faults := [False, True]\<rparr>))"
  define w1 where "w1 = w0\<lparr>w_kv := tick 1000000000 (w_kv w0)\<rparr>"
  obtain rs w' where r: "repeat_calls (IncrementAndCheckSMSPhoneDaily doc_user_cache ''ab'' 2) 3 w1 = (rs, w')"
    by fastforce
  have c: "counter_at (w_kv w0) (keySMSDailyPhone ''ab'') 1 None" unfolding w0_def by code_simp
  have c1: "counter_at (w_kv w1) (keySMSDailyPhone ''ab'') 1 None" unfolding w1_def w0_def by code_simp
  have "fst (repeat_calls (IncrementAndCheckSMSPhoneDaily doc_user_cache ''ab'' 2) 3 w1) = map Inr [True, False, False]"
    unfolding w1_def w0_def by code_simp
  then have rs: "rs = map Inr [True, False, False]" using r by simp
  have "[True, False, False] = map (\<lambda>i. 1 + i \<le> (2::int)) [1..int 3]"
    using sms_counter_stuck [OF doc.redis_server_axioms _ _ _ c1 r [unfolded rs(1)]]
    by (simp add: doc_user_cache_def NewUserCache_def in_int64_def int64_min_def int64_max_def)
  with c r rs show ?thesis
    by (simp add: w0_def [symmetric] w1_def [symmetric] Let_def)
qed

end
