(* ===== verification/Caches.thy ===== *)
theory Caches
  imports UserCache
begin

text \<open>
  The remaining caches of internal/cache: event_dedup_cache.go (the guard of the consumers
  against redelivery), upload_cache.go (the one-time records of presigned uploads) and
  feed_cache.go (the versioned feed pages and the view deduplication).  SHA-256 is the
  parameter sha256hex, of which nothing is assumed.
\<close>

section \<open>Event deduplication\<close>

record 'w EventDedupCache =
  ed_rdb :: "'w rdb"
  ed_ttl :: int

definition NewEventDedupCache :: "'w rdb \<Rightarrow> int \<Rightarrow> 'w EventDedupCache" where
  "NewEventDedupCache rdb ttl = \<lparr>ed_rdb = rdb, ed_ttl = ttl\<rparr>"

definition keyEventDedup :: "string \<Rightarrow> string \<Rightarrow> string" where
  "keyEventDedup topic eventID = ''dedup:'' @ topic @ '':'' @ eventID"

definition SeenOrMark :: "'w EventDedupCache \<Rightarrow> string \<Rightarrow> string \<Rightarrow> 'w \<Rightarrow> bool result \<times> 'w" where
  "SeenOrMark c topic eventID w =
     (if eventID = [] then (ok False, w)
      else (case ed_rdb c (Cmd (SETNX (keyEventDedup topic eventID) (Text ''1'') (ed_ttl c))) w of
              (r, w') \<Rightarrow>
                (case bool_cmd r of
                   Inl e \<Rightarrow> (err (Wrap (''redis SETNX '' @ keyEventDedup topic eventID) e), w')
                 | Inr set_now \<Rightarrow> (ok (\<not> set_now), w'))))"

section \<open>Upload records\<close>

record 'w UploadCache =
  upc_rdb :: "'w rdb"

definition NewUploadCache :: "'w rdb \<Rightarrow> 'w UploadCache" where
  "NewUploadCache rdb = \<lparr>upc_rdb = rdb\<rparr>"

definition keyUploadNonce :: "string \<Rightarrow> string" where
  "keyUploadNonce nonce = ''upload:nonce:'' @ nonce"

record NonceRecord =
  nr_UserID :: int
  nr_ObjectKey :: string
  nr_PublicURL :: string
  nr_Purpose :: string
  nr_ContentType :: string
  nr_Size :: int

definition json_of_NonceRecord :: "NonceRecord \<Rightarrow> json" where
  "json_of_NonceRecord r =
     JObj [(''user_id'', JNum (nr_UserID r)), (''object_key'', JStr (nr_ObjectKey r)),
           (''public_url'', JStr (nr_PublicURL r)), (''purpose'', JStr (nr_Purpose r)),
           (''content_type'', JStr (nr_ContentType r)), (''size'', JNum (nr_Size r))]"

definition NonceRecord_of_json :: "json \<Rightarrow> NonceRecord result" where
  "NonceRecord_of_json j =
     result_bind (as_obj j) (\<lambda>o'.
     result_bind (as_int (json_field ''user_id'' o')) (\<lambda>u.
     result_bind (as_str (json_field ''object_key'' o')) (\<lambda>k.
     result_bind (as_str (json_field ''public_url'' o')) (\<lambda>url.
     result_bind (as_str (json_field ''purpose'' o')) (\<lambda>p.
     result_bind (as_str (json_field ''content_type'' o')) (\<lambda>ct.
     result_bind (as_int (json_field ''size'' o')) (\<lambda>sz.
       ok \<lparr>nr_UserID = u, nr_ObjectKey = k, nr_PublicURL = url, nr_Purpose = p,
           nr_ContentType = ct, nr_Size = sz\<rparr>)))))))"

lemma NonceRecord_roundtrip:
  "in_int64 (nr_UserID r) \<Longrightarrow> in_int64 (nr_Size r) \<Longrightarrow>
   NonceRecord_of_json (json_of_NonceRecord r) = Inr r"
  by (simp add: NonceRecord_of_json_def json_of_NonceRecord_def)

definition SaveNonce :: "'w UploadCache \<Rightarrow> string \<Rightarrow> NonceRecord \<Rightarrow> int \<Rightarrow> 'w \<Rightarrow> error \<times> 'w" where
  "SaveNonce c nonce rec ttl =
     run_status (upc_rdb c) ''redis SET upload:nonce''
       (SET (keyUploadNonce nonce) (Payload (json_of_NonceRecord rec)) ttl)"

text \<open>A value that is not JSON, or not the JSON of a record, counts as absent.\<close>

definition ConsumeNonce :: "'w UploadCache \<Rightarrow> string \<Rightarrow> 'w \<Rightarrow> NonceRecord result \<times> 'w" where
  "ConsumeNonce c nonce w =
     (case run_get (upc_rdb c) ''redis GETDEL upload:nonce'' (GETDEL (keyUploadNonce nonce)) w of
        (Inl e, w') \<Rightarrow> (err e, w')
      | (Inr (Text t), w') \<Rightarrow> (err ErrCacheNotFound, w')
      | (Inr (Payload j), w') \<Rightarrow>
          (case NonceRecord_of_json j of
             Inl e \<Rightarrow> (err ErrCacheNotFound, w')
           | Inr rec \<Rightarrow> (ok rec, w')))"

section \<open>Feed pages and views\<close>

record 'w FeedCache =
  fc_rdb :: "'w rdb"
  fc_feedCacheTTL :: int
  fc_pvDedupTTL :: int

definition NewFeedCache :: "'w rdb \<Rightarrow> int \<Rightarrow> int \<Rightarrow> 'w FeedCache" where
  "NewFeedCache rdb feedCacheTTL pvDedupTTL =
     \<lparr>fc_rdb = rdb, fc_feedCacheTTL = feedCacheTTL, fc_pvDedupTTL = pvDedupTTL\<rparr>"

definition feedVersionKey :: string where
  "feedVersionKey = ''feed:ver''"

definition GetFeedVersion :: "'w FeedCache \<Rightarrow> 'w \<Rightarrow> int result \<times> 'w" where
  "GetFeedVersion c w =
     (case fc_rdb c (Cmd (GET feedVersionKey)) w of
        (r, w') \<Rightarrow>
          (case get_int64 r of
             Inl e \<Rightarrow> if errors_is e redis_Nil then (ok 0, w') else (err e, w')
           | Inr v \<Rightarrow> (ok v, w')))"

definition BumpFeedVersion :: "'w FeedCache \<Rightarrow> 'w \<Rightarrow> int result \<times> 'w" where
  "BumpFeedVersion c w =
     (case fc_rdb c (Cmd (INCR feedVersionKey)) w of (r, w') \<Rightarrow> (int_cmd r, w'))"

definition feedCacheKey :: "int \<Rightarrow> int \<Rightarrow> int \<Rightarrow> string" where
  "feedCacheKey scene version cursorTime =
     (let cursorMs = (if IsZero cursorTime then 0 else cursorTime)
      in ''feed:s'' @ FormatInt scene @ '':v'' @ FormatInt version @ '':c'' @ FormatInt cursorMs)"

text \<open>None is a miss.\<close>

definition GetFeed :: "'w FeedCache \<Rightarrow> int \<Rightarrow> int \<Rightarrow> int \<Rightarrow> 'w \<Rightarrow> bulk option result \<times> 'w" where
  "GetFeed c scene version cursorTime w =
     (case fc_rdb c (Cmd (GET (feedCacheKey scene version cursorTime))) w of
        (r, w') \<Rightarrow>
          (case bytes_cmd r of
             Inl e \<Rightarrow> if errors_is e redis_Nil then (ok None, w') else (err e, w')
           | Inr b \<Rightarrow> (ok (Some b), w')))"

definition SetFeed :: "'w FeedCache \<Rightarrow> int \<Rightarrow> int \<Rightarrow> int \<Rightarrow> json \<Rightarrow> int \<Rightarrow> 'w \<Rightarrow> error \<times> 'w" where
  "SetFeed c scene version cursorTime payload ttl w =
     (case fc_rdb c (Cmd (SET (feedCacheKey scene version cursorTime) (Payload payload) ttl)) w of
        (r, w') \<Rightarrow> (status_cmd r, w'))"

definition pvDedupKey :: "int \<Rightarrow> int \<Rightarrow> string \<Rightarrow> string" where
  "pvDedupKey postID viewerID ipHash =
     (if viewerID > 0
      then ''pv:dup:'' @ FormatInt postID @ '':u'' @ FormatInt viewerID
      else ''pv:dup:'' @ FormatInt postID @ '':i'' @ ipHash)"

definition hashIPForKey :: "(string \<Rightarrow> string) \<Rightarrow> string \<Rightarrow> string" where
  "hashIPForKey sha256hex ip = sha256hex (if ip = [] then ''unknown'' else ip)"

definition MarkPVSeen ::
  "(string \<Rightarrow> string) \<Rightarrow> 'w FeedCache \<Rightarrow> int \<Rightarrow> int \<Rightarrow> string \<Rightarrow> 'w \<Rightarrow> bool result \<times> 'w" where
  "MarkPVSeen sha256hex c postID viewerID ip w =
     (let ipHash = (if viewerID = 0 then hashIPForKey sha256hex ip else []);
          key = pvDedupKey postID viewerID ipHash
      in case fc_rdb c (Cmd (SETNX key (Text ''1'') (fc_pvDedupTTL c))) w of
           (r, w') \<Rightarrow> (bool_cmd r, w'))"

section \<open>A marker is set once\<close>

text \<open>The markers of a topic: those of the ids in S live until T at least, no other id has one.\<close>

definition marked :: "string \<Rightarrow> string set \<Rightarrow> int \<Rightarrow> rstate \<Rightarrow> bool" where
  "marked topic S T s \<longleftrightarrow>
     (\<forall>i\<in>S. \<exists>v x. rs_db s (keyEventDedup topic i) = Some (v, Some x) \<and> T \<le> x)
     \<and> (\<forall>i. i \<notin> S \<longrightarrow> rget s (keyEventDedup topic i) = None)"

lemma keyEventDedup_inj [simp]: "keyEventDedup topic i = keyEventDedup topic j \<longleftrightarrow> i = j"
  by (simp add: keyEventDedup_def)

lemma marked_rget:
  "marked topic S T s \<Longrightarrow> rs_now s < T \<Longrightarrow> rget s (keyEventDedup topic i) \<noteq> None \<longleftrightarrow> i \<in> S"
proof
  assume m: "marked topic S T s" "rs_now s < T"
  show "i \<in> S" if "rget s (keyEventDedup topic i) \<noteq> None"
    using m(1) that by (auto simp: marked_def)
  assume "i \<in> S"
  then obtain v x where "rs_db s (keyEventDedup topic i) = Some (v, Some x)" "T \<le> x"
    using m(1) unfolding marked_def by blast
  with m(2) show "rget s (keyEventDedup topic i) \<noteq> None" by (simp add: rget_def)
qed

lemma marked_tick: "marked topic S T s \<Longrightarrow> 0 \<le> d \<Longrightarrow> marked topic S T (tick d s)"
  using rget_tick_None by (fastforce simp: marked_def tick_def)

lemma marked_put:
  "marked topic S T s \<Longrightarrow> T \<le> x \<Longrightarrow>
   marked topic (insert i S) T (rput (keyEventDedup topic i) v (Some x) s)"
  by (auto simp: marked_def) (simp add: rput_def)+

fun seen_flags :: "string set \<Rightarrow> string list \<Rightarrow> bool list" where
  "seen_flags S [] = []"
| "seen_flags S (i # is) = (i \<in> S) # seen_flags (if i = [] then S else insert i S) is"

fun mark_run :: "'w EventDedupCache \<Rightarrow> string \<Rightarrow> string list \<Rightarrow> 'w \<Rightarrow> bool result list \<times> 'w" where
  "mark_run c topic [] w = ([], w)"
| "mark_run c topic (i # is) w =
     (case SeenOrMark c topic i w of
        (r, w1) \<Rightarrow> (case mark_run c topic is w1 of (rs, w2) \<Rightarrow> (r # rs, w2)))"

context redis_server
begin

lemma seen_time:
  assumes "ed_rdb c = rdb" "SeenOrMark c topic i w = (r, w')" shows "rs_now (kv w) \<le> rs_now (kv w')"
  using assms redis_time by (fastforce simp: SeenOrMark_def split: prod.splits sum.splits if_splits)

lemma mark_run_time:
  "ed_rdb c = rdb \<Longrightarrow> mark_run c topic is w = (rs, w') \<Longrightarrow> rs_now (kv w) \<le> rs_now (kv w')"
proof (induction "is" arbitrary: w rs)
  case (Cons i "is")
  from Cons.prems obtain r w1 rs' where s: "SeenOrMark c topic i w = (r, w1)"
      "mark_run c topic is w1 = (rs', w')"
    by (auto split: prod.splits)
  from Cons.IH [OF Cons.prems(1) s(2)] seen_time [OF Cons.prems(1) s(1)] show ?case by simp
qed simp

lemma seen_step:
  assumes "ed_rdb c = rdb" "0 < ed_ttl c" "SeenOrMark c topic i w = (Inr b, w')"
    and "marked topic S T (kv w)" "[] \<notin> S" "rs_now (kv w') < T" "T \<le> rs_now (kv w) + ed_ttl c"
  shows "b = (i \<in> S)" "marked topic (if i = [] then S else insert i S) T (kv w')"
proof -
  have "b = (i \<in> S) \<and> marked topic (if i = [] then S else insert i S) T (kv w')"
  proof (cases "i = []")
    case True
    then show ?thesis using assms(3-5) by (auto simp: SeenOrMark_def)
  next
    case False
    let ?k = "keyEventDedup topic i"
    obtain n where r: "rdb (Cmd (SETNX ?k (Text ''1'') (ed_ttl c))) w = (RInt n, w')" and b: "b = (n \<noteq> 1)"
      using assms(1,3) False by (auto simp: SeenOrMark_def cmd_ok split: prod.splits sum.splits)
    obtain d where d: "0 \<le> d" "kv_step (SETNX ?k (Text ''1'') (ed_ttl c)) (tick d (kv w)) = (RInt n, kv w')"
      using redis_answered [OF r] by auto
    have m: "marked topic S T (tick d (kv w))" by (rule marked_tick [OF assms(4) d(1)])
    have "rs_now (tick d (kv w)) = rs_now (kv w')"
      using d(2) now_exec by (metis snd_conv)
    then have in_S: "rget (tick d (kv w)) ?k \<noteq> None \<longleftrightarrow> i \<in> S"
      using marked_rget [OF m] assms(6) by simp
    show ?thesis
    proof (cases "i \<in> S")
      case True
      with in_S d(2) b m show ?thesis by (auto simp: insert_absorb split: option.splits)
    next
      case no: False
      then have "kv w' = rput ?k (VStr (Text ''1'')) (Some (rs_now (kv w) + d + ed_ttl c)) (tick d (kv w))" "n = 1"
        using in_S d(2) assms(2) by (auto simp: deadline_in_def)
      moreover have "T \<le> rs_now (kv w) + d + ed_ttl c" using assms(7) d(1) by simp
      ultimately show ?thesis using marked_put [OF m] no b False by simp
    qed
  qed
  then show "b = (i \<in> S)" "marked topic (if i = [] then S else insert i S) T (kv w')" by simp_all
qed

lemma mark_run_flags:
  assumes "ed_rdb c = rdb" "0 < ed_ttl c"
  shows "mark_run c topic is w = (map Inr bs, w') \<Longrightarrow> marked topic S T (kv w) \<Longrightarrow> [] \<notin> S
    \<Longrightarrow> rs_now (kv w') < T \<Longrightarrow> T \<le> rs_now (kv w) + ed_ttl c \<Longrightarrow> bs = seen_flags S is"
proof (induction "is" arbitrary: w S bs)
  case (Cons i "is")
  from Cons.prems(1) obtain b bs' w1 where s: "bs = b # bs'" "SeenOrMark c topic i w = (Inr b, w1)"
      "mark_run c topic is w1 = (map Inr bs', w')"
    by (cases bs) (auto split: prod.splits)
  have t: "rs_now (kv w) \<le> rs_now (kv w1)" "rs_now (kv w1) \<le> rs_now (kv w')"
    using seen_time [OF assms(1) s(2)] mark_run_time [OF assms(1) s(3)] by auto
  note st = seen_step [OF assms s(2) Cons.prems(2,3) _ Cons.prems(5)]
  have "bs' = seen_flags (if i = [] then S else insert i S) is"
    by (rule Cons.IH [OF s(3) st(2)]) (use Cons.prems t in auto)
  with st(1) Cons.prems(4) t s(1) show ?case by simp
qed simp

section \<open>Upload records are used once\<close>

lemma consume_nonce:
  assumes "upc_rdb c = rdb" "ConsumeNonce c n w = (Inr rec, w')"
  shows "\<exists>j. rget (kv w) (keyUploadNonce n) = Some (VStr (Payload j)) \<and> NonceRecord_of_json j = Inr rec"
    "rget (kv w') (keyUploadNonce n) = None"
proof -
  obtain j where g: "run_get rdb ''redis GETDEL upload:nonce'' (GETDEL (keyUploadNonce n)) w = (Inr (Payload j), w')"
      and j: "NonceRecord_of_json j = Inr rec"
    using assms by (auto simp: ConsumeNonce_def split: prod.splits sum.splits bulk.splits)
  have r: "rdb (Cmd (GETDEL (keyUploadNonce n))) w = (RBulk (Payload j), w')"
    using g by (auto simp: run_get_def cmd_ok split: prod.splits sum.splits if_splits)
  obtain d where d: "0 \<le> d" "kv_step (GETDEL (keyUploadNonce n)) (tick d (kv w)) = (RBulk (Payload j), kv w')"
    using redis_answered [OF r] by auto
  then have g': "rget (tick d (kv w)) (keyUploadNonce n) = Some (VStr (Payload j))"
    and "kv w' = rdel (keyUploadNonce n) (tick d (kv w))"
    by (auto split: option.splits rval.splits)
  then have "rget (kv w') (keyUploadNonce n) = None" by simp
  moreover have "rget (kv w) (keyUploadNonce n) = Some (VStr (Payload j))" by (rule rget_tick [OF d(1) g'])
  ultimately show "\<exists>j. rget (kv w) (keyUploadNonce n) = Some (VStr (Payload j)) \<and> NonceRecord_of_json j = Inr rec"
    "rget (kv w') (keyUploadNonce n) = None"
    using j by blast+
qed

end

end
