(* ===== verification/DedupHandler.thy ===== *)
theory DedupHandler
  imports ConsumerLoop Caches
begin

text \<open>
  The handlers of the counting consumers (internal/consumer/pv_consumer.go and
  count_consumer.go): decode the payload, drop an event whose id was seen, send its deltas to the
  flush loop.  A failed dedup check lets the event through.  The main lemma is that redelivery
  has no effect: what reaches the flush loop is one copy of each event, the first.
\<close>

definition dedupSeen :: "'w EventDedupCache \<Rightarrow> string \<Rightarrow> string \<Rightarrow> 'w \<Rightarrow> bool \<times> 'w" where
  "dedupSeen d topic eventID w =
     (case SeenOrMark d topic eventID w of
        (Inl e, w') \<Rightarrow> (False, w')
      | (Inr seen, w') \<Rightarrow> (seen, w'))"

definition dedup_handler ::
  "'w EventDedupCache \<Rightarrow> string \<Rightarrow> (json \<Rightarrow> 'p result) \<Rightarrow> ('p \<Rightarrow> string) \<Rightarrow> ('p \<Rightarrow> 'e list)
     \<Rightarrow> ('w \<times> 'e inbox) handler" where
  "dedup_handler d topic decode eventID deltas payload st =
     (case decode payload of
        Inl e \<Rightarrow> (None, st)
      | Inr p \<Rightarrow>
          (case dedupSeen d topic (eventID p) (fst st) of
             (seen, w) \<Rightarrow>
               if seen then (None, (w, snd st))
               else (None, (w, fold select_send (deltas p) (snd st)))))"

text \<open>The payloads of the decodable messages.\<close>

abbreviation payloads :: "(json \<Rightarrow> 'p result) \<Rightarrow> json list \<Rightarrow> 'p list" where
  "payloads decode \<equiv> decoded decode (\<lambda>p. p)"

text \<open>The events whose id did not occur before; those without an id all pass.\<close>

fun firsts :: "('p \<Rightarrow> string) \<Rightarrow> string set \<Rightarrow> 'p list \<Rightarrow> 'p list" where
  "firsts f S [] = []"
| "firsts f S (p # ps) =
     (if f p \<in> S then firsts f S ps
      else p # firsts f (if f p = [] then S else insert (f p) S) ps)"

lemma firsts_flags:
  "map fst (filter (\<lambda>(p, b). \<not> b) (zip ps (seen_flags S (map f ps)))) = firsts f S ps"
  by (induction ps arbitrary: S) (auto simp: insert_absorb)

lemma firsts_set: "[] \<notin> S \<Longrightarrow> f ` set (firsts f S ps) = f ` set ps - S"
  by (induction ps arbitrary: S) (auto split: if_splits)

lemma firsts_distinct:
  "(\<forall>p\<in>set ps. f p \<noteq> []) \<Longrightarrow> [] \<notin> S \<Longrightarrow> distinct (map f (firsts f S ps))"
proof (induction ps arbitrary: S)
  case (Cons p ps)
  have "f p \<notin> f ` set (firsts f (insert (f p) S) ps)"
    using Cons.prems by (subst firsts_set) auto
  moreover have "distinct (map f (firsts f (insert (f p) S) ps))"
    using Cons.prems by (intro Cons.IH) auto
  moreover have "distinct (map f (firsts f S ps))" using Cons.prems by (intro Cons.IH) auto
  ultimately show ?case using Cons.prems by simp
qed simp

lemma select_sends_live:
  "\<not> ib_done s \<Longrightarrow> ib_sent (fold select_send es s) = ib_sent s @ es
     \<and> \<not> ib_done (fold select_send es s)"
  by (induction es arbitrary: s) (auto simp: select_send_live)

lemma drain_dedup:
  assumes "\<not> ib_done s" "mark_run d topic (map f (payloads decode queue)) w = (map Inr bs, w')"
  shows "\<exists>s'. drain (dedup_handler d topic decode f deltas) queue (w, s) = (w', s') \<and> \<not> ib_done s'
    \<and> ib_sent s' = ib_sent s
        @ concat (map deltas (map fst (filter (\<lambda>(p, b). \<not> b) (zip (payloads decode queue) bs))))"
  using assms
proof (induction queue arbitrary: w s bs)
  case Nil
  then show ?case by auto
next
  case (Cons j js)
  show ?case
  proof (cases "decode j")
    case (Inl e)
    with Cons show ?thesis by (simp add: dedup_handler_def)
  next
    case (Inr p)
    with Cons.prems(2) obtain b bs' w1 where b: "bs = b # bs'" "SeenOrMark d topic (f p) w = (Inr b, w1)"
        "mark_run d topic (map f (payloads decode js)) w1 = (map Inr bs', w')"
      by (cases bs) (auto split: prod.splits)
    have h: "dedup_handler d topic decode f deltas j (w, s)
        = (None, (w1, if b then s else fold select_send (deltas p) s))"
      using Inr b(2) by (simp add: dedup_handler_def dedupSeen_def)
    have "\<not> ib_done (if b then s else fold select_send (deltas p) s)"
      using Cons.prems(1) select_sends_live [OF Cons.prems(1)] by simp
    from Cons.IH [OF this b(3)] show ?thesis
      using h b(1) Inr select_sends_live [OF Cons.prems(1), of "deltas p"] by auto
  qed
qed

text \<open>
  A queue of deliveries, with repetitions, handled within the TTL of the markers while Redis
  answers: what is sent are the deltas of the first delivery of each event.
\<close>

context redis_server
begin

lemma once_per_event:
  assumes "ed_rdb d = rdb" "0 < ed_ttl d" "\<not> ib_done s"
    and "mark_run d topic (map f (payloads decode queue)) w = (map Inr bs, w')"
    and "marked topic S T (kv w)" "[] \<notin> S" "rs_now (kv w') < T" "T \<le> rs_now (kv w) + ed_ttl d"
  shows "\<exists>s'. drain (dedup_handler d topic decode f deltas) queue (w, s) = (w', s')
    \<and> ib_sent s' = ib_sent s @ concat (map deltas (firsts f S (payloads decode queue)))"
proof -
  have "bs = seen_flags S (map f (payloads decode queue))"
    by (rule mark_run_flags [OF assms(1,2,4-8)])
  with drain_dedup [OF assms(3,4)] show ?thesis by (auto simp: firsts_flags)
qed

end

end
