(* ===== verification/PVConsumer.thy ===== *)
theory PVConsumer
  imports DedupHandler LikeRepository
begin

text \<open>
  internal/consumer/pv_consumer.go: view events become one increment of posts.view_count per
  post and flush.  The order in which Go ranges over the map of deltas is the order of the list
  that flush is given (any permutation of the entries, iter below).
\<close>

record 'w PVConsumer =
  pvc_db :: "'w gorm"
  pvc_dedup :: "'w EventDedupCache"
  pvc_batchSize :: nat
  pvc_flushInterval :: int

definition pv_handler :: "'w PVConsumer \<Rightarrow> ('w \<times> int inbox) handler" where
  "pv_handler c = dedup_handler (pvc_dedup c) TopicPV PVEvent_of_json pv_EventID (\<lambda>p. [pv_PostID p])"

text \<open>The buffer: the deltas per post and the number of events in it.\<close>

type_synonym pv_buffer = "(int \<times> int) list \<times> nat"

definition pv_add :: "int \<Rightarrow> pv_buffer \<Rightarrow> pv_buffer" where
  "pv_add postID b = (bump_count postID 1 (fst b), snd b + 1)"

text \<open>UPDATE posts SET view_count = view_count + ? WHERE id = ?\<close>

definition incr_view_count :: "int \<Rightarrow> int \<Rightarrow> Post \<Rightarrow> Post" where
  "incr_view_count delta t0 p = on_update_post t0 p (p\<lparr>p_ViewCount := p_ViewCount p + delta\<rparr>)"

fun pv_flush :: "'w gorm \<Rightarrow> (int \<times> int) list \<Rightarrow> 'w \<Rightarrow> int \<times> 'w" where
  "pv_flush db [] w = (0, w)"
| "pv_flush db ((postID, delta) # ds) w =
     (if delta \<le> 0 then pv_flush db ds w
      else (case db (UpdatePosts (\<lambda>p. p_ID p = postID) (incr_view_count delta)) w of
              (SqlErr e, w1) \<Rightarrow> pv_flush db ds w1
            | (_, w1) \<Rightarrow> (case pv_flush db ds w1 of (tot, w2) \<Rightarrow> (tot + delta, w2))))"

definition pv_flushLoop ::
  "((int \<times> int) list \<Rightarrow> (int \<times> int) list) \<Rightarrow> 'w PVConsumer \<Rightarrow> int loop_input list \<Rightarrow> pv_buffer \<Rightarrow> 'w
     \<Rightarrow> pv_buffer \<times> 'w" where
  "pv_flushLoop iter c =
     consumer_loop pv_add (\<lambda>b. snd b \<ge> pvc_batchSize c) (\<lambda>b. snd b > 0) ([], 0)
       (\<lambda>background b w. snd (pv_flush (pvc_db c) (iter (fst b)) w))"

section \<open>The views counted\<close>

lemma pv_add_fold: "fold pv_add es b = (fold (\<lambda>i. bump_count i 1) es (fst b), snd b + length es)"
  by (induction es arbitrary: b) (auto simp: pv_add_def)

interpretation pv_buffer: flush_buffer pv_add "\<lambda>b. snd b > 0" "([], 0)"
  by unfold_locales (simp add: pv_add_fold)

definition view_counts :: "Post list \<Rightarrow> (int \<times> int) list" where
  "view_counts ps = map (\<lambda>p. (p_ID p, p_ViewCount p)) ps"

lemma on_update_post_views [simp]: "p_ViewCount (on_update_post t0 p p') = p_ViewCount p'"
  by (simp add: on_update_post_def)

lemma view_counts_incr:
  "view_counts (update_rows (\<lambda>p. p_ID p = k) (incr_view_count d t0) ps)
     = map (\<lambda>(i, n). (i, n + (if k = i then d else 0))) (view_counts ps)"
  by (induction ps) (auto simp: view_counts_def update_rows_def incr_view_count_def)

definition events_for :: "int list \<Rightarrow> int \<Rightarrow> int" where
  "events_for es i = int (length (filter (\<lambda>e. e = i) es))"

lemma lookup_bumps:
  "lookup_count (fold (\<lambda>i. bump_count i 1) es kvs) i = lookup_count kvs i + events_for es i"
  by (induction es arbitrary: kvs) (auto simp: events_for_def)

lemma bumps_distinct:
  "distinct (map fst kvs) \<Longrightarrow> distinct (map fst (fold (\<lambda>i. bump_count i 1) es kvs))"
  by (induction es arbitrary: kvs) (auto simp: bump_count_distinct)

lemma bumps_pos:
  "\<forall>(k, d)\<in>set kvs. 0 < d \<Longrightarrow> \<forall>(k, d)\<in>set (fold (\<lambda>i. bump_count i 1) es kvs). 0 < (d::int)"
proof (induction es arbitrary: kvs)
  case (Cons e es)
  have "\<forall>(k, d)\<in>set (bump_count e 1 kvs). 0 < d"
    using Cons.prems by (induction kvs) (auto split: if_splits)
  with Cons.IH show ?case by simp
qed simp

lemma lookup_count_notin: "k \<notin> fst ` set kvs \<Longrightarrow> lookup_count kvs k = 0"
  by (simp add: lookup_count_def map_of_eq_None_iff [THEN iffD2])

lemma lookup_count_Cons: "lookup_count ((k, d) # kvs) i = (if k = i then d else lookup_count kvs i)"
  by (simp add: lookup_count_def)

lemma delta_for_lookup:
  "distinct (map fst ds) \<Longrightarrow> \<forall>(k, d)\<in>set ds. 0 < d \<Longrightarrow> delta_for ds i = lookup_count ds i"
proof (induction ds)
  case (Cons kd ds)
  obtain k d where kd: "kd = (k, d)" by fastforce
  show ?case using Cons lookup_count_notin [of k ds] by (auto simp: kd lookup_count_Cons)
qed simp

lemma delta_for_mset:
  assumes "mset ds = mset ds'" shows "delta_for ds i = delta_for ds' i"
proof -
  let ?f = "\<lambda>(k, d). if k = i \<and> 0 < d then d else 0 :: int"
  have "sum_mset (image_mset ?f (mset ds)) = sum_mset (image_mset ?f (mset ds'))"
    using assms by simp
  then show ?thesis by (simp add: delta_for_def sum_mset_sum_list flip: mset_map)
qed

context mysql_server
begin

text \<open>Each statement counts the views of its post, or is logged and loses them.\<close>

lemma pv_flush_counts:
  "pv_flush db ds w = (tot, w') \<Longrightarrow>
     \<exists>ls. length ls = length ds \<and> (\<forall>(x, y)\<in>set (zip ls ds). x = y \<or> x = (fst y, 0))
       \<and> view_counts (t_posts (master w'))
           = map (\<lambda>(i, n). (i, n + delta_for ls i)) (view_counts (t_posts (master w)))
       \<and> tot \<le> sum_list (map (\<lambda>(k, d). max 0 d) ls)"
proof (induction ds arbitrary: w tot)
  case Nil
  then show ?case by (simp add: case_prod_unfold)
next
  case (Cons kd ds)
  obtain k d where kd: "kd = (k, d)" by fastforce
  have step: "\<exists>l w1 t1. (l = (k, d) \<or> l = (k, 0)) \<and> pv_flush db ds w1 = (t1, w') \<and> tot \<le> t1 + max 0 (snd l)
     \<and> view_counts (t_posts (master w1)) = map (\<lambda>(i, n). (i, n + delta_for [l] i)) (view_counts (t_posts (master w)))"
    if p: "pv_flush db ((k, d) # ds) w = (tot, w')"
  proof (cases "d \<le> 0")
    case True
    then show ?thesis using p by (intro exI [of _ "(k, 0)"] exI [of _ w] exI [of _ tot]) (simp add: case_prod_unfold)
  next
    case False
    obtain r w1 where r: "db (UpdatePosts (\<lambda>p. p_ID p = k) (incr_view_count d)) w = (r, w1)" by fastforce
    obtain t1 where t1: "pv_flush db ds w1 = (t1, w')" "tot \<le> t1 + d" "(\<exists>e. r = SqlErr e) \<Longrightarrow> tot = t1"
      using p False r by (cases r) (auto split: prod.splits)
    consider (landed) t0 where
        "t_posts (master w1) = update_rows (\<lambda>p. p_ID p = k) (incr_view_count d t0) (t_posts (master w))"
      | (lost) "\<exists>e. r = SqlErr e" "t_posts (master w1) = t_posts (master w)"
      using sql_update_posts [OF r] by blast
    then show ?thesis
    proof cases
      case landed
      with t1 False show ?thesis
        by (intro exI [of _ "(k, d)"] exI [of _ w1] exI [of _ t1]) (simp add: view_counts_incr)
    next
      case lost
      with t1 show ?thesis
        by (intro exI [of _ "(k, 0)"] exI [of _ w1] exI [of _ t1]) (simp add: case_prod_unfold)
    qed
  qed
  from step [OF Cons.prems [unfolded kd]] obtain l w1 t1 where l: "l = (k, d) \<or> l = (k, 0)"
      "pv_flush db ds w1 = (t1, w')" "tot \<le> t1 + max 0 (snd l)"
      "view_counts (t_posts (master w1)) = map (\<lambda>(i, n). (i, n + delta_for [l] i)) (view_counts (t_posts (master w)))"
    by blast
  from Cons.IH [OF l(2)] obtain ls where "length ls = length ds" "\<forall>(x, y)\<in>set (zip ls ds). x = y \<or> x = (fst y, 0)"
      "view_counts (t_posts (master w')) = map (\<lambda>(i, n). (i, n + delta_for ls i)) (view_counts (t_posts (master w1)))"
      "t1 \<le> sum_list (map (\<lambda>(k, d). max 0 d) ls)"
    by blast
  with l kd show ?case
    by (intro exI [of _ "l # ls"]) (auto simp: case_prod_unfold)
qed

end

lemma sum_delta_per_post:
  "sum_list (map snd (fold (\<lambda>i. bump_count i 1) es kvs)) = sum_list (map snd kvs) + int (length es)"
  by (induction es arbitrary: kvs) (auto simp: sum_bump_count)

text \<open>Losses only lower the deltas; when their sum is reached, there were none.\<close>

lemma landed_le:
  assumes "length ls = length ds" "\<forall>(x, y)\<in>set (zip ls ds). x = y \<or> x = (fst y, 0)"
    and "\<forall>(k, d)\<in>set ds. 0 < (d::int)"
  shows "sum_list (map (\<lambda>(k, d). max 0 d) ls) \<le> sum_list (map snd ds)"
    "0 \<le> delta_for ls i \<and> delta_for ls i \<le> delta_for ds i"
    "sum_list (map snd ds) \<le> sum_list (map (\<lambda>(k, d). max 0 d) ls) \<Longrightarrow> ls = ds"
  using assms
proof (induction ls ds rule: list_induct2)
  case Nil
  { case 1 then show ?case by simp }
  { case 2 then show ?case by simp }
  { case 3 then show ?case by simp }
next
  case (Cons x xs y ys)
  { case 1 with Cons show ?case by (auto split: prod.splits) }
  { case 2 with Cons show ?case by (auto split: prod.splits) }
  { case 3 with Cons show ?case by (auto split: prod.splits) }
qed

section \<open>Properties\<close>

text \<open>
  Views are counted once per event.  A batch of any length, flushed in any order of the map:
  the view count of every post grows by at least nothing and at most its events in the batch,
  the total the flush reports never exceeds the number of events, and when it reaches it, every
  post has gained exactly its events.
\<close>

theorem pv_flush_views:
  assumes "mysql_server db master replica" and "\<And>xs. mset (iter xs) = mset xs"
    and "pv_flush db (iter (fst (fold pv_add es ([], 0)))) w = (tot, w')"
  shows "tot \<le> int (length es) \<and>
    (\<exists>gain. view_counts (t_posts (master w'))
              = map (\<lambda>(i, n). (i, n + gain i)) (view_counts (t_posts (master w)))
       \<and> (\<forall>i. 0 \<le> gain i \<and> gain i \<le> events_for es i)
       \<and> (tot = int (length es) \<longrightarrow> gain = events_for es))"
proof -
  define ds where "ds = fold (\<lambda>i. bump_count i 1) es []"
  define xs where "xs = iter ds"
  have m: "mset xs = mset ds" unfolding xs_def by (rule assms(2))
  have st: "set xs = set ds" by (rule mset_eq_setD [OF m])
  have pos: "\<forall>(k, d)\<in>set ds. 0 < d" "distinct (map fst ds)"
    unfolding ds_def using bumps_pos [of "[]" es] bumps_distinct [of "[]" es] by auto
  have posx: "\<forall>(k, d)\<in>set xs. 0 < d" using pos(1) st by simp
  have sum: "sum_list (map snd xs) = int (length es)"
  proof -
    have "sum_list (map snd xs) = sum_list (map snd ds)"
      using m by (metis mset_map sum_mset_sum_list)
    then show ?thesis using sum_delta_per_post [of es "[]"] by (simp add: ds_def)
  qed
  have df: "delta_for xs i = events_for es i" for i
    using delta_for_mset [OF m] delta_for_lookup [OF pos(2,1)] lookup_bumps [of es "[]" i] by (simp add: ds_def)
  have "pv_flush db xs w = (tot, w')"
    using assms(3) by (simp add: pv_add_fold xs_def ds_def)
  from mysql_server.pv_flush_counts [OF assms(1) this] obtain ls where ls: "length ls = length xs"
      "\<forall>(x, y)\<in>set (zip ls xs). x = y \<or> x = (fst y, 0)"
      "view_counts (t_posts (master w')) = map (\<lambda>(i, n). (i, n + delta_for ls i)) (view_counts (t_posts (master w)))"
      "tot \<le> sum_list (map (\<lambda>(k, d). max 0 d) ls)"
    by blast
  note le = landed_le [OF ls(1,2) posx]
  have "delta_for ls = events_for es" if "tot = int (length es)"
    using le(3) ls(4) sum that df by auto
  with ls(3,4) le(1,2) sum df show ?thesis by (intro conjI exI [of _ "delta_for ls"]) auto
qed

definition doc_pv_consumer :: "world PVConsumer" where
  "doc_pv_consumer = \<lparr>pvc_db = doc_db, pvc_dedup = NewEventDedupCache doc_rdb 86400000, pvc_batchSize = 100,
                      pvc_flushInterval = 5000\<rparr>"

theorem pv_flush_views_witness:
  "\<exists>w'. pv_flush doc_db (rev (fst (fold pv_add [1, 2, 1] ([], 0)))) demo_world = (3, w')
      \<and> view_counts (t_posts (w_db w')) = [(1, 2), (2, 1)]"
proof -
  obtain tot w' where r: "pv_flush doc_db (rev (fst (fold pv_add [1, 2, 1] ([], 0)))) demo_world = (tot, w')"
    by fastforce
  have "fst (pv_flush doc_db (rev (fst (fold pv_add [1, 2, 1] ([], 0)))) demo_world) = 3" by code_simp
  with r have tot: "tot = 3" by simp
  have v: "view_counts (t_posts (w_db demo_world)) = [(1, 0), (2, 0)]" by code_simp
  have "view_counts (t_posts (w_db w')) = map (\<lambda>(i, n). (i, n + events_for [1, 2, 1] i)) [(1, 0), (2, 0)]"
    using pv_flush_views [where iter = rev, OF doc.mysql_server_axioms _ r] tot v by auto
  then show ?thesis using r tot by (auto simp: events_for_def)
qed

text \<open>
  C31: Redelivery does not count.  The handler of the view topic is called with any list of
  messages, in which messages may be repeated and may not decode, while Redis answers and within
  the TTL of the markers: exactly the post ids of the first delivery of every event id reach the
  flush loop, in order.
\<close>

theorem pv_once_per_event:
  assumes "redis_server rdb kv" "ed_rdb (pvc_dedup c) = rdb" "0 < ed_ttl (pvc_dedup c)" "\<not> ib_done s"
    and "\<And>i. rget (kv w) (keyEventDedup TopicPV i) = None"
    and "mark_run (pvc_dedup c) TopicPV (map pv_EventID (payloads PVEvent_of_json queue)) w = (map Inr bs, w')"
    and "rs_now (kv w') < rs_now (kv w) + ed_ttl (pvc_dedup c)"
  shows "\<exists>s'. drain (pv_handler c) queue (w, s) = (w', s')
    \<and> ib_sent s' = ib_sent s @ map pv_PostID (firsts pv_EventID {} (payloads PVEvent_of_json queue))"
proof -
  have m: "marked TopicPV {} (rs_now (kv w) + ed_ttl (pvc_dedup c)) (kv w)"
    using assms(5) by (simp add: marked_def)
  from redis_server.once_per_event [OF assms(1-4,6) m _ assms(7), where deltas = "\<lambda>p. [pv_PostID p]"]
  show ?thesis by (simp add: pv_handler_def)
qed

definition demo_view :: "string \<Rightarrow> int \<Rightarrow> json" where
  "demo_view eid pid = json_of_PVEvent \<lparr>pv_EventID = eid, pv_PostID = pid, pv_ViewerID = 42,
                          pv_IP = [], pv_Timestamp = 1000\<rparr>"

theorem pv_once_per_event_witness:
  "\<exists>w' s'. drain (pv_handler doc_pv_consumer)
       [demo_view ''a'' 1, demo_view ''b'' 2, demo_view ''a'' 1, JNull] (demo_world, \<lparr>ib_sent = [], ib_done = False, ib_sched = []\<rparr>)
      = (w', s') \<and> ib_sent s' = [1, 2, 0]"
proof -
  let ?q = "[demo_view ''a'' 1, demo_view ''b'' 2, demo_view ''a'' 1, JNull]"
  let ?r = "mark_run (pvc_dedup doc_pv_consumer) TopicPV (map pv_EventID (payloads PVEvent_of_json ?q)) demo_world"
  have 1: "fst ?r = map Inr [False, False, True, False]" by code_simp
  have 2: "rs_now (w_kv (snd ?r)) = 1000" by code_simp
  have 3: "rget (w_kv demo_world) k = None" "rs_now (w_kv demo_world) = 1000" for k
    by (simp_all add: demo_world_def fresh_world_def empty_kv_def rget_def)
  have 4: "?r = (map Inr [False, False, True, False], snd ?r)" using 1 by (metis prod.collapse)
  have "map pv_PostID (firsts pv_EventID {} (payloads PVEvent_of_json ?q)) = [1, 2, 0]" by code_simp
  note ids = this
  have 5: "ed_rdb (pvc_dedup doc_pv_consumer) = doc_rdb" "0 < ed_ttl (pvc_dedup doc_pv_consumer)"
    "rs_now (w_kv (snd ?r)) < rs_now (w_kv demo_world) + ed_ttl (pvc_dedup doc_pv_consumer)"
    "\<not> ib_done \<lparr>ib_sent = [] :: int list, ib_done = False, ib_sched = []\<rparr>"
    unfolding 2 3(2) by (simp_all add: doc_pv_consumer_def NewEventDedupCache_def)
  show ?thesis
    using pv_once_per_event [OF doc.redis_server_axioms 5(1,2,4) 3(1) 4 5(3)] unfolding ids
    by (metis append_Nil inbox.select_convs(1))
qed

end
