(* ===== verification/CountConsumer.thy ===== *)
theory CountConsumer
  imports PVConsumer
begin

text \<open>
  internal/consumer/count_consumer.go: six topics feed signed deltas of the four counters of a
  user; a flush sends one UPDATE per user with the columns that changed, each clamped at zero.
\<close>

record countDelta =
  cd_userID :: int
  cd_postCount :: int
  cd_totalLikes :: int
  cd_followerCount :: int
  cd_followingCount :: int

definition no_delta :: "int \<Rightarrow> countDelta" where
  "no_delta uid = \<lparr>cd_userID = uid, cd_postCount = 0, cd_totalLikes = 0, cd_followerCount = 0,
                   cd_followingCount = 0\<rparr>"

record 'w CountConsumer =
  cco_db :: "'w gorm"
  cco_dedup :: "'w EventDedupCache"
  cco_batchSize :: nat
  cco_flushInterval :: int

section \<open>Handlers\<close>

definition count_post_handler :: "'w CountConsumer \<Rightarrow> ('w \<times> countDelta inbox) handler" where
  "count_post_handler c =
     dedup_handler (cco_dedup c) TopicPost PostEvent_of_json pe_EventID
       (\<lambda>p. [(no_delta (pe_AuthorID p))\<lparr>cd_postCount := 1\<rparr>])"

definition count_post_deleted_handler :: "'w CountConsumer \<Rightarrow> ('w \<times> countDelta inbox) handler" where
  "count_post_deleted_handler c =
     dedup_handler (cco_dedup c) TopicPostDeleted PostDeletedEvent_of_json pde_EventID
       (\<lambda>p. [(no_delta (pde_AuthorID p))\<lparr>cd_postCount := - 1\<rparr>])"

definition count_like_handler :: "'w CountConsumer \<Rightarrow> ('w \<times> countDelta inbox) handler" where
  "count_like_handler c =
     dedup_handler (cco_dedup c) TopicLike LikeEvent_of_json le_EventID
       (\<lambda>p. [(no_delta (le_AuthorID p))\<lparr>cd_totalLikes := 1\<rparr>])"

definition count_unlike_handler :: "'w CountConsumer \<Rightarrow> ('w \<times> countDelta inbox) handler" where
  "count_unlike_handler c =
     dedup_handler (cco_dedup c) TopicUnlike UnlikeEvent_of_json ue_EventID
       (\<lambda>p. [(no_delta (ue_AuthorID p))\<lparr>cd_totalLikes := - 1\<rparr>])"

definition follow_deltas :: "int \<Rightarrow> int \<Rightarrow> int \<Rightarrow> countDelta list" where
  "follow_deltas by follower following =
     [(no_delta follower)\<lparr>cd_followingCount := by\<rparr>, (no_delta following)\<lparr>cd_followerCount := by\<rparr>]"

definition count_follow_handler :: "'w CountConsumer \<Rightarrow> ('w \<times> countDelta inbox) handler" where
  "count_follow_handler c =
     dedup_handler (cco_dedup c) TopicFollow FollowEvent_of_json fe_EventID
       (\<lambda>p. follow_deltas 1 (fe_FollowerID p) (fe_FollowingID p))"

definition count_unfollow_handler :: "'w CountConsumer \<Rightarrow> ('w \<times> countDelta inbox) handler" where
  "count_unfollow_handler c =
     dedup_handler (cco_dedup c) TopicUnfollow UnfollowEvent_of_json ufe_EventID
       (\<lambda>p. follow_deltas (- 1) (ufe_FollowerID p) (ufe_FollowingID p))"

section \<open>The buffer\<close>

record count_buffer =
  cb_post :: "(int \<times> int) list"
  cb_like :: "(int \<times> int) list"
  cb_follower :: "(int \<times> int) list"
  cb_following :: "(int \<times> int) list"
  cb_count :: nat

definition empty_buffer :: count_buffer where
  "empty_buffer = \<lparr>cb_post = [], cb_like = [], cb_follower = [], cb_following = [], cb_count = 0\<rparr>"

definition bump_nonzero :: "int \<Rightarrow> int \<Rightarrow> (int \<times> int) list \<Rightarrow> (int \<times> int) list" where
  "bump_nonzero k d kvs = (if d \<noteq> 0 then bump_count k d kvs else kvs)"

definition count_apply :: "countDelta \<Rightarrow> count_buffer \<Rightarrow> count_buffer" where
  "count_apply d b =
     \<lparr>cb_post = bump_nonzero (cd_userID d) (cd_postCount d) (cb_post b),
      cb_like = bump_nonzero (cd_userID d) (cd_totalLikes d) (cb_like b),
      cb_follower = bump_nonzero (cd_userID d) (cd_followerCount d) (cb_follower b),
      cb_following = bump_nonzero (cd_userID d) (cd_followingCount d) (cb_following b),
      cb_count = cb_count b + 1\<rparr>"

section \<open>Flush\<close>

text \<open>GREATEST(0, CAST(column AS SIGNED) + ?), in the columns of the SET clause only.\<close>

definition clamp_add :: "int \<Rightarrow> int \<Rightarrow> int" where
  "clamp_add n d = (if d \<noteq> 0 then max 0 (n + d) else n)"

definition add_counts :: "int \<Rightarrow> int \<Rightarrow> int \<Rightarrow> int \<Rightarrow> User \<Rightarrow> User" where
  "add_counts pd ld fd gd u =
     u\<lparr>u_PostCount := clamp_add (u_PostCount u) pd, u_TotalLikes := clamp_add (u_TotalLikes u) ld,
       u_FollowerCount := clamp_add (u_FollowerCount u) fd,
       u_FollowingCount := clamp_add (u_FollowingCount u) gd\<rparr>"

text \<open>The users table has its updated_at on update clause: a row that changes gets the time.\<close>

definition set_counts :: "int \<Rightarrow> int \<Rightarrow> int \<Rightarrow> int \<Rightarrow> int \<Rightarrow> User \<Rightarrow> User" where
  "set_counts pd ld fd gd t0 u =
     (let u' = add_counts pd ld fd gd u in if u' = u then u else u'\<lparr>u_UpdatedAt := t0\<rparr>)"

definition all_users :: "count_buffer \<Rightarrow> int list" where
  "all_users b = remdups (map fst (cb_post b) @ map fst (cb_like b)
                            @ map fst (cb_follower b) @ map fst (cb_following b))"

fun count_flush_users :: "'w gorm \<Rightarrow> count_buffer \<Rightarrow> int list \<Rightarrow> 'w \<Rightarrow> int \<times> 'w" where
  "count_flush_users db b [] w = (0, w)"
| "count_flush_users db b (uid # uids) w =
     (let pd = lookup_count (cb_post b) uid; ld = lookup_count (cb_like b) uid;
          fd = lookup_count (cb_follower b) uid; gd = lookup_count (cb_following b) uid
      in if pd = 0 \<and> ld = 0 \<and> fd = 0 \<and> gd = 0 then count_flush_users db b uids w
         else (case db (UpdateUsers (\<lambda>u. u_ID u = uid) (set_counts pd ld fd gd)) w of
                 (SqlErr e, w1) \<Rightarrow> count_flush_users db b uids w1
               | (_, w1) \<Rightarrow> (case count_flush_users db b uids w1 of
                              (tot, w2) \<Rightarrow> (tot + (\<bar>pd\<bar> + \<bar>ld\<bar> + \<bar>fd\<bar> + \<bar>gd\<bar>), w2))))"

definition count_flush :: "(int list \<Rightarrow> int list) \<Rightarrow> 'w gorm \<Rightarrow> count_buffer \<Rightarrow> 'w \<Rightarrow> int \<times> 'w" where
  "count_flush iter db b = count_flush_users db b (iter (all_users b))"

definition count_flushLoop ::
  "(int list \<Rightarrow> int list) \<Rightarrow> 'w CountConsumer \<Rightarrow> countDelta loop_input list \<Rightarrow> count_buffer \<Rightarrow> 'w
     \<Rightarrow> count_buffer \<times> 'w" where
  "count_flushLoop iter c =
     consumer_loop count_apply (\<lambda>b. cb_count b \<ge> cco_batchSize c) (\<lambda>b. cb_count b \<noteq> 0) empty_buffer
       (\<lambda>background b w. snd (count_flush iter (cco_db c) b w))"

section \<open>The counters after a flush\<close>



lemma lookup_bump_nonzero [simp]:
  "lookup_count (bump_nonzero k d kvs) i = lookup_count kvs i + (if i = k then d else 0)"
  by (simp add: bump_nonzero_def)


lemma cb_count_fold: "cb_count (fold count_apply es b) = cb_count b + length es"
  by (induction es arbitrary: b) (auto simp: count_apply_def)

interpretation count_buffer: flush_buffer count_apply "\<lambda>b. cb_count b \<noteq> 0" empty_buffer
  by unfold_locales (simp add: cb_count_fold empty_buffer_def)

definition weight :: "count_buffer \<Rightarrow> int \<Rightarrow> int" where
  "weight b uid = \<bar>lookup_count (cb_post b) uid\<bar> + \<bar>lookup_count (cb_like b) uid\<bar>
     + \<bar>lookup_count (cb_follower b) uid\<bar> + \<bar>lookup_count (cb_following b) uid\<bar>"

lemma weight_nonneg [simp]: "0 \<le> weight b uid"
  by (simp add: weight_def)


lemma add_counts_ID [simp]: "u_ID (add_counts pd ld fd gd u) = u_ID u"
  by (simp add: add_counts_def)









section \<open>Properties\<close>




end
