(* ===== verification/UserRepository.thy ===== *)
theory UserRepository
  imports PostRepository
begin

text \<open>
  internal/repository/user_repository.go and audit_repository.go: the interfaces as records of
  operations, their GORM implementations, and the contract of the user repository.  The upds
  of a partial update are the map the service builds, as the list of its entries (column,
  value).
\<close>

definition repo_ErrUserNotFound :: goerr where
  "repo_ErrUserNotFound = Sentinel ''user not found''"

section \<open>The interface\<close>

record 'w UserRepository =
  ur_FindByPhoneHash :: "ctx \<Rightarrow> string \<Rightarrow> 'w \<Rightarrow> User result \<times> 'w"
  ur_FindByID :: "ctx \<Rightarrow> int \<Rightarrow> 'w \<Rightarrow> User result \<times> 'w"
  ur_Create :: "ctx \<Rightarrow> User \<Rightarrow> 'w \<Rightarrow> User result \<times> 'w"
  ur_UpdateProfile :: "ctx \<Rightarrow> int \<Rightarrow> (string \<times> string) list \<Rightarrow> 'w \<Rightarrow> error \<times> 'w"

section \<open>The GORM implementation\<close>

definition user_live :: "User \<Rightarrow> bool" where
  "user_live u \<longleftrightarrow> u_DeletedAt u = None"

definition first_user :: "sqlreply \<times> 'w \<Rightarrow> User result \<times> 'w" where
  "first_user a =
     (case a of
        (Users (u # _), w') \<Rightarrow> (ok u, w')
      | (Users [], w') \<Rightarrow> (err repo_ErrUserNotFound, w')
      | (SqlErr e, w') \<Rightarrow>
          (err (if errors_is e gorm_ErrRecordNotFound then repo_ErrUserNotFound else e), w')
      | (_, w') \<Rightarrow> (err bad_reply, w'))"

text \<open>The login lookup does not go through Apply.\<close>

definition users_FindByPhoneHash :: "'w gorm \<Rightarrow> ctx \<Rightarrow> string \<Rightarrow> 'w \<Rightarrow> User result \<times> 'w" where
  "users_FindByPhoneHash db c phoneHash w =
     first_user (db (SelectUsers Default (by_id_query (\<lambda>u. u_PhoneHash u = phoneHash \<and> user_live u) u_ID)) w)"

definition users_FindByID :: "'w gorm \<Rightarrow> ctx \<Rightarrow> int \<Rightarrow> 'w \<Rightarrow> User result \<times> 'w" where
  "users_FindByID db c uid w =
     first_user (db (SelectUsers (Apply c) (by_id_query (\<lambda>u. u_ID u = uid \<and> user_live u) u_ID)) w)"

definition users_Create :: "'w gorm \<Rightarrow> ctx \<Rightarrow> User \<Rightarrow> 'w \<Rightarrow> User result \<times> 'w" where
  "users_Create db c u w =
     (case db (InsertUser u) w of
        (InsertedUser u', w') \<Rightarrow> (ok u', w')
      | (SqlErr e, w') \<Rightarrow> (err e, w')
      | (_, w') \<Rightarrow> (err bad_reply, w'))"

definition set_profile_field :: "string \<times> string \<Rightarrow> User \<Rightarrow> User" where
  "set_profile_field f u =
     (if fst f = ''nickname'' then u\<lparr>u_Nickname := snd f\<rparr>
      else if fst f = ''avatar_url'' then u\<lparr>u_AvatarURL := snd f\<rparr>
      else if fst f = ''bio'' then u\<lparr>u_Bio := snd f\<rparr>
      else u)"

definition set_profile :: "(string \<times> string) list \<Rightarrow> int \<Rightarrow> User \<Rightarrow> User" where
  "set_profile upds t0 u = (fold set_profile_field upds u)\<lparr>u_UpdatedAt := t0\<rparr>"

definition users_UpdateProfile :: "'w gorm \<Rightarrow> ctx \<Rightarrow> int \<Rightarrow> (string \<times> string) list \<Rightarrow> 'w \<Rightarrow> error \<times> 'w" where
  "users_UpdateProfile db c uid upds w =
     (if upds = [] then (None, w)
      else (case db (UpdateUsers (\<lambda>u. u_ID u = uid \<and> user_live u) (set_profile upds)) w of
              (Affected _, w') \<Rightarrow> (None, w')
            | (SqlErr e, w') \<Rightarrow> (Some e, w')
            | (_, w') \<Rightarrow> (Some bad_reply, w')))"

definition NewUserRepository :: "'w gorm \<Rightarrow> 'w UserRepository" where
  "NewUserRepository db =
     \<lparr>ur_FindByPhoneHash = users_FindByPhoneHash db, ur_FindByID = users_FindByID db,
      ur_Create = users_Create db, ur_UpdateProfile = users_UpdateProfile db\<rparr>"

section \<open>The audit log\<close>

record 'w AuditRepository =
  ar_Create :: "ctx \<Rightarrow> AuditLog \<Rightarrow> 'w \<Rightarrow> error \<times> 'w"

definition audits_Create :: "'w gorm \<Rightarrow> ctx \<Rightarrow> AuditLog \<Rightarrow> 'w \<Rightarrow> error \<times> 'w" where
  "audits_Create db c log w =
     (case db (InsertAudit log) w of
        (InsertedAudit _, w') \<Rightarrow> (None, w')
      | (SqlErr e, w') \<Rightarrow> (Some e, w')
      | (_, w') \<Rightarrow> (Some bad_reply, w'))"

definition NewAuditRepository :: "'w gorm \<Rightarrow> 'w AuditRepository" where
  "NewAuditRepository db = \<lparr>ar_Create = audits_Create db\<rparr>"

section \<open>The contract of the user repository\<close>

locale user_repository = platform +
  fixes users :: "'a UserRepository"
  assumes user_find_law:
    "ur_FindByID users c uid w = (res, w') \<Longrightarrow>
       readonly sent kv master w w'
       \<and> (case res of
            Inr u \<Rightarrow> u_ID u = uid \<and> user_live u
                      \<and> u \<in> set (t_users (if ForceMaster c then master w else replica w))
          | Inl e \<Rightarrow> errors_is e repo_ErrUserNotFound \<longrightarrow>
              \<not> (\<exists>u \<in> set (t_users (if ForceMaster c then master w else replica w)).
                   u_ID u = uid \<and> user_live u))"
  and phone_law:
    "ur_FindByPhoneHash users c ph w = (pres, w') \<Longrightarrow>
       readonly sent kv master w w'
       \<and> (case pres of
            Inr u \<Rightarrow> u_PhoneHash u = ph \<and> user_live u \<and> u \<in> set (t_users (replica w))
          | Inl e \<Rightarrow> errors_is e repo_ErrUserNotFound \<longrightarrow>
              \<not> (\<exists>u \<in> set (t_users (replica w)). u_PhoneHash u = ph \<and> user_live u))"
  and user_create_law:
    "ur_Create users c u w = (cres, w') \<Longrightarrow>
       db_only sent kv w w'
       \<and> (\<forall>u'. cres = Inr u' \<longrightarrow>
            (\<exists>uid ct ut. u' = u\<lparr>u_ID := uid, u_CreatedAt := ct, u_UpdatedAt := ut\<rparr>)
            \<and> (\<forall>x\<in>set (t_users (master w)). u_PhoneHash x \<noteq> u_PhoneHash u)
            \<and> t_users (master w') = t_users (master w) @ [u'])"
  and profile_law:
    "ur_UpdateProfile users c uid upds w = (ures, w') \<Longrightarrow>
       db_only sent kv w w'
       \<and> (\<exists>t0. upds \<noteq> [] \<and> t_users (master w') =
                update_rows (\<lambda>u. u_ID u = uid \<and> user_live u) (set_profile upds t0) (t_users (master w))
            \<or> (upds \<noteq> [] \<longrightarrow> ures \<noteq> None) \<and> t_users (master w') = t_users (master w))"

context platform
begin

lemma first_user_law:
  assumes "first_user (db (SelectUsers rt' (by_id_query P u_ID)) w) = (res, w')"
  shows "readonly sent kv master w w'
    \<and> (case res of
         Inr u \<Rightarrow> P u \<and> u \<in> set (t_users (if rt' = Write then master w else replica w))
       | Inl e \<Rightarrow> errors_is e repo_ErrUserNotFound \<longrightarrow>
           \<not> (\<exists>u \<in> set (t_users (if rt' = Write then master w else replica w)). P u))"
proof -
  define q where "q = by_id_query P u_ID"
  define src where "src = t_users (if rt' = Write then master w else replica w)"
  obtain r where r: "db (SelectUsers rt' q) w = (r, w')" and res: "first_user (r, w') = (res, w')"
    using assms by (cases "db (SelectUsers rt' (by_id_query P u_ID)) w")
      (auto simp: first_user_def q_def split: sqlreply.splits list.splits)
  have ro: "readonly sent kv master w w'" by (rule sql_readonly [OF r]) simp
  have ans: "(\<exists>m. r = SqlErr (Plain m)) \<or> (\<exists>xs. r = Users xs \<and> query_ok q src xs)"
    by (rule sql_read [OF r, of rt']) (auto simp: src_def split: if_splits)
  show ?thesis
  proof (cases "\<exists>m. r = SqlErr (Plain m)")
    case True
    then show ?thesis
      using res ro by (auto simp: first_user_def repo_ErrUserNotFound_def gorm_ErrRecordNotFound_def)
  next
    case False
    then obtain xs where xs: "r = Users xs" "query_ok q src xs" using ans by blast
    show ?thesis
    proof (cases xs)
      case Nil
      then have "filter (q_where q) src = []"
        using xs(2) query_ok_empty by (force simp: q_def by_id_query_def)
      then have "\<not> (\<exists>u \<in> set src. P u)" by (auto simp: q_def by_id_query_def filter_empty_conv)
      then show ?thesis using res ro xs Nil by (auto simp: first_user_def src_def)
    next
      case (Cons u us)
      then have "u \<in> set src" "P u"
        using query_ok_subset [OF xs(2), of u] by (auto simp: q_def by_id_query_def)
      then show ?thesis using res ro xs Cons by (auto simp: first_user_def src_def)
    qed
  qed
qed

lemma users_find:
  assumes "users_FindByID db c uid w = (res, w')"
  shows "readonly sent kv master w w'
       \<and> (case res of
            Inr u \<Rightarrow> u_ID u = uid \<and> user_live u
                      \<and> u \<in> set (t_users (if ForceMaster c then master w else replica w))
          | Inl e \<Rightarrow> errors_is e repo_ErrUserNotFound \<longrightarrow>
              \<not> (\<exists>u \<in> set (t_users (if ForceMaster c then master w else replica w)).
                   u_ID u = uid \<and> user_live u))"
  using first_user_law [OF assms [unfolded users_FindByID_def]]
  by (simp add: Apply_def IsForceMaster_def split: sum.splits if_splits)

lemma users_phone:
  assumes "users_FindByPhoneHash db c ph w = (res, w')"
  shows "readonly sent kv master w w'
       \<and> (case res of
            Inr u \<Rightarrow> u_PhoneHash u = ph \<and> user_live u \<and> u \<in> set (t_users (replica w))
          | Inl e \<Rightarrow> errors_is e repo_ErrUserNotFound \<longrightarrow>
              \<not> (\<exists>u \<in> set (t_users (replica w)). u_PhoneHash u = ph \<and> user_live u))"
  using first_user_law [OF assms [unfolded users_FindByPhoneHash_def]] by (simp split: sum.splits)

lemma dml_InsertUser:
  assumes "dml (InsertUser u) s = (InsertedUser u', s')"
  shows "\<exists>uid ct ut. u' = u\<lparr>u_ID := uid, u_CreatedAt := ct, u_UpdatedAt := ut\<rparr>"
    "\<forall>x\<in>set (t_users s). u_PhoneHash x \<noteq> u_PhoneHash u" "t_users s' = t_users s @ [u']"
  using assms by (auto simp: Let_def bump_def list_ex_iff split: if_splits)

lemma users_create:
  assumes "users_Create db c u w = (res, w')"
  shows "db_only sent kv w w'
       \<and> (\<forall>u'. res = Inr u' \<longrightarrow>
            (\<exists>uid ct ut. u' = u\<lparr>u_ID := uid, u_CreatedAt := ct, u_UpdatedAt := ut\<rparr>)
            \<and> (\<forall>x\<in>set (t_users (master w)). u_PhoneHash x \<noteq> u_PhoneHash u)
            \<and> t_users (master w') = t_users (master w) @ [u'])"
proof -
  obtain r where r: "db (InsertUser u) w = (r, w')"
    using assms by (auto simp: users_Create_def split: prod.splits sqlreply.splits)
  have "(\<exists>uid ct ut. u' = u\<lparr>u_ID := uid, u_CreatedAt := ct, u_UpdatedAt := ut\<rparr>)
      \<and> (\<forall>x\<in>set (t_users (master w)). u_PhoneHash x \<noteq> u_PhoneHash u)
      \<and> t_users (master w') = t_users (master w) @ [u']" if "res = Inr u'" for u'
  proof -
    have r': "r = InsertedUser u'"
      using assms r that by (auto simp: users_Create_def split: sqlreply.splits)
    obtain d g where "dml (InsertUser u) (advance d g (master w)) = (r, master w')"
      by (rule sql_write [OF r]) (use r' in auto)
    from dml_InsertUser [OF this [unfolded r']] show ?thesis by auto
  qed
  with sql_db_only [OF r] show ?thesis by blast
qed

lemma users_update:
  assumes "users_UpdateProfile db c uid upds w = (res, w')"
  shows "db_only sent kv w w'
       \<and> (\<exists>t0. upds \<noteq> [] \<and> t_users (master w') =
                update_rows (\<lambda>u. u_ID u = uid \<and> user_live u) (set_profile upds t0) (t_users (master w))
            \<or> (upds \<noteq> [] \<longrightarrow> res \<noteq> None) \<and> t_users (master w') = t_users (master w))"
proof (cases "upds = []")
  case True
  with assms show ?thesis by (auto simp: users_UpdateProfile_def)
next
  case False
  define q where "q = UpdateUsers (\<lambda>u. u_ID u = uid \<and> user_live u) (set_profile upds)"
  obtain r where r: "db q w = (r, w')"
    using assms False by (auto simp: users_UpdateProfile_def q_def split: prod.splits sqlreply.splits)
  have e: "res \<noteq> None" if "r = SqlErr e" for e
    using assms r that False by (auto simp: users_UpdateProfile_def q_def)
  show ?thesis
    using sql_db_only [OF r] sql_update_users [OF r [unfolded q_def]] e False by blast
qed

end

sublocale platform \<subseteq> gorm_users: user_repository rdb kv db master replica pub sent rt
  "NewUserRepository db"
  by (unfold_locales, unfold NewUserRepository_def UserRepository.UserRepository.select_convs)
    (rule users_find, assumption, rule users_phone, assumption, rule users_create, assumption,
     rule users_update, assumption)

context platform
begin

lemma gorm_user_repository:
  "user_repository rdb kv db master replica pub sent rt (NewUserRepository db)"
  by (rule gorm_users.user_repository_axioms)

end

end
