(* ===== verification/FollowRepository.thy ===== *)
theory FollowRepository
  imports UserRepository
begin

text \<open>
  internal/repository/follow_repository.go: the interface, its GORM implementation, and its
  contract over the set of follow edges.  FollowUser, the row of the list query, is declared
  with the statements.
\<close>

record 'w FollowRepository =
  fo_Create :: "ctx \<Rightarrow> int \<Rightarrow> int \<Rightarrow> 'w \<Rightarrow> bool result \<times> 'w"
  fo_Delete :: "ctx \<Rightarrow> int \<Rightarrow> int \<Rightarrow> 'w \<Rightarrow> bool result \<times> 'w"
  fo_Exists :: "ctx \<Rightarrow> int \<Rightarrow> int \<Rightarrow> 'w \<Rightarrow> bool result \<times> 'w"
  fo_CountFollowing :: "ctx \<Rightarrow> int \<Rightarrow> 'w \<Rightarrow> int result \<times> 'w"
  fo_ListFollowers :: "ctx \<Rightarrow> int \<Rightarrow> int \<Rightarrow> int \<Rightarrow> 'w \<Rightarrow> FollowUser list result \<times> 'w"
  fo_ListFollowing :: "ctx \<Rightarrow> int \<Rightarrow> int \<Rightarrow> int \<Rightarrow> 'w \<Rightarrow> FollowUser list result \<times> 'w"

definition is_edge :: "int \<Rightarrow> int \<Rightarrow> Follow \<Rightarrow> bool" where
  "is_edge a b f \<longleftrightarrow> f_FollowerID f = a \<and> f_FollowingID f = b"

definition follows_Create :: "'w gorm \<Rightarrow> ctx \<Rightarrow> int \<Rightarrow> int \<Rightarrow> 'w \<Rightarrow> bool result \<times> 'w" where
  "follows_Create db c followerID followingID w =
     (case db (InsertIgnoreFollow followerID followingID) w of
        (Affected n, w') \<Rightarrow> (ok (n > 0), w')
      | (SqlErr e, w') \<Rightarrow> (err (Wrap ''follow create'' e), w')
      | (_, w') \<Rightarrow> (err bad_reply, w'))"

definition follows_Delete :: "'w gorm \<Rightarrow> ctx \<Rightarrow> int \<Rightarrow> int \<Rightarrow> 'w \<Rightarrow> bool result \<times> 'w" where
  "follows_Delete db c followerID followingID w =
     (case db (DeleteFollows (is_edge followerID followingID)) w of
        (Affected n, w') \<Rightarrow> (ok (n > 0), w')
      | (SqlErr e, w') \<Rightarrow> (err (Wrap ''follow delete'' e), w')
      | (_, w') \<Rightarrow> (err bad_reply, w'))"

definition follows_Exists :: "'w gorm \<Rightarrow> ctx \<Rightarrow> int \<Rightarrow> int \<Rightarrow> 'w \<Rightarrow> bool result \<times> 'w" where
  "follows_Exists db c followerID followingID w =
     (case db (ExistsFollow (Apply c) (is_edge followerID followingID)) w of
        (Count n, w') \<Rightarrow> (ok (n \<noteq> 0), w')
      | (SqlErr e, w') \<Rightarrow> (err (Wrap ''follow exists'' e), w')
      | (_, w') \<Rightarrow> (err bad_reply, w'))"

definition follows_CountFollowing :: "'w gorm \<Rightarrow> ctx \<Rightarrow> int \<Rightarrow> 'w \<Rightarrow> int result \<times> 'w" where
  "follows_CountFollowing db c followerID w =
     (case db (CountFollows (Apply c) (\<lambda>f. f_FollowerID f = followerID)) w of
        (Count n, w') \<Rightarrow> (ok n, w')
      | (SqlErr e, w') \<Rightarrow> (err (Wrap ''follow count following'' e), w')
      | (_, w') \<Rightarrow> (err bad_reply, w'))"

datatype joinDir = joinDirFollowers | joinDirFollowing

fun joinCol :: "joinDir \<Rightarrow> Follow \<Rightarrow> int" where
  "joinCol joinDirFollowers = f_FollowerID"
| "joinCol joinDirFollowing = f_FollowingID"

fun whereCol :: "joinDir \<Rightarrow> Follow \<Rightarrow> int" where
  "whereCol joinDirFollowers = f_FollowingID"
| "whereCol joinDirFollowing = f_FollowerID"

definition follow_query :: "joinDir \<Rightarrow> int \<Rightarrow> int \<Rightarrow> int \<Rightarrow> (Follow \<times> User) query" where
  "follow_query dir pivotID cursorFollowID n =
     \<lparr>q_where = (\<lambda>(f, u). whereCol dir f = pivotID \<and> user_live u
                         \<and> (cursorFollowID > 0 \<longrightarrow> f_ID f < cursorFollowID)),
      q_order = [\<lambda>(f, u). f_ID f], q_offset = 0, q_limit = Some n\<rparr>"

definition listJoin ::
  "'w gorm \<Rightarrow> ctx \<Rightarrow> joinDir \<Rightarrow> int \<Rightarrow> int \<Rightarrow> int \<Rightarrow> 'w \<Rightarrow> FollowUser list result \<times> 'w" where
  "listJoin db c dir pivotID cursorFollowID n w =
     (case db (SelectFollowUsers (Apply c) (joinCol dir) (follow_query dir pivotID cursorFollowID n)) w of
        (FollowUsers xs, w') \<Rightarrow> (ok xs, w')
      | (SqlErr e, w') \<Rightarrow> (err (Wrap ''follow list join'' e), w')
      | (_, w') \<Rightarrow> (err bad_reply, w'))"

definition follows_ListFollowers ::
  "'w gorm \<Rightarrow> ctx \<Rightarrow> int \<Rightarrow> int \<Rightarrow> int \<Rightarrow> 'w \<Rightarrow> FollowUser list result \<times> 'w" where
  "follows_ListFollowers db c followingID = listJoin db c joinDirFollowers followingID"

definition follows_ListFollowing ::
  "'w gorm \<Rightarrow> ctx \<Rightarrow> int \<Rightarrow> int \<Rightarrow> int \<Rightarrow> 'w \<Rightarrow> FollowUser list result \<times> 'w" where
  "follows_ListFollowing db c followerID = listJoin db c joinDirFollowing followerID"

definition NewFollowRepository :: "'w gorm \<Rightarrow> 'w FollowRepository" where
  "NewFollowRepository db =
     \<lparr>fo_Create = follows_Create db, fo_Delete = follows_Delete db, fo_Exists = follows_Exists db,
      fo_CountFollowing = follows_CountFollowing db, fo_ListFollowers = follows_ListFollowers db,
      fo_ListFollowing = follows_ListFollowing db\<rparr>"

section \<open>The contract\<close>

text \<open>The edges of the table, and uk_follower_following.\<close>

definition edges :: "dbstate \<Rightarrow> (int \<times> int) set" where
  "edges s = (\<lambda>f. (f_FollowerID f, f_FollowingID f)) ` set (t_follows s)"

definition follow_list_ok ::
  "dbstate \<Rightarrow> joinDir \<Rightarrow> int \<Rightarrow> int \<Rightarrow> int \<Rightarrow> FollowUser list \<Rightarrow> bool" where
  "follow_list_ok s dir pivot cursor n rows \<longleftrightarrow>
     (\<exists>xs. rows = map follow_user_row xs \<and> query_ok (follow_query dir pivot cursor n) (join_rows (joinCol dir) s) xs)"

locale follow_repository = platform +
  fixes follows :: "'a FollowRepository"
  assumes follow_law:
    "fo_Create follows c a b w = (res, w') \<Longrightarrow>
       db_only sent kv w w' \<and> t_users (master w') = t_users (master w) \<and> t_posts (master w') = t_posts (master w)
       \<and> (edges (master w') = edges (master w) \<or> edges (master w') = insert (a, b) (edges (master w)))
       \<and> (\<forall>new. res = Inr new \<longrightarrow> edges (master w') = insert (a, b) (edges (master w))
                                \<and> new = ((a, b) \<notin> edges (master w)))"
  and unfollow_law:
    "fo_Delete follows c a b w = (dres, w') \<Longrightarrow>
       db_only sent kv w w' \<and> t_users (master w') = t_users (master w) \<and> t_posts (master w') = t_posts (master w)
       \<and> (edges (master w') = edges (master w) \<or> edges (master w') = edges (master w) - {(a, b)})
       \<and> (\<forall>gone. dres = Inr gone \<longrightarrow> edges (master w') = edges (master w) - {(a, b)}
                                 \<and> gone = ((a, b) \<in> edges (master w)))"
  and exists_law:
    "fo_Exists follows c a b w = (eres, w') \<Longrightarrow>
       readonly sent kv master w w'
       \<and> (\<forall>x. eres = Inr x \<longrightarrow> x = ((a, b) \<in> edges (if ForceMaster c then master w else replica w)))"
  and count_law:
    "fo_CountFollowing follows c a w = (cres, w') \<Longrightarrow>
       readonly sent kv master w w'
       \<and> (\<forall>n. cres = Inr n \<longrightarrow>
            n = int (length (filter (\<lambda>f. f_FollowerID f = a)
                                (t_follows (if ForceMaster c then master w else replica w)))))"
  and followers_law:
    "fo_ListFollowers follows c pivot cursor n w = (lres, w') \<Longrightarrow>
       readonly sent kv master w w'
       \<and> (\<forall>rows. lres = Inr rows \<longrightarrow>
            follow_list_ok (if ForceMaster c then master w else replica w) joinDirFollowers pivot cursor n rows)"
  and following_law:
    "fo_ListFollowing follows c pivot cursor n w = (lres', w') \<Longrightarrow>
       readonly sent kv master w w'
       \<and> (\<forall>rows. lres' = Inr rows \<longrightarrow>
            follow_list_ok (if ForceMaster c then master w else replica w) joinDirFollowing pivot cursor n rows)"

section \<open>The implementation keeps the contract\<close>

lemma edges_iff: "(a, b) \<in> edges s \<longleftrightarrow> list_ex (is_edge a b) (t_follows s)"
  by (auto simp: edges_def is_edge_def list_ex_iff)

lemma edges_advance [simp]: "edges (advance d g s) = edges s"
  by (simp add: edges_def)

lemma dml_follow:
  "edges (snd (dml (InsertIgnoreFollow a b) s)) = insert (a, b) (edges s)"
  "t_users (snd (dml (InsertIgnoreFollow a b) s)) = t_users s"
  "t_posts (snd (dml (InsertIgnoreFollow a b) s)) = t_posts s"
  "fst (dml (InsertIgnoreFollow a b) s) = Affected (if (a, b) \<in> edges s then 0 else 1)"
  by (auto simp: edges_def bump_def list_ex_iff)

lemma dml_unfollow:
  "edges (snd (dml (DeleteFollows (is_edge a b)) s)) = edges s - {(a, b)}"
  "t_users (snd (dml (DeleteFollows (is_edge a b)) s)) = t_users s"
  "t_posts (snd (dml (DeleteFollows (is_edge a b)) s)) = t_posts s"
  "fst (dml (DeleteFollows (is_edge a b)) s) = Affected (int (length (filter (is_edge a b) (t_follows s))))"
  by (auto simp: edges_def is_edge_def)

lemma filter_edge_pos: "0 < int (length (filter (is_edge a b) (t_follows s))) \<longleftrightarrow> (a, b) \<in> edges s"
  by (auto simp: edges_iff list_ex_iff filter_empty_conv)

context mysql_server
begin

lemma sql_write_at:
  assumes "db q w = (r, w')" "read_route q = None"
  shows "\<exists>d g. r = fst (dml q (advance d g (master w))) \<and> master w' = snd (dml q (advance d g (master w)))
    \<or> (\<exists>m. r = SqlErr (Plain m)) \<and>
       (master w' = advance d g (master w) \<or> master w' = snd (dml q (advance d g (master w))))"
proof -
  obtain d g where "dml q (advance d g (master w)) = (r, master w')
      \<or> (\<exists>m. r = SqlErr (Plain m)) \<and>
         (master w' = advance d g (master w) \<or> master w' = snd (dml q (advance d g (master w))))"
    using sql_call [OF assms(1)] assms(2) by auto
  then show ?thesis by (intro exI [of _ d] exI [of _ g]) (metis fst_conv snd_conv)
qed

end

context platform
begin

lemma follows_create:
  assumes "follows_Create db c a b w = (res, w')"
  shows "db_only sent kv w w' \<and> t_users (master w') = t_users (master w) \<and> t_posts (master w') = t_posts (master w)
       \<and> (edges (master w') = edges (master w) \<or> edges (master w') = insert (a, b) (edges (master w)))
       \<and> (\<forall>new. res = Inr new \<longrightarrow> edges (master w') = insert (a, b) (edges (master w))
                                \<and> new = ((a, b) \<notin> edges (master w)))"
proof -
  obtain r where r: "db (InsertIgnoreFollow a b) w = (r, w')"
    using assms by (auto simp: follows_Create_def split: prod.splits sqlreply.splits)
  let ?q = "InsertIgnoreFollow a b"
  obtain d g where "r = fst (dml ?q (advance d g (master w))) \<and> master w' = snd (dml ?q (advance d g (master w)))
    \<or> (\<exists>m. r = SqlErr (Plain m)) \<and>
       (master w' = advance d g (master w) \<or> master w' = snd (dml ?q (advance d g (master w))))"
    using sql_write_at [OF r] by auto
  then consider (executed) "r = Affected (if (a, b) \<in> edges (master w) then 0 else 1)"
        "master w' = snd (dml ?q (advance d g (master w)))"
      | (failed) m where "r = SqlErr (Plain m)"
        "master w' = advance d g (master w) \<or> master w' = snd (dml ?q (advance d g (master w)))"
    unfolding dml_follow edges_advance by blast
  then show ?thesis
  proof cases
    case executed
    have "res = Inr ((a, b) \<notin> edges (master w))" using assms r executed(1)
      by (simp add: follows_Create_def split: if_splits)
    with executed(2) sql_db_only [OF r] show ?thesis by (simp add: dml_follow del: dml.simps)
  next
    case failed
    then have "res = Inl (Wrap ''follow create'' (Plain m))" using assms r by (simp add: follows_Create_def)
    with failed(2) sql_db_only [OF r] show ?thesis
      by (elim disjE) (simp_all add: dml_follow del: dml.simps)
  qed
qed

lemma follows_delete:
  assumes "follows_Delete db c a b w = (res, w')"
  shows "db_only sent kv w w' \<and> t_users (master w') = t_users (master w) \<and> t_posts (master w') = t_posts (master w)
       \<and> (edges (master w') = edges (master w) \<or> edges (master w') = edges (master w) - {(a, b)})
       \<and> (\<forall>gone. res = Inr gone \<longrightarrow> edges (master w') = edges (master w) - {(a, b)}
                                 \<and> gone = ((a, b) \<in> edges (master w)))"
proof -
  obtain r where r: "db (DeleteFollows (is_edge a b)) w = (r, w')"
    using assms by (auto simp: follows_Delete_def split: prod.splits sqlreply.splits)
  let ?q = "DeleteFollows (is_edge a b)"
  obtain d g where e: "r = fst (dml ?q (advance d g (master w))) \<and> master w' = snd (dml ?q (advance d g (master w)))
    \<or> (\<exists>m. r = SqlErr (Plain m)) \<and>
       (master w' = advance d g (master w) \<or> master w' = snd (dml ?q (advance d g (master w))))"
    using sql_write_at [OF r] by auto
  define n where "n = int (length (filter (is_edge a b) (t_follows (advance d g (master w)))))"
  have n: "0 < n \<longleftrightarrow> (a, b) \<in> edges (master w)" unfolding n_def filter_edge_pos by simp
  from e consider (executed) "r = Affected n" "master w' = snd (dml ?q (advance d g (master w)))"
      | (failed) m where "r = SqlErr (Plain m)"
        "master w' = advance d g (master w) \<or> master w' = snd (dml ?q (advance d g (master w)))"
    unfolding dml_unfollow n_def by blast
  then show ?thesis
  proof cases
    case executed
    then have "res = Inr ((a, b) \<in> edges (master w))" using assms r n by (simp add: follows_Delete_def)
    with executed(2) sql_db_only [OF r] show ?thesis by (simp add: dml_unfollow del: dml.simps)
  next
    case failed
    then have "res = Inl (Wrap ''follow delete'' (Plain m))" using assms r by (simp add: follows_Delete_def)
    with failed(2) sql_db_only [OF r] show ?thesis
      by (elim disjE) (simp_all add: dml_unfollow del: dml.simps)
  qed
qed

lemma sql_read_apply:
  assumes "db q w = (r, w')" "read_route q = Some (Apply c)"
  shows "readonly sent kv master w w'"
    "(\<exists>m. r = SqlErr (Plain m)) \<or> answers q (if ForceMaster c then master w else replica w) r"
proof -
  show "readonly sent kv master w w'" by (rule sql_readonly [OF assms])
  show "(\<exists>m. r = SqlErr (Plain m)) \<or> answers q (if ForceMaster c then master w else replica w) r"
    by (rule sql_read [OF assms]) (auto simp: Apply_def IsForceMaster_def split: if_splits)
qed

lemma follows_exists:
  assumes "follows_Exists db c a b w = (res, w')"
  shows "readonly sent kv master w w'
       \<and> (\<forall>x. res = Inr x \<longrightarrow> x = ((a, b) \<in> edges (if ForceMaster c then master w else replica w)))"
proof -
  obtain r where r: "db (ExistsFollow (Apply c) (is_edge a b)) w = (r, w')"
    using assms by (auto simp: follows_Exists_def split: prod.splits sqlreply.splits)
  from sql_read_apply [OF r, of c] assms r show ?thesis
    by (auto simp: follows_Exists_def edges_iff split: if_splits)
qed

lemma follows_count:
  assumes "follows_CountFollowing db c a w = (res, w')"
  shows "readonly sent kv master w w'
       \<and> (\<forall>n. res = Inr n \<longrightarrow>
            n = int (length (filter (\<lambda>f. f_FollowerID f = a)
                                (t_follows (if ForceMaster c then master w else replica w)))))"
proof -
  obtain r where r: "db (CountFollows (Apply c) (\<lambda>f. f_FollowerID f = a)) w = (r, w')"
    using assms by (auto simp: follows_CountFollowing_def split: prod.splits sqlreply.splits)
  from sql_read_apply [OF r, of c] assms r show ?thesis
    by (auto simp: follows_CountFollowing_def)
qed

lemma follows_list:
  assumes "listJoin db c dir pivot cursor n w = (res, w')"
  shows "readonly sent kv master w w'
       \<and> (\<forall>rows. res = Inr rows \<longrightarrow>
            follow_list_ok (if ForceMaster c then master w else replica w) dir pivot cursor n rows)"
proof -
  obtain r where r: "db (SelectFollowUsers (Apply c) (joinCol dir) (follow_query dir pivot cursor n)) w = (r, w')"
    using assms by (auto simp: listJoin_def split: prod.splits sqlreply.splits)
  from sql_read_apply [OF r, of c] assms r show ?thesis
    by (auto simp: listJoin_def follow_list_ok_def)
qed

end

sublocale platform \<subseteq> gorm_follows: follow_repository rdb kv db master replica pub sent rt
  "NewFollowRepository db"
  by (unfold_locales, unfold NewFollowRepository_def FollowRepository.select_convs
        follows_ListFollowers_def follows_ListFollowing_def)
    (rule follows_create, assumption, rule follows_delete, assumption, rule follows_exists, assumption,
     rule follows_count, assumption, rule follows_list, assumption, rule follows_list, assumption)

context platform
begin

lemma gorm_follow_repository:
  "follow_repository rdb kv db master replica pub sent rt (NewFollowRepository db)"
  by (rule gorm_follows.follow_repository_axioms)

end

end
