(* ===== verification/FollowService.thy ===== *)
theory FollowService
  imports FollowRepository Caches
begin

text \<open>
  internal/service/follow_service.go: follow and unfollow over the user and follow repositories,
  the write marker and the publisher, and the two paginated lists.
\<close>

record 'w FollowService =
  fs_followRepo :: "'w FollowRepository"
  fs_userRepo :: "'w UserRepository"
  fs_bus :: "'w publisher"
  fs_writeMarker :: "'w WriteMarker"
  fs_maxFollowing :: int
  fs_defaultListSize :: int
  fs_maxListSize :: int

text \<open>config.FollowConfig.\<close>

record FollowConfig =
  fcfg_MaxFollowing :: int
  fcfg_DefaultListSize :: int
  fcfg_MaxListSize :: int

record FollowActionResp =
  fa_Following :: bool

definition NewFollowService ::
  "'w FollowRepository \<Rightarrow> 'w UserRepository \<Rightarrow> 'w publisher \<Rightarrow> 'w WriteMarker \<Rightarrow> FollowConfig
     \<Rightarrow> 'w FollowService" where
  "NewFollowService followRepo userRepo bus writeMarker cfg =
     \<lparr>fs_followRepo = followRepo, fs_userRepo = userRepo, fs_bus = bus, fs_writeMarker = writeMarker,
      fs_maxFollowing = fcfg_MaxFollowing cfg, fs_defaultListSize = fcfg_DefaultListSize cfg,
      fs_maxListSize = fcfg_MaxListSize cfg\<rparr>"

section \<open>Events\<close>

definition follow_event :: "string \<Rightarrow> int \<Rightarrow> int \<Rightarrow> int \<Rightarrow> Event" where
  "follow_event i now followerID followingID =
     \<lparr>ev_ID = i, ev_Topic = TopicFollow, ev_Timestamp = now,
      ev_Payload = json_of_FollowEvent
        \<lparr>fe_EventID = i, fe_FollowerID = followerID, fe_FollowingID = followingID, fe_Timestamp = now\<rparr>\<rparr>"

definition unfollow_event :: "string \<Rightarrow> int \<Rightarrow> int \<Rightarrow> int \<Rightarrow> Event" where
  "unfollow_event i now followerID followingID =
     \<lparr>ev_ID = i, ev_Topic = TopicUnfollow, ev_Timestamp = now,
      ev_Payload = json_of_UnfollowEvent
        \<lparr>ufe_EventID = i, ufe_FollowerID = followerID, ufe_FollowingID = followingID, ufe_Timestamp = now\<rparr>\<rparr>"

definition publishFollowEvent :: "'w runtime \<Rightarrow> 'w FollowService \<Rightarrow> ctx \<Rightarrow> int \<Rightarrow> int \<Rightarrow> 'w \<Rightarrow> 'w" where
  "publishFollowEvent rt s c followerID followingID w =
     (let (i, w) = rt_uuid rt w;
          (now, w) = rt_now rt w
      in snd (fs_bus s c (follow_event i now followerID followingID) w))"

definition publishUnfollowEvent :: "'w runtime \<Rightarrow> 'w FollowService \<Rightarrow> ctx \<Rightarrow> int \<Rightarrow> int \<Rightarrow> 'w \<Rightarrow> 'w" where
  "publishUnfollowEvent rt s c followerID followingID w =
     (let (i, w) = rt_uuid rt w;
          (now, w) = rt_now rt w
      in snd (fs_bus s c (unfollow_event i now followerID followingID) w))"

section \<open>Follow and unfollow\<close>

definition FollowService_Follow ::
  "'w runtime \<Rightarrow> 'w FollowService \<Rightarrow> ctx \<Rightarrow> int \<Rightarrow> int \<Rightarrow> 'w \<Rightarrow> FollowActionResp result \<times> 'w" where
  "FollowService_Follow rt s c followerID targetID w =
     (if followerID = targetID then (err (App ErrCannotFollowSelf), w)
      else
     (case ur_FindByID (fs_userRepo s) c targetID w of
        (Inl e, w) \<Rightarrow>
          (err (if errors_is e repo_ErrUserNotFound then App ErrUserNotFound
                else Wrap ''follow: find target'' e), w)
      | (Inr target, w) \<Rightarrow>
     (case fo_Exists (fs_followRepo s) c followerID targetID w of
        (Inl e, w) \<Rightarrow> (err (Wrap ''follow: exists check'' e), w)
      | (Inr True, w) \<Rightarrow> (ok \<lparr>fa_Following = True\<rparr>, w)
      | (Inr False, w) \<Rightarrow>
     (case fo_CountFollowing (fs_followRepo s) c followerID w of
        (Inl e, w) \<Rightarrow> (err (Wrap ''follow: count following'' e), w)
      | (Inr cnt, w) \<Rightarrow>
     (if cnt \<ge> fs_maxFollowing s then (err (App ErrFollowLimitExceeded), w)
      else
     (case fo_Create (fs_followRepo s) c followerID targetID w of
        (Inl e, w) \<Rightarrow> (err (Wrap ''follow: create'' e), w)
      | (Inr inserted, w) \<Rightarrow>
          (let w = (if inserted then
                      (let w = WriteMarker_Mark (fs_writeMarker s) followerID w;
                           w = WriteMarker_Mark (fs_writeMarker s) targetID w
                       in publishFollowEvent rt s c followerID targetID w)
                    else w)
           in (ok \<lparr>fa_Following = True\<rparr>, w))))))))"

definition FollowService_Unfollow ::
  "'w runtime \<Rightarrow> 'w FollowService \<Rightarrow> ctx \<Rightarrow> int \<Rightarrow> int \<Rightarrow> 'w \<Rightarrow> FollowActionResp result \<times> 'w" where
  "FollowService_Unfollow rt s c followerID targetID w =
     (case fo_Delete (fs_followRepo s) c followerID targetID w of
        (Inl e, w) \<Rightarrow> (err (Wrap ''unfollow: delete'' e), w)
      | (Inr False, w) \<Rightarrow> (err (App ErrFollowNotFound), w)
      | (Inr True, w) \<Rightarrow>
          (let w = WriteMarker_Mark (fs_writeMarker s) followerID w;
               w = WriteMarker_Mark (fs_writeMarker s) targetID w;
               w = publishUnfollowEvent rt s c followerID targetID w
           in (ok \<lparr>fa_Following = False\<rparr>, w)))"

section \<open>Lists\<close>

definition parseFollowCursor :: "string \<Rightarrow> int result" where
  "parseFollowCursor cursor =
     (if cursor = [] then ok 0
      else (case ParseInt cursor of
              None \<Rightarrow> err (App ErrFollowCursorInvalid)
            | Some i \<Rightarrow> if i \<le> 0 then err (App ErrFollowCursorInvalid) else ok i))"

definition clampFollowListSize :: "'w FollowService \<Rightarrow> int \<Rightarrow> int" where
  "clampFollowListSize s sz =
     (if sz \<le> 0 then fs_defaultListSize s
      else if sz > fs_maxListSize s then fs_maxListSize s
      else sz)"

definition user_brief :: "FollowUser \<Rightarrow> UserBrief" where
  "user_brief r = \<lparr>ub_ID = fu_UserID r, ub_Nickname = fu_Nickname r, ub_AvatarURL = fu_AvatarURL r\<rparr>"

definition buildFollowListResp :: "FollowUser list \<Rightarrow> int \<Rightarrow> FollowListResp" where
  "buildFollowListResp rows sz =
     (let hasMore = int (length rows) > sz;
          kept = (if hasMore then take (nat sz) rows else rows);
          nextCursor = (if hasMore \<and> kept \<noteq> [] then FormatInt (fu_FollowID (last kept)) else [])
      in \<lparr>fl_Users = map user_brief kept, fl_NextCursor = nextCursor, fl_HasMore = hasMore\<rparr>)"

definition force_if :: "bool \<Rightarrow> ctx \<Rightarrow> ctx" where
  "force_if b c = (if b then WithForceMaster c else c)"

definition FollowService_ListFollowers ::
  "'w FollowService \<Rightarrow> ctx \<Rightarrow> int \<Rightarrow> string \<Rightarrow> int \<Rightarrow> 'w \<Rightarrow> FollowListResp result \<times> 'w" where
  "FollowService_ListFollowers s c targetID cursor sz w =
     (case parseFollowCursor cursor of
        Inl e \<Rightarrow> (err e, w)
      | Inr cursorFollowID \<Rightarrow>
          (let sz = clampFollowListSize s sz;
               (recent, w) = WriteMarker_Has (fs_writeMarker s) targetID w
           in case fo_ListFollowers (fs_followRepo s) (force_if recent c) targetID cursorFollowID (sz + 1) w of
                (Inl e, w) \<Rightarrow> (err (Wrap ''list followers'' e), w)
              | (Inr rows, w) \<Rightarrow> (ok (buildFollowListResp rows sz), w)))"

definition FollowService_ListFollowing ::
  "'w FollowService \<Rightarrow> ctx \<Rightarrow> int \<Rightarrow> string \<Rightarrow> int \<Rightarrow> 'w \<Rightarrow> FollowListResp result \<times> 'w" where
  "FollowService_ListFollowing s c targetID cursor sz w =
     (case parseFollowCursor cursor of
        Inl e \<Rightarrow> (err e, w)
      | Inr cursorFollowID \<Rightarrow>
          (let sz = clampFollowListSize s sz;
               (recent, w) = WriteMarker_Has (fs_writeMarker s) targetID w
           in case fo_ListFollowing (fs_followRepo s) (force_if recent c) targetID cursorFollowID (sz + 1) w of
                (Inl e, w) \<Rightarrow> (err (Wrap ''list following'' e), w)
              | (Inr rows, w) \<Rightarrow> (ok (buildFollowListResp rows sz), w)))"

section \<open>Effects of a follow\<close>

text \<open>A publish sends the event or nothing.\<close>

definition sent_event :: "('w \<Rightarrow> Event list) \<Rightarrow> (string \<Rightarrow> int \<Rightarrow> Event) \<Rightarrow> 'w \<Rightarrow> 'w \<Rightarrow> bool" where
  "sent_event sent mk w w' \<longleftrightarrow> sent w' = sent w \<or> (\<exists>i now. sent w' = sent w @ [mk i now])"

context platform
begin

lemma uuid_now_publish:
  assumes "w' = (case rt_uuid rt w of (i, w1) \<Rightarrow> (case rt_now rt w1 of (now, w2) \<Rightarrow> snd (pub c (mk i now) w2)))"
  shows "sent_event sent mk w w'" "idle_kv (kv w) (kv w')" "tables (master w') = tables (master w)"
proof -
  obtain i w1 where 1: "rt_uuid rt w = (i, w1)" by fastforce
  obtain now w2 where 2: "rt_now rt w1 = (now, w2)" by fastforce
  obtain r where 3: "pub c (mk i now) w2 = (r, w')" using assms 1 2 by (cases "pub c (mk i now) w2") simp
  show "sent_event sent mk w w'" "idle_kv (kv w) (kv w')" "tables (master w') = tables (master w)"
    using uuid_frame [OF 1] now_frame [OF 2] pub_call [OF 3]
    by (auto simp: sent_event_def intro: idle_kv_trans)
qed

lemma mark_frame:
  "sent (WriteMarker_Mark \<lparr>wm_rdb = rdb, wm_ttl = ttl\<rparr> u w) = sent w"
  "tables (master (WriteMarker_Mark \<lparr>wm_rdb = rdb, wm_ttl = ttl\<rparr> u w)) = tables (master w)"
  using rdb_frame by (auto simp: WriteMarker_Mark_def) (metis prod.collapse)+

end

locale follow_env =
  user_repository rdb kv db master replica pub sent rt users
  + follow_repository rdb kv db master replica pub sent rt follows
  for rdb kv db master replica pub sent rt users follows
begin

abbreviation follow_service :: "int \<Rightarrow> FollowConfig \<Rightarrow> 'a FollowService" where
  "follow_service ttl cfg \<equiv> NewFollowService follows users pub (NewWriteMarker rdb ttl) cfg"

lemma marks_publish:
  assumes "w' = (case rt_uuid rt (WriteMarker_Mark (NewWriteMarker rdb ttl) b (WriteMarker_Mark (NewWriteMarker rdb ttl) a w)) of
                   (i, w1) \<Rightarrow> (case rt_now rt w1 of (now, w2) \<Rightarrow> snd (pub c (mk i now) w2)))"
  shows "sent_event sent mk w w'" "tables (master w') = tables (master w)"
proof -
  let ?w = "WriteMarker_Mark (NewWriteMarker rdb ttl) b (WriteMarker_Mark (NewWriteMarker rdb ttl) a w)"
  have "sent ?w = sent w" "tables (master ?w) = tables (master w)"
    by (simp_all add: NewWriteMarker_def mark_frame)
  with uuid_now_publish [OF assms] show "sent_event sent mk w w'" "tables (master w') = tables (master w)"
    by (simp_all add: sent_event_def)
qed

lemma edges_tables: "tables s = tables s' \<Longrightarrow> edges s = edges s'"
  by (simp add: tables_def edges_def)

text \<open>What a follow that returns without an error has done.\<close>

text \<open>The edge is created; when it is new, both users are marked and the event is offered.\<close>

lemma follow_inserted:
  assumes 4: "fo_Create follows c a b w3 = (Inr ins, w4)" and ro: "readonly sent kv master w w3"
    and w': "w' = (if ins then (case rt_uuid rt (WriteMarker_Mark (NewWriteMarker rdb ttl) b
                                   (WriteMarker_Mark (NewWriteMarker rdb ttl) a w4)) of
               (i, v) \<Rightarrow> (case rt_now rt v of (now, v) \<Rightarrow> snd (pub c (follow_event i now a b) v))) else w4)"
  shows "edges (master w') = insert (a, b) (edges (master w))"
    "if (a, b) \<in> edges (master w) then sent w' = sent w
     else sent_event sent (\<lambda>i now. follow_event i now a b) w w'"
proof -
  note f = follow_law [OF 4]
  have same: "edges (master w3) = edges (master w)" "sent w3 = sent w"
    using ro by (simp_all add: readonly_def db_only_def edges_tables [of "master w3" "master w"])
  have e4: "edges (master w4) = insert (a, b) (edges (master w))" "sent w4 = sent w"
      "ins = ((a, b) \<notin> edges (master w))"
    using f same by (auto simp: db_only_def)
  have "edges (master w') = edges (master w4)
      \<and> (if ins then sent_event sent (\<lambda>i now. follow_event i now a b) w4 w' else w' = w4)"
  proof (cases ins)
    case True
    with w' marks_publish [where a = a and b = b and w = w4 and ttl = ttl and c = c and w' = w'
        and mk = "\<lambda>i now. follow_event i now a b"] edges_tables [of "master w'" "master w4"]
    show ?thesis by simp
  qed (use w' in simp)
  with e4 show "edges (master w') = insert (a, b) (edges (master w))"
    "if (a, b) \<in> edges (master w) then sent w' = sent w
     else sent_event sent (\<lambda>i now. follow_event i now a b) w w'"
    by (auto simp: sent_event_def)
qed

lemma follow_returns:
  assumes "FollowService_Follow rt (follow_service ttl cfg) c a b w = (Inr r, w')"
  obtains w1 w2 u where "fa_Following r" "a \<noteq> b" "readonly sent kv master w w1" "readonly sent kv master w w2"
    "u \<in> set (t_users (if ForceMaster c then master w else replica w))" "u_ID u = b" "user_live u"
    "(a, b) \<in> edges (if ForceMaster c then master w1 else replica w1) \<and> readonly sent kv master w w'
     \<or> (a, b) \<notin> edges (if ForceMaster c then master w1 else replica w1)
       \<and> int (length (filter (\<lambda>f. f_FollowerID f = a) (t_follows (if ForceMaster c then master w2 else replica w2))))
           < fcfg_MaxFollowing cfg
       \<and> edges (master w') = insert (a, b) (edges (master w))
       \<and> (if (a, b) \<in> edges (master w) then sent w' = sent w
          else sent_event sent (\<lambda>i now. follow_event i now a b) w w')"
proof -
  let ?s = "follow_service ttl cfg"
  have ab: "a \<noteq> b" using assms by (auto simp: FollowService_Follow_def)
  obtain u w1 where 1: "ur_FindByID users c b w = (Inr u, w1)"
    using assms ab by (auto simp: FollowService_Follow_def NewFollowService_def split: prod.splits sum.splits)
  note u = user_find_law [OF 1]
  obtain ex w2 where 2: "fo_Exists follows c a b w1 = (Inr ex, w2)"
    using assms ab 1 by (auto simp: FollowService_Follow_def NewFollowService_def split: prod.splits sum.splits bool.splits)
  note e = exists_law [OF 2]
  have ro2: "readonly sent kv master w w2"
    by (rule readonly_trans [OF conjunct1 [OF u] conjunct1 [OF e]])
  show thesis
  proof (cases ex)
    case True
    then have "w' = w2" "fa_Following r"
      using assms ab 1 2 by (auto simp: FollowService_Follow_def NewFollowService_def)
    with True show thesis using u e ro2 ab that [of w1 w2 u] by auto
  next
    case False
    obtain cnt w3 where 3: "fo_CountFollowing follows c a w2 = (Inr cnt, w3)"
      using assms ab 1 2 False
      by (auto simp: FollowService_Follow_def NewFollowService_def split: prod.splits sum.splits)
    note n = count_law [OF 3]
    have ro3: "readonly sent kv master w w3" by (rule readonly_trans [OF ro2 conjunct1 [OF n]])
    have cnt: "cnt < fcfg_MaxFollowing cfg"
      using assms ab 1 2 3 False by (auto simp: FollowService_Follow_def NewFollowService_def split: if_splits)
    obtain ins w4 where 4: "fo_Create follows c a b w3 = (Inr ins, w4)"
      using assms ab 1 2 3 False cnt
      by (auto simp: FollowService_Follow_def NewFollowService_def split: prod.splits sum.splits)
    define w5 where "w5 = (if ins then (case rt_uuid rt (WriteMarker_Mark (NewWriteMarker rdb ttl) b
                                   (WriteMarker_Mark (NewWriteMarker rdb ttl) a w4)) of
               (i, v) \<Rightarrow> (case rt_now rt v of (now, v) \<Rightarrow> snd (pub c (follow_event i now a b) v))) else w4)"
    have "FollowService_Follow rt ?s c a b w = (Inr \<lparr>fa_Following = True\<rparr>, w5)"
      using ab 1 2 3 4 False cnt
      by (simp add: FollowService_Follow_def NewFollowService_def publishFollowEvent_def Let_def w5_def)
    with assms have w': "w' = w5" "fa_Following r" by auto
    with False u e n ab cnt ro2 follow_inserted [OF 4 ro3 w'(1) [unfolded w5_def]] w'(2) show thesis using that [of w1 w2 u] by auto
  qed
qed

lemma unfollow_returns:
  assumes "FollowService_Unfollow rt (follow_service ttl cfg) c a b w = (res, w')"
  shows "(case res of
       Inr r \<Rightarrow> \<not> fa_Following r \<and> (a, b) \<in> edges (master w) \<and> edges (master w') = edges (master w) - {(a, b)}
                 \<and> sent_event sent (\<lambda>i now. unfollow_event i now a b) w w'
     | Inl e \<Rightarrow> sent w' = sent w
                 \<and> (e = App ErrFollowNotFound \<longrightarrow> (a, b) \<notin> edges (master w) \<and> edges (master w') = edges (master w)))"
proof -
  obtain d w1 where 1: "fo_Delete follows c a b w = (d, w1)" by fastforce
  note l = unfollow_law [OF 1]
  show ?thesis
  proof (cases d)
    case (Inl e)
    then have "res = Inl (Wrap ''unfollow: delete'' e)" "w' = w1"
      using assms 1 by (simp_all add: FollowService_Unfollow_def NewFollowService_def)
    with l show ?thesis by (simp add: db_only_def)
  next
    case (Inr gone)
    show ?thesis
    proof (cases gone)
      case False
      then have "res = Inl (App ErrFollowNotFound)" "w' = w1"
        using assms 1 Inr by (simp_all add: FollowService_Unfollow_def NewFollowService_def)
      moreover have "sent w1 = sent w" "(a, b) \<notin> edges (master w)" "edges (master w1) = edges (master w)"
        using l Inr False by (auto simp: db_only_def)
      ultimately show ?thesis by simp
    next
      case True
      have w': "res = Inr \<lparr>fa_Following = False\<rparr>"
        "w' = (case rt_uuid rt (WriteMarker_Mark (NewWriteMarker rdb ttl) b
                                   (WriteMarker_Mark (NewWriteMarker rdb ttl) a w1)) of
               (i, v) \<Rightarrow> (case rt_now rt v of (now, v) \<Rightarrow> snd (pub c (unfollow_event i now a b) v)))"
        using assms 1 Inr True
        by (auto simp: FollowService_Unfollow_def NewFollowService_def publishUnfollowEvent_def Let_def)
      have "edges (master w1) = edges (master w) - {(a, b)}" "(a, b) \<in> edges (master w)" "sent w1 = sent w"
        using l Inr True by (auto simp: db_only_def)
      with marks_publish [OF w'(2)] edges_tables [of "master w'" "master w1"] w'(1) show ?thesis
        by (simp add: sent_event_def)
    qed
  qed
qed

end

context platform
begin

lemma gorm_follow_env:
  "follow_env rdb kv db master replica pub sent rt (NewUserRepository db) (NewFollowRepository db)"
  by (rule follow_env.intro [OF gorm_user_repository gorm_follow_repository])

end

interpretation doc_follow: follow_env doc_rdb w_kv doc_db w_db w_replica doc_pub w_sent doc_rt
    "NewUserRepository doc_db" "NewFollowRepository doc_db"
  by (rule doc.gorm_follow_env)

section \<open>Pages\<close>

text \<open>
  A page answered from the rows of a join: the parsed cursor, one row more than the page asked
  of the repository, the response built from them.
\<close>

definition page_of :: "(Follow \<times> User) list \<Rightarrow> joinDir \<Rightarrow> int \<Rightarrow> int \<Rightarrow> string \<Rightarrow> FollowListResp \<Rightarrow> bool" where
  "page_of rows dir pivot n cursor resp \<longleftrightarrow>
     (\<exists>i xs. parseFollowCursor cursor = Inr i \<and> query_ok (follow_query dir pivot i (n + 1)) rows xs
           \<and> resp = buildFollowListResp (map follow_user_row xs) n)"

text \<open>A client that follows next_cursor until has_more is false.\<close>

inductive walk ::
  "(Follow \<times> User) list \<Rightarrow> joinDir \<Rightarrow> int \<Rightarrow> int \<Rightarrow> string \<Rightarrow> FollowListResp list \<Rightarrow> bool"
  for rows dir pivot n where
  last: "page_of rows dir pivot n cursor resp \<Longrightarrow> \<not> fl_HasMore resp \<Longrightarrow> walk rows dir pivot n cursor [resp]"
| more: "page_of rows dir pivot n cursor resp \<Longrightarrow> fl_HasMore resp
    \<Longrightarrow> walk rows dir pivot n (fl_NextCursor resp) resps \<Longrightarrow> walk rows dir pivot n cursor (resp # resps)"

definition row_id :: "Follow \<times> User \<Rightarrow> int" where
  "row_id r = f_ID (fst r)"

definition relation_rows :: "(Follow \<times> User) list \<Rightarrow> joinDir \<Rightarrow> int \<Rightarrow> (Follow \<times> User) list" where
  "relation_rows rows dir pivot = filter (\<lambda>(f, u). whereCol dir f = pivot \<and> user_live u) rows"

abbreviation newest_first :: "(Follow \<times> User) list \<Rightarrow> bool" where
  "newest_first ys \<equiv> sorted_wrt (\<lambda>a b. row_id b < row_id a) ys"

lemma newest_first_unique:
  "newest_first xs \<Longrightarrow> newest_first ys \<Longrightarrow> set xs = set ys \<Longrightarrow> xs = ys"
proof (induction xs arbitrary: ys)
  case (Cons x xs)
  then obtain y ys' where y: "ys = y # ys'" by (cases ys) auto
  have "x = y"
  proof (rule ccontr)
    assume "x \<noteq> y"
    then have "x \<in> set ys'" "y \<in> set xs" using Cons.prems(3) y by auto
    with Cons.prems(1,2) y show False by fastforce
  qed
  moreover have "x \<notin> set xs" "y \<notin> set ys'" using Cons.prems(1,2) y by auto
  ultimately have "set xs = set ys'" using Cons.prems(3) y by auto
  with Cons y \<open>x = y\<close> show ?case by simp
qed simp

lemma sorted_desc_distinct:
  assumes "sorted_wrt (\<lambda>a b. row_id b \<le> row_id a) ys" "distinct (map row_id ys)"
  shows "newest_first ys"
  using assms
proof (induction ys)
  case (Cons y ys)
  have "row_id y \<notin> row_id ` set ys" using Cons.prems(2) by simp
  then have "row_id x \<noteq> row_id y" if "x \<in> set ys" for x
    using that by (metis imageI)
  with Cons show ?case by (auto simp: order.strict_iff_order)
qed simp

lemma user_brief_row: "user_brief (follow_user_row r)
   = \<lparr>ub_ID = u_ID (snd r), ub_Nickname = u_Nickname (snd r), ub_AvatarURL = u_AvatarURL (snd r)\<rparr>"
  by (simp add: user_brief_def follow_user_row_def)

text \<open>The rows of one query, where the identifiers are distinct: the newest below the cursor.\<close>

lemma follow_query_rows:
  assumes "query_ok (follow_query dir pivot i (n + 1)) rows xs" "distinct (map row_id rows)"
    and "newest_first ys" "set ys = set (relation_rows rows dir pivot)"
  shows "xs = take (nat (n + 1)) (filter (\<lambda>r. i > 0 \<longrightarrow> row_id r < i) ys)"
proof -
  let ?q = "follow_query dir pivot i (n + 1)"
  obtain zs where zs: "mset zs = mset (filter (q_where ?q) rows)" "sorted_wrt (key_le (q_order ?q)) zs"
      "xs = window (q_offset ?q) (q_limit ?q) zs"
    using assms(1) by (auto simp: query_ok_def)
  have "distinct (map row_id (filter (q_where ?q) rows))" by (rule distinct_map_filter [OF assms(2)])
  then have d: "distinct (map row_id zs)"
    using zs(1) by (metis mset_map mset_eq_imp_distinct_iff)
  have "sorted_wrt (\<lambda>a b. row_id b \<le> row_id a) zs"
    using zs(2) by (rule sorted_wrt_mono_rel [rotated]) (auto simp: follow_query_def row_id_def)
  then have "newest_first zs" by (rule sorted_desc_distinct [OF _ d])
  moreover have "newest_first (filter (\<lambda>r. i > 0 \<longrightarrow> row_id r < i) ys)"
    using assms(3) by (rule sorted_wrt_filter)
  moreover have "set zs = set (filter (\<lambda>r. i > 0 \<longrightarrow> row_id r < i) ys)"
    unfolding mset_eq_setD [OF zs(1)] using assms(4)
    by (auto simp: follow_query_def relation_rows_def row_id_def)
  ultimately have "zs = filter (\<lambda>r. i > 0 \<longrightarrow> row_id r < i) ys" by (rule newest_first_unique)
  with zs(3) show ?thesis by (simp add: follow_query_def window_def)
qed

lemma parse_next_cursor:
  assumes "0 < i" "in_int64 i"
  shows "parseFollowCursor (FormatInt i) = Inr i"
proof -
  have p: "ParseInt (FormatInt i) = Some i" by (rule ParseInt_FormatInt [OF assms(2)])
  then have "FormatInt i \<noteq> []" by (auto simp: ParseInt_def)
  with p assms(1) show ?thesis by (simp add: parseFollowCursor_def)
qed

text \<open>The rows below the last row of a page are the rows after the page.\<close>

lemma filter_below_last:
  assumes "newest_first (as @ x # bs)"
  shows "filter (\<lambda>r. row_id r < row_id x) (as @ x # bs) = bs"
proof -
  have "filter (\<lambda>r. row_id r < row_id x) as = []"
    using assms by (auto simp: filter_empty_conv sorted_wrt_append)
  moreover have "filter (\<lambda>r. row_id r < row_id x) bs = bs"
    using assms by (auto simp: filter_id_conv sorted_wrt_append)
  ultimately show ?thesis by simp
qed

lemma page_split:
  assumes "page_of rows dir pivot n cursor resp" "distinct (map row_id rows)" "0 < n"
    and "newest_first ys" "set ys = set (relation_rows rows dir pivot)"
    and "parseFollowCursor cursor = Inr i" "\<forall>r\<in>set rows. 0 < row_id r \<and> in_int64 (row_id r)"
  defines "zs \<equiv> filter (\<lambda>r. i > 0 \<longrightarrow> row_id r < i) ys"
  shows "fl_HasMore resp \<longleftrightarrow> int (length zs) > n"
    "fl_Users resp = map (user_brief \<circ> follow_user_row) (take (nat n) zs)"
    "fl_HasMore resp \<Longrightarrow> \<exists>j. parseFollowCursor (fl_NextCursor resp) = Inr j \<and> 0 < j
        \<and> filter (\<lambda>r. row_id r < j) ys = drop (nat n) zs"
proof -
  obtain xs where xs: "query_ok (follow_query dir pivot i (n + 1)) rows xs"
      "resp = buildFollowListResp (map follow_user_row xs) n"
    using assms(1,6) by (auto simp: page_of_def)
  have x: "xs = take (nat (n + 1)) zs"
    unfolding zs_def by (rule follow_query_rows [OF xs(1) assms(2,4,5)])
  have len: "int (length xs) > n \<longleftrightarrow> int (length zs) > n" using assms(3) by (auto simp: x)
  have tk: "take (nat n) xs = take (nat n) zs" using assms(3) by (simp add: x min_def)
  show hm: "fl_HasMore resp \<longleftrightarrow> int (length zs) > n"
    using len by (simp add: xs(2) buildFollowListResp_def Let_def)
  have short: "xs = take (nat n) zs" if "\<not> int (length xs) > n"
    using that len assms(3) by (simp add: x)
  show "fl_Users resp = map (user_brief \<circ> follow_user_row) (take (nat n) zs)"
    using short tk by (auto simp: xs(2) buildFollowListResp_def Let_def take_map)
  assume more: "fl_HasMore resp"
  define kept where "kept = take (nat n) zs"
  have kn: "kept \<noteq> []" using more hm assms(3) by (auto simp: kept_def)
  have "fl_NextCursor resp = FormatInt (row_id (last kept))"
    using more hm len kn tk
    by (simp add: xs(2) buildFollowListResp_def Let_def take_map last_map kept_def follow_user_row_def row_id_def)
  moreover have lst: "last kept \<in> set zs" "last kept \<in> set ys"
  proof -
    show "last kept \<in> set zs" using last_in_set [OF kn] set_take_subset [of "nat n" zs] unfolding kept_def by blast
    then show "last kept \<in> set ys" unfolding zs_def by simp
  qed
  moreover have "last kept \<in> set rows" using lst(2) assms(5) by (auto simp: relation_rows_def)
  ultimately have p: "parseFollowCursor (fl_NextCursor resp) = Inr (row_id (last kept))" "0 < row_id (last kept)"
    using parse_next_cursor assms(7) by auto
  have "kept @ drop (nat n) zs = zs" by (simp add: kept_def)
  then have "zs = (butlast kept @ [last kept]) @ drop (nat n) zs" using append_butlast_last_id [OF kn] by simp
  then have "zs = butlast kept @ last kept # drop (nat n) zs" by simp
  moreover have "newest_first zs" unfolding zs_def using assms(4) by (rule sorted_wrt_filter)
  ultimately have "filter (\<lambda>r. row_id r < row_id (last kept)) zs = drop (nat n) zs"
    using filter_below_last by metis
  moreover have "filter (\<lambda>r. row_id r < row_id (last kept)) zs = filter (\<lambda>r. row_id r < row_id (last kept)) ys"
    using lst(1) unfolding zs_def by (auto simp: filter_filter intro!: filter_cong)
  ultimately show "\<exists>j. parseFollowCursor (fl_NextCursor resp) = Inr j \<and> 0 < j
        \<and> filter (\<lambda>r. row_id r < j) ys = drop (nat n) zs"
    using p by auto
qed

lemma walk_rows:
  "walk rows dir pivot n cursor resps \<Longrightarrow> distinct (map row_id rows) \<Longrightarrow> 0 < n
   \<Longrightarrow> newest_first ys \<Longrightarrow> set ys = set (relation_rows rows dir pivot)
   \<Longrightarrow> \<forall>r\<in>set rows. 0 < row_id r \<and> in_int64 (row_id r) \<Longrightarrow> parseFollowCursor cursor = Inr i
   \<Longrightarrow> concat (map fl_Users resps)
       = map (user_brief \<circ> follow_user_row) (filter (\<lambda>r. i > 0 \<longrightarrow> row_id r < i) ys)"
proof (induction arbitrary: i rule: walk.induct)
  case (last cursor resp)
  note p = page_split [OF last.hyps(1) last.prems(1-4,6,5)]
  with last show ?case by simp
next
  case (more cursor resp resps)
  note p = page_split [OF more.hyps(1) more.prems(1-4,6,5)]
  obtain j where j: "parseFollowCursor (fl_NextCursor resp) = Inr j" "0 < j"
      "filter (\<lambda>r. row_id r < j) ys = drop (nat n) (filter (\<lambda>r. i > 0 \<longrightarrow> row_id r < i) ys)"
    using p(3) more.hyps(2) by blast
  have "concat (map fl_Users resps) = map (user_brief \<circ> follow_user_row) (filter (\<lambda>r. row_id r < j) ys)"
    using more.IH [OF more.prems(1-5) j(1)] j(2) by simp
  then show ?case using p(2) by (simp add: j(3) flip: map_append)
qed

lemma newest_first_sort:
  assumes "distinct (map row_id rows)"
  shows "newest_first (sort_key (\<lambda>r. - row_id r) (relation_rows rows dir pivot))"
proof (rule sorted_desc_distinct)
  have "sorted (map (\<lambda>r. - row_id r) (sort_key (\<lambda>r. - row_id r) (relation_rows rows dir pivot)))" by simp
  then show "sorted_wrt (\<lambda>a b. row_id b \<le> row_id a) (sort_key (\<lambda>r. - row_id r) (relation_rows rows dir pivot))"
    by (simp add: sorted_wrt_map)
  have "distinct (map row_id (relation_rows rows dir pivot))"
    unfolding relation_rows_def by (rule distinct_map_filter [OF assms])
  then show "distinct (map row_id (sort_key (\<lambda>r. - row_id r) (relation_rows rows dir pivot)))"
    by (metis mset_map mset_sort mset_eq_imp_distinct_iff)
qed

lemma page_exists: "parseFollowCursor cursor = Inr i \<Longrightarrow> \<exists>resp. page_of rows dir pivot n cursor resp"
  unfolding page_of_def using query_ok_run_query by blast

lemma walk_ends:
  assumes "distinct (map row_id rows)" "0 < n" "newest_first ys" "set ys = set (relation_rows rows dir pivot)"
    and "\<forall>r\<in>set rows. 0 < row_id r \<and> in_int64 (row_id r)" "parseFollowCursor cursor = Inr i"
  shows "\<exists>resps. walk rows dir pivot n cursor resps"
  using assms(6)
proof (induction "length (filter (\<lambda>r. i > 0 \<longrightarrow> row_id r < i) ys)" arbitrary: cursor i rule: less_induct)
  case less
  obtain resp where p: "page_of rows dir pivot n cursor resp" using page_exists [OF less.prems] by blast
  note s = page_split [OF p assms(1-4) less.prems assms(5)]
  show ?case
  proof (cases "fl_HasMore resp")
    case False
    with p show ?thesis by (blast intro: walk.last)
  next
    case True
    obtain j where j: "parseFollowCursor (fl_NextCursor resp) = Inr j" "0 < j"
        "filter (\<lambda>r. row_id r < j) ys = drop (nat n) (filter (\<lambda>r. i > 0 \<longrightarrow> row_id r < i) ys)"
      using s(3) [OF True] by blast
    have "length (filter (\<lambda>r. j > 0 \<longrightarrow> row_id r < j) ys) < length (filter (\<lambda>r. i > 0 \<longrightarrow> row_id r < i) ys)"
      using j(2,3) True s(1) assms(2) by simp
    from less.hyps [OF this j(1)] p True show ?thesis by (blast intro: walk.more)
  qed
qed

section \<open>The properties of the follow module\<close>

abbreviation read_node :: "('w \<Rightarrow> dbstate) \<Rightarrow> ('w \<Rightarrow> dbstate) \<Rightarrow> ctx \<Rightarrow> 'w \<Rightarrow> dbstate" where
  "read_node master replica c w \<equiv> (if ForceMaster c then master w else replica w)"

abbreviation follow_service_on :: "'w rdb \<Rightarrow> 'w gorm \<Rightarrow> 'w publisher \<Rightarrow> int \<Rightarrow> FollowConfig \<Rightarrow> 'w FollowService" where
  "follow_service_on rdb db pub ttl cfg \<equiv>
     NewFollowService (NewFollowRepository db) (NewUserRepository db) pub (NewWriteMarker rdb ttl) cfg"

text \<open>
  C6: A Follow that returns without an error says following, was not of oneself, and read
  the target as a live user.  Where the node it read already has the edge nothing is written and
  nothing sent; otherwise the follower had room under the cap at that node, the edge set of the
  primary gains exactly the edge, and a FollowEvent with both ends is sent (or lost) only when the
  edge was new to the primary.
\<close>
theorem follow_success:
  fixes db :: "'w gorm"
  assumes "platform rdb kv db master replica pub sent rt"
    and "FollowService_Follow rt (follow_service_on rdb db pub ttl cfg) c a b w = (Inr r, w')"
  shows "\<exists>w1 w2. fa_Following r \<and> a \<noteq> b
     \<and> readonly sent kv master w w1 \<and> readonly sent kv master w w2
     \<and> (\<exists>u\<in>set (t_users (read_node master replica c w)). u_ID u = b \<and> user_live u)
     \<and> ((a, b) \<in> edges (read_node master replica c w1) \<and> readonly sent kv master w w'
        \<or> (a, b) \<notin> edges (read_node master replica c w1)
          \<and> int (length (filter (\<lambda>f. f_FollowerID f = a) (t_follows (read_node master replica c w2))))
              < fcfg_MaxFollowing cfg
          \<and> edges (master w') = insert (a, b) (edges (master w))
          \<and> (if (a, b) \<in> edges (master w) then sent w' = sent w
             else sent_event sent (\<lambda>i now. follow_event i now a b) w w'))"
  by (rule follow_env.follow_returns [OF platform.gorm_follow_env [OF assms(1)] assms(2)]) blast

definition demo_follow_cfg :: FollowConfig where
  "demo_follow_cfg = \<lparr>fcfg_MaxFollowing = 2, fcfg_DefaultListSize = 2, fcfg_MaxListSize = 3\<rparr>"

abbreviation doc_follows :: "world FollowService" where
  "doc_follows \<equiv> follow_service_on doc_rdb doc_db doc_pub 3000 demo_follow_cfg"

theorem follow_success_witness:
  "\<exists>r w'. FollowService_Follow doc_rt doc_follows Background 42 7 demo_world = (Inr r, w')
      \<and> fa_Following r \<and> edges (w_db w') = insert (42, 7) (edges (w_db demo_world))"
proof -
  obtain res w' where r: "FollowService_Follow doc_rt doc_follows Background 42 7 demo_world = (res, w')" by fastforce
  have v: "fst (FollowService_Follow doc_rt doc_follows Background 42 7 demo_world) = Inr \<lparr>fa_Following = True\<rparr>"
    "length (w_sent (snd (FollowService_Follow doc_rt doc_follows Background 42 7 demo_world))) = 1"
    "length (w_sent demo_world) = 0"
    by code_simp+
  then have res: "res = Inr \<lparr>fa_Following = True\<rparr>" and n: "\<not> readonly w_sent w_kv w_db demo_world w'"
    using r by (auto simp: readonly_def db_only_def)
  from follow_success [OF doc.platform_axioms r [unfolded res]] n res r show ?thesis by auto
qed

text \<open>
  An Unfollow that returns without an error removed an existing edge from the
  primary, exactly that edge, and sent at most its UnfollowEvent; when it answers that the
  relationship does not exist, the primary has no such edge and nothing is written; no failing
  Unfollow sends an event.
\<close>
theorem unfollow_success:
  fixes db :: "'w gorm"
  assumes "platform rdb kv db master replica pub sent rt"
    and "FollowService_Unfollow rt (follow_service_on rdb db pub ttl cfg) c a b w = (res, w')"
  shows "case res of
       Inr r \<Rightarrow> \<not> fa_Following r \<and> (a, b) \<in> edges (master w) \<and> edges (master w') = edges (master w) - {(a, b)}
                 \<and> sent_event sent (\<lambda>i now. unfollow_event i now a b) w w'
     | Inl e \<Rightarrow> sent w' = sent w
                 \<and> (e = App ErrFollowNotFound \<longrightarrow> (a, b) \<notin> edges (master w) \<and> edges (master w') = edges (master w))"
  by (rule follow_env.unfollow_returns [OF platform.gorm_follow_env [OF assms(1)] assms(2)])

text \<open>A world in which user 42 follows user 7, on both nodes.\<close>

definition followed_world :: world where
  "followed_world =
     (let s = snd (dml (InsertIgnoreFollow 42 7) demo_db) in demo_world\<lparr>w_db := s, w_replica := s\<rparr>)"

theorem unfollow_success_witness:
  "\<exists>w'. FollowService_Unfollow doc_rt doc_follows Background 42 7 followed_world = (Inr \<lparr>fa_Following = False\<rparr>, w')
      \<and> (42, 7) \<in> edges (w_db followed_world) \<and> (42, 7) \<notin> edges (w_db w')"
proof -
  obtain res w' where r: "FollowService_Unfollow doc_rt doc_follows Background 42 7 followed_world = (res, w')" by fastforce
  have "fst (FollowService_Unfollow doc_rt doc_follows Background 42 7 followed_world) = Inr \<lparr>fa_Following = False\<rparr>"
    by code_simp
  then have res: "res = Inr \<lparr>fa_Following = False\<rparr>" using r by simp
  from unfollow_success [OF doc.platform_axioms r] r res show ?thesis by simp
qed

text \<open>
  The existence check of Follow reads the replica even right after an unfollow: in
  a world where the removal has not been replicated yet, user 42 unfollows user 7, follows again
  and is told that the follow succeeded, while the primary holds no edge and no FollowEvent is
  sent.
\<close>
theorem follow_lost_behind_replica:
  "case FollowService_Unfollow doc_rt doc_follows Background 42 7 followed_world of (r1, w1) \<Rightarrow>
     (case FollowService_Follow doc_rt doc_follows Background 42 7 w1 of (r2, w2) \<Rightarrow>
        r1 = Inr \<lparr>fa_Following = False\<rparr> \<and> r2 = Inr \<lparr>fa_Following = True\<rparr>
        \<and> t_follows (w_db w2) = [] \<and> map ev_Topic (w_sent w2) = [TopicUnfollow])"
  by code_simp

fun follow_list :: "'w FollowService \<Rightarrow> joinDir \<Rightarrow> ctx \<Rightarrow> int \<Rightarrow> string \<Rightarrow> int \<Rightarrow> 'w \<Rightarrow> FollowListResp result \<times> 'w" where
  "follow_list s joinDirFollowers = FollowService_ListFollowers s"
| "follow_list s joinDirFollowing = FollowService_ListFollowing s"

lemma WithForceMaster_node [simp]: "ForceMaster (force_if b c) \<longleftrightarrow> b \<or> ForceMaster c"
  by (simp add: force_if_def WithForceMaster_def)

context platform
begin

lemma has_frame:
  assumes "WriteMarker_Has (NewWriteMarker rdb ttl) u w = (b, w')"
  shows "tables (master w') = tables (master w)" "sent w' = sent w"
proof -
  obtain r where "rdb (Cmd (EXISTS (keyWriteMarker u))) w = (r, w')"
    using assms by (auto simp: WriteMarker_Has_def NewWriteMarker_def split: prod.splits sum.splits)
  from rdb_frame [OF this] show "tables (master w') = tables (master w)" "sent w' = sent w" by simp_all
qed

end

context follow_env
begin

lemma list_law:
  assumes "(case dir of joinDirFollowers \<Rightarrow> fo_ListFollowers follows | joinDirFollowing \<Rightarrow> fo_ListFollowing follows)
             c pivot cursor n w = (Inr rows, w')"
  shows "readonly sent kv master w w'"
    "follow_list_ok (read_node master replica c w) dir pivot cursor n rows"
  using assms followers_law [of c pivot cursor n w] following_law [of c pivot cursor n w]
  by (cases dir; auto)+

lemma page_returns:
  assumes "follow_list (follow_service ttl cfg) dir c target cursor sz w = (Inr resp, w')"
  shows "\<exists>recent w1. WriteMarker_Has (NewWriteMarker rdb ttl) target w = (recent, w1)
     \<and> tables (master w') = tables (master w) \<and> sent w' = sent w
     \<and> page_of (join_rows (joinCol dir) (read_node master replica (force_if recent c) w1)) dir target
          (clampFollowListSize (follow_service ttl cfg) sz) cursor resp"
proof -
  let ?n = "clampFollowListSize (follow_service ttl cfg) sz"
  obtain i where i: "parseFollowCursor cursor = Inr i"
    using assms by (cases dir; cases "parseFollowCursor cursor")
      (auto simp: FollowService_ListFollowers_def FollowService_ListFollowing_def)
  obtain recent w1 where m: "WriteMarker_Has (NewWriteMarker rdb ttl) target w = (recent, w1)" by fastforce
  have t1: "tables (master w1) = tables (master w)" "sent w1 = sent w"
    using has_frame [OF m] by simp_all
  obtain rows where l: "(case dir of joinDirFollowers \<Rightarrow> fo_ListFollowers follows
        | joinDirFollowing \<Rightarrow> fo_ListFollowing follows) (force_if recent c) target i (?n + 1) w1 = (Inr rows, w')"
      and resp: "resp = buildFollowListResp rows ?n"
    using assms i m
    by (cases dir)
      (auto simp: FollowService_ListFollowers_def FollowService_ListFollowing_def NewFollowService_def Let_def
          split: prod.splits sum.splits)
  note r = list_law [OF l]
  from r(2) resp i have "page_of (join_rows (joinCol dir) (read_node master replica (force_if recent c) w1)) dir target
      ?n cursor resp"
    unfolding page_of_def follow_list_ok_def by blast
  with m t1 r(1) show ?thesis by (auto simp: readonly_def db_only_def)
qed

end

text \<open>
  A page of ListFollowers or ListFollowing that returns without an error is a page
  of the live rows of one node: of the primary where the context asks for it or the write marker
  of the user is set, of the replica otherwise; the calls write nothing and send nothing.
\<close>
theorem follow_list_page:
  fixes db :: "'w gorm"
  assumes "platform rdb kv db master replica pub sent rt"
    and "follow_list (follow_service_on rdb db pub ttl cfg) dir c target cursor sz w = (Inr resp, w')"
  shows "\<exists>recent w1. WriteMarker_Has (NewWriteMarker rdb ttl) target w = (recent, w1)
     \<and> tables (master w') = tables (master w) \<and> sent w' = sent w
     \<and> page_of (join_rows (joinCol dir) (read_node master replica (force_if recent c) w1)) dir target
          (clampFollowListSize (follow_service_on rdb db pub ttl cfg) sz) cursor resp"
  by (rule follow_env.page_returns [OF platform.gorm_follow_env [OF assms(1)] assms(2)])

theorem follow_list_page_witness:
  "\<exists>resp w'. follow_list doc_follows joinDirFollowers Background 7 [] 0 followed_world = (Inr resp, w')
      \<and> map ub_ID (fl_Users resp) = [42]
      \<and> page_of (join_rows f_FollowerID (w_db followed_world)) joinDirFollowers 7 2 [] resp"
proof -
  obtain res w' where r: "follow_list doc_follows joinDirFollowers Background 7 [] 0 followed_world = (res, w')" by fastforce
  have v: "(case fst (follow_list doc_follows joinDirFollowers Background 7 [] 0 followed_world) of
      Inr resp \<Rightarrow> map ub_ID (fl_Users resp) = [42] | _ \<Rightarrow> False)"
    by code_simp
  with r obtain resp where res: "res = Inr resp" "map ub_ID (fl_Users resp) = [42]"
    by (auto split: sum.splits)
  have m: "fst (WriteMarker_Has (NewWriteMarker doc_rdb 3000) 7 followed_world) = False"
    "t_follows (w_replica (snd (WriteMarker_Has (NewWriteMarker doc_rdb 3000) 7 followed_world))) = t_follows (w_db followed_world)"
    "t_users (w_replica (snd (WriteMarker_Has (NewWriteMarker doc_rdb 3000) 7 followed_world))) = t_users (w_db followed_world)"
    "clampFollowListSize doc_follows 0 = 2"
    by code_simp+
  from follow_list_page [OF doc.platform_axioms r [unfolded res(1)]] m
  have "page_of (join_rows f_FollowerID (w_db followed_world)) joinDirFollowers 7 2 [] resp"
    by (auto simp: Background_def join_rows_def)
  with r res show ?thesis by auto
qed

text \<open>
  C4: Paginating a follow list is complete: where the relations carry distinct positive
  identifiers, following next_cursor from the empty cursor ends (such a walk exists) and every such walk yields each
  live related user of the snapshot exactly once, newest relation first, whatever the page size.
\<close>
theorem follow_pages_complete:
  assumes "distinct (map row_id rows)" "\<forall>r\<in>set rows. 0 < row_id r \<and> in_int64 (row_id r)" "0 < n"
  shows "(\<exists>resps. walk rows dir pivot n [] resps)
    \<and> (\<forall>resps. walk rows dir pivot n [] resps \<longrightarrow>
          concat (map fl_Users resps)
            = map (user_brief \<circ> follow_user_row) (sort_key (\<lambda>r. - row_id r) (relation_rows rows dir pivot)))"
proof -
  let ?ys = "sort_key (\<lambda>r. - row_id r) (relation_rows rows dir pivot)"
  have ys: "newest_first ?ys" "set ?ys = set (relation_rows rows dir pivot)"
    by (rule newest_first_sort [OF assms(1)]) simp
  have c: "parseFollowCursor [] = Inr 0" by (simp add: parseFollowCursor_def)
  from walk_rows [OF _ assms(1,3) ys assms(2) c] walk_ends [OF assms(1,3) ys assms(2) c]
  show ?thesis by auto
qed

theorem follow_pages_complete_witness:
  "\<exists>resps. walk [(\<lparr>f_ID = 5, f_FollowerID = 42, f_FollowingID = 7, f_CreatedAt = 0\<rparr>, demo_user 42 ''bob''),
                  (\<lparr>f_ID = 9, f_FollowerID = 43, f_FollowingID = 7, f_CreatedAt = 0\<rparr>, demo_user 43 ''cat'')]
             joinDirFollowers 7 1 [] resps
      \<and> map ub_ID (concat (map fl_Users resps)) = [43, 42]"
proof -
  let ?rows = "[(\<lparr>f_ID = 5, f_FollowerID = 42, f_FollowingID = 7, f_CreatedAt = 0\<rparr>, demo_user 42 ''bob''),
                (\<lparr>f_ID = 9, f_FollowerID = 43, f_FollowingID = 7, f_CreatedAt = 0\<rparr>, demo_user 43 ''cat'')]"
  have v: "map ub_ID (map (user_brief \<circ> follow_user_row)
      (sort_key (\<lambda>r. - row_id r) (relation_rows ?rows joinDirFollowers 7))) = [43, 42]"
    by code_simp
  have "distinct (map row_id ?rows)" "\<forall>r\<in>set ?rows. 0 < row_id r \<and> in_int64 (row_id r)"
    by (simp_all add: row_id_def in_int64_def int64_max_def int64_min_def)
  note all = follow_pages_complete [OF this zero_less_one, of joinDirFollowers 7]
  from conjunct1 [OF all] obtain resps where w: "walk ?rows joinDirFollowers 7 1 [] resps" by blast
  with conjunct2 [OF all] have "concat (map fl_Users resps)
      = map (user_brief \<circ> follow_user_row) (sort_key (\<lambda>r. - row_id r) (relation_rows ?rows joinDirFollowers 7))"
    by blast
  with v w show ?thesis by (intro exI [of _ resps]) (simp only: simp_thms)
qed

end
