(* ===== verification/Text.thy ===== *)
theory Text
  imports Prelude
begin

text \<open>
  The string functions of the standard library the services use, on the bytes of UTF-8 text:
  strings.TrimSpace, strings.TrimRight, strings.HasPrefix, strings.ToLower, strings.Split,
  hex.DecodeString and base64.StdEncoding.  The letters outside ASCII are lowered by a table
  that is a parameter.
\<close>

section \<open>Trimming\<close>

text \<open>
  The white space of unicode.IsSpace as byte sequences: the ASCII spaces, U+0085, U+00A0,
  U+1680, U+2000 to U+200A, U+2028, U+2029, U+202F, U+205F and U+3000.
\<close>

definition ascii_spaces :: "nat list" where
  "ascii_spaces = [9, 10, 11, 12, 13, 32]"

definition wide_spaces :: "nat list list" where
  "wide_spaces =
     [[194, 133], [194, 160], [225, 154, 128], [226, 128, 168], [226, 128, 169], [226, 128, 175],
      [226, 129, 159], [227, 128, 128]] @ map (\<lambda>i. [226, 128, 128 + i]) [0..<11]"

definition byte_of :: "char \<Rightarrow> nat" where
  "byte_of c = of_char c"

text \<open>How many bytes the white space at the front takes, given as a space of the list.\<close>

definition space_width :: "(nat list \<Rightarrow> nat list) \<Rightarrow> string \<Rightarrow> nat" where
  "space_width turn s =
     (let bs = map byte_of (take 3 s) in
      if bs \<noteq> [] \<and> hd bs \<in> set ascii_spaces then 1
      else if turn (take 2 bs) \<in> set wide_spaces then 2
      else if turn bs \<in> set wide_spaces then 3
      else 0)"

lemma space_width_Nil [simp]: "turn [] = [] \<Longrightarrow> space_width turn [] = 0"
  by (auto simp: space_width_def wide_spaces_def)

function trim_front :: "(nat list \<Rightarrow> nat list) \<Rightarrow> string \<Rightarrow> string" where
  "trim_front turn s =
     (if s = [] \<or> space_width turn s = 0 then s else trim_front turn (drop (space_width turn s) s))"
  by auto
termination by (relation "measure (length \<circ> snd)") auto

declare trim_front.simps [simp del]

definition TrimSpace :: "string \<Rightarrow> string" where
  "TrimSpace s = rev (trim_front rev (rev (trim_front id s)))"

lemma trim_front_suffix: "\<exists>xs. s = xs @ trim_front turn s"
proof (induction turn s rule: trim_front.induct)
  case (1 turn s)
  let ?n = "space_width turn s"
  show ?case
  proof (cases "s = [] \<or> ?n = 0")
    case True
    then have "trim_front turn s = s" by (subst trim_front.simps) auto
    then show ?thesis by simp
  next
    case False
    from 1 [OF False] obtain xs where "drop ?n s = xs @ trim_front turn (drop ?n s)" ..
    moreover have "trim_front turn s = trim_front turn (drop ?n s)"
      using False by (subst trim_front.simps) simp
    ultimately have "s = (take ?n s @ xs) @ trim_front turn s"
      by (metis append_assoc append_take_drop_id)
    then show ?thesis ..
  qed
qed

lemma trim_front_length: "length (trim_front turn s) \<le> length s"
  using trim_front_suffix [of s turn] by (metis le_add2 length_append)

lemma TrimSpace_length: "length (TrimSpace s) \<le> length s"
  using trim_front_length [of rev "rev (trim_front id s)"] trim_front_length [of id s]
  by (simp add: TrimSpace_def)

text \<open>strings.TrimRight(s, cutset) for a cutset of one ASCII character.\<close>

definition TrimRight :: "string \<Rightarrow> char \<Rightarrow> string" where
  "TrimRight s c = rev (dropWhile (\<lambda>x. x = c) (rev s))"

section \<open>Prefixes and case\<close>

fun HasPrefix :: "string \<Rightarrow> string \<Rightarrow> bool" where
  "HasPrefix s [] = True"
| "HasPrefix [] (p # ps) = False"
| "HasPrefix (c # cs) (p # ps) = (c = p \<and> HasPrefix cs ps)"

lemma HasPrefix_iff: "HasPrefix s p \<longleftrightarrow> (\<exists>t. s = p @ t)"
  by (induction s p rule: HasPrefix.induct) auto

definition ascii_lower :: "char \<Rightarrow> char" where
  "ascii_lower c = (if 65 \<le> byte_of c \<and> byte_of c \<le> 90 then char_of (byte_of c + 32) else c)"

text \<open>An ASCII string is lowered byte by byte, any other one through the Unicode tables.\<close>

definition ToLower :: "(string \<Rightarrow> string) \<Rightarrow> string \<Rightarrow> string" where
  "ToLower unicode s = (if list_all (\<lambda>c. byte_of c < 128) s then map ascii_lower s else unicode s)"

section \<open>Splitting\<close>

text \<open>strings.Split for a separator of one character, and strings.Join.\<close>

fun Split :: "string \<Rightarrow> char \<Rightarrow> string list" where
  "Split [] sep = [[]]"
| "Split (c # cs) sep =
     (if c = sep then [] # Split cs sep
      else (case Split cs sep of [] \<Rightarrow> [[c]] | x # xs \<Rightarrow> (c # x) # xs))"

fun Join :: "string list \<Rightarrow> string \<Rightarrow> string" where
  "Join [] sep = []"
| "Join [x] sep = x"
| "Join (x # xs) sep = x @ sep @ Join xs sep"

lemma Split_nonempty [simp]: "Split s sep \<noteq> []"
  by (induction s) (auto split: list.splits)

lemma Join_Split: "Join (Split s c) [c] = s"
proof (induction s)
  case (Cons a s)
  then obtain x xs where "Split s c = x # xs" by (cases "Split s c") auto
  with Cons show ?case by (cases xs) auto
qed simp

section \<open>Hexadecimal\<close>

definition hex_value :: "char \<Rightarrow> nat option" where
  "hex_value c =
     (let n = byte_of c in
      if 48 \<le> n \<and> n \<le> 57 then Some (n - 48)
      else if 97 \<le> n \<and> n \<le> 102 then Some (n - 87)
      else if 65 \<le> n \<and> n \<le> 70 then Some (n - 55)
      else None)"

fun hex_DecodeString :: "string \<Rightarrow> string option" where
  "hex_DecodeString [] = Some []"
| "hex_DecodeString [c] = None"
| "hex_DecodeString (a # b # cs) =
     (case (hex_value a, hex_value b, hex_DecodeString cs) of
        (Some x, Some y, Some bs) \<Rightarrow> Some (char_of (16 * x + y) # bs)
      | _ \<Rightarrow> None)"

definition hex_digit :: "nat \<Rightarrow> char" where
  "hex_digit n = (if n < 10 then char_of (48 + n) else char_of (87 + n))"

definition hex_EncodeToString :: "string \<Rightarrow> string" where
  "hex_EncodeToString bs = concat (map (\<lambda>b. [hex_digit (byte_of b div 16), hex_digit (byte_of b mod 16)]) bs)"

lemma byte_of_char_of [simp]: "n < 256 \<Longrightarrow> byte_of (char_of n) = n"
  by (simp add: byte_of_def)

lemma char_of_byte_of [simp]: "char_of (byte_of c) = c"
  by (simp add: byte_of_def)

lemma byte_of_less [simp]: "byte_of c < 256"
  unfolding byte_of_def by (cases c) (simp add: of_char_def)

lemma hex_value_digit [simp]: "n < 16 \<Longrightarrow> hex_value (hex_digit n) = Some n"
  by (auto simp: hex_value_def hex_digit_def)

lemma hex_roundtrip: "hex_DecodeString (hex_EncodeToString bs) = Some bs"
proof (induction bs)
  case (Cons b bs)
  have "byte_of b div 16 < 16" using byte_of_less [of b] by linarith
  moreover have "16 * (byte_of b div 16) + byte_of b mod 16 = byte_of b" by simp
  ultimately show ?case using Cons by (simp add: hex_EncodeToString_def)
qed (simp add: hex_EncodeToString_def)

lemma hex_DecodeString_length: "hex_DecodeString s = Some bs \<Longrightarrow> length s = 2 * length bs"
  by (induction s arbitrary: bs rule: hex_DecodeString.induct) (auto split: option.splits)

section \<open>Base 64\<close>

definition b64_digit :: "nat \<Rightarrow> char" where
  "b64_digit n =
     (if n < 26 then char_of (65 + n) else if n < 52 then char_of (71 + n)
      else if n < 62 then char_of (n - 4) else if n = 62 then CHR ''+'' else CHR ''/'')"

definition b64_value :: "char \<Rightarrow> nat option" where
  "b64_value c =
     (let n = byte_of c in
      if 65 \<le> n \<and> n \<le> 90 then Some (n - 65)
      else if 97 \<le> n \<and> n \<le> 122 then Some (n - 71)
      else if 48 \<le> n \<and> n \<le> 57 then Some (n + 4)
      else if c = CHR ''+'' then Some 62
      else if c = CHR ''/'' then Some 63
      else None)"

lemma b64_value_digit [simp]: "n < 64 \<Longrightarrow> b64_value (b64_digit n) = Some n"
  by (auto simp: b64_value_def b64_digit_def Let_def byte_of_def)

lemma b64_digit_not_pad [simp]: "n < 64 \<Longrightarrow> b64_digit n \<noteq> CHR ''=''"
  using b64_value_digit [of n] by (auto simp: b64_value_def byte_of_def)

fun b64_EncodeToString :: "string \<Rightarrow> string" where
  "b64_EncodeToString [] = []"
| "b64_EncodeToString [a] =
     [b64_digit (byte_of a div 4), b64_digit (byte_of a mod 4 * 16), CHR ''='', CHR ''='']"
| "b64_EncodeToString [a, b] =
     [b64_digit (byte_of a div 4), b64_digit (byte_of a mod 4 * 16 + byte_of b div 16),
      b64_digit (byte_of b mod 16 * 4), CHR ''='']"
| "b64_EncodeToString (a # b # c # cs) =
     b64_digit (byte_of a div 4) # b64_digit (byte_of a mod 4 * 16 + byte_of b div 16)
     # b64_digit (byte_of b mod 16 * 4 + byte_of c div 64) # b64_digit (byte_of c mod 64)
     # b64_EncodeToString cs"

text \<open>
  Groups of four digits; the last one may end in one or two padding characters, and the bits
  below the last byte are not looked at (the encoding is not strict).
\<close>

fun b64_groups :: "string \<Rightarrow> string option" where
  "b64_groups [] = Some []"
| "b64_groups (w # x # y # z # rest) =
     (case (b64_value w, b64_value x) of
        (Some a, Some b) \<Rightarrow>
          (if y = CHR ''='' then
             (if z = CHR ''='' \<and> rest = [] then Some [char_of (4 * a + b div 16)] else None)
           else (case b64_value y of
                   None \<Rightarrow> None
                 | Some c \<Rightarrow>
                     (if z = CHR ''='' then
                        (if rest = [] then Some [char_of (4 * a + b div 16), char_of (b mod 16 * 16 + c div 4)]
                         else None)
                      else (case (b64_value z, b64_groups rest) of
                              (Some d, Some bs) \<Rightarrow>
                                Some (char_of (4 * a + b div 16) # char_of (b mod 16 * 16 + c div 4)
                                      # char_of (c mod 4 * 64 + d) # bs)
                            | _ \<Rightarrow> None))))
      | _ \<Rightarrow> None)"
| "b64_groups _ = None"

definition b64_DecodeString :: "string \<Rightarrow> string option" where
  "b64_DecodeString s = b64_groups (filter (\<lambda>c. byte_of c \<noteq> 10 \<and> byte_of c \<noteq> 13) s)"

lemma b64_digit_no_newline [simp]: "n < 64 \<Longrightarrow> byte_of (b64_digit n) \<noteq> 10 \<and> byte_of (b64_digit n) \<noteq> 13"
  by (auto simp: b64_digit_def byte_of_def)

lemma byte_parts [simp]:
  "byte_of a div 4 < 64" "byte_of a mod 4 * 16 < 64" "byte_of a mod 16 * 4 < 64"
  "byte_of a mod 4 * 16 + byte_of b div 16 < 64" "byte_of b mod 16 * 4 + byte_of c div 64 < 64"
  using byte_of_less [of a] byte_of_less [of b] byte_of_less [of c] by linarith+

lemma byte_shifts [simp]:
  "byte_of a div 16 div 16 = 0" "byte_of a div 16 mod 16 = byte_of a div 16"
  "byte_of a div 64 div 4 = 0" "byte_of a div 64 mod 4 = byte_of a div 64"
proof -
  have "byte_of a div 16 < 16" "byte_of a div 64 < 4" using byte_of_less [of a] by linarith+
  then show "byte_of a div 16 div 16 = 0" "byte_of a div 16 mod 16 = byte_of a div 16"
    "byte_of a div 64 div 4 = 0" "byte_of a div 64 mod 4 = byte_of a div 64"
    by simp_all
qed

lemma b64_encoded: "b64_groups (b64_EncodeToString bs) = Some bs"
proof (induction bs rule: b64_EncodeToString.induct)
  case (2 a)
  then show ?case by simp
next
  case (3 a b)
  then show ?case by simp
next
  case (4 a b c cs)
  then show ?case by simp
qed simp

lemma b64_no_newline: "filter (\<lambda>c. byte_of c \<noteq> 10 \<and> byte_of c \<noteq> 13) (b64_EncodeToString bs) = b64_EncodeToString bs"
  by (induction bs rule: b64_EncodeToString.induct) (simp_all add: byte_of_def [of "CHR ''=''"])

lemma b64_roundtrip: "b64_DecodeString (b64_EncodeToString bs) = Some bs"
  by (simp add: b64_DecodeString_def b64_no_newline b64_encoded)

end
