(* ===== verification/Crypto.thy ===== *)
theory Crypto
  imports World Text
begin

text \<open>
  pkg/crypto (phone.go, mask.go) and pkg/validator/phone.go: the encrypted phone column, the
  peppered hash it is looked up by, the masks of the profile and of the log, and the shape of a
  phone number.  AES-GCM and SHA-256 are parameters; the encodings around them are defined.
\<close>

section \<open>Encryption\<close>

text \<open>
  The standard library's AES-GCM without additional data: Seal (ciphertext and tag) and Open,
  by key and nonce.
\<close>

record aead =
  gcm_Seal :: "string \<Rightarrow> string \<Rightarrow> string \<Rightarrow> string"
  gcm_Open :: "string \<Rightarrow> string \<Rightarrow> string \<Rightarrow> string option"

definition gcm_NonceSize :: nat where "gcm_NonceSize = 12"

text \<open>aes.NewCipher takes keys of 16, 24 or 32 bytes.\<close>

definition aes_key_ok :: "string \<Rightarrow> bool" where
  "aes_key_ok key \<longleftrightarrow> length key \<in> {16, 24, 32}"

definition ErrEmptyKey :: goerr where
  "ErrEmptyKey = Sentinel ''crypto: phone encryption key is empty''"

definition phone_key :: "string \<Rightarrow> string result" where
  "phone_key keyHex =
     (if keyHex = [] then err ErrEmptyKey
      else (case hex_DecodeString keyHex of
              None \<Rightarrow> err (Wrap ''crypto: decode key hex'' (Plain ''invalid hex''))
            | Some key \<Rightarrow>
                if aes_key_ok key then ok key
                else err (Wrap ''crypto: new cipher'' (Plain ''invalid key size''))))"

definition EncryptPhone :: "aead \<Rightarrow> 'w runtime \<Rightarrow> string \<Rightarrow> string \<Rightarrow> 'w \<Rightarrow> string result \<times> 'w" where
  "EncryptPhone g rt plaintext keyHex w =
     (case phone_key keyHex of
        Inl e \<Rightarrow> (err e, w)
      | Inr key \<Rightarrow>
          (case rt_randBytes rt gcm_NonceSize w of
             (Inl e, w') \<Rightarrow> (err (Wrap ''crypto: gen nonce'' e), w')
           | (Inr bs, w') \<Rightarrow>
               (let nonce = map char_of bs
                in (ok (b64_EncodeToString (nonce @ gcm_Seal g key nonce plaintext)), w'))))"

definition phone_data :: "string \<Rightarrow> string \<Rightarrow> (string \<times> string) result" where
  "phone_data ciphertext keyHex =
     (if keyHex = [] then err ErrEmptyKey
      else (case hex_DecodeString keyHex of
              None \<Rightarrow> err (Wrap ''crypto: decode key hex'' (Plain ''invalid hex''))
            | Some key \<Rightarrow>
                (case b64_DecodeString ciphertext of
                   None \<Rightarrow> err (Wrap ''crypto: base64 decode'' (Plain ''illegal base64 data''))
                 | Some data \<Rightarrow>
                     if aes_key_ok key then ok (key, data)
                     else err (Wrap ''crypto: new cipher'' (Plain ''invalid key size'')))))"

definition DecryptPhone :: "aead \<Rightarrow> string \<Rightarrow> string \<Rightarrow> string result" where
  "DecryptPhone g ciphertext keyHex =
     (case phone_data ciphertext keyHex of
        Inl e \<Rightarrow> err e
      | Inr (key, data) \<Rightarrow>
          (if length data < gcm_NonceSize then err (Plain ''crypto: ciphertext too short'')
           else (case gcm_Open g key (take gcm_NonceSize data) (drop gcm_NonceSize data) of
                   None \<Rightarrow> err (Wrap ''crypto: gcm open'' (Plain ''message authentication failed''))
                 | Some plain \<Rightarrow> ok plain)))"

section \<open>Hashes and masks\<close>

definition HashPhone :: "(string \<Rightarrow> string) \<Rightarrow> string \<Rightarrow> string \<Rightarrow> string" where
  "HashPhone sha256 phone pepper = hex_EncodeToString (sha256 (phone @ pepper))"

definition MaskPhone :: "string \<Rightarrow> string" where
  "MaskPhone phone =
     (if length phone < 7 then phone
      else take 3 phone @ ''****'' @ drop (length phone - 4) phone)"

definition MaskToken :: "string \<Rightarrow> string" where
  "MaskToken token =
     (if length token \<le> 8 then replicate (length token) CHR ''*''
      else take 8 token @ ''...'')"

text \<open>chinaMobilePattern, the regular expression 1[3-9] and nine digits.\<close>

definition is_digit_in :: "nat \<Rightarrow> nat \<Rightarrow> char \<Rightarrow> bool" where
  "is_digit_in lo hi c = (case char_digit c of None \<Rightarrow> False | Some d \<Rightarrow> lo \<le> d \<and> d \<le> hi)"

fun validatePhone :: "string \<Rightarrow> bool" where
  "validatePhone (a # b # cs) = (a = CHR ''1'' \<and> is_digit_in 3 9 b \<and> length cs = 9 \<and> list_all (is_digit_in 0 9) cs)"
| "validatePhone _ = False"

lemma validatePhone_length: "validatePhone s \<Longrightarrow> length s = 11"
  by (cases s rule: validatePhone.cases) auto

section \<open>Round trip\<close>

lemma phone_key_data:
  assumes "phone_key keyHex = Inr key"
  shows "phone_data (b64_EncodeToString data) keyHex = Inr (key, data)"
  using assms by (auto simp: phone_key_def phone_data_def b64_roundtrip split: if_splits option.splits)

lemma decrypt_encrypted:
  assumes "\<forall>k n p. gcm_Open g k n (gcm_Seal g k n p) = Some p"
    and "\<forall>n w bs w'. rt_randBytes rt n w = (Inr bs, w') \<longrightarrow> length bs = n"
    and "EncryptPhone g rt phone keyHex w = (Inr c, w')"
  shows "DecryptPhone g c keyHex = Inr phone" "\<exists>key. phone_key keyHex = Inr key"
proof -
  obtain key bs where k: "phone_key keyHex = Inr key" and r: "rt_randBytes rt gcm_NonceSize w = (Inr bs, w')"
    and c: "c = b64_EncodeToString (map char_of bs @ gcm_Seal g key (map char_of bs) phone)"
    using assms(3) by (auto simp: EncryptPhone_def Let_def split: sum.splits prod.splits)
  have "length bs = gcm_NonceSize" using assms(2) r by blast
  with assms(1) show "DecryptPhone g c keyHex = Inr phone"
    by (simp add: DecryptPhone_def c phone_key_data [OF k])
  show "\<exists>key. phone_key keyHex = Inr key" using k by blast
qed

text \<open>
  A phone that was encrypted decrypts to itself: under the law of an authenticated cipher
  (Open inverts Seal) and of the random source (as many bytes as asked for), whatever
  EncryptPhone returns without an error, DecryptPhone with the same key takes back to the
  plain text, and the key was not empty but the hexadecimal text of a key of an AES size.
\<close>
theorem phone_roundtrip:
  assumes "\<forall>k n p. gcm_Open g k n (gcm_Seal g k n p) = Some p"
    and "\<forall>n w bs w'. rt_randBytes rt n w = (Inr bs, w') \<longrightarrow> length bs = n"
    and "EncryptPhone g rt phone keyHex w = (Inr c, w')"
  shows "DecryptPhone g c keyHex = Inr phone \<and> keyHex \<noteq> [] \<and> length keyHex \<in> {32, 48, 64}"
  using decrypt_encrypted [OF assms] hex_DecodeString_length [of keyHex]
  by (auto simp: phone_key_def aes_key_ok_def split: if_splits option.splits)

text \<open>A cipher that keeps key, nonce and text side by side, to evaluate the functions with.\<close>

definition open_cipher :: aead where
  "open_cipher =
     \<lparr>gcm_Seal = (\<lambda>k n p. k @ n @ p),
      gcm_Open = (\<lambda>k n c. if take (length (k @ n)) c = k @ n then Some (drop (length (k @ n)) c) else None)\<rparr>"

definition demo_key :: string where
  "demo_key = concat (replicate 32 ''0a'')"

theorem phone_roundtrip_witness:
  "\<exists>c w'. EncryptPhone open_cipher doc_rt ''13800138000'' demo_key demo_world = (Inr c, w')
      \<and> c \<noteq> ''13800138000'' \<and> DecryptPhone open_cipher c demo_key = Inr ''13800138000''"
proof -
  obtain r w' where r: "EncryptPhone open_cipher doc_rt ''13800138000'' demo_key demo_world = (r, w')" by fastforce
  have v: "case fst (EncryptPhone open_cipher doc_rt ''13800138000'' demo_key demo_world) of
      Inl e \<Rightarrow> False | Inr c \<Rightarrow> c \<noteq> ''13800138000''"
    by code_simp
  with r obtain c where c: "r = Inr c" "c \<noteq> ''13800138000''" by (cases r) auto
  have "\<forall>k n p. gcm_Open open_cipher k n (gcm_Seal open_cipher k n p) = Some p"
    by (simp add: open_cipher_def)
  moreover have "\<forall>n w bs w'. rt_randBytes doc_rt n w = (Inr bs, w') \<longrightarrow> length bs = n"
    by (auto simp: doc_rt_def)
  ultimately show ?thesis using phone_roundtrip [OF _ _ r [unfolded c(1)]] r c by auto
qed

end
