(* ===== verification/Jwt.thy ===== *)
theory Jwt
  imports World Text
begin

text \<open>
  pkg/jwt/jwt.go over the JWT library, which is a parameter: signing claims with a secret, and
  parsing a token with a key function at a time.  The locale jwt_library states what the library
  documents of the two.  Dates are Unix milliseconds; jwt.NewNumericDate truncates to the second.
\<close>

record Claims =
  cl_UserID :: int
  cl_JTI :: string
  cl_IssuedAt :: "int option"
  cl_NotBefore :: "int option"
  cl_ExpiresAt :: "int option"
  cl_Issuer :: string

datatype signing_method = HMAC string | OtherMethod string

record jwtlib =
  jwt_SignedString :: "Claims \<Rightarrow> string \<Rightarrow> string result"
  jwt_ParseWithClaims :: "(signing_method \<Rightarrow> string result) \<Rightarrow> int \<Rightarrow> string \<Rightarrow> (Claims \<times> bool) result"

definition lib_ErrTokenExpired :: goerr where
  "lib_ErrTokenExpired = Sentinel ''token is expired''"

definition NewNumericDate :: "int \<Rightarrow> int" where
  "NewNumericDate t = 1000 * (t div 1000)"

section \<open>The manager\<close>

record Manager =
  mgr_secret :: string
  mgr_accessTokenTTL :: int
  mgr_refreshTokenTTL :: int

record JWTConfig =
  jcfg_Secret :: string
  jcfg_AccessTokenTTL :: int
  jcfg_RefreshTokenTTL :: int

definition NewManager :: "JWTConfig \<Rightarrow> Manager" where
  "NewManager cfg =
     \<lparr>mgr_secret = jcfg_Secret cfg, mgr_accessTokenTTL = jcfg_AccessTokenTTL cfg,
      mgr_refreshTokenTTL = jcfg_RefreshTokenTTL cfg\<rparr>"

definition new_claims :: "int \<Rightarrow> string \<Rightarrow> int \<Rightarrow> int \<Rightarrow> Claims" where
  "new_claims userID jti now ttl =
     \<lparr>cl_UserID = userID, cl_JTI = jti,
      cl_IssuedAt = Some (NewNumericDate now), cl_NotBefore = Some (NewNumericDate now),
      cl_ExpiresAt = Some (NewNumericDate (now + ttl)), cl_Issuer = ''cooking-platform''\<rparr>"

definition Manager_issue ::
  "jwtlib \<Rightarrow> 'w runtime \<Rightarrow> Manager \<Rightarrow> int \<Rightarrow> int \<Rightarrow> 'w \<Rightarrow> (string \<times> string \<times> int) result \<times> 'w" where
  "Manager_issue lib rt m userID ttl w =
     (let (now, w) = rt_now rt w;
          (jti, w) = rt_uuid rt w
      in case jwt_SignedString lib (new_claims userID jti now ttl) (mgr_secret m) of
           Inl e \<Rightarrow> (err (Wrap ''sign token'' e), w)
         | Inr tok \<Rightarrow> (ok (tok, jti, now + ttl), w))"

definition IssueAccessToken ::
  "jwtlib \<Rightarrow> 'w runtime \<Rightarrow> Manager \<Rightarrow> int \<Rightarrow> 'w \<Rightarrow> (string \<times> string \<times> int) result \<times> 'w" where
  "IssueAccessToken lib rt m userID = Manager_issue lib rt m userID (mgr_accessTokenTTL m)"

definition IssueRefreshToken ::
  "jwtlib \<Rightarrow> 'w runtime \<Rightarrow> Manager \<Rightarrow> int \<Rightarrow> 'w \<Rightarrow> (string \<times> string \<times> int) result \<times> 'w" where
  "IssueRefreshToken lib rt m userID = Manager_issue lib rt m userID (mgr_refreshTokenTTL m)"

definition jwt_ErrTokenExpired :: goerr where
  "jwt_ErrTokenExpired = Sentinel ''token expired''"

definition jwt_ErrTokenInvalid :: goerr where
  "jwt_ErrTokenInvalid = Sentinel ''token invalid''"

fun hmac_key :: "Manager \<Rightarrow> signing_method \<Rightarrow> string result" where
  "hmac_key m (HMAC alg) = ok (mgr_secret m)"
| "hmac_key m (OtherMethod alg) = err (Plain (''unexpected signing method: '' @ alg))"

text \<open>The library reads the clock while it validates the claims.\<close>

definition Manager_Parse :: "jwtlib \<Rightarrow> 'w runtime \<Rightarrow> Manager \<Rightarrow> string \<Rightarrow> 'w \<Rightarrow> Claims result \<times> 'w" where
  "Manager_Parse lib rt m tokenString w =
     (let (now, w) = rt_now rt w
      in case jwt_ParseWithClaims lib (hmac_key m) now tokenString of
           Inl e \<Rightarrow> (err (if errors_is e lib_ErrTokenExpired then jwt_ErrTokenExpired else jwt_ErrTokenInvalid), w)
         | Inr (claims, valid) \<Rightarrow>
             (if \<not> valid then (err jwt_ErrTokenInvalid, w)
              else if cl_UserID claims \<le> 0 \<or> cl_JTI claims = [] then (err jwt_ErrTokenInvalid, w)
              else (ok claims, w)))"

section \<open>The library\<close>

text \<open>
  Claims a JSON text carries exactly: whole seconds, 64-bit numbers, ASCII strings.  A token is
  in time from its nbf up to, and without, its exp.
\<close>

definition ascii :: "string \<Rightarrow> bool" where
  "ascii s \<longleftrightarrow> list_all (\<lambda>c. byte_of c < 128) s"

definition whole_date :: "int option \<Rightarrow> bool" where
  "whole_date d = (case d of None \<Rightarrow> True | Some t \<Rightarrow> t mod 1000 = 0 \<and> in_int64 t)"

definition exact_claims :: "Claims \<Rightarrow> bool" where
  "exact_claims c \<longleftrightarrow> in_int64 (cl_UserID c) \<and> ascii (cl_JTI c) \<and> ascii (cl_Issuer c)
     \<and> whole_date (cl_IssuedAt c) \<and> whole_date (cl_NotBefore c) \<and> whole_date (cl_ExpiresAt c)"

definition started :: "Claims \<Rightarrow> int \<Rightarrow> bool" where
  "started c now \<longleftrightarrow> (case cl_NotBefore c of None \<Rightarrow> True | Some t \<Rightarrow> t \<le> now)"

definition unexpired :: "Claims \<Rightarrow> int \<Rightarrow> bool" where
  "unexpired c now \<longleftrightarrow> (case cl_ExpiresAt c of None \<Rightarrow> True | Some t \<Rightarrow> now < t)"

locale jwt_library =
  fixes lib :: jwtlib and payload :: "string \<Rightarrow> Claims"
  assumes signed_parses:
    "jwt_SignedString lib c k = Inr t \<Longrightarrow> exact_claims c \<Longrightarrow> keyf (HMAC ''HS256'') = Inr k \<Longrightarrow> started c now
       \<Longrightarrow> unexpired c now \<Longrightarrow> jwt_ParseWithClaims lib keyf now t = Inr (c, True)"
  and signed_expires:
    "jwt_SignedString lib c k = Inr t \<Longrightarrow> exact_claims c \<Longrightarrow> keyf (HMAC ''HS256'') = Inr k
       \<Longrightarrow> \<not> unexpired c now
       \<Longrightarrow> \<exists>e. jwt_ParseWithClaims lib keyf now t = Inl e \<and> errors_is e lib_ErrTokenExpired"
  and parsed:
    "jwt_ParseWithClaims lib keyf now t = Inr (c, v) \<Longrightarrow>
       c = payload t \<and> started c now \<and> unexpired c now \<and> (\<exists>m k. keyf m = Inr k)"
begin

text \<open>A token that parses does so with its own claims, before they expire.\<close>

lemma Parse_ok:
  assumes "Manager_Parse lib rt m t w = (Inr c, w')"
  obtains now where "rt_now rt w = (now, w')" "c = payload t" "unexpired c now" "0 < cl_UserID c" "cl_JTI c \<noteq> []"
proof -
  obtain now where n: "rt_now rt w = (now, w')"
    using assms by (auto simp: Manager_Parse_def Let_def split: prod.splits sum.splits if_splits)
  obtain v where "jwt_ParseWithClaims lib (hmac_key m) now t = Inr (c, v)" "0 < cl_UserID c" "cl_JTI c \<noteq> []"
    using assms n by (auto simp: Manager_Parse_def split: sum.splits if_splits)
  with parsed [OF this(1)] n that show thesis by blast
qed

lemma issue_ok:
  assumes "Manager_issue lib rt m uid ttl w = (Inr (t, jti, expires), w')"
  obtains now w1 where "rt_now rt w = (now, w1)" "rt_uuid rt w1 = (jti, w')" "expires = now + ttl"
    "jwt_SignedString lib (new_claims uid jti now ttl) (mgr_secret m) = Inr t"
proof -
  obtain now w1 where 1: "rt_now rt w = (now, w1)" by fastforce
  obtain j w2 where 2: "rt_uuid rt w1 = (j, w2)" by fastforce
  from assms 1 2 that show thesis by (auto simp: Manager_issue_def split: sum.splits)
qed

lemma issued_parses:
  assumes "Manager_issue lib rt m uid ttl w = (Inr (t, jti, expires), w')"
    and "0 < uid" "in_int64 uid" "jti \<noteq> []" "ascii jti" "fst (rt_now rt w) = t0"
    and "in_int64 t0" "in_int64 (t0 - 1000)" "in_int64 (expires)" "in_int64 (expires - 1000)"
    and "rt_now rt v = (now, v')" "t0 \<le> now"
  shows "now < NewNumericDate expires \<Longrightarrow> Manager_Parse lib rt m t v = (Inr (new_claims uid jti t0 ttl), v')"
    "NewNumericDate expires \<le> now \<Longrightarrow> Manager_Parse lib rt m t v = (Inl jwt_ErrTokenExpired, v')"
proof -
  have s: "jwt_SignedString lib (new_claims uid jti t0 ttl) (mgr_secret m) = Inr t" "expires = t0 + ttl"
    by (rule issue_ok [OF assms(1)], use assms(6) in simp)+
  have whole: "whole_date (Some (NewNumericDate x))" if "in_int64 x" "in_int64 (x - 1000)" for x
    using that unfolding whole_date_def NewNumericDate_def in_int64_def option.case by auto
  have x: "exact_claims (new_claims uid jti t0 ttl)"
    using assms(3,5) whole [OF assms(7,8)] whole [OF assms(9,10)] s(2)
    by (simp add: exact_claims_def new_claims_def ascii_def byte_of_def)
  have st: "started (new_claims uid jti t0 ttl) now"
    using assms(12) by (simp add: started_def new_claims_def NewNumericDate_def)
  have un: "unexpired (new_claims uid jti t0 ttl) now \<longleftrightarrow> now < NewNumericDate expires"
    by (simp add: unexpired_def new_claims_def s(2))
  show "Manager_Parse lib rt m t v = (Inr (new_claims uid jti t0 ttl), v')" if "now < NewNumericDate expires"
    using signed_parses [OF s(1) x _ st, of "hmac_key m"] un that assms(2,4,11)
    by (simp add: Manager_Parse_def new_claims_def)
  show "Manager_Parse lib rt m t v = (Inl jwt_ErrTokenExpired, v')" if "NewNumericDate expires \<le> now"
    using signed_expires [OF s(1) x, of "hmac_key m" now] un that assms(11)
    by (auto simp: Manager_Parse_def)
qed

end

section \<open>A library with the documented behaviour\<close>

text \<open>
  A token is its claims and the secret written out, each field after its length; it parses back
  with the same secret while it is in time.
\<close>

definition put_field :: "string \<Rightarrow> string" where
  "put_field s = FormatNat (length s) @ '':'' @ s"

definition get_field :: "string \<Rightarrow> (string \<times> string) option" where
  "get_field s =
     (case parse_digits 0 (takeWhile (\<lambda>c. c \<noteq> CHR '':'') s) of
        None \<Rightarrow> None
      | Some n \<Rightarrow>
          (case dropWhile (\<lambda>c. c \<noteq> CHR '':'') s of
             [] \<Rightarrow> None
           | _ # rest \<Rightarrow> if n \<le> length rest then Some (take n rest, drop n rest) else None))"

lemma FormatNat_no_colon: "CHR '':'' \<notin> set (FormatNat n)"
proof (induction n rule: FormatNat.induct)
  case (1 n)
  have "digit_char d \<noteq> CHR '':''" if "d < 10" for d
    using char_digit_digit_char [OF that] by (auto simp: char_digit_def)
  with 1 show ?case by (subst FormatNat.simps) (auto simp: eq_commute)
qed

lemma get_put_field [simp]: "get_field (put_field s @ rest) = Some (s, rest)"
proof -
  have t: "takeWhile (\<lambda>c. c \<noteq> CHR '':'') (FormatNat n @ CHR '':'' # xs) = FormatNat n"
    "dropWhile (\<lambda>c. c \<noteq> CHR '':'') (FormatNat n @ CHR '':'' # xs) = CHR '':'' # xs" for n xs
    using FormatNat_no_colon [of n] by (auto simp: takeWhile_append dropWhile_append)
  show ?thesis by (simp add: get_field_def put_field_def t)
qed

fun get_fields :: "nat \<Rightarrow> string \<Rightarrow> string list option" where
  "get_fields 0 s = (if s = [] then Some [] else None)"
| "get_fields (Suc n) s =
     (case get_field s of
        None \<Rightarrow> None
      | Some (x, rest) \<Rightarrow> (case get_fields n rest of None \<Rightarrow> None | Some xs \<Rightarrow> Some (x # xs)))"

definition date_text :: "int option \<Rightarrow> string" where
  "date_text d = (case d of None \<Rightarrow> [] | Some t \<Rightarrow> FormatInt t)"

definition claim_fields :: "Claims \<Rightarrow> string \<Rightarrow> string list" where
  "claim_fields c k =
     [FormatInt (cl_UserID c), cl_JTI c, date_text (cl_IssuedAt c), date_text (cl_NotBefore c),
      date_text (cl_ExpiresAt c), cl_Issuer c, k]"

definition int_of_text :: "string \<Rightarrow> int" where
  "int_of_text s = (case ParseInt s of None \<Rightarrow> 0 | Some n \<Rightarrow> n)"

definition read_claims :: "string list \<Rightarrow> Claims" where
  "read_claims xs =
     \<lparr>cl_UserID = int_of_text (xs ! 0), cl_JTI = xs ! 1, cl_IssuedAt = ParseInt (xs ! 2),
      cl_NotBefore = ParseInt (xs ! 3), cl_ExpiresAt = ParseInt (xs ! 4), cl_Issuer = xs ! 5\<rparr>"

definition token_fields :: "string \<Rightarrow> string list" where
  "token_fields t = (case get_fields 7 t of Some xs \<Rightarrow> xs | None \<Rightarrow> replicate 7 [])"

definition doc_jwt :: jwtlib where
  "doc_jwt =
     \<lparr>jwt_SignedString = (\<lambda>c k. Inr (concat (map put_field (claim_fields c k)))),
      jwt_ParseWithClaims = (\<lambda>keyf now t.
        (case (get_fields 7 t, keyf (HMAC ''HS256'')) of
           (Some xs, Inr k) \<Rightarrow>
             (let c = read_claims xs in
              if xs ! 6 \<noteq> k then Inl (Plain ''signature is invalid'')
              else if \<not> unexpired c now then Inl lib_ErrTokenExpired
              else if \<not> started c now then Inl (Plain ''token is not valid yet'')
              else Inr (c, True))
         | _ \<Rightarrow> Inl (Plain ''token is malformed'')))\<rparr>"

lemma get_fields_concat: "get_fields (length xs) (concat (map put_field xs)) = Some xs"
  by (induction xs) simp_all

lemma ParseInt_Nil [simp]: "ParseInt [] = None"
  by (simp add: ParseInt_def)

lemma ParseInt_date_text: "whole_date d \<Longrightarrow> ParseInt (date_text d) = d"
  by (auto simp: whole_date_def date_text_def ParseInt_FormatInt split: option.splits)

lemma read_claims_fields:
  assumes "exact_claims c"
  shows "read_claims (claim_fields c k) = c"
  using assms ParseInt_FormatInt [of "cl_UserID c"]
  by (simp add: read_claims_def claim_fields_def exact_claims_def ParseInt_date_text int_of_text_def)

lemma doc_fields:
  assumes "jwt_SignedString doc_jwt c k = Inr t"
  shows "get_fields 7 t = Some (claim_fields c k)"
proof -
  have "length (claim_fields c k) = 7" "t = concat (map put_field (claim_fields c k))"
    using assms by (auto simp: doc_jwt_def claim_fields_def)
  with get_fields_concat [of "claim_fields c k"] show ?thesis by simp
qed

interpretation doc_jwt: jwt_library doc_jwt "\<lambda>t. read_claims (token_fields t)"
proof
  fix c k t now and keyf :: "signing_method \<Rightarrow> string result"
  assume s: "jwt_SignedString doc_jwt c k = Inr t" and x: "exact_claims c" and k: "keyf (HMAC ''HS256'') = Inr k"
  note f = doc_fields [OF s] read_claims_fields [OF x]
  have last: "claim_fields c k ! 6 = k" by (simp add: claim_fields_def)
  show "jwt_ParseWithClaims doc_jwt keyf now t = Inr (c, True)" if "started c now" "unexpired c now"
    using that f k last by (simp add: doc_jwt_def)
  show "\<exists>e. jwt_ParseWithClaims doc_jwt keyf now t = Inl e \<and> errors_is e lib_ErrTokenExpired" if "\<not> unexpired c now"
    using that f k last by (simp add: doc_jwt_def lib_ErrTokenExpired_def)
next
  fix now t c v and keyf :: "signing_method \<Rightarrow> string result"
  assume "jwt_ParseWithClaims doc_jwt keyf now t = Inr (c, v)"
  then show "c = read_claims (token_fields t) \<and> started c now \<and> unexpired c now \<and> (\<exists>m k. keyf m = Inr k)"
    by (auto simp: doc_jwt_def token_fields_def Let_def split: option.splits sum.splits if_splits)
qed

section \<open>Round trip\<close>

text \<open>
  C19: A token the manager issued parses, as long as its expiry truncated to the second
  is not reached, to the claims it was issued with (the user, the fresh identifier, the three
  dates); from then on it parses to ErrTokenExpired and nothing else, whatever the caller of the
  parser does with it.
\<close>
theorem token_roundtrip:
  assumes "jwt_library lib payload"
    and "Manager_issue lib rt m uid ttl w = (Inr (t, jti, expires), w')"
    and "0 < uid" "in_int64 uid" "jti \<noteq> []" "ascii jti" "fst (rt_now rt w) = t0"
    and "in_int64 t0" "in_int64 (t0 - 1000)" "in_int64 expires" "in_int64 (expires - 1000)"
    and "rt_now rt v = (now, v')" "t0 \<le> now"
  shows "Manager_Parse lib rt m t v =
    (if now < NewNumericDate expires then Inr (new_claims uid jti t0 ttl) else Inl jwt_ErrTokenExpired, v')"
  using jwt_library.issued_parses [OF assms] by (simp add: not_less)

definition demo_manager :: Manager where
  "demo_manager = NewManager \<lparr>jcfg_Secret = ''secret'', jcfg_AccessTokenTTL = 7200000, jcfg_RefreshTokenTTL = 604800000\<rparr>"

theorem token_roundtrip_witness:
  "\<exists>t jti x w'. Manager_issue doc_jwt doc_rt demo_manager 7 7200000 demo_world = (Inr (t, jti, x), w')
     \<and> fst (Manager_Parse doc_jwt doc_rt demo_manager t (w'\<lparr>w_clock := 7200000\<rparr>)) = Inr (new_claims 7 jti 1000 7200000)
     \<and> fst (Manager_Parse doc_jwt doc_rt demo_manager t (w'\<lparr>w_clock := 7201000\<rparr>)) = Inl jwt_ErrTokenExpired"
proof -
  define jti where "jti = ''uuid-'' @ FormatInt 0"
  have v: "jti \<noteq> []" "ascii jti" unfolding jti_def by code_simp+
  obtain t w' where r: "Manager_issue doc_jwt doc_rt demo_manager 7 7200000 demo_world = (Inr (t, jti, 7201000), w')"
    by (simp add: Manager_issue_def doc_rt_def doc_jwt_def demo_world_def fresh_world_def jti_def)
  have c: "fst (rt_now doc_rt demo_world) = 1000" "NewNumericDate 7201000 = 7201000"
    by code_simp+
  have now: "rt_now doc_rt (w'\<lparr>w_clock := x\<rparr>) = (x, w'\<lparr>w_clock := x\<rparr>)" for x
    by (simp add: doc_rt_def)
  have ranges: "(0::int) < 7" "in_int64 7" "in_int64 1000" "in_int64 (1000 - 1000)" "in_int64 7201000" "in_int64 (7201000 - 1000)"
    "(1000::int) \<le> 7200000" "(1000::int) \<le> 7201000"
    by (simp_all add: in_int64_def int64_min_def int64_max_def)
  note p = token_roundtrip [OF doc_jwt.jwt_library_axioms r ranges(1,2) v c(1) ranges(3-6) now]
  have "fst (Manager_Parse doc_jwt doc_rt demo_manager t (w'\<lparr>w_clock := 7200000\<rparr>)) = Inr (new_claims 7 jti 1000 7200000)"
    unfolding p [OF ranges(7)] c(2) by simp
  moreover have "fst (Manager_Parse doc_jwt doc_rt demo_manager t (w'\<lparr>w_clock := 7201000\<rparr>)) = Inl jwt_ErrTokenExpired"
    unfolding p [OF ranges(8)] c(2) by simp
  ultimately show ?thesis using r by blast
qed

end
