(* ===== verification/Oss.thy ===== *)
theory Oss
  imports World Text
begin

text \<open>
  pkg/oss: the whitelist of image URLs, the presigning clients (the mock server of development
  and the Aliyun wrapper, whose SDK is a parameter) and the upload endpoint of the mock.
\<close>

section \<open>Configuration and parameters\<close>

record OSSConfig =
  oss_Provider :: string
  oss_AccessKeyID :: string
  oss_AccessKeySecret :: string
  oss_Endpoint :: string
  oss_Bucket :: string
  oss_URLPrefix :: string
  oss_PresignTTL :: int
  oss_MaxImageSize :: int
  oss_UploadHourly :: int
  oss_MockListenAddr :: string

definition PurposeAvatar :: string where "PurposeAvatar = ''avatar''"
definition PurposeCover :: string where "PurposeCover = ''cover''"
definition PurposeStep :: string where "PurposeStep = ''step''"

definition PresignPurpose_IsValid :: "string \<Rightarrow> bool" where
  "PresignPurpose_IsValid p \<longleftrightarrow> p = PurposeAvatar \<or> p = PurposeCover \<or> p = PurposeStep"

record PresignParams =
  pp_UserID :: int
  pp_Filename :: string
  pp_ContentType :: string
  pp_Size :: int
  pp_Purpose :: string

record PresignResult =
  pr_UploadURL :: string
  pr_PublicURL :: string
  pr_Method :: string
  pr_Headers :: "(string \<times> string) list"
  pr_ObjectKey :: string
  pr_ExpiresAt :: int

type_synonym 'w oss_presign = "PresignParams \<Rightarrow> 'w \<Rightarrow> PresignResult result \<times> 'w"

section \<open>The whitelist\<close>

definition IsAllowedURL :: "(string \<Rightarrow> string) \<Rightarrow> string \<Rightarrow> string \<Rightarrow> bool" where
  "IsAllowedURL unicode u prefix =
     (if u = [] then True
      else if prefix = [] then False
      else HasPrefix (ToLower unicode u) (ToLower unicode prefix))"

fun AllAllowed :: "(string \<Rightarrow> string) \<Rightarrow> string list \<Rightarrow> string \<Rightarrow> bool" where
  "AllAllowed unicode [] prefix = True"
| "AllAllowed unicode (u # urls) prefix =
     (if \<not> IsAllowedURL unicode u prefix then False else AllAllowed unicode urls prefix)"

lemma AllAllowed_iff: "AllAllowed unicode urls prefix \<longleftrightarrow> (\<forall>u\<in>set urls. IsAllowedURL unicode u prefix)"
  by (induction urls) auto

section \<open>Object keys\<close>

definition extFromContentType :: "string \<Rightarrow> string" where
  "extFromContentType ct =
     (if ct = ''image/jpeg'' then ''jpg''
      else if ct = ''image/png'' then ''png''
      else if ct = ''image/webp'' then ''webp''
      else ''bin'')"

text \<open>
  path.Clean: empty and dot elements go, a dot-dot removes the element before it (at the root it
  goes itself, at the start of a relative path it stays).
\<close>

definition clean_step :: "bool \<Rightarrow> string list \<Rightarrow> string \<Rightarrow> string list" where
  "clean_step rooted acc x =
     (if x = [] \<or> x = ''.'' then acc
      else if x = ''..'' then
        (if acc \<noteq> [] \<and> last acc \<noteq> ''..'' then butlast acc
         else if rooted then acc else acc @ [x])
      else acc @ [x])"

definition path_Clean :: "string \<Rightarrow> string" where
  "path_Clean p =
     (let rooted = HasPrefix p ''/'';
          parts = foldl (clean_step rooted) [] (Split p CHR ''/'')
      in if rooted then ''/'' @ Join parts ''/''
         else if parts = [] then ''.''
         else Join parts ''/'')"

text \<open>The month of a time in the zone of the process, Format("200601"), is a parameter.\<close>

definition buildObjectKey :: "(int \<Rightarrow> string) \<Rightarrow> 'w runtime \<Rightarrow> PresignParams \<Rightarrow> 'w \<Rightarrow> string \<times> 'w" where
  "buildObjectKey yyyymm rt p w =
     (let ext = extFromContentType (pp_ContentType p);
          (now, w) = rt_now rt w;
          (i, w) = rt_uuid rt w
      in (path_Clean (pp_Purpose p @ ''/'' @ FormatInt (pp_UserID p) @ ''/'' @ yyyymm now @ ''/'' @ i @ ''.'' @ ext), w))"

section \<open>Clients\<close>

definition presign_ttl :: "OSSConfig \<Rightarrow> int" where
  "presign_ttl cfg = (if oss_PresignTTL cfg \<le> 0 then 15 * minute_ms else oss_PresignTTL cfg)"

definition public_url :: "OSSConfig \<Rightarrow> string \<Rightarrow> string" where
  "public_url cfg objectKey = TrimRight (oss_URLPrefix cfg) CHR ''/'' @ ''/'' @ objectKey"

definition MockClient_Presign ::
  "(int \<Rightarrow> string) \<Rightarrow> 'w runtime \<Rightarrow> OSSConfig \<Rightarrow> string \<Rightarrow> 'w oss_presign" where
  "MockClient_Presign yyyymm rt cfg addr params w =
     (if \<not> PresignPurpose_IsValid (pp_Purpose params) then
        (err (Plain (''invalid purpose: '' @ pp_Purpose params)), w)
      else
        (let (objectKey, w) = buildObjectKey yyyymm rt params w;
             (now, w) = rt_now rt w
         in (ok \<lparr>pr_UploadURL = ''http://'' @ addr @ ''/'' @ objectKey,
                 pr_PublicURL = public_url cfg objectKey,
                 pr_Method = ''PUT'',
                 pr_Headers = [(''Content-Type'', pp_ContentType params)],
                 pr_ObjectKey = objectKey,
                 pr_ExpiresAt = now + presign_ttl cfg\<rparr>, w)))"

text \<open>The SDK: bucket.SignURL by key, seconds and content type.\<close>

type_synonym 'w signurl = "string \<Rightarrow> int \<Rightarrow> string \<Rightarrow> 'w \<Rightarrow> string result \<times> 'w"

definition AliyunClient_Presign ::
  "(int \<Rightarrow> string) \<Rightarrow> 'w runtime \<Rightarrow> 'w signurl \<Rightarrow> OSSConfig \<Rightarrow> 'w oss_presign" where
  "AliyunClient_Presign yyyymm rt signURL cfg params w =
     (if \<not> PresignPurpose_IsValid (pp_Purpose params) then
        (err (Plain (''invalid purpose: '' @ pp_Purpose params)), w)
      else
        (let (objectKey, w) = buildObjectKey yyyymm rt params w in
         case signURL objectKey (seconds_of (presign_ttl cfg)) (pp_ContentType params) w of
           (Inl e, w) \<Rightarrow> (err (Wrap ''sign put url'' e), w)
         | (Inr uploadURL, w) \<Rightarrow>
             (let (now, w) = rt_now rt w
              in (ok \<lparr>pr_UploadURL = uploadURL,
                      pr_PublicURL = public_url cfg objectKey,
                      pr_Method = ''PUT'',
                      pr_Headers = [(''Content-Type'', pp_ContentType params)],
                      pr_ObjectKey = objectKey,
                      pr_ExpiresAt = now + presign_ttl cfg\<rparr>, w))))"

text \<open>The checks of NewAliyunClient before it dials; New and Bucket are the SDK's.\<close>

definition NewAliyunClient :: "OSSConfig \<Rightarrow> error \<Rightarrow> error \<Rightarrow> error" where
  "NewAliyunClient cfg newErr bucketErr =
     (if oss_AccessKeyID cfg = [] \<or> oss_AccessKeySecret cfg = [] then
        Some (Plain ''aliyun oss: access key id/secret required'')
      else if oss_Endpoint cfg = [] then
        Some (Plain ''aliyun oss: endpoint required (e.g. oss-cn-beijing.aliyuncs.com)'')
      else if oss_Bucket cfg = [] then Some (Plain ''aliyun oss: bucket required'')
      else if oss_URLPrefix cfg = [] then
        Some (Plain ''aliyun oss: url_prefix required (whitelist baseline)'')
      else (case newErr of
              Some e \<Rightarrow> Some (Wrap ''aliyun oss: new client'' e)
            | None \<Rightarrow>
                (case bucketErr of
                   Some e \<Rightarrow> Some (Wrap (''aliyun oss: open bucket '' @ oss_Bucket cfg) e)
                 | None \<Rightarrow> None)))"

text \<open>Which client NewClient builds; the mock server listens on a local address.\<close>

datatype oss_client = MockOSS string | AliyunOSS

definition mock_addr :: "OSSConfig \<Rightarrow> string" where
  "mock_addr cfg = (if oss_MockListenAddr cfg = [] then ''127.0.0.1:18080'' else oss_MockListenAddr cfg)"

definition NewClient :: "OSSConfig \<Rightarrow> error \<Rightarrow> error \<Rightarrow> error \<Rightarrow> oss_client result" where
  "NewClient cfg listenErr newErr bucketErr =
     (if oss_Provider cfg = ''mock'' \<or> oss_Provider cfg = [] then
        (case listenErr of
           Some e \<Rightarrow> err (Wrap (''mock oss listen '' @ mock_addr cfg) e)
         | None \<Rightarrow> ok (MockOSS (mock_addr cfg)))
      else if oss_Provider cfg = ''aliyun'' then
        (case NewAliyunClient cfg newErr bucketErr of
           Some e \<Rightarrow> err e
         | None \<Rightarrow> ok AliyunOSS)
      else err (Plain (''unknown oss provider: '' @ oss_Provider cfg)))"

section \<open>The upload endpoint of the mock\<close>

record MockUploadRecord =
  mu_ObjectKey :: string
  mu_ContentType :: string
  mu_Size :: int
  mu_UploadedAt :: int

type_synonym uploads = "string \<rightharpoonup> MockUploadRecord"

text \<open>
  A request of the upload endpoint: method, path, content type, and the body, None where reading
  it fails.  Of a body at most one byte more than the limit is read.
\<close>

definition handlePUT ::
  "OSSConfig \<Rightarrow> string \<Rightarrow> string \<Rightarrow> string \<Rightarrow> string option \<Rightarrow> int \<Rightarrow> uploads \<Rightarrow> int \<times> uploads" where
  "handlePUT cfg meth path contentType body now uploaded =
     (if meth \<noteq> ''PUT'' then (405, uploaded)
      else
        (let objectKey = (if HasPrefix path ''/'' then drop 1 path else path) in
         if objectKey = [] then (400, uploaded)
         else
           (let lim = (if oss_MaxImageSize cfg \<le> 0 then 5 * 1024 * 1024 else oss_MaxImageSize cfg) in
            case body of
              None \<Rightarrow> (400, uploaded)
            | Some b \<Rightarrow>
                (let read = take (nat (lim + 1)) b in
                 if int (length read) > lim then (413, uploaded)
                 else (200, uploaded(objectKey \<mapsto>
                        \<lparr>mu_ObjectKey = objectKey, mu_ContentType = contentType,
                         mu_Size = int (length read), mu_UploadedAt = now\<rparr>))))))"

definition GetUploadRecord :: "uploads \<Rightarrow> string \<Rightarrow> MockUploadRecord option" where
  "GetUploadRecord uploaded objectKey = uploaded objectKey"

lemma handlePUT_accepts:
  assumes "handlePUT cfg meth path ct body now uploaded = (200, uploaded')"
  obtains b key where "meth = ''PUT''" "body = Some b" "key \<noteq> []" "path = key \<or> path = CHR ''/'' # key"
    "int (length b) \<le> (if oss_MaxImageSize cfg \<le> 0 then 5 * 1024 * 1024 else oss_MaxImageSize cfg)"
    "uploaded' = uploaded(key \<mapsto> \<lparr>mu_ObjectKey = key, mu_ContentType = ct, mu_Size = int (length b), mu_UploadedAt = now\<rparr>)"
proof -
  define lim where "lim = (if oss_MaxImageSize cfg \<le> 0 then 5 * 1024 * 1024 else oss_MaxImageSize cfg)"
  have pos: "0 < lim" by (simp add: lim_def)
  define key where "key = (if HasPrefix path ''/'' then drop 1 path else path)"
  obtain b where b: "meth = ''PUT''" "key \<noteq> []" "body = Some b"
      "\<not> int (length (take (nat (lim + 1)) b)) > lim"
      "uploaded' = uploaded(key \<mapsto> \<lparr>mu_ObjectKey = key, mu_ContentType = ct,
          mu_Size = int (length (take (nat (lim + 1)) b)), mu_UploadedAt = now\<rparr>)"
    using assms unfolding handlePUT_def Let_def lim_def [symmetric] key_def [symmetric]
    by (auto split: if_splits option.splits)
  have len: "int (length b) \<le> lim" "length (take (nat (lim + 1)) b) = length b"
    using b(4) pos by auto
  have "path = key \<or> path = CHR ''/'' # key"
    unfolding key_def by (auto simp: HasPrefix_iff)
  with b len that show thesis unfolding lim_def by auto
qed

section \<open>Lower case of ASCII\<close>

lemma ToLower_append:
  "list_all (\<lambda>c. byte_of c < 128) (a @ b) \<Longrightarrow> ToLower unicode (a @ b) = ToLower unicode a @ ToLower unicode b"
  by (simp add: ToLower_def)

lemma TrimRight_cases:
  assumes "\<not> (\<exists>t. s = t @ [c, c])"
  shows "s = TrimRight s c \<or> s = TrimRight s c @ [c]"
proof (cases "rev s")
  case (Cons x xs)
  then have s: "s = rev xs @ [x]" by (metis rev_eq_Cons_iff)
  have "rev (dropWhile (\<lambda>y. y = c) xs) = rev xs" if "x = c"
  proof (cases xs)
    case (Cons y ys)
    then have "y \<noteq> c" using assms s that by auto
    with Cons show ?thesis by simp
  qed simp
  with Cons s show ?thesis by (auto simp: TrimRight_def)
qed (simp add: TrimRight_def)

text \<open>A URL the clients hand out is on the whitelist, when the prefix does not end in two slashes.\<close>

lemma public_url_allowed:
  assumes "oss_URLPrefix cfg \<noteq> []" "\<not> (\<exists>t. oss_URLPrefix cfg = t @ ''//'')"
    and "list_all (\<lambda>c. byte_of c < 128) (oss_URLPrefix cfg)" "list_all (\<lambda>c. byte_of c < 128) key"
  shows "IsAllowedURL unicode (public_url cfg key) (oss_URLPrefix cfg)"
proof -
  let ?p = "oss_URLPrefix cfg" and ?t = "TrimRight (oss_URLPrefix cfg) CHR ''/''"
  from TrimRight_cases [OF assms(2)] obtain rest where url: "public_url cfg key = ?p @ rest"
      and rest: "list_all (\<lambda>c. byte_of c < 128) rest"
  proof
    assume "?p = ?t"
    with that [of "CHR ''/'' # key"] assms(4) show thesis by (simp add: public_url_def byte_of_def)
  next
    assume "?p = ?t @ ''/''"
    then have "public_url cfg key = ?p @ key" by (metis public_url_def append_assoc)
    with that assms(4) show thesis by blast
  qed
  have "ToLower unicode (?p @ rest) = ToLower unicode ?p @ ToLower unicode rest"
    using assms(3) rest by (intro ToLower_append) simp
  with assms(1) show ?thesis by (simp add: IsAllowedURL_def url HasPrefix_iff)
qed

end
