(* ===== verification/Sms.thy ===== *)
theory Sms
  imports World
begin

text \<open>
  pkg/sms: the sender interface, its factory, the mock (which only logs) and the Aliyun wrapper,
  whose SDK call is a parameter.
\<close>

record SMSConfig =
  sms_Provider :: string
  sms_AccessKeyID :: string
  sms_AccessKeySecret :: string
  sms_SignName :: string
  sms_TemplateCode :: string
  sms_CodeLength :: int
  sms_CodeTTL :: int

type_synonym 'w smsSender = "ctx \<Rightarrow> string \<Rightarrow> string \<Rightarrow> 'w \<Rightarrow> error \<times> 'w"

definition MockSender_SendCode :: "'w smsSender" where
  "MockSender_SendCode c phone code w = (None, w)"

text \<open>The request of SendSmsVerifyCode and its answer.\<close>

record VerifyCodeRequest =
  vr_PhoneNumber :: string
  vr_SignName :: string
  vr_TemplateCode :: string
  vr_TemplateParam :: string
  vr_ValidTime :: int
  vr_Interval :: int

record VerifyCodeResponse =
  vp_Code :: string
  vp_Message :: string
  vp_Success :: bool

type_synonym 'w dypns = "VerifyCodeRequest \<Rightarrow> 'w \<Rightarrow> VerifyCodeResponse result \<times> 'w"

record AliyunSender =
  as_signName :: string
  as_templateCode :: string
  as_validMinutes :: int
  as_validSeconds :: int

text \<open>The minutes are rounded up, the seconds down, both at least one.\<close>

definition ceil_minutes :: "int \<Rightarrow> int" where
  "ceil_minutes ms = - ((- ms) div minute_ms)"

definition NewAliyunSender :: "SMSConfig \<Rightarrow> error \<Rightarrow> AliyunSender result" where
  "NewAliyunSender cfg clientErr =
     (case clientErr of
        Some e \<Rightarrow> err (Wrap ''new dypnsapi client'' e)
      | None \<Rightarrow>
          (let minutes = ceil_minutes (sms_CodeTTL cfg);
               minutes = (if minutes < 1 then 1 else minutes);
               seconds = seconds_of (sms_CodeTTL cfg);
               seconds = (if seconds < 1 then 1 else seconds)
           in ok \<lparr>as_signName = sms_SignName cfg, as_templateCode = sms_TemplateCode cfg,
                  as_validMinutes = minutes, as_validSeconds = seconds\<rparr>))"

definition buildTemplateParam :: "string \<Rightarrow> int \<Rightarrow> string" where
  "buildTemplateParam code minutes =
     ''{\"code\":\"'' @ code @ ''\",\"min\":\"'' @ FormatInt minutes @ ''\"}''"

definition AliyunSender_SendCode :: "'w dypns \<Rightarrow> AliyunSender \<Rightarrow> 'w smsSender" where
  "AliyunSender_SendCode client s c phone code w =
     (case client
             \<lparr>vr_PhoneNumber = phone, vr_SignName = as_signName s, vr_TemplateCode = as_templateCode s,
              vr_TemplateParam = buildTemplateParam code (as_validMinutes s),
              vr_ValidTime = as_validSeconds s, vr_Interval = 1\<rparr> w of
        (Inl e, w) \<Rightarrow> (Some (Wrap ''dypnsapi SendSmsVerifyCode'' e), w)
      | (Inr resp, w) \<Rightarrow>
          (if vp_Code resp \<noteq> ''OK'' \<or> \<not> vp_Success resp then
             (Some (Plain (''dypnsapi rejected: code='' @ vp_Code resp @ '' message='' @ vp_Message resp)), w)
           else (None, w)))"

definition NewSender :: "SMSConfig \<Rightarrow> 'w dypns \<Rightarrow> error \<Rightarrow> 'w smsSender result" where
  "NewSender cfg client clientErr =
     (if sms_Provider cfg = ''mock'' \<or> sms_Provider cfg = [] then ok MockSender_SendCode
      else if sms_Provider cfg = ''aliyun'' then
        (case NewAliyunSender cfg clientErr of
           Inl e \<Rightarrow> err e
         | Inr s \<Rightarrow> ok (AliyunSender_SendCode client s))
      else err (Plain (''unknown sms provider: '' @ sms_Provider cfg)))"

text \<open>A code is announced for at least as long as it is valid, by less than a minute more.\<close>

lemma ceil_minutes_bounds:
  "ms \<le> minute_ms * ceil_minutes ms" "minute_ms * ceil_minutes ms < ms + minute_ms"
  using div_mult_mod_eq [of "- ms" minute_ms] pos_mod_bound [of minute_ms "- ms"] pos_mod_sign [of minute_ms "- ms"]
  unfolding ceil_minutes_def by linarith+

lemma aliyun_minutes:
  assumes "NewAliyunSender cfg e = Inr s" "0 < sms_CodeTTL cfg"
  shows "sms_CodeTTL cfg \<le> minute_ms * as_validMinutes s" "minute_ms * as_validMinutes s < sms_CodeTTL cfg + minute_ms"
    "1 \<le> as_validSeconds s"
  using assms ceil_minutes_bounds [of "sms_CodeTTL cfg"]
  by (auto simp: NewAliyunSender_def Let_def split: option.splits if_splits)

end
