(* ===== verification/UserService.thy ===== *)
theory UserService
  imports FollowRepository Caches Crypto Jwt Oss Sms
begin

text \<open>
  internal/service/user_service.go with the wire types of internal/model/dto/user.go and the
  interface of pkg/sms: verification codes, login with automatic registration, tokens, profiles.
  Its primitives outside the repository (the cipher, SHA-256, the Unicode tables, the token
  library, the SMS gateway) are parameters.
\<close>

section \<open>Types\<close>

record primitives =
  prim_aead :: aead
  prim_sha256 :: "string \<Rightarrow> string"
  prim_lower :: "string \<Rightarrow> string"
  prim_jwt :: jwtlib

record EncryptionConfig =
  enc_PhoneKey :: string
  enc_PhonePepper :: string

record RatelimitConfig =
  rl_SMSPhoneWindow :: int
  rl_SMSPerPhonePerDay :: int
  rl_SMSPerIPPerDay :: int

record SendCodeResp =
  sc_ExpiresIn :: int

record TokenPair =
  tp_AccessToken :: string
  tp_RefreshToken :: string
  tp_AccessTokenExpiresAt :: int
  tp_TokenType :: string

record UserPublicResp =
  pu_ID :: int
  pu_Nickname :: string
  pu_AvatarURL :: string
  pu_Bio :: string
  pu_PostCount :: int
  pu_TotalLikes :: int
  pu_FollowerCount :: int
  pu_FollowingCount :: int
  pu_CreatedAt :: int
  pu_IsFollowing :: bool

record LoginResp =
  lg_TokenPair :: TokenPair
  lg_User :: UserPublicResp

record UserPrivateResp =
  pv_Public :: UserPublicResp
  pv_PhoneMasked :: string

record UpdateProfileReq =
  up_Nickname :: "string option"
  up_AvatarURL :: "string option"
  up_Bio :: "string option"

text \<open>The follow repository is optional.\<close>

record 'w UserService =
  uss_repo :: "'w UserRepository"
  uss_followRepo :: "'w FollowRepository option"
  uss_userCache :: "'w UserCache"
  uss_writeMarker :: "'w WriteMarker"
  uss_jwtMgr :: Manager
  uss_smsSender :: "'w smsSender"
  uss_smsCfg :: SMSConfig
  uss_ossCfg :: OSSConfig
  uss_encCfg :: EncryptionConfig
  uss_rlCfg :: RatelimitConfig

definition NewUserService ::
  "'w UserRepository \<Rightarrow> 'w FollowRepository option \<Rightarrow> 'w UserCache \<Rightarrow> 'w WriteMarker \<Rightarrow> Manager
     \<Rightarrow> 'w smsSender \<Rightarrow> SMSConfig \<Rightarrow> OSSConfig \<Rightarrow> EncryptionConfig \<Rightarrow> RatelimitConfig \<Rightarrow> 'w UserService" where
  "NewUserService repo followRepo userCache writeMarker jwtMgr smsSender smsCfg ossCfg encCfg rlCfg =
     \<lparr>uss_repo = repo, uss_followRepo = followRepo, uss_userCache = userCache,
      uss_writeMarker = writeMarker, uss_jwtMgr = jwtMgr, uss_smsSender = smsSender,
      uss_smsCfg = smsCfg, uss_ossCfg = ossCfg, uss_encCfg = encCfg, uss_rlCfg = rlCfg\<rparr>"

section \<open>Helpers\<close>

definition hashPhone :: "primitives \<Rightarrow> 'w UserService \<Rightarrow> string \<Rightarrow> string" where
  "hashPhone pr s phone = HashPhone (prim_sha256 pr) phone (enc_PhonePepper (uss_encCfg s))"

definition hashIP :: "primitives \<Rightarrow> string \<Rightarrow> string" where
  "hashIP pr ip = hex_EncodeToString (prim_sha256 pr ip)"

text \<open>One random digit after the other; rand.Int draws below 10.\<close>

fun numeric_code :: "'w runtime \<Rightarrow> nat \<Rightarrow> 'w \<Rightarrow> string result \<times> 'w" where
  "numeric_code rt 0 w = (ok [], w)"
| "numeric_code rt (Suc n) w =
     (case rt_randInt rt 10 w of
        (Inl e, w) \<Rightarrow> (err e, w)
      | (Inr d, w) \<Rightarrow>
          (case numeric_code rt n w of
             (Inl e, w) \<Rightarrow> (err e, w)
           | (Inr ds, w) \<Rightarrow> (ok (digit_char (nat d) # ds), w)))"

definition generateNumericCode :: "'w runtime \<Rightarrow> int \<Rightarrow> 'w \<Rightarrow> string result \<times> 'w" where
  "generateNumericCode rt len w = numeric_code rt (nat len) w"

text \<open>The default nickname: the two characters of its prefix in UTF-8, then the last four digits.\<close>

definition nickname_prefix :: string where
  "nickname_prefix = utf8 [229, 142, 168, 229, 143, 139]"

definition defaultNickname :: "string \<Rightarrow> string" where
  "defaultNickname phone =
     (if length phone < 4 then nickname_prefix
      else nickname_prefix @ drop (length phone - 4) phone)"

definition toPublicResp :: "User \<Rightarrow> UserPublicResp" where
  "toPublicResp u =
     \<lparr>pu_ID = u_ID u, pu_Nickname = u_Nickname u, pu_AvatarURL = u_AvatarURL u, pu_Bio = u_Bio u,
      pu_PostCount = u_PostCount u, pu_TotalLikes = u_TotalLikes u, pu_FollowerCount = u_FollowerCount u,
      pu_FollowingCount = u_FollowingCount u, pu_CreatedAt = u_CreatedAt u, pu_IsFollowing = False\<rparr>"

definition issueTokenPair ::
  "primitives \<Rightarrow> 'w runtime \<Rightarrow> 'w UserService \<Rightarrow> int \<Rightarrow> 'w \<Rightarrow> TokenPair result \<times> 'w" where
  "issueTokenPair pr rt s userID w =
     (case IssueAccessToken (prim_jwt pr) rt (uss_jwtMgr s) userID w of
        (Inl e, w) \<Rightarrow> (err e, w)
      | (Inr (access, j1, accessExp), w) \<Rightarrow>
          (case IssueRefreshToken (prim_jwt pr) rt (uss_jwtMgr s) userID w of
             (Inl e, w) \<Rightarrow> (err e, w)
           | (Inr (refresh, j2, refreshExp), w) \<Rightarrow>
               (ok \<lparr>tp_AccessToken = access, tp_RefreshToken = refresh,
                    tp_AccessTokenExpiresAt = accessExp, tp_TokenType = ''Bearer''\<rparr>, w)))"

section \<open>Codes\<close>

definition UserService_SendCode ::
  "primitives \<Rightarrow> 'w runtime \<Rightarrow> 'w UserService \<Rightarrow> ctx \<Rightarrow> string \<Rightarrow> string \<Rightarrow> 'w \<Rightarrow> SendCodeResp result \<times> 'w" where
  "UserService_SendCode pr rt s c phone clientIP w =
     (let phoneHash = hashPhone pr s phone; ipHash = hashIP pr clientIP in
      case CheckAndConsumeSMSWindow (uss_userCache s) phoneHash (rl_SMSPhoneWindow (uss_rlCfg s)) w of
        (Inl e, w) \<Rightarrow> (err (Wrap ''sms window check'' e), w)
      | (Inr (False, _), w) \<Rightarrow> (err (App ErrSMSWindow), w)
      | (Inr (True, _), w) \<Rightarrow>
     (case IncrementAndCheckSMSPhoneDaily (uss_userCache s) phoneHash (rl_SMSPerPhonePerDay (uss_rlCfg s)) w of
        (Inl e, w) \<Rightarrow> (err (Wrap ''sms phone daily check'' e), w)
      | (Inr False, w) \<Rightarrow> (err (App ErrSMSDailyPhone), w)
      | (Inr True, w) \<Rightarrow>
     (case IncrementAndCheckSMSIPDaily (uss_userCache s) ipHash (rl_SMSPerIPPerDay (uss_rlCfg s)) w of
        (Inl e, w) \<Rightarrow> (err (Wrap ''sms ip daily check'' e), w)
      | (Inr False, w) \<Rightarrow> (err (App ErrSMSDailyIP), w)
      | (Inr True, w) \<Rightarrow>
     (case generateNumericCode rt (sms_CodeLength (uss_smsCfg s)) w of
        (Inl e, w) \<Rightarrow> (err (Wrap ''generate code'' e), w)
      | (Inr code, w) \<Rightarrow>
     (case SaveSMSCode (uss_userCache s) phoneHash code (sms_CodeTTL (uss_smsCfg s)) w of
        (Some e, w) \<Rightarrow> (err (Wrap ''save sms code'' e), w)
      | (None, w) \<Rightarrow>
     (case uss_smsSender s c phone code w of
        (Some e, w) \<Rightarrow>
          (let (_, w) = DeleteSMSCode (uss_userCache s) phoneHash w
           in (err (Wrap ''send sms'' e), w))
      | (None, w) \<Rightarrow> (ok \<lparr>sc_ExpiresIn = seconds_of (sms_CodeTTL (uss_smsCfg s))\<rparr>, w)))))))"

section \<open>Login\<close>

text \<open>The user of the phone, registered on the first login.\<close>

definition new_user :: "string \<Rightarrow> string \<Rightarrow> string \<Rightarrow> int \<Rightarrow> User" where
  "new_user phoneHash encrypted phone now =
     zero_User\<lparr>u_PhoneHash := phoneHash, u_PhoneEncrypted := encrypted,
               u_Nickname := defaultNickname phone, u_CreatedAt := now, u_UpdatedAt := now\<rparr>"

definition find_or_register ::
  "primitives \<Rightarrow> 'w runtime \<Rightarrow> 'w UserService \<Rightarrow> ctx \<Rightarrow> string \<Rightarrow> string \<Rightarrow> 'w \<Rightarrow> User result \<times> 'w" where
  "find_or_register pr rt s c phone phoneHash w =
     (case ur_FindByPhoneHash (uss_repo s) c phoneHash w of
        (Inr user, w) \<Rightarrow> (ok user, w)
      | (Inl e, w) \<Rightarrow>
          (if \<not> errors_is e repo_ErrUserNotFound then (err (Wrap ''find user'' e), w)
           else
             (case EncryptPhone (prim_aead pr) rt phone (enc_PhoneKey (uss_encCfg s)) w of
                (Inl e, w) \<Rightarrow>
                  (err (if errors_is e ErrEmptyKey then App ErrPhoneKeyMissing else App ErrEncryptPhone), w)
              | (Inr encrypted, w) \<Rightarrow>
                  (let (now, w) = rt_now rt w in
                   case ur_Create (uss_repo s) c (new_user phoneHash encrypted phone now) w of
                     (Inl e, w) \<Rightarrow> (err (Wrap ''create user'' e), w)
                   | (Inr user, w) \<Rightarrow> (ok user, w)))))"

definition UserService_Login ::
  "primitives \<Rightarrow> 'w runtime \<Rightarrow> 'w UserService \<Rightarrow> ctx \<Rightarrow> string \<Rightarrow> string \<Rightarrow> 'w \<Rightarrow> LoginResp result \<times> 'w" where
  "UserService_Login pr rt s c phone code w =
     (let phoneHash = hashPhone pr s phone in
      case GetSMSCode (uss_userCache s) phoneHash w of
        (Inl e, w) \<Rightarrow>
          (err (if errors_is e ErrCacheNotFound then App ErrCodeNotFound else Wrap ''get sms code'' e), w)
      | (Inr storedCode, w) \<Rightarrow>
          (if storedCode \<noteq> code then (err (App ErrCodeMismatch), w)
           else
             (let (_, w) = DeleteSMSCode (uss_userCache s) phoneHash w in
              case find_or_register pr rt s c phone phoneHash w of
                (Inl e, w) \<Rightarrow> (err e, w)
              | (Inr user, w) \<Rightarrow>
                  (if IsBanned user then (err (App ErrUserBanned), w)
                   else
                     (case issueTokenPair pr rt s (u_ID user) w of
                        (Inl e, w) \<Rightarrow> (err (Wrap ''issue tokens'' e), w)
                      | (Inr pair, w) \<Rightarrow>
                          (ok \<lparr>lg_TokenPair = pair, lg_User = toPublicResp user\<rparr>, w))))))"

section \<open>Tokens\<close>

definition token_error :: "goerr \<Rightarrow> goerr" where
  "token_error e = (if errors_is e jwt_ErrTokenExpired then App ErrTokenExpired else App ErrTokenInvalid)"

definition UserService_Refresh ::
  "primitives \<Rightarrow> 'w runtime \<Rightarrow> 'w UserService \<Rightarrow> ctx \<Rightarrow> string \<Rightarrow> 'w \<Rightarrow> TokenPair result \<times> 'w" where
  "UserService_Refresh pr rt s c refreshToken w =
     (case Manager_Parse (prim_jwt pr) rt (uss_jwtMgr s) refreshToken w of
        (Inl e, w) \<Rightarrow> (err (token_error e), w)
      | (Inr claims, w) \<Rightarrow>
          (case ur_FindByID (uss_repo s) c (cl_UserID claims) w of
             (Inl e, w) \<Rightarrow>
               (err (if errors_is e repo_ErrUserNotFound then App ErrUserNotFound else Wrap ''find user'' e), w)
           | (Inr user, w) \<Rightarrow>
               (if IsBanned user then (err (App ErrUserBanned), w)
                else
                  (case issueTokenPair pr rt s (cl_UserID claims) w of
                     (Inl e, w) \<Rightarrow> (err (Wrap ''issue tokens'' e), w)
                   | (Inr pair, w) \<Rightarrow> (ok pair, w)))))"

text \<open>
  A token without an expiry would make Logout dereference a nil pointer; the tokens of the
  manager always carry one.
\<close>

abbreviation nil_panic :: goerr where
  "nil_panic \<equiv> Plain ''runtime error: invalid memory address or nil pointer dereference''"

definition UserService_Logout ::
  "primitives \<Rightarrow> 'w runtime \<Rightarrow> 'w UserService \<Rightarrow> ctx \<Rightarrow> string \<Rightarrow> 'w \<Rightarrow> error \<times> 'w" where
  "UserService_Logout pr rt s c accessToken w =
     (case Manager_Parse (prim_jwt pr) rt (uss_jwtMgr s) accessToken w of
        (Inl e, w) \<Rightarrow> (None, w)
      | (Inr claims, w) \<Rightarrow>
          (case cl_ExpiresAt claims of
             None \<Rightarrow> (Some nil_panic, w)
           | Some expires \<Rightarrow>
               (let (now, w) = rt_now rt w;
                    remaining = expires - now
                in if remaining \<le> 0 then (None, w)
                   else
                     (case BlacklistJWT (uss_userCache s) (cl_JTI claims) remaining w of
                        (Some e, w) \<Rightarrow> (Some (Wrap ''blacklist jti'' e), w)
                      | (None, w) \<Rightarrow> (None, w)))))"

definition UserService_VerifyAccessToken ::
  "primitives \<Rightarrow> 'w runtime \<Rightarrow> 'w UserService \<Rightarrow> ctx \<Rightarrow> string \<Rightarrow> 'w \<Rightarrow> (int \<times> string) result \<times> 'w" where
  "UserService_VerifyAccessToken pr rt s c token w =
     (case Manager_Parse (prim_jwt pr) rt (uss_jwtMgr s) token w of
        (Inl e, w) \<Rightarrow> (err (token_error e), w)
      | (Inr claims, w) \<Rightarrow>
          (let (blacklisted, w) = IsJWTBlacklisted (uss_userCache s) (cl_JTI claims) w in
           if blacklisted = Inr True then (err (App ErrTokenInvalid), w)
           else
             (let (banned, w) = IsUserBanned (uss_userCache s) (cl_UserID claims) w in
              if banned = Inr True then (err (App ErrUserBanned), w)
              else (ok (cl_UserID claims, cl_JTI claims), w))))"

section \<open>Profiles\<close>

definition UserService_GetMyProfile ::
  "primitives \<Rightarrow> 'w UserService \<Rightarrow> ctx \<Rightarrow> int \<Rightarrow> 'w \<Rightarrow> UserPrivateResp result \<times> 'w" where
  "UserService_GetMyProfile pr s c userID w =
     (let (recent, w) = WriteMarker_Has (uss_writeMarker s) userID w;
          c = (if recent then WithForceMaster c else c)
      in case ur_FindByID (uss_repo s) c userID w of
           (Inl e, w) \<Rightarrow>
             (err (if errors_is e repo_ErrUserNotFound then App ErrUserNotFound else Wrap ''find user'' e), w)
         | (Inr user, w) \<Rightarrow>
             (let plain = (case DecryptPhone (prim_aead pr) (u_PhoneEncrypted user) (enc_PhoneKey (uss_encCfg s)) of
                             Inl e \<Rightarrow> [] | Inr p \<Rightarrow> p)
              in (ok \<lparr>pv_Public = toPublicResp user, pv_PhoneMasked = MaskPhone plain\<rparr>, w)))"

definition UserService_GetPublicProfile ::
  "'w UserService \<Rightarrow> ctx \<Rightarrow> int \<Rightarrow> int \<Rightarrow> 'w \<Rightarrow> UserPublicResp result \<times> 'w" where
  "UserService_GetPublicProfile s c viewerID userID w =
     (case ur_FindByID (uss_repo s) c userID w of
        (Inl e, w) \<Rightarrow>
          (err (if errors_is e repo_ErrUserNotFound then App ErrUserNotFound else Wrap ''find user'' e), w)
      | (Inr user, w) \<Rightarrow>
          (case uss_followRepo s of
             None \<Rightarrow> (ok (toPublicResp user), w)
           | Some follows \<Rightarrow>
               (if viewerID > 0 \<and> viewerID \<noteq> userID then
                  (case fo_Exists follows c viewerID userID w of
                     (Inl e, w) \<Rightarrow> (ok (toPublicResp user), w)
                   | (Inr following, w) \<Rightarrow> (ok ((toPublicResp user)\<lparr>pu_IsFollowing := following\<rparr>), w))
                else (ok (toPublicResp user), w))))"

text \<open>The map of the columns to write, or the first check that fails.\<close>

definition profile_updates :: "primitives \<Rightarrow> 'w UserService \<Rightarrow> UpdateProfileReq \<Rightarrow> (string \<times> string) list result" where
  "profile_updates pr s req =
     (case (case up_Nickname req of
              None \<Rightarrow> ok []
            | Some n \<Rightarrow>
                (let nickname = TrimSpace n
                 in if nickname = [] then err (App ErrNicknameInvalid) else ok [(''nickname'', nickname)])) of
        Inl e \<Rightarrow> err e
      | Inr upds \<Rightarrow>
          (let upds = (case up_Bio req of None \<Rightarrow> upds | Some b \<Rightarrow> upds @ [(''bio'', TrimSpace b)])
           in case up_AvatarURL req of
                None \<Rightarrow> ok upds
              | Some a \<Rightarrow>
                  (let avatarURL = TrimSpace a
                   in if \<not> IsAllowedURL (prim_lower pr) avatarURL (oss_URLPrefix (uss_ossCfg s))
                      then err (App ErrUploadURLNotAllowed)
                      else ok (upds @ [(''avatar_url'', avatarURL)]))))"

definition UserService_UpdateProfile ::
  "primitives \<Rightarrow> 'w UserService \<Rightarrow> ctx \<Rightarrow> int \<Rightarrow> UpdateProfileReq \<Rightarrow> 'w \<Rightarrow> error \<times> 'w" where
  "UserService_UpdateProfile pr s c userID req w =
     (case profile_updates pr s req of
        Inl e \<Rightarrow> (Some e, w)
      | Inr upds \<Rightarrow>
          (if upds = [] then (None, w)
           else
             (case ur_UpdateProfile (uss_repo s) c userID upds w of
                (Some e, w) \<Rightarrow> (Some (Wrap ''update profile'' e), w)
              | (None, w) \<Rightarrow>
                  (let w = WriteMarker_Mark (uss_writeMarker s) userID w;
                       (_, w) = DeleteUserInfo (uss_userCache s) userID w
                   in (None, w)))))"

end
