(* ===== verification/Middleware.thy ===== *)
theory Middleware
  imports UserService
begin

text \<open>
  internal/middleware: the gin context as far as the source reads and writes it, handlers and
  middlewares over it (a middleware takes the rest of the chain), and the authentication, rate
  limit, CORS, security, request id and recovery middlewares.  The access log and the metrics
  middleware only observe; they are in AccessLog.
\<close>

section \<open>The context of a request\<close>

text \<open>
  The request (method, headers, client address, path parameters, query, JSON body), the values
  the middlewares set, the response headers in the order they were set, and the answer.
\<close>

record 'd gin =
  gc_Method :: string
  gc_Header :: "string \<Rightarrow> string"
  gc_ClientIP :: string
  gc_Param :: "string \<Rightarrow> string"
  gc_Query :: "string \<Rightarrow> string"
  gc_Body :: "json option"
  gc_userID :: "int option"
  gc_jti :: "string option"
  gc_requestID :: string
  gc_out :: "(string \<times> string) list"
  gc_status :: "int option"
  gc_json :: "'d Response option"

type_synonym ('d, 'w) handler = "'d gin \<Rightarrow> 'w \<Rightarrow> 'd gin \<times> 'w"
type_synonym ('d, 'w) middleware = "('d, 'w) handler \<Rightarrow> ('d, 'w) handler"

definition set_header :: "string \<Rightarrow> string \<Rightarrow> 'd gin \<Rightarrow> 'd gin" where
  "set_header k v c = c\<lparr>gc_out := gc_out c @ [(k, v)]\<rparr>"

definition respond :: "'d Response \<Rightarrow> 'd gin \<Rightarrow> 'd gin" where
  "respond r c = c\<lparr>gc_status := Some (r_status r), gc_json := Some r\<rparr>"

definition respond_error :: "error \<Rightarrow> 'd gin \<Rightarrow> 'd gin" where
  "respond_error e c = respond (FromError (gc_requestID c) e) c"

definition chain :: "('d, 'w) middleware list \<Rightarrow> ('d, 'w) handler \<Rightarrow> ('d, 'w) handler" where
  "chain ms h = foldr (\<lambda>m f. m f) ms h"

section \<open>Authentication\<close>

text \<open>equalFold: ASCII letters only.\<close>

fun equalFold :: "string \<Rightarrow> string \<Rightarrow> bool" where
  "equalFold [] [] = True"
| "equalFold (a # as) (b # bs) = (if ascii_lower a \<noteq> ascii_lower b then False else equalFold as bs)"
| "equalFold _ _ = False"

definition extractBearerToken :: "string \<Rightarrow> string result" where
  "extractBearerToken header =
     (let prefix = ''Bearer '' in
      if length header \<le> length prefix then err (Plain ''missing bearer token'')
      else if \<not> equalFold (take (length prefix) header) prefix then err (Plain ''invalid auth scheme'')
      else ok (drop (length prefix) header))"

type_synonym 'w token_verifier = "string \<Rightarrow> 'w \<Rightarrow> (int \<times> string) result \<times> 'w"

definition Auth :: "'w token_verifier \<Rightarrow> ('d, 'w) middleware" where
  "Auth v nxt c w =
     (case extractBearerToken (gc_Header c ''Authorization'') of
        Inl e \<Rightarrow> (respond (Unauthorized (gc_requestID c) ErrUnauthorized) c, w)
      | Inr token \<Rightarrow>
          (case v token w of
             (Inl e, w) \<Rightarrow>
               (case errors_as e of
                  Some a \<Rightarrow> (respond_error (Some (App a)) c, w)
                | None \<Rightarrow> (respond (Unauthorized (gc_requestID c) ErrUnauthorized) c, w))
           | (Inr (uid, jti), w) \<Rightarrow> nxt (c\<lparr>gc_userID := Some uid, gc_jti := Some jti\<rparr>) w))"

definition OptionalAuth :: "'w token_verifier \<Rightarrow> ('d, 'w) middleware" where
  "OptionalAuth v nxt c w =
     (case extractBearerToken (gc_Header c ''Authorization'') of
        Inl e \<Rightarrow> nxt c w
      | Inr token \<Rightarrow>
          (case v token w of
             (Inl e, w) \<Rightarrow> nxt c w
           | (Inr (uid, jti), w) \<Rightarrow> nxt (c\<lparr>gc_userID := Some uid, gc_jti := Some jti\<rparr>) w))"

definition GetUserID :: "'d gin \<Rightarrow> int" where
  "GetUserID c = (case gc_userID c of None \<Rightarrow> 0 | Some uid \<Rightarrow> uid)"

definition GetJTI :: "'d gin \<Rightarrow> string" where
  "GetJTI c = (case gc_jti c of None \<Rightarrow> [] | Some jti \<Rightarrow> jti)"

section \<open>Rate limits\<close>

text \<open>
  The sliding window: one member per request in a sorted set, scored and named by its
  millisecond.
\<close>

definition int_val :: "rreply \<Rightarrow> int" where
  "int_val r = (case int_cmd r of Inl e \<Rightarrow> 0 | Inr n \<Rightarrow> n)"

text \<open>The flag and the error that are returned together.\<close>

definition slidingWindowAllow ::
  "'w runtime \<Rightarrow> 'w rdb \<Rightarrow> string \<Rightarrow> int \<Rightarrow> int \<Rightarrow> 'w \<Rightarrow> (bool \<times> error) \<times> 'w" where
  "slidingWindowAllow rt rdb key limit win w =
     (let (now, w) = rt_now rt w;
          windowStart = now - win;
          (rs, w) = pipe_exec rdb [ZREMRANGEBYSCORE key 0 windowStart, ZCARD key] w
      in case first_error rs of
           Some e \<Rightarrow> ((False, Some e), w)
         | None \<Rightarrow>
             (if int_val (rs ! 1) \<ge> limit then ((False, None), w)
              else
                (let (rs, w) = pipe_exec rdb [ZADD key now (FormatInt now), EXPIRE key (win + second_ms)] w
                 in case first_error rs of
                      Some e \<Rightarrow> ((True, Some e), w)
                    | None \<Rightarrow> ((True, None), w))))"

record ('d, 'w) RateLimitConfig =
  rlc_RDB :: "'w rdb"
  rlc_KeyFunc :: "'d gin \<Rightarrow> string"
  rlc_Limit :: int
  rlc_Window :: int

definition RateLimit :: "'w runtime \<Rightarrow> ('d, 'w) RateLimitConfig \<Rightarrow> ('d, 'w) middleware" where
  "RateLimit rt cfg nxt c w =
     (let key = rlc_KeyFunc cfg c in
      if key = [] then nxt c w
      else
        (let ((allowed, e), w) = slidingWindowAllow rt (rlc_RDB cfg) key (rlc_Limit cfg) (rlc_Window cfg) w in
         if e \<noteq> None then nxt c w
         else if \<not> allowed then (respond_error (Some (App ErrTooManyReq)) c, w)
         else nxt c w))"

definition PerUserKey :: "string \<Rightarrow> 'd gin \<Rightarrow> string" where
  "PerUserKey prefix c =
     (let uid = GetUserID c in if uid = 0 then [] else prefix @ '':'' @ FormatInt uid)"

definition PerIPKey :: "string \<Rightarrow> 'd gin \<Rightarrow> string" where
  "PerIPKey prefix c = prefix @ '':'' @ gc_ClientIP c"

section \<open>Headers\<close>

record CORSConfig =
  cors_AllowedOrigins :: "string list"
  cors_AllowedMethods :: "string list"
  cors_AllowedHeaders :: "string list"
  cors_ExposeHeaders :: "string list"

definition cors_origin :: "CORSConfig \<Rightarrow> string \<Rightarrow> 'd gin \<Rightarrow> 'd gin" where
  "cors_origin cfg origin c =
     (if cors_AllowedOrigins cfg = [''*''] then set_header ''Access-Control-Allow-Origin'' ''*'' c
      else if origin \<noteq> [] \<and> origin \<in> set (cors_AllowedOrigins cfg) then
        set_header ''Vary'' ''Origin'' (set_header ''Access-Control-Allow-Origin'' origin c)
      else c)"

definition header_if :: "string \<Rightarrow> string \<Rightarrow> 'd gin \<Rightarrow> 'd gin" where
  "header_if k v c = (if v \<noteq> [] then set_header k v c else c)"

definition CORS :: "CORSConfig \<Rightarrow> ('d, 'w) middleware" where
  "CORS cfg nxt c w =
     (let c = cors_origin cfg (gc_Header c ''Origin'') c;
          c = header_if ''Access-Control-Allow-Methods'' (Join (cors_AllowedMethods cfg) '', '') c;
          c = header_if ''Access-Control-Allow-Headers'' (Join (cors_AllowedHeaders cfg) '', '') c;
          c = header_if ''Access-Control-Expose-Headers'' (Join (cors_ExposeHeaders cfg) '', '') c
      in if gc_Method c = ''OPTIONS'' then (c\<lparr>gc_status := Some 204\<rparr>, w) else nxt c w)"

definition Security :: "('d, 'w) middleware" where
  "Security nxt c w =
     (let c = set_header ''X-Content-Type-Options'' ''nosniff'' c;
          c = set_header ''X-Frame-Options'' ''DENY'' c;
          c = set_header ''X-XSS-Protection'' ''1; mode=block'' c;
          c = set_header ''Referrer-Policy'' ''strict-origin-when-cross-origin'' c
      in nxt c w)"

definition requestIDKey :: string where "requestIDKey = ''X-Request-ID''"

definition RequestID :: "'w runtime \<Rightarrow> ('d, 'w) middleware" where
  "RequestID rt nxt c w =
     (let i = gc_Header c requestIDKey;
          (i, w) = (if i = [] then rt_uuid rt w else (i, w))
      in nxt (set_header requestIDKey i (c\<lparr>gc_requestID := i\<rparr>)) w)"

text \<open>A handler that may panic; Recovery answers for it.\<close>

definition Recovery :: "('d gin \<Rightarrow> 'w \<Rightarrow> ('d gin \<times> bool) \<times> 'w) \<Rightarrow> ('d, 'w) handler" where
  "Recovery nxt c w =
     (case nxt c w of
        ((c', False), w') \<Rightarrow> (c', w')
      | ((c', True), w') \<Rightarrow> (respond (ServerError (gc_requestID c')) c', w'))"

section \<open>Authentication lets only verified users through\<close>

lemma equalFold_iff: "equalFold as bs \<longleftrightarrow> map ascii_lower as = map ascii_lower bs"
  by (induction as bs rule: equalFold.induct) auto

lemma extract_ok:
  assumes "extractBearerToken h = Inr t"
  shows "\<exists>p. h = p @ t \<and> map ascii_lower p = ''bearer '' \<and> t \<noteq> []"
proof (intro exI conjI)
  have low: "map ascii_lower ''Bearer '' = ''bearer ''" by code_simp
  have "length h > 7" "equalFold (take 7 h) ''Bearer ''" "t = drop 7 h"
    using assms by (auto simp: extractBearerToken_def Let_def eval_nat_numeral split: if_splits)
  with low show "h = take 7 h @ t" "map ascii_lower (take 7 h) = ''bearer ''" "t \<noteq> []"
    by (auto simp: equalFold_iff eval_nat_numeral)
qed

end
