(* ===== verification/RateWindow.thy ===== *)
theory RateWindow
  imports Middleware
begin

text \<open>
  What the sliding window of the rate limiter promises: the runs of the limiter for one key, the
  invariant that the sorted set holds every allowed request of the current window, and the bound
  that follows.
\<close>

section \<open>The sliding window\<close>

definition window_ttl :: "int \<Rightarrow> int" where
  "window_ttl win = 1000 * formatSec (win + second_ms)"

lemma window_ttl_less: "0 \<le> win \<Longrightarrow> win < window_ttl win"
  by (auto simp: window_ttl_def formatSec_def)

text \<open>What the trim leaves.\<close>

definition trimmed :: "int \<Rightarrow> (string \<times> int) list \<Rightarrow> (string \<times> int) list" where
  "trimmed start Z = filter (\<lambda>p. \<not> (0 \<le> snd p \<and> snd p \<le> start)) Z"

context redis_server
begin

lemma pipe2:
  assumes "pipe_exec rdb [c1, c2] w = (rs, w')" "first_error rs = None"
  obtains r1 r2 w1 d1 d2 where "rs = [r1, r2]" "0 \<le> d1" "kv_step c1 (tick d1 (kv w)) = (r1, kv w1)"
    "0 \<le> d2" "kv_step c2 (tick d2 (kv w1)) = (r2, kv w')"
proof -
  obtain r1 w1 where 1: "rdb (Cmd c1) w = (r1, w1)" by fastforce
  obtain r2 w2 where 2: "rdb (Cmd c2) w1 = (r2, w2)" by fastforce
  have rs: "rs = [r1, r2]" "w' = w2" using assms(1) 1 2 by auto
  have ne: "\<And>m. r1 \<noteq> RError m" "\<And>m. r2 \<noteq> RError m" using assms(2) rs by (cases r1; cases r2; auto)+
  obtain d1 where d1: "0 \<le> d1" "exec (Cmd c1) (tick d1 (kv w)) = (r1, kv w1)" using redis_answered [OF 1 ne(1)] .
  obtain d2 where d2: "0 \<le> d2" "exec (Cmd c2) (tick d2 (kv w1)) = (r2, kv w2)" using redis_answered [OF 2 ne(2)] .
  from rs d1 d2 that show thesis by simp
qed

text \<open>Trimming and counting, then recording.\<close>

lemma trim_count:
  assumes "pipe_exec rdb [ZREMRANGEBYSCORE k 0 start, ZCARD k] w = (rs, w')" "first_error rs = None"
  shows "rs_now (kv w) \<le> rs_now (kv w')" "0 \<le> int_val (rs ! 1)"
    "rs_db (kv w) k = Some (VZSet Z, Some x) \<Longrightarrow> rs_now (kv w') < x \<Longrightarrow>
       int_val (rs ! 1) = int (length (trimmed start Z))
       \<and> (trimmed start Z \<noteq> [] \<longrightarrow> rs_db (kv w') k = Some (VZSet (trimmed start Z), Some x))"
proof -
  obtain r1 r2 w1 d1 d2 where p: "rs = [r1, r2]" "0 \<le> d1" "kv_step (ZREMRANGEBYSCORE k 0 start) (tick d1 (kv w)) = (r1, kv w1)"
    "0 \<le> d2" "kv_step (ZCARD k) (tick d2 (kv w1)) = (r2, kv w')"
    by (rule pipe2 [OF assms])
  have t: "rs_now (kv w1) = rs_now (kv w) + d1" "rs_now (kv w') = rs_now (kv w1) + d2"
    using now_exec [of "ZREMRANGEBYSCORE k 0 start" "tick d1 (kv w)"] now_exec [of "ZCARD k" "tick d2 (kv w1)"] p(3,5)
    by (simp_all add: tick_def)
  with p show "rs_now (kv w) \<le> rs_now (kv w')" by simp
  show "0 \<le> int_val (rs ! 1)" using p(1,5) assms(2) by (auto simp: int_val_def split: option.splits rval.splits)
  assume z: "rs_db (kv w) k = Some (VZSet Z, Some x)" "rs_now (kv w') < x"
  have g: "rget (tick d1 (kv w)) k = Some (VZSet Z)" "rdeadline (tick d1 (kv w)) k = Some x"
    using z t p(2,4) by (simp_all add: rget_def rdeadline_def tick_def)
  show "int_val (rs ! 1) = int (length (trimmed start Z))
       \<and> (trimmed start Z \<noteq> [] \<longrightarrow> rs_db (kv w') k = Some (VZSet (trimmed start Z), Some x))"
  proof (cases "trimmed start Z = []")
    case True
    then have "kv w1 = rdel k (tick d1 (kv w))" using p(3) g by (simp add: trimmed_def Let_def)
    then have "rget (tick d2 (kv w1)) k = None" by (simp add: rget_def rdel_def tick_def)
    with p(1,5) True show ?thesis by (auto simp: int_val_def)
  next
    case False
    then have w1: "kv w1 = rput k (VZSet (trimmed start Z)) (Some x) (tick d1 (kv w))"
      using p(3) g by (auto simp: trimmed_def Let_def)
    then have "rget (tick d2 (kv w1)) k = Some (VZSet (trimmed start Z))"
      using z(2) t by (simp add: rget_def rput_def tick_def)
    then have "r2 = RInt (int (length (trimmed start Z)))" "kv w' = tick d2 (kv w1)" using p(5) by auto
    with p(1) w1 show ?thesis by (simp add: int_val_def rput_def tick_def)
  qed
qed

lemma record_request:
  assumes "pipe_exec rdb [ZADD k now m, EXPIRE k (win + second_ms)] w = (rs, w')" "first_error rs = None"
  shows "rs_now (kv w) \<le> rs_now (kv w')"
    "rget (kv w') k \<noteq> None \<Longrightarrow> \<exists>Z. rs_db (kv w') k = Some (VZSet ((m, now) # Z), Some (rs_now (kv w') + window_ttl win))
       \<and> (\<forall>Y x. rs_db (kv w) k = Some (VZSet Y, Some x) \<longrightarrow> rs_now (kv w') < x \<longrightarrow> Z = filter (\<lambda>p. fst p \<noteq> m) Y)"
proof -
  obtain r1 r2 w1 d1 d2 where p: "rs = [r1, r2]" "0 \<le> d1" "kv_step (ZADD k now m) (tick d1 (kv w)) = (r1, kv w1)"
    "0 \<le> d2" "kv_step (EXPIRE k (win + second_ms)) (tick d2 (kv w1)) = (r2, kv w')"
    by (rule pipe2 [OF assms])
  have t: "rs_now (kv w1) = rs_now (kv w) + d1" "rs_now (kv w') = rs_now (kv w1) + d2"
    using now_exec [of "ZADD k now m" "tick d1 (kv w)"] now_exec [of "EXPIRE k (win + second_ms)" "tick d2 (kv w1)"] p(3,5)
    by (simp_all add: tick_def)
  with p show "rs_now (kv w) \<le> rs_now (kv w')" by simp
  assume there: "rget (kv w') k \<noteq> None"
  have ne: "\<And>e. r1 \<noteq> RError e" using assms(2) p(1) by (cases r1) auto
  obtain Z dl where w1: "kv w1 = rput k (VZSet ((m, now) # Z)) dl (tick d1 (kv w))"
      "\<forall>Y x. rs_db (kv w) k = Some (VZSet Y, Some x) \<longrightarrow> rs_now (kv w') < x \<longrightarrow> Z = filter (\<lambda>p. fst p \<noteq> m) Y"
  proof (cases "rget (tick d1 (kv w)) k")
    case None
    then have "kv w1 = rput k (VZSet [(m, now)]) None (tick d1 (kv w))" using p(3) by simp
    moreover have "\<not> rs_now (kv w') < x" if "rs_db (kv w) k = Some (v, Some x)" for v x
      using None that t p(4) by (auto simp: rget_def tick_def split: if_splits)
    ultimately show thesis using that by blast
  next
    case (Some v)
    then obtain Y where Y: "v = VZSet Y" "kv w1 = rput k (VZSet ((m, now) # filter (\<lambda>p. fst p \<noteq> m) Y)) (rdeadline (tick d1 (kv w)) k) (tick d1 (kv w))"
      using p(3) ne by (cases v) auto
    moreover have "Y = Y'" if "rs_db (kv w) k = Some (VZSet Y', x)" for Y' x
      using Some Y(1) that by (auto simp: rget_def tick_def split: if_splits)
    ultimately show thesis using that by blast
  qed
  have alive: "rget (tick d2 (kv w1)) k = Some (VZSet ((m, now) # Z)) \<or> rget (tick d2 (kv w1)) k = None"
    using w1(1) by (auto simp: rget_def rput_def tick_def)
  show "\<exists>Z. rs_db (kv w') k = Some (VZSet ((m, now) # Z), Some (rs_now (kv w') + window_ttl win))
       \<and> (\<forall>Y x. rs_db (kv w) k = Some (VZSet Y, Some x) \<longrightarrow> rs_now (kv w') < x \<longrightarrow> Z = filter (\<lambda>p. fst p \<noteq> m) Y)"
    using alive
  proof
    assume g: "rget (tick d2 (kv w1)) k = Some (VZSet ((m, now) # Z))"
    with p(5) have "kv w' = rput k (VZSet ((m, now) # Z)) (Some (rs_now (tick d2 (kv w1)) + 1000 * formatSec (win + second_ms))) (tick d2 (kv w1))"
      by simp
    then have "rs_db (kv w') k = Some (VZSet ((m, now) # Z), Some (rs_now (kv w') + window_ttl win))"
      by (simp add: rput_def tick_def window_ttl_def)
    with w1(2) show ?thesis by blast
  next
    assume "rget (tick d2 (kv w1)) k = None"
    with p(5) there show ?thesis by simp
  qed
qed

end

text \<open>
  A run of the limiter for one key, with the calls' local times, the Redis times at their end and
  their answers.  Between two calls anything may happen that leaves the key alone; an allowed
  request leaves the key behind (its EXPIRE did not come after the set had expired).
\<close>

inductive limiter_run ::
  "'w runtime \<Rightarrow> 'w rdb \<Rightarrow> ('w \<Rightarrow> rstate) \<Rightarrow> string \<Rightarrow> int \<Rightarrow> int \<Rightarrow> (int \<times> int \<times> bool) list \<Rightarrow> 'w \<Rightarrow> bool"
  for rt rdb kv key limit win where
  start: "limiter_run rt rdb kv key limit win [] w"
| request: "limiter_run rt rdb kv key limit win tr w1 \<Longrightarrow> rs_db (kv w2) key = rs_db (kv w1) key
    \<Longrightarrow> rs_now (kv w1) \<le> rs_now (kv w2) \<Longrightarrow> fst (rt_now rt w2) = t \<Longrightarrow> slidingWindowAllow rt rdb key limit win w2 = ((b, None), w3)
    \<Longrightarrow> (b \<Longrightarrow> rget (kv w3) key \<noteq> None) \<Longrightarrow> limiter_run rt rdb kv key limit win (tr @ [(t, rs_now (kv w3), b)]) w3"

text \<open>Local times do not decrease, and the Redis clock is not faster than the local one.\<close>

definition clocks_ok :: "(int \<times> int \<times> bool) list \<Rightarrow> bool" where
  "clocks_ok tr \<longleftrightarrow> sorted_wrt (\<lambda>(t, r, _) (t', r', _). t \<le> t' \<and> r' - r \<le> t' - t) tr"

definition allowed_at :: "(int \<times> int \<times> bool) list \<Rightarrow> int set" where
  "allowed_at tr = {t. \<exists>r. (t, r, True) \<in> set tr}"

lemma clocks_ok_append:
  "clocks_ok (tr @ [(t, r, b)]) \<longleftrightarrow> clocks_ok tr \<and> (\<forall>(t', r', b')\<in>set tr. t' \<le> t \<and> r - r' \<le> t - t')"
  by (auto simp: clocks_ok_def sorted_wrt_append)

lemma allowed_at_append:
  "allowed_at (tr @ [(t, r, b)]) = (if b then insert t (allowed_at tr) else allowed_at tr)"
  by (auto simp: allowed_at_def)

lemma finite_allowed: "finite (allowed_at tr)"
proof (rule finite_subset)
  show "allowed_at tr \<subseteq> fst ` set tr" by (force simp: allowed_at_def)
qed simp

text \<open>The requests allowed in the window that ends at a time.\<close>

definition in_window :: "int \<Rightarrow> (int \<times> int \<times> bool) list \<Rightarrow> int \<Rightarrow> int set" where
  "in_window win tr t = {a \<in> allowed_at tr. t - win < a \<and> a \<le> t}"

text \<open>
  As long as the window of a time holds an allowed request, the set is there, with a deadline
  past the window of every allowed request, and holds all of them.
\<close>

definition window_kept :: "int \<Rightarrow> string \<Rightarrow> (int \<times> int \<times> bool) list \<Rightarrow> int \<Rightarrow> rstate \<Rightarrow> bool" where
  "window_kept win key tr t s \<longleftrightarrow>
     (in_window win tr t \<noteq> {} \<longrightarrow>
        (\<exists>Z x. rs_db s key = Some (VZSet Z, Some x) \<and> (\<forall>(a, r, b)\<in>set tr. b \<longrightarrow> r + win < x)
           \<and> (\<forall>a\<in>in_window win tr t. (FormatInt a, a) \<in> set Z)))"

lemma window_kept_later:
  assumes "window_kept win key tr t s" "t \<le> t'" "\<forall>a\<in>allowed_at tr. a \<le> t"
  shows "window_kept win key tr t' s"
proof -
  have "in_window win tr t' \<subseteq> in_window win tr t" using assms(2,3) by (auto simp: in_window_def)
  with assms(1) show ?thesis unfolding window_kept_def by blast
qed

text \<open>
  What the pipeline that trims and counts leaves when the window holds an allowed request: the set,
  not yet expired at time r, with n members, among them the requests of the window.
\<close>

definition window_alive :: "int \<Rightarrow> string \<Rightarrow> (int \<times> int \<times> bool) list \<Rightarrow> int \<Rightarrow> int \<Rightarrow> int \<Rightarrow> rstate \<Rightarrow> bool" where
  "window_alive win key tr t r n s \<longleftrightarrow>
     (in_window win tr t \<noteq> {} \<longrightarrow>
        (\<exists>Z x. rs_db s key = Some (VZSet Z, Some x) \<and> r < x \<and> n = int (length Z)
           \<and> (\<forall>(a, q, y)\<in>set tr. y \<longrightarrow> q + win < x) \<and> (\<forall>a\<in>in_window win tr t. (FormatInt a, a) \<in> set Z)))"

lemma window_alive_card:
  assumes "window_alive win key tr t r n s" "0 \<le> n"
  shows "int (card (in_window win tr t)) \<le> n"
proof (cases "in_window win tr t = {}")
  case False
  with assms(1) obtain Z where Z: "n = int (length Z)" "\<forall>a\<in>in_window win tr t. (FormatInt a, a) \<in> set Z"
    unfolding window_alive_def by blast
  have "card (in_window win tr t) \<le> card (snd ` set Z)"
    using Z(2) by (intro card_mono) (force intro: rev_image_eqI)+
  also have "\<dots> \<le> length Z" by (metis card_image_le card_length finite_set order_trans)
  finally show ?thesis using Z(1) by simp
qed (use assms(2) in simp)

text \<open>A refused request leaves the set; an allowed one is put in front of what the window needs.\<close>

lemma window_kept_refused:
  "window_alive win key tr t r n s \<Longrightarrow> window_kept win key (tr @ [(t, r, False)]) t s"
proof -
  have "in_window win (tr @ [(t, r, False)]) t = in_window win tr t"
    by (simp add: in_window_def allowed_at_append)
  then show "window_alive win key tr t r n s \<Longrightarrow> window_kept win key (tr @ [(t, r, False)]) t s"
    unfolding window_alive_def window_kept_def by fastforce
qed

lemma window_kept_allowed:
  assumes alive: "window_alive win key tr t r n s"
    and Z: "rs_db s' key = Some (VZSet ((FormatInt t, t) # Z), Some x')"
      "\<forall>Y x. rs_db s key = Some (VZSet Y, Some x) \<longrightarrow> r < x \<longrightarrow> Z = filter (\<lambda>p. fst p \<noteq> FormatInt t) Y"
    and x': "\<forall>(a, q, y)\<in>set (tr @ [(t, r, True)]). q + win < x'"
  shows "window_kept win key (tr @ [(t, r, True)]) t s'"
proof -
  have "(FormatInt a, a) \<in> set ((FormatInt t, t) # Z)" if "a \<in> in_window win (tr @ [(t, r, True)]) t" for a
  proof (cases "a = t")
    case False
    then have a: "a \<in> in_window win tr t" using that by (auto simp: in_window_def allowed_at_append)
    then obtain Y x where Y: "rs_db s key = Some (VZSet Y, Some x)" "r < x" "(FormatInt a, a) \<in> set Y"
      using alive unfolding window_alive_def by blast
    have "FormatInt a \<noteq> FormatInt t" using False FormatInt_inj by blast
    with Z(2) Y show ?thesis by auto
  qed simp
  with Z(1) x' show ?thesis unfolding window_kept_def by blast
qed

lemma in_window_append_card: "card (in_window win (tr @ [(t, r, b)]) t) \<le> Suc (card (in_window win tr t))"
proof -
  have "in_window win (tr @ [(t, r, b)]) t \<subseteq> insert t (in_window win tr t)"
    by (auto simp: in_window_def allowed_at_append)
  moreover have "finite (in_window win tr t)" using finite_allowed [of tr] by (simp add: in_window_def)
  ultimately have "card (in_window win (tr @ [(t, r, b)]) t) \<le> card (insert t (in_window win tr t))"
    by (intro card_mono) simp_all
  also have "\<dots> \<le> Suc (card (in_window win tr t))" by (rule card_insert_le_m1) simp_all
  finally show ?thesis .
qed

context platform
begin

text \<open>The calls of one request: the count, and the record when it is below the limit.\<close>

lemma limiter_calls:
  assumes "slidingWindowAllow rt rdb key limit win w = ((b, None), w')" "fst (rt_now rt w) = t"
  obtains w0 e rs w1 rs2 where "0 \<le> e" "kv w0 = tick e (kv w)"
    "pipe_exec rdb [ZREMRANGEBYSCORE key 0 (t - win), ZCARD key] w0 = (rs, w1)" "first_error rs = None"
    "b \<longleftrightarrow> int_val (rs ! 1) < limit" "\<not> b \<longrightarrow> w' = w1"
    "b \<longrightarrow> pipe_exec rdb [ZADD key t (FormatInt t), EXPIRE key (win + second_ms)] w1 = (rs2, w') \<and> first_error rs2 = None"
proof -
  note found = that
  obtain w0 where now: "rt_now rt w = (t, w0)" using assms(2) by (metis prod.collapse)
  obtain e where e: "0 \<le> e" "kv w0 = tick e (kv w)" using now_frame [OF now] by (auto simp: idle_kv_def)
  obtain rs w1 where p1: "pipe_exec rdb [ZREMRANGEBYSCORE key 0 (t - win), ZCARD key] w0 = (rs, w1)" by fastforce
  have f1: "first_error rs = None" using assms(1) now p1 by (auto simp: slidingWindowAllow_def split: option.splits if_splits)
  have b: "b \<longleftrightarrow> int_val (rs ! 1) < limit" and w': "\<not> b \<Longrightarrow> w' = w1"
    using assms(1) now p1 f1 by (auto simp: slidingWindowAllow_def split: option.splits if_splits prod.splits)
  obtain rs2 where "b \<Longrightarrow> pipe_exec rdb [ZADD key t (FormatInt t), EXPIRE key (win + second_ms)] w1 = (rs2, w')"
      "b \<Longrightarrow> first_error rs2 = None"
    using assms(1) now p1 f1 b
    by (cases b) (auto simp: slidingWindowAllow_def split: option.splits if_splits prod.splits)
  with found e p1 f1 b w' show thesis by blast
qed

lemma limiter_alive:
  assumes p1: "pipe_exec rdb [ZREMRANGEBYSCORE key 0 (t - win), ZCARD key] w0 = (rs, w1)" "first_error rs = None"
    and e: "kv w0 = tick e (kv w)" and r: "rs_now (kv w1) \<le> r"
    and kept: "window_kept win key tr t (kv w)" "\<forall>(a, q, x)\<in>set tr. a \<le> t \<and> r - q \<le> t - a"
  shows "window_alive win key tr t r (int_val (rs ! 1)) (kv w1)"
  unfolding window_alive_def
proof (intro impI)
  assume ne: "in_window win tr t \<noteq> {}"
  obtain Z x where Z: "rs_db (kv w) key = Some (VZSet Z, Some x)" "\<forall>(a, q, y)\<in>set tr. y \<longrightarrow> q + win < x"
      "\<forall>a\<in>in_window win tr t. (FormatInt a, a) \<in> set Z"
    using kept(1) ne unfolding window_kept_def by blast
  obtain a q where a: "a \<in> in_window win tr t" "(a, q, True) \<in> set tr" "t - win < a"
    using ne by (auto simp: in_window_def allowed_at_def)
  have "r < x" using a Z(2) kept(2) by fastforce
  have "rs_db (kv w0) key = Some (VZSet Z, Some x)" using Z(1) e by (simp add: tick_def)
  note t1 = trim_count(3) [OF p1 this]
  have mem: "(FormatInt a, a) \<in> set (trimmed (t - win) Z)" if "a \<in> in_window win tr t" for a
    using Z(3) that by (auto simp: trimmed_def in_window_def)
  with a have "trimmed (t - win) Z \<noteq> []" by (metis emptyE empty_set)
  with t1 r \<open>r < x\<close> Z(2) mem show "\<exists>Z x. rs_db (kv w1) key = Some (VZSet Z, Some x) \<and> r < x \<and> int_val (rs ! 1) = int (length Z)
      \<and> (\<forall>(a, q, y)\<in>set tr. y \<longrightarrow> q + win < x) \<and> (\<forall>a\<in>in_window win tr t. (FormatInt a, a) \<in> set Z)"
    by (intro exI [of _ "trimmed (t - win) Z"] exI [of _ x]) auto
qed

text \<open>One request: counted against the window, recorded when it is allowed.\<close>

lemma limiter_step:
  assumes call: "slidingWindowAllow rt rdb key limit win w = ((b, None), w')" "fst (rt_now rt w) = t" "0 \<le> win"
    and there: "b \<Longrightarrow> rget (kv w') key \<noteq> None"
    and kept: "window_kept win key tr t (kv w)" "\<forall>(a, r, x)\<in>set tr. a \<le> t \<and> rs_now (kv w') - r \<le> t - a \<and> r \<le> rs_now (kv w)"
  shows "window_kept win key (tr @ [(t, rs_now (kv w'), b)]) t (kv w')"
    "b \<Longrightarrow> int (card (in_window win (tr @ [(t, rs_now (kv w'), b)]) t)) \<le> limit"
    "rs_now (kv w) \<le> rs_now (kv w')"
proof -
  let ?r = "rs_now (kv w')"
  obtain w0 e rs w1 rs2 where c: "0 \<le> e" "kv w0 = tick e (kv w)"
    "pipe_exec rdb [ZREMRANGEBYSCORE key 0 (t - win), ZCARD key] w0 = (rs, w1)" "first_error rs = None"
    "b \<longleftrightarrow> int_val (rs ! 1) < limit" "\<not> b \<longrightarrow> w' = w1"
    "b \<longrightarrow> pipe_exec rdb [ZADD key t (FormatInt t), EXPIRE key (win + second_ms)] w1 = (rs2, w') \<and> first_error rs2 = None"
    by (rule limiter_calls [OF call(1,2)])
  note t1 = trim_count [OF c(3,4)]
  have t2: "rs_now (kv w1) \<le> ?r" using c(6,7) record_request(1) [of key t "FormatInt t" win w1 rs2 w'] by (cases b) auto
  show mono: "rs_now (kv w) \<le> ?r" using t1(1) t2 c(1,2) by (simp add: tick_def)
  have "\<forall>(a, q, x)\<in>set tr. a \<le> t \<and> ?r - q \<le> t - a" using kept(2) by fast
  note alive = limiter_alive [OF c(3,4,2) t2 kept(1) this]
  show "window_kept win key (tr @ [(t, ?r, b)]) t (kv w')"
  proof (cases b)
    case False
    with window_kept_refused [OF alive] c(6) show ?thesis by simp
  next
    case True
    obtain Z where Z: "rs_db (kv w') key = Some (VZSet ((FormatInt t, t) # Z), Some (?r + window_ttl win))"
        "\<forall>Y x. rs_db (kv w1) key = Some (VZSet Y, Some x) \<longrightarrow> ?r < x \<longrightarrow> Z = filter (\<lambda>p. fst p \<noteq> FormatInt t) Y"
      using record_request(2) [OF conjunct1 [OF mp [OF c(7) True]] conjunct2 [OF mp [OF c(7) True]] there [OF True]] by blast
    have "\<forall>(a, q, y)\<in>set (tr @ [(t, ?r, True)]). q + win < ?r + window_ttl win"
      using kept(2) mono window_ttl_less [OF call(3)] by fastforce
    with window_kept_allowed [OF alive Z] True show ?thesis by simp
  qed
  show "int (card (in_window win (tr @ [(t, ?r, b)]) t)) \<le> limit" if b
    using window_alive_card [OF alive t1(2)] in_window_append_card [of win tr t ?r b] c(5) that by linarith
qed

lemma limiter_invariant:
  "limiter_run rt rdb kv key limit win tr w \<Longrightarrow> clocks_ok tr \<Longrightarrow> 0 \<le> win \<Longrightarrow>
     (\<forall>t. (\<forall>(a, r, b)\<in>set tr. a \<le> t) \<longrightarrow> window_kept win key tr t (kv w))
     \<and> (\<forall>(a, r, b)\<in>set tr. r \<le> rs_now (kv w))
     \<and> (\<forall>(a, r, b)\<in>set tr. b \<longrightarrow> int (card (in_window win tr a)) \<le> limit)"
proof (induction rule: limiter_run.induct)
  case (start w)
  then show ?case by (simp add: window_kept_def in_window_def allowed_at_def)
next
  case (request tr w1 w2 t b w3)
  let ?r = "rs_now (kv w3)"
  have ck: "clocks_ok tr" "\<forall>(t', r', b')\<in>set tr. t' \<le> t \<and> ?r - r' \<le> t - t'"
    using request.prems(1) by (simp_all add: clocks_ok_append)
  note ih = request.IH [OF ck(1) request.prems(2)]
  have le: "\<forall>(a, r, b)\<in>set tr. a \<le> t" using ck(2) by auto
  have "window_kept win key tr t (kv w1)" by (rule mp [OF spec [OF conjunct1 [OF ih]] le])
  then have k: "window_kept win key tr t (kv w2)" by (simp add: window_kept_def request.hyps(2))
  have past: "\<forall>(a, r, x)\<in>set tr. a \<le> t \<and> ?r - r \<le> t - a \<and> r \<le> rs_now (kv w2)"
    using ck(2) conjunct1 [OF conjunct2 [OF ih]] request.hyps(3) by (blast intro: order_trans)
  note st = limiter_step [OF request.hyps(5,4) request.prems(2) request.hyps(6) k past]
  have low: "in_window win (tr @ [(t, ?r, b)]) a = in_window win tr a" if "a < t \<or> \<not> b" for a
    using that by (auto simp: in_window_def allowed_at_append)
  have "\<forall>a\<in>allowed_at tr. a \<le> t" using le by (auto simp: allowed_at_def)
  then have "\<forall>a\<in>allowed_at (tr @ [(t, ?r, b)]). a \<le> t" by (simp add: allowed_at_append)
  then have "window_kept win key (tr @ [(t, ?r, b)]) t' (kv w3)" if "t \<le> t'" for t'
    by (intro window_kept_later [OF st(1) that])
  moreover have rs: "\<forall>(a, r, x)\<in>set (tr @ [(t, ?r, b)]). r \<le> ?r" using past st(3) by fastforce
  have bound: "int (card (in_window win (tr @ [(t, ?r, b)]) a)) \<le> limit"
    if m: "(a, r, True) \<in> set (tr @ [(t, ?r, b)])" for a r
  proof (cases "(a, r, True) \<in> set tr")
    case True
    then have "a \<le> t" "int (card (in_window win tr a)) \<le> limit"
      using past bspec [OF conjunct2 [OF conjunct2 [OF ih]] True] by auto
    with low [of a] st(2) show ?thesis by (cases "a < t \<or> \<not> b") simp_all
  next
    case False
    with m have "b" "a = t" by auto
    with st(2) show ?thesis by simp
  qed
  moreover have "\<forall>(a, r, x)\<in>set (tr @ [(t, ?r, b)]). x \<longrightarrow> int (card (in_window win (tr @ [(t, ?r, b)]) a)) \<le> limit"
    unfolding case_prod_beta using bound by (metis prod.collapse)
  ultimately show ?case using rs by auto
qed

end

section \<open>Properties\<close>

text \<open>
  C32: The sliding window holds for calls made one after the other.  The run is of one key: the calls do
  not overlap, their milliseconds do not decrease, the Redis clock is not faster than the local one, the
  pipelines answer, an allowed request leaves the key behind, and anything between two calls leaves the key
  alone.  Then, in the window that ends at an allowed request, that one included, allowed requests fall into
  at most limit milliseconds; so when no two requests share a millisecond, at most limit of them
  were allowed.  Neither bound is claimed for overlapping calls: a burst may pass the count
  together before one of them is recorded, which the code accepts, and requests of one millisecond count once.
\<close>
theorem ratelimit_window:
  fixes db :: "'w gorm"
  assumes "platform rdb kv db master replica pub sent rt" "0 \<le> win"
    and "limiter_run rt rdb kv key limit win tr w" "clocks_ok tr" "(t, r, True) \<in> set tr"
  shows "int (card (in_window win tr t)) \<le> limit
    \<and> (distinct (map fst tr) \<longrightarrow> int (length (filter (\<lambda>(a, q, b). b \<and> t - win < a \<and> a \<le> t) tr)) \<le> limit)"
proof -
  have c: "int (card (in_window win tr t)) \<le> limit"
    using platform.limiter_invariant [OF assms(1,3,4,2)] assms(5) by auto
  moreover have "length (filter (\<lambda>(a, q, b). b \<and> t - win < a \<and> a \<le> t) tr) \<le> card (in_window win tr t)"
    if "distinct (map fst tr)"
  proof -
    let ?as = "map fst (filter (\<lambda>(a, q, b). b \<and> t - win < a \<and> a \<le> t) tr)"
    have "set ?as \<subseteq> in_window win tr t" by (auto simp: in_window_def allowed_at_def)
    moreover have "finite (in_window win tr t)" using finite_allowed [of tr] by (simp add: in_window_def)
    ultimately have "card (set ?as) \<le> card (in_window win tr t)" by (intro card_mono)
    moreover have "distinct ?as" using that by (rule distinct_map_filter)
    ultimately show ?thesis using distinct_card [of ?as] by simp
  qed
  ultimately show ?thesis by auto
qed

lemma doc_limiter_request:
  "limiter_run doc_rt doc_rdb w_kv key limit win tr w1 \<Longrightarrow> w2 = w1\<lparr>w_clock := t, w_kv := tick d (w_kv w1)\<rparr> \<Longrightarrow> 0 \<le> d
   \<Longrightarrow> slidingWindowAllow doc_rt doc_rdb key limit win w2 = ((b, None), w3) \<Longrightarrow> rget (w_kv w3) key \<noteq> None
   \<Longrightarrow> rs_now (w_kv w3) = r \<Longrightarrow> limiter_run doc_rt doc_rdb w_kv key limit win (tr @ [(t, r, b)]) w3"
  using limiter_run.request [of doc_rt doc_rdb w_kv key limit win tr w1 w2 t b w3]
  by (simp add: doc_rt_def tick_def)

definition tiny_world :: world where
  "tiny_world = fresh_world 1"

theorem ratelimit_window_witness:
  "\<exists>w. limiter_run doc_rt doc_rdb w_kv ''k'' 1 5 [(1, 1, True), (2, 2, False), (9, 9, True)] w
     \<and> card (in_window 5 [(1, 1, True), (2, 2, False), (9, 9, True)] 9) \<le> 1
     \<and> length (filter (\<lambda>(a, q, b). b \<and> 9 - 5 < a \<and> a \<le> 9) [(1 :: int, 1 :: int, True), (2, 2, False), (9, 9, True)]) \<le> 1"
proof -
  let ?f = "slidingWindowAllow doc_rt doc_rdb ''k'' 1 5"
  define w0 where "w0 = tiny_world\<lparr>w_clock := 1, w_kv := tick 0 (w_kv tiny_world)\<rparr>"
  define w1 where "w1 = snd (?f w0)"
  define v1 where "v1 = w1\<lparr>w_clock := 2, w_kv := tick 1 (w_kv w1)\<rparr>"
  define w2 where "w2 = snd (?f v1)"
  define v2 where "v2 = w2\<lparr>w_clock := 9, w_kv := tick 7 (w_kv w2)\<rparr>"
  define w3 where "w3 = snd (?f v2)"
  note defs = w0_def w1_def v1_def w2_def v2_def w3_def
  have e1: "fst (?f w0) = (True, None)" "rget (w_kv w1) ''k'' \<noteq> None" "rs_now (w_kv w1) = 1"
    unfolding defs by code_simp+
  have e2: "fst (?f v1) = (False, None)" "rget (w_kv w2) ''k'' \<noteq> None" "rs_now (w_kv w2) = 2"
    unfolding defs by code_simp+
  have e3: "fst (?f v2) = (True, None)" "rget (w_kv w3) ''k'' \<noteq> None" "rs_now (w_kv w3) = 9"
    unfolding defs by code_simp+
  have f: "?f w0 = ((True, None), w1)" "?f v1 = ((False, None), w2)" "?f v2 = ((True, None), w3)"
    using e1(1) e2(1) e3(1) by (metis w1_def w2_def w3_def prod.collapse)+
  have 1: "limiter_run doc_rt doc_rdb w_kv ''k'' 1 5 ([] @ [(1, 1, True)]) w1"
    by (rule doc_limiter_request [OF limiter_run.start w0_def _ f(1) e1(2,3)]) simp
  have 2: "limiter_run doc_rt doc_rdb w_kv ''k'' 1 5 (([] @ [(1, 1, True)]) @ [(2, 2, False)]) w2"
    by (rule doc_limiter_request [OF 1 v1_def _ f(2) e2(2,3)]) simp
  have "limiter_run doc_rt doc_rdb w_kv ''k'' 1 5 ((([] @ [(1, 1, True)]) @ [(2, 2, False)]) @ [(9, 9, True)]) w3"
    by (rule doc_limiter_request [OF 2 v2_def _ f(3) e3(2,3)]) simp
  then have run: "limiter_run doc_rt doc_rdb w_kv ''k'' 1 5 [(1, 1, True), (2, 2, False), (9, 9, True)] w3" by simp
  from ratelimit_window [OF doc.platform_axioms _ run, of 9 9] run show ?thesis by (auto simp: clocks_ok_def)
qed

text \<open>
  Requests of one millisecond are one request.  The member of a request in the
  sorted set is its millisecond: with a limit of two or more, any number of requests that arrive
  in the same millisecond are all allowed.
\<close>
theorem ratelimit_same_millisecond:
  assumes "2 \<le> limit" "w_faults w = []" "rs_now (w_kv w) = w_clock w" "0 < win"
    and "rget (w_kv w) key = None"
  shows "fst (repeat_calls (slidingWindowAllow doc_rt doc_rdb key limit win) n w) = replicate n (True, None)"
proof -
  let ?t = "w_clock w"
  define good where "good v \<longleftrightarrow> w_faults v = [] \<and> rs_now (w_kv v) = ?t \<and> w_clock v = ?t
     \<and> (rget (w_kv v) key = None \<or> (\<exists>x. rs_db (w_kv v) key = Some (VZSet [(FormatInt ?t, ?t)], Some x) \<and> ?t < x))" for v :: world
  have step: "\<exists>v'. slidingWindowAllow doc_rt doc_rdb key limit win v = ((True, None), v') \<and> good v'" if "good v" for v
  proof -
    have v: "w_faults v = []" "rs_now (w_kv v) = ?t" "w_clock v = ?t" using that by (simp_all add: good_def)
    have call: "doc_rdb (Cmd c) u = (fst (kv_step c (w_kv u)), u\<lparr>w_kv := snd (kv_step c (w_kv u))\<rparr>)"
      if "w_faults u = []" for c u
      using that by (simp add: doc_rdb_def fault_def split: prod.splits)
    have one: "one = [(FormatInt ?t, ?t)] \<Longrightarrow> filter (\<lambda>p. \<not> (0 \<le> snd p \<and> snd p \<le> ?t - win)) one = one" for one
      using assms(4) by simp
    have fs: "0 < 1000 * formatSec (win + second_ms)" using assms(4) by (auto simp: formatSec_def)
    from that consider (none) "rget (w_kv v) key = None"
        | (some) x where "rs_db (w_kv v) key = Some (VZSet [(FormatInt ?t, ?t)], Some x)" "?t < x"
      by (auto simp: good_def)
    then show ?thesis
    proof cases
      case none
      then show ?thesis using v assms(1) fs
        by (simp add: slidingWindowAllow_def doc_rt_def call int_val_def good_def) (simp add: rput_def)
    next
      case some
      then have g: "rget (w_kv v) key = Some (VZSet [(FormatInt ?t, ?t)])" "rdeadline (w_kv v) key = Some x"
        using v by (simp_all add: rget_def rdeadline_def)
      then show ?thesis using v assms(1,4) fs some
        by (simp add: slidingWindowAllow_def doc_rt_def call int_val_def good_def) (simp add: rput_def)
    qed
  qed
  have "good v \<Longrightarrow> fst (repeat_calls (slidingWindowAllow doc_rt doc_rdb key limit win) n v) = replicate n (True, None)" for v
  proof (induction n arbitrary: v)
    case (Suc n)
    obtain v' where s: "slidingWindowAllow doc_rt doc_rdb key limit win v = ((True, None), v')" "good v'"
      using step [OF Suc.prems] by blast
    with Suc.IH [OF s(2)] show ?case by (auto split: prod.splits)
  qed simp
  moreover have "good w" using assms by (simp add: good_def)
  ultimately show ?thesis by blast
qed

theorem ratelimit_same_millisecond_witness:
  "fst (repeat_calls (slidingWindowAllow doc_rt doc_rdb ''k'' 2 60000) 50 demo_world) = replicate 50 (True, None)"
  by (rule ratelimit_same_millisecond) (simp_all add: demo_world_def fresh_world_def empty_kv_def rget_def)

end
