(* ===== verification/Moderation.thy ===== *)
theory Moderation
  imports World Text
begin

text \<open>
  pkg/audit: the Auditor interface, the mock, the client of the Aliyun Green service over
  parameters for its two calls, and the factory.  A call of the SDK takes the JSON request and
  returns the text of the answer with the value it denotes, if it is JSON.
\<close>

section \<open>The interface\<close>

record ReviewRequest =
  rq_PostID :: int
  rq_AuthorID :: int
  rq_Title :: string
  rq_Content :: string
  rq_ImageURLs :: "string list"

record ReviewResult =
  rr_Status :: int
  rr_Remark :: string
  rr_Raw :: string

type_synonym 'w Auditor = "ctx \<Rightarrow> ReviewRequest \<Rightarrow> 'w \<Rightarrow> ReviewResult result \<times> 'w"

text \<open>Only what pkg/audit reads of the configuration.\<close>

record AuditConfig =
  adc_Provider :: string
  adc_AccessKeyID :: string
  adc_AccessKeySecret :: string
  adc_Region :: string
  adc_MockResult :: string

definition status_rank :: "int \<Rightarrow> int" where
  "status_rank s =
     (if s = AuditStatusMachineDeny then 3 else if s = AuditStatusSuspect then 2 else 1)"

definition worstStatus :: "int \<Rightarrow> int \<Rightarrow> int" where
  "worstStatus a b = (if status_rank a \<ge> status_rank b then a else b)"

section \<open>JSON texts\<close>

abbreviation quote_char :: char where "quote_char \<equiv> CHR 0x22"
abbreviation backslash :: char where "backslash \<equiv> CHR 0x5C"

definition quoted :: "string \<Rightarrow> string" where
  "quoted s = quote_char # s @ [quote_char]"

definition unicode_escape :: "string \<Rightarrow> string" where
  "unicode_escape xs = backslash # CHR ''u'' # xs"

text \<open>
  How json.Marshal writes a json.RawMessage: the white space outside strings goes, and the
  characters that matter in HTML and the line separators U+2028 and U+2029 are escaped.
\<close>

fun compact_json :: "bool \<Rightarrow> string \<Rightarrow> string" where
  "compact_json q [] = []"
| "compact_json q (c # cs) =
     (if c = CHR ''<'' then unicode_escape ''003c'' @ compact_json q cs
      else if c = CHR ''>'' then unicode_escape ''003e'' @ compact_json q cs
      else if c = CHR 0x26 then unicode_escape ''0026'' @ compact_json q cs
      else if c = CHR 0xE2 \<and> take 2 cs = [CHR 0x80, CHR 0xA8] then unicode_escape ''2028'' @ compact_json q (drop 2 cs)
      else if c = CHR 0xE2 \<and> take 2 cs = [CHR 0x80, CHR 0xA9] then unicode_escape ''2029'' @ compact_json q (drop 2 cs)
      else if q \<and> c = backslash then
        (case cs of [] \<Rightarrow> [c] | d # ds \<Rightarrow> c # d # compact_json q ds)
      else if c = quote_char then c # compact_json (\<not> q) cs
      else if \<not> q \<and> c \<in> {CHR 0x20, CHR 0x09, CHR 0x0A, CHR 0x0D} then compact_json q cs
      else c # compact_json q cs)"

section \<open>The mock\<close>

record MockAuditor =
  ma_result :: int

definition NewMockAuditor :: "AuditConfig \<Rightarrow> MockAuditor" where
  "NewMockAuditor cfg =
     \<lparr>ma_result =
        (if adc_MockResult cfg = ''suspect'' then AuditStatusSuspect
         else if adc_MockResult cfg = ''reject'' then AuditStatusMachineDeny
         else AuditStatusMachinePass)\<rparr>"

text \<open>The object of the mock, its keys in the order of encoding/json.\<close>

definition mock_raw :: "int \<Rightarrow> int \<Rightarrow> int \<Rightarrow> string" where
  "mock_raw pid st t =
     ''{'' @ quoted ''post_id'' @ '':'' @ FormatInt pid @ '','' @ quoted ''provider'' @ '':'' @ quoted ''mock''
     @ '','' @ quoted ''status'' @ '':'' @ FormatInt st @ '','' @ quoted ''timestamp'' @ '':'' @ FormatInt t @ ''}''"

definition MockAuditor_Review :: "'w runtime \<Rightarrow> MockAuditor \<Rightarrow> 'w Auditor" where
  "MockAuditor_Review rt a c req w =
     (let (t, w) = rt_now rt w
      in (ok \<lparr>rr_Status = ma_result a,
              rr_Remark = ''[MOCK] audit_status='' @ FormatInt (ma_result a) @ '' post_id='' @ FormatInt (rq_PostID req),
              rr_Raw = mock_raw (rq_PostID req) (ma_result a) t\<rparr>, w))"

section \<open>The Green service\<close>

record 'w green =
  gr_TextScan :: "json \<Rightarrow> 'w \<Rightarrow> (string \<times> json option) result \<times> 'w"
  gr_ImageSyncScan :: "json \<Rightarrow> 'w \<Rightarrow> (string \<times> json option) result \<times> 'w"

record 'w AliyunAuditor =
  aa_client :: "'w green"

definition NewAliyunAuditor ::
  "(string \<Rightarrow> string \<Rightarrow> string \<Rightarrow> 'w green result) \<Rightarrow> AuditConfig \<Rightarrow> 'w AliyunAuditor result" where
  "NewAliyunAuditor newClient cfg =
     (case newClient (adc_Region cfg) (adc_AccessKeyID cfg) (adc_AccessKeySecret cfg) of
        Inl e \<Rightarrow> err (Wrap ''new green client'' e)
      | Inr client \<Rightarrow> ok \<lparr>aa_client = client\<rparr>)"

record textScanResultDetail =
  sd_Scene :: string
  sd_Suggestion :: string

record textScanDataItem =
  si_Code :: int
  si_Results :: "textScanResultDetail list"

record textScanResponse =
  sr_Code :: int
  sr_Data :: "textScanDataItem list"

text \<open>The types of the image scan are the same.\<close>

type_synonym imageScanResultDetail = textScanResultDetail
type_synonym imageScanDataItem = textScanDataItem
type_synonym imageScanResponse = textScanResponse

definition detail_of_json :: "json \<Rightarrow> textScanResultDetail result" where
  "detail_of_json j =
     result_bind (as_obj j) (\<lambda>kvs.
     result_bind (as_str (json_field ''scene'' kvs)) (\<lambda>sc.
     result_bind (as_str (json_field ''suggestion'' kvs)) (\<lambda>su.
       ok \<lparr>sd_Scene = sc, sd_Suggestion = su\<rparr>)))"

definition item_of_json :: "json \<Rightarrow> textScanDataItem result" where
  "item_of_json j =
     result_bind (as_obj j) (\<lambda>kvs.
     result_bind (as_int (json_field ''code'' kvs)) (\<lambda>code.
     result_bind (as_list detail_of_json (json_field ''results'' kvs)) (\<lambda>rs.
       ok \<lparr>si_Code = code, si_Results = rs\<rparr>)))"

definition response_of_json :: "json \<Rightarrow> textScanResponse result" where
  "response_of_json j =
     result_bind (as_obj j) (\<lambda>kvs.
     result_bind (as_int (json_field ''code'' kvs)) (\<lambda>code.
     result_bind (as_list item_of_json (json_field ''data'' kvs)) (\<lambda>items.
       ok \<lparr>sr_Code = code, sr_Data = items\<rparr>)))"

definition suggestionToStatus :: "string \<Rightarrow> int" where
  "suggestionToStatus s =
     (if s = ''block'' then AuditStatusMachineDeny
      else if s = ''review'' then AuditStatusSuspect
      else AuditStatusMachinePass)"

definition remarkFor :: "int \<Rightarrow> string" where
  "remarkFor s =
     (if s = AuditStatusMachineDeny then ''machine review: content violates policy''
      else if s = AuditStatusSuspect then ''machine review: content requires human review''
      else ''machine review: pass'')"

text \<open>The two nested loops over the answer.\<close>

fun worst_result :: "textScanResultDetail list \<Rightarrow> int \<Rightarrow> int" where
  "worst_result [] st = st"
| "worst_result (r # rs) st = worst_result rs (worstStatus st (suggestionToStatus (sd_Suggestion r)))"

fun worst_item :: "textScanDataItem list \<Rightarrow> int \<Rightarrow> int" where
  "worst_item [] st = st"
| "worst_item (x # xs) st = worst_item xs (worst_result (si_Results x) st)"

definition read_scan :: "string \<Rightarrow> (string \<times> json option) result \<Rightarrow> (int \<times> string) result" where
  "read_scan api resp =
     (case resp of
        Inl e \<Rightarrow> err (Wrap (api @ '' RPC'') e)
      | Inr (raw, None) \<Rightarrow> err (Wrap (''parse '' @ api @ '' response'') json_error)
      | Inr (raw, Some j) \<Rightarrow>
          (case response_of_json j of
             Inl e \<Rightarrow> err (Wrap (''parse '' @ api @ '' response'') e)
           | Inr result \<Rightarrow>
               if sr_Code result \<noteq> 200 then err (Plain (api @ '' API error code: '' @ FormatInt (sr_Code result)))
               else ok (worst_item (sr_Data result) AuditStatusMachinePass, raw)))"

definition textScanBody :: "string \<Rightarrow> string \<Rightarrow> json" where
  "textScanBody i text =
     JObj [(''scenes'', JArr [JStr ''antispam'']),
           (''tasks'', JArr [JObj [(''dataId'', JStr i), (''content'', JStr text)]])]"

definition reviewText :: "'w runtime \<Rightarrow> 'w AliyunAuditor \<Rightarrow> string \<Rightarrow> 'w \<Rightarrow> (int \<times> string) result \<times> 'w" where
  "reviewText rt a text w =
     (let (i, w) = rt_uuid rt w;
          (resp, w) = gr_TextScan (aa_client a) (textScanBody i text) w
      in (read_scan ''TextScan'' resp, w))"

definition imageScanTask :: "string \<Rightarrow> string \<Rightarrow> json" where
  "imageScanTask i u = JObj [(''dataId'', JStr i), (''url'', JStr u)]"

fun image_tasks :: "'w runtime \<Rightarrow> string list \<Rightarrow> 'w \<Rightarrow> json list \<times> 'w" where
  "image_tasks rt [] w = ([], w)"
| "image_tasks rt (u # us) w =
     (let (i, w) = rt_uuid rt w; (ts, w) = image_tasks rt us w in (imageScanTask i u # ts, w))"

definition imageScanBody :: "json list \<Rightarrow> json" where
  "imageScanBody tasks =
     JObj [(''scenes'', JArr [JStr ''porn'', JStr ''terrorism'', JStr ''ad'', JStr ''qrcode'']),
           (''tasks'', JArr tasks)]"

definition reviewImages :: "'w runtime \<Rightarrow> 'w AliyunAuditor \<Rightarrow> string list \<Rightarrow> 'w \<Rightarrow> (int \<times> string) result \<times> 'w" where
  "reviewImages rt a urls w =
     (let (tasks, w) = image_tasks rt urls w;
          (resp, w) = gr_ImageSyncScan (aa_client a) (imageScanBody tasks) w
      in (read_scan ''ImageScan'' resp, w))"

text \<open>The object of the two raw answers; its keys are written in order.\<close>

definition all_raw :: "string option \<Rightarrow> string \<Rightarrow> string" where
  "all_raw img text =
     ''{'' @ (case img of None \<Rightarrow> [] | Some raw \<Rightarrow> quoted ''image'' @ '':'' @ compact_json False raw @ '','')
     @ quoted ''text'' @ '':'' @ compact_json False text @ ''}''"

definition review_result :: "int \<Rightarrow> string \<Rightarrow> ReviewResult" where
  "review_result st raw = \<lparr>rr_Status = st, rr_Remark = remarkFor st, rr_Raw = raw\<rparr>"

definition AliyunAuditor_Review :: "'w runtime \<Rightarrow> 'w AliyunAuditor \<Rightarrow> 'w Auditor" where
  "AliyunAuditor_Review rt a c req w =
     (let text = TrimSpace (rq_Title req @ [CHR 0x0A] @ rq_Content req) in
      case reviewText rt a text w of
        (Inl e, w) \<Rightarrow> (err (Wrap ''green text scan'' e), w)
      | (Inr (st, raw), w) \<Rightarrow>
          if rq_ImageURLs req \<noteq> [] then
            (case reviewImages rt a (rq_ImageURLs req) w of
               (Inl e, w) \<Rightarrow> (err (Wrap ''green image scan'' e), w)
             | (Inr (ist, iraw), w) \<Rightarrow> (ok (review_result (worstStatus st ist) (all_raw (Some iraw) raw)), w))
          else (ok (review_result st (all_raw None raw)), w))"

section \<open>The factory\<close>

text \<open>The provider in the message is quoted plainly; the verb of the source escapes it as well.\<close>

definition NewAuditor ::
  "'w runtime \<Rightarrow> (string \<Rightarrow> string \<Rightarrow> string \<Rightarrow> 'w green result) \<Rightarrow> AuditConfig \<Rightarrow> 'w Auditor result" where
  "NewAuditor rt newClient cfg =
     (if adc_Provider cfg = ''mock'' \<or> adc_Provider cfg = [] then
        ok (MockAuditor_Review rt (NewMockAuditor cfg))
      else if adc_Provider cfg = ''aliyun'' then
        (case NewAliyunAuditor newClient cfg of
           Inl e \<Rightarrow> err e
         | Inr a \<Rightarrow> ok (AliyunAuditor_Review rt a))
      else err (Plain (''unknown audit provider: '' @ quoted (adc_Provider cfg) @ '' (supported: mock, aliyun)'')))"

section \<open>The verdict\<close>

text \<open>The verdict over a set of suggestions, without any loop.\<close>

definition verdict :: "string set \<Rightarrow> int" where
  "verdict S =
     (if ''block'' \<in> S then AuditStatusMachineDeny
      else if ''review'' \<in> S then AuditStatusSuspect
      else AuditStatusMachinePass)"

definition suggestions :: "textScanResponse \<Rightarrow> string set" where
  "suggestions r = {sd_Suggestion d |d x. x \<in> set (sr_Data r) \<and> d \<in> set (si_Results x)}"

lemma worst_verdict: "worstStatus (verdict S) (verdict T) = verdict (S \<union> T)"
  by (auto simp: worstStatus_def verdict_def status_rank_def AuditStatusMachineDeny_def
      AuditStatusSuspect_def AuditStatusMachinePass_def)

lemma suggestion_verdict: "suggestionToStatus s = verdict {s}"
  by (auto simp: suggestionToStatus_def verdict_def)

lemma pass_verdict: "AuditStatusMachinePass = verdict {}"
  by (simp add: verdict_def)

lemma worst_result_verdict: "worst_result ds (verdict S) = verdict (S \<union> sd_Suggestion ` set ds)"
proof (induction ds arbitrary: S)
  case (Cons d ds)
  have "worst_result (d # ds) (verdict S) = worst_result ds (verdict (S \<union> {sd_Suggestion d}))"
    by (simp only: worst_result.simps suggestion_verdict worst_verdict)
  also have "\<dots> = verdict (S \<union> {sd_Suggestion d} \<union> sd_Suggestion ` set ds)" by (rule Cons.IH)
  finally show ?case by (simp only: list.set image_insert Un_insert_left Un_insert_right Un_empty_right)
qed simp

lemma worst_item_verdict:
  "worst_item xs (verdict S) = verdict (S \<union> (\<Union>x\<in>set xs. sd_Suggestion ` set (si_Results x)))"
proof (induction xs arbitrary: S)
  case (Cons x xs)
  have "worst_item (x # xs) (verdict S) = worst_item xs (verdict (S \<union> sd_Suggestion ` set (si_Results x)))"
    by (simp only: worst_item.simps worst_result_verdict)
  also have "\<dots> = verdict (S \<union> sd_Suggestion ` set (si_Results x) \<union> (\<Union>x\<in>set xs. sd_Suggestion ` set (si_Results x)))"
    by (rule Cons.IH)
  finally show ?case by (simp only: list.set UN_insert Un_assoc)
qed simp

lemma read_scan_verdict:
  assumes "read_scan api resp = Inr (st, raw)"
  shows "\<exists>j r. resp = Inr (raw, Some j) \<and> response_of_json j = Inr r \<and> sr_Code r = 200 \<and> st = verdict (suggestions r)"
proof -
  obtain j r where jr: "resp = Inr (raw, Some j)" "response_of_json j = Inr r" "sr_Code r = 200"
      "st = worst_item (sr_Data r) AuditStatusMachinePass"
    using assms by (auto simp: read_scan_def split: sum.splits option.splits if_splits)
  moreover have "(\<Union>x\<in>set (sr_Data r). sd_Suggestion ` set (si_Results x)) = suggestions r"
    by (auto simp: suggestions_def)
  ultimately show ?thesis using worst_item_verdict [of "sr_Data r" "{}"] pass_verdict by auto
qed

section \<open>Properties\<close>

text \<open>
  C33: The verdict of the Green service.  A review that returns a result got an answer with
  code 200 for the trimmed title and content, and one for the images if there are any; the
  status is denial if any suggestion in them is block, suspicion if none is and any is review,
  and a pass otherwise, whatever the order of the scenes and tasks.
\<close>
theorem green_verdict:
  assumes "AliyunAuditor_Review rt a c req w = (Inr r, w')"
  shows "\<exists>i w1 w2 traw tj tr.
     gr_TextScan (aa_client a) (textScanBody i (TrimSpace (rq_Title req @ [CHR 0x0A] @ rq_Content req))) w1
       = (Inr (traw, Some tj), w2) \<and> response_of_json tj = Inr tr \<and> sr_Code tr = 200
     \<and> (if rq_ImageURLs req = [] then rr_Status r = verdict (suggestions tr)
        else \<exists>ts w3 iraw ij ir. (ts, w3) = image_tasks rt (rq_ImageURLs req) w2
          \<and> gr_ImageSyncScan (aa_client a) (imageScanBody ts) w3 = (Inr (iraw, Some ij), w')
          \<and> response_of_json ij = Inr ir \<and> sr_Code ir = 200
          \<and> rr_Status r = verdict (suggestions tr \<union> suggestions ir))"
proof -
  let ?text = "TrimSpace (rq_Title req @ [CHR 0x0A] @ rq_Content req)"
  obtain i w1 where i: "rt_uuid rt w = (i, w1)" by fastforce
  obtain resp w2 where t: "gr_TextScan (aa_client a) (textScanBody i ?text) w1 = (resp, w2)" by fastforce
  obtain st raw where rs: "read_scan ''TextScan'' resp = Inr (st, raw)"
    using assms i t by (auto simp: AliyunAuditor_Review_def reviewText_def Let_def split: sum.splits prod.splits)
  obtain tj tr where tr: "resp = Inr (raw, Some tj)" "response_of_json tj = Inr tr" "sr_Code tr = 200"
      "st = verdict (suggestions tr)"
    using read_scan_verdict [OF rs] by blast
  show ?thesis
  proof (cases "rq_ImageURLs req = []")
    case True
    then have "rr_Status r = st"
      using assms i t rs by (auto simp: AliyunAuditor_Review_def reviewText_def review_result_def)
    with True t tr show ?thesis by (metis (no_types, lifting))
  next
    case False
    obtain ts w3 where ts: "image_tasks rt (rq_ImageURLs req) w2 = (ts, w3)" by fastforce
    obtain iresp w4 where im: "gr_ImageSyncScan (aa_client a) (imageScanBody ts) w3 = (iresp, w4)" by fastforce
    obtain ist iraw where irs: "read_scan ''ImageScan'' iresp = Inr (ist, iraw)" "w4 = w'" "rr_Status r = worstStatus st ist"
      using assms i t rs False ts im
      by (cases "read_scan ''ImageScan'' iresp")
        (auto simp: AliyunAuditor_Review_def reviewText_def reviewImages_def review_result_def)
    obtain ij ir where ir: "iresp = Inr (iraw, Some ij)" "response_of_json ij = Inr ir" "sr_Code ir = 200"
        "ist = verdict (suggestions ir)"
      using read_scan_verdict [OF irs(1)] by blast
    have "rr_Status r = verdict (suggestions tr \<union> suggestions ir)"
      using irs(3) tr(4) ir(4) by (simp add: worst_verdict)
    with False t tr ts im irs(2) ir(1-3) show ?thesis by (metis (no_types, lifting))
  qed
qed

text \<open>An answer of the service, and a client that gives the same answers always.\<close>

definition demo_answer :: "int \<Rightarrow> (int \<times> string list) list \<Rightarrow> json" where
  "demo_answer code items =
     JObj [(''code'', JNum code),
           (''data'', JArr (map (\<lambda>(n, ss). JObj [(''code'', JNum n),
              (''results'', JArr (map (\<lambda>s. JObj [(''scene'', JStr ''any''), (''suggestion'', JStr s)]) ss))]) items))]"

definition demo_green :: "json \<Rightarrow> json \<Rightarrow> 'w AliyunAuditor" where
  "demo_green t i =
     \<lparr>aa_client = \<lparr>gr_TextScan = \<lambda>_ w. (ok (''{}'', Some t), w), gr_ImageSyncScan = \<lambda>_ w. (ok (''{}'', Some i), w)\<rparr>\<rparr>"

definition demo_review :: ReviewRequest where
  "demo_review = \<lparr>rq_PostID = 1, rq_AuthorID = 7, rq_Title = ''t'', rq_Content = ''c'', rq_ImageURLs = [''u'', ''v'']\<rparr>"

theorem green_verdict_witness:
  "\<exists>tr ir. response_of_json (demo_answer 200 [(200, [''pass''])]) = Inr tr
     \<and> response_of_json (demo_answer 200 [(200, [''pass'', ''review'']), (200, [''pass''])]) = Inr ir
     \<and> verdict (suggestions tr \<union> suggestions ir) = AuditStatusSuspect"
proof -
  let ?a = "demo_green (demo_answer 200 [(200, [''pass''])])
              (demo_answer 200 [(200, [''pass'', ''review'']), (200, [''pass''])])"
  let ?call = "AliyunAuditor_Review doc_rt ?a Background demo_review demo_world"
  have "case fst ?call of Inl e \<Rightarrow> False | Inr r \<Rightarrow> rr_Status r = AuditStatusSuspect" by code_simp
  then obtain r w' where c: "?call = (Inr r, w')" and st: "rr_Status r = AuditStatusSuspect"
    by (cases ?call) (auto split: sum.splits)
  from green_verdict [OF c] st show ?thesis
    by (auto simp: demo_review_def demo_green_def)
qed

text \<open>
  Failed tasks pass.  The loops look at the suggestions only: when the service answers
  with code 200 but could not scan the images, so that the items carry an error code and no
  result, the review of a clean text is a pass.
\<close>
theorem green_failed_items_pass:
  assumes "\<And>b w. fst (gr_TextScan (aa_client a) b w) = Inr (traw, Some tj)"
    and "response_of_json tj = Inr tr" "sr_Code tr = 200" "suggestions tr \<subseteq> {''pass''}"
    and "\<And>b w. fst (gr_ImageSyncScan (aa_client a) b w) = Inr (iraw, Some ij)"
    and "response_of_json ij = Inr ir" "sr_Code ir = 200" "\<forall>x\<in>set (sr_Data ir). si_Results x = []"
  shows "\<exists>r. fst (AliyunAuditor_Review rt a c req w) = Inr r \<and> rr_Status r = AuditStatusMachinePass"
proof -
  have ok: "read_scan api (Inr (raw, Some j)) = Inr (verdict (suggestions q), raw)"
    if "response_of_json j = Inr q" "sr_Code q = 200" for api raw j q
  proof -
    have "\<exists>st. read_scan api (Inr (raw, Some j)) = Inr (st, raw)" using that by (simp add: read_scan_def)
    then show ?thesis using read_scan_verdict [of api "Inr (raw, Some j)"] that by fastforce
  qed
  have v: "verdict (suggestions tr) = AuditStatusMachinePass" using assms(4) by (auto simp: verdict_def)
  have "suggestions ir = {}" using assms(8) by (auto simp: suggestions_def)
  then have "verdict (suggestions ir) = AuditStatusMachinePass" by (simp add: verdict_def)
  moreover have "worstStatus AuditStatusMachinePass AuditStatusMachinePass = AuditStatusMachinePass"
    by (simp add: worstStatus_def)
  ultimately have worst: "worstStatus (verdict (suggestions tr)) (verdict (suggestions ir)) = AuditStatusMachinePass"
    using v by simp
  define x where "x = TrimSpace (rq_Title req @ CHR 0x0A # rq_Content req)"
  obtain i w1 where i: "rt_uuid rt w = (i, w1)" by fastforce
  obtain w2 where t: "gr_TextScan (aa_client a) (textScanBody i x) w1 = (Inr (traw, Some tj), w2)"
    using assms(1) [of "textScanBody i x" w1] by (metis prod.collapse)
  have rtx: "reviewText rt a x w = (Inr (verdict (suggestions tr), traw), w2)"
    by (simp add: reviewText_def i t ok [OF assms(2,3)])
  obtain ts w3 where ts: "image_tasks rt (rq_ImageURLs req) w2 = (ts, w3)" by fastforce
  obtain w4 where im: "gr_ImageSyncScan (aa_client a) (imageScanBody ts) w3 = (Inr (iraw, Some ij), w4)"
    using assms(5) [of "imageScanBody ts" w3] by (metis prod.collapse)
  have images: "reviewImages rt a (rq_ImageURLs req) w2 = (Inr (verdict (suggestions ir), iraw), w4)"
    by (simp add: reviewImages_def ts im ok [OF assms(6,7)])
  show ?thesis
    using v worst by (simp add: AliyunAuditor_Review_def x_def [symmetric] rtx images review_result_def)
qed

theorem green_failed_items_pass_witness:
  "\<exists>r. fst (AliyunAuditor_Review doc_rt
        (demo_green (demo_answer 200 [(200, [''pass''])]) (demo_answer 200 [(592, []), (592, [])]))
        Background demo_review demo_world) = Inr r \<and> rr_Status r = AuditStatusMachinePass"
proof -
  let ?t = "demo_answer 200 [(200, [''pass''])]" and ?i = "demo_answer 200 [(592, []), (592, [])]"
  have t: "response_of_json ?t = Inr \<lparr>sr_Code = 200, sr_Data = [\<lparr>si_Code = 200, si_Results = [\<lparr>sd_Scene = ''any'', sd_Suggestion = ''pass''\<rparr>]\<rparr>]\<rparr>"
    by (simp add: demo_answer_def response_of_json_def item_of_json_def detail_of_json_def in_int64_def int64_min_def int64_max_def)
  have i: "response_of_json ?i = Inr \<lparr>sr_Code = 200, sr_Data = [\<lparr>si_Code = 592, si_Results = []\<rparr>, \<lparr>si_Code = 592, si_Results = []\<rparr>]\<rparr>"
    by (simp add: demo_answer_def response_of_json_def item_of_json_def detail_of_json_def in_int64_def int64_min_def int64_max_def)
  show ?thesis
    by (rule green_failed_items_pass [OF _ t _ _ _ i]) (auto simp: demo_green_def suggestions_def)
qed

end
