(* ===== verification/AuditConsumer.thy ===== *)
theory AuditConsumer
  imports Moderation ChannelBus PostRepository UserRepository Caches
begin

text \<open>
  internal/consumer/audit_consumer.go: the handler of the audit topic, which loads the post and
  its steps, asks the auditor, appends the audit log and writes the verdict.
\<close>

record 'w AuditConsumer =
  adq_postRepo :: "'w PostRepository"
  adq_auditRepo :: "'w AuditRepository"
  adq_auditor :: "'w Auditor"
  adq_feedCache :: "'w FeedCache"

definition NewAuditConsumer ::
  "'w PostRepository \<Rightarrow> 'w AuditRepository \<Rightarrow> 'w Auditor \<Rightarrow> 'w FeedCache \<Rightarrow> 'w AuditConsumer" where
  "NewAuditConsumer postRepo auditRepo auditor feedCache =
     \<lparr>adq_postRepo = postRepo, adq_auditRepo = auditRepo, adq_auditor = auditor, adq_feedCache = feedCache\<rparr>"

definition collectImageURLs :: "Post \<Rightarrow> PostStep list \<Rightarrow> string list" where
  "collectImageURLs post steps =
     (if p_CoverURL post \<noteq> [] then [p_CoverURL post] else []) @ concat (map ps_ImageURLs steps)"

definition review_request :: "AuditEvent \<Rightarrow> Post \<Rightarrow> PostStep list \<Rightarrow> ReviewRequest" where
  "review_request e post steps =
     \<lparr>rq_PostID = ae_PostID e, rq_AuthorID = ae_AuthorID e, rq_Title = p_Title post,
      rq_Content = p_Content post, rq_ImageURLs = collectImageURLs post steps\<rparr>"

definition visible_for :: "ReviewResult \<Rightarrow> int" where
  "visible_for r = (if rr_Status r = AuditStatusMachinePass then PostVisible else PostInvisible)"

definition audit_log :: "AuditEvent \<Rightarrow> ReviewResult \<Rightarrow> int \<Rightarrow> AuditLog" where
  "audit_log e r now =
     \<lparr>a_ID = 0, a_PostID = ae_PostID e, a_AuthorID = ae_AuthorID e, a_AuditStatus = rr_Status r,
      a_Remark = rr_Remark r, a_RawResponse = rr_Raw r, a_CreatedAt = now\<rparr>"

text \<open>
  An error of the audit log is logged only; without its steps a post is reviewed by its text
  and cover.
\<close>

definition AuditConsumer_process :: "'w runtime \<Rightarrow> 'w AuditConsumer \<Rightarrow> ctx \<Rightarrow> AuditEvent \<Rightarrow> 'w \<Rightarrow> 'w" where
  "AuditConsumer_process rt a c e w =
     (case pr_FindByID (adq_postRepo a) c (ae_PostID e) w of
        (Inl _, w) \<Rightarrow> w
      | (Inr post, w) \<Rightarrow>
          (let (sres, w) = pr_LoadSteps (adq_postRepo a) c (ae_PostID e) w;
               steps = (case sres of Inl _ \<Rightarrow> [] | Inr xs \<Rightarrow> xs)
           in case adq_auditor a c (review_request e post steps) w of
                (Inl _, w) \<Rightarrow> w
              | (Inr r, w) \<Rightarrow>
                  (let isVisible = visible_for r;
                       (now, w) = rt_now rt w;
                       (_, w) = ar_Create (adq_auditRepo a) c (audit_log e r now) w
                   in case pr_UpdateAuditStatus (adq_postRepo a) c (ae_PostID e) (rr_Status r) isVisible (rr_Remark r) w of
                        (Some _, w) \<Rightarrow> w
                      | (None, w) \<Rightarrow>
                          if isVisible = PostVisible then snd (BumpFeedVersion (adq_feedCache a) w) else w)))"

definition audit_handler :: "'w runtime \<Rightarrow> 'w AuditConsumer \<Rightarrow> ctx \<Rightarrow> 'w handler" where
  "audit_handler rt a c payload w =
     (case AuditEvent_of_json payload of
        Inl e \<Rightarrow> (None, w)
      | Inr e \<Rightarrow>
          if ae_AuditStatus e \<noteq> AuditStatusPending then (None, w)
          else (None, AuditConsumer_process rt a c e w))"

section \<open>What one event does\<close>

context platform
begin

text \<open>Appending the log leaves the posts alone; when it answers, the row is the last one.\<close>

lemma audit_appended:
  assumes "audits_Create db c log w = (res, w')"
  shows "t_posts (master w') = t_posts (master w)"
    "res = None \<Longrightarrow> \<exists>i t. t_audit (master w') = t_audit (master w) @ [log\<lparr>a_ID := i, a_CreatedAt := t\<rparr>]"
proof -
  obtain r where r: "db (InsertAudit log) w = (r, w')"
    using assms by (auto simp: audits_Create_def split: prod.splits sqlreply.splits)
  obtain d g where dg: "dml (InsertAudit log) (advance d g (master w)) = (r, master w')
      \<or> (\<exists>m. r = SqlErr (Plain m)) \<and>
         (master w' = advance d g (master w) \<or> master w' = snd (dml (InsertAudit log) (advance d g (master w))))"
    using sql_call [OF r] by auto
  have snd: "t_posts (snd (dml (InsertAudit log) s)) = t_posts s" for s by (simp add: Let_def bump_def)
  show "t_posts (master w') = t_posts (master w)"
    using dg snd [of "advance d g (master w)"] by (elim disjE conjE) (auto simp del: dml.simps)
  assume "res = None"
  then have "\<forall>m. r \<noteq> SqlErr (Plain m)" using assms r by (auto simp: audits_Create_def)
  with dg have "master w' = snd (dml (InsertAudit log) (advance d g (master w)))" by (metis snd_conv)
  moreover have "\<exists>i t. t_audit (snd (dml (InsertAudit log) s)) = t_audit s @ [log\<lparr>a_ID := i, a_CreatedAt := t\<rparr>]" for s
    by (auto simp: Let_def bump_def)
  ultimately show "\<exists>i t. t_audit (master w') = t_audit (master w) @ [log\<lparr>a_ID := i, a_CreatedAt := t\<rparr>]"
    by (metis advance_tables(6))
qed

lemma bump_frame: "fc_rdb f = rdb \<Longrightarrow> t_posts (master (snd (BumpFeedVersion f w))) = t_posts (master w)"
  using rdb_frame by (auto simp: BumpFeedVersion_def tables_def split: prod.splits)

text \<open>The steps that were loaded are those of the post, on the node that was read.\<close>

lemma steps_answer:
  assumes "posts_LoadSteps db c pid w = (Inr xs, w')"
  shows "mset xs = mset (filter (\<lambda>s. ps_PostID s = pid) (t_steps (if ForceMaster c then master w else replica w)))"
proof -
  let ?q = "\<lparr>q_where = (\<lambda>s. ps_PostID s = pid), q_order = [\<lambda>s. - ps_StepNo s], q_offset = 0, q_limit = None\<rparr>"
  let ?n = "if ForceMaster c then master w else replica w"
  have r: "db (SelectSteps (Apply c) ?q) w = (Steps xs, w')"
    using assms by (auto simp: posts_LoadSteps_def split: prod.splits sqlreply.splits)
  have "(\<exists>m. Steps xs = SqlErr (Plain m)) \<or> answers (SelectSteps (Apply c) ?q) ?n (Steps xs)"
    by (rule sql_read [OF r, of "Apply c"]) (auto simp: Apply_def IsForceMaster_def split: if_splits)
  then show ?thesis by (auto simp: query_ok_def window_def)
qed

text \<open>The log and the verdict, once the auditor has answered.\<close>

lemma verdict_posts:
  assumes "rt_now rt w = (now, w1)" "audits_Create db c log w1 = (lres, w2)"
    and "posts_UpdateAuditStatus db c pid st vis remark w2 = (ures, w3)"
  shows "t_posts (master w3) = t_posts (master w)
     \<or> (\<exists>t0. t_posts (master w3) = update_rows (\<lambda>p. p_ID p = pid \<and> post_live p) (set_audit st vis remark t0) (t_posts (master w)))"
proof -
  have "t_posts (master w2) = t_posts (master w)"
    using now_frame [OF assms(1)] audit_appended(1) [OF assms(2)] by (simp add: tables_def)
  then show ?thesis using posts_audit [OF assms(3)] by metis
qed

lemma process_posts:
  assumes aud: "\<And>rq w. tables (master (snd (auditor c rq w))) = tables (master w)"
    and fc: "fc_rdb f = rdb"
    and w'_def: "w' = AuditConsumer_process rt (NewAuditConsumer (NewPostRepository rt db) (NewAuditRepository db) auditor f) c e w"
  shows "t_posts (master w') = t_posts (master w)
     \<or> (\<exists>w1 p sres w2 r w3 t0. posts_FindByID db c (ae_PostID e) w = (Inr p, w1)
          \<and> posts_LoadSteps db c (ae_PostID e) w1 = (sres, w2)
          \<and> auditor c (review_request e p (case sres of Inl _ \<Rightarrow> [] | Inr xs \<Rightarrow> xs)) w2 = (Inr r, w3)
          \<and> t_posts (master w') = update_rows (\<lambda>p. p_ID p = ae_PostID e \<and> post_live p)
               (set_audit (rr_Status r) (visible_for r) (rr_Remark r) t0) (t_posts (master w)))"
proof -
  note process = AuditConsumer_process_def NewAuditConsumer_def NewPostRepository_def NewAuditRepository_def
  obtain fres w1 where f: "posts_FindByID db c (ae_PostID e) w = (fres, w1)" by fastforce
  obtain sres w2 where s: "posts_LoadSteps db c (ae_PostID e) w1 = (sres, w2)" by fastforce
  have w2: "t_posts (master w1) = t_posts (master w)" "t_posts (master w2) = t_posts (master w)"
    using posts_find [OF f] steps_load [OF s] by (simp_all add: readonly_def tables_def)
  show ?thesis
  proof (cases fres)
    case (Inl _)
    then show ?thesis using f w2 by (simp add: w'_def process)
  next
    case (Inr p)
    define rq where "rq = review_request e p (case sres of Inl _ \<Rightarrow> [] | Inr xs \<Rightarrow> xs)"
    obtain rres w3 where a: "auditor c rq w2 = (rres, w3)" by fastforce
    have w3: "t_posts (master w3) = t_posts (master w)" using aud [of rq w2] a w2 by (simp add: tables_def)
    show ?thesis
    proof (cases rres)
      case (Inl _)
      then show ?thesis using f Inr s a w3 by (simp add: w'_def process flip: rq_def)
    next
      case (Inr r)
      obtain now w4 where n: "rt_now rt w3 = (now, w4)" by fastforce
      obtain lres w5 where l: "audits_Create db c (audit_log e r now) w4 = (lres, w5)" by fastforce
      obtain ures w6 where u: "posts_UpdateAuditStatus db c (ae_PostID e) (rr_Status r) (visible_for r) (rr_Remark r) w5 = (ures, w6)"
        by fastforce
      have "w' = (if ures = None \<and> visible_for r = PostVisible then snd (BumpFeedVersion f w6) else w6)"
        by (cases ures) (simp_all add: w'_def process f s a n l u \<open>fres = Inr p\<close> Inr flip: rq_def)
      then have w6: "t_posts (master w') = t_posts (master w6)" using bump_frame [OF fc] by simp
      have found: "posts_FindByID db c (ae_PostID e) w = (Inr p, w1)" using f \<open>fres = Inr p\<close> by simp
      have answer: "auditor c (review_request e p (case sres of Inl _ \<Rightarrow> [] | Inr xs \<Rightarrow> xs)) w2 = (Inr r, w3)"
        using a Inr by (simp add: rq_def)
      from verdict_posts [OF n l u] show ?thesis unfolding w3 w6
        by (elim disjE exE; intro disjI1 disjI2 exI conjI) (assumption | rule found s answer)+
    qed
  qed
qed

end

section \<open>Properties\<close>

text \<open>
  C9: Moderation fails closed.  For every environment and every auditor that leaves the
  database alone: a row of the posts that the consumer changes is the live post of the event, and
  the auditor was asked, before that, for exactly this review: the title and content of the live post with the
  event's identifier on the node the context names, its cover if it has one, and the images of
  its steps on that node, or no step images when they could not be read.  The row gets the status and remark
  of that answer, nothing else but the time of the update, and is visible afterwards exactly when the answer
  was a pass.  If the post is not found or the review fails there is no such row: nothing changes.
\<close>
theorem audit_fails_closed:
  assumes "platform rdb kv db master replica pub sent rt" "fc_rdb f = rdb"
    and "\<And>rq w. tables (master (snd (auditor c rq w))) = tables (master w)"
    and "p' \<in> set (t_posts (master (AuditConsumer_process rt
           (NewAuditConsumer (NewPostRepository rt db) (NewAuditRepository db) auditor f) c e w)))"
    and "p' \<notin> set (t_posts (master w))"
  shows "\<exists>p w1 found sres steps w2 r w3 t0. p \<in> set (t_posts (master w)) \<and> p_ID p = ae_PostID e \<and> post_live p
     \<and> pr_FindByID (NewPostRepository rt db) c (ae_PostID e) w = (Inr found, w1)
     \<and> found \<in> set (t_posts (if ForceMaster c then master w else replica w))
     \<and> p_ID found = ae_PostID e \<and> post_live found
     \<and> pr_LoadSteps (NewPostRepository rt db) c (ae_PostID e) w1 = (sres, w2)
     \<and> ((\<exists>x. sres = Inl x) \<and> steps = [] \<or> sres = Inr steps
          \<and> mset steps = mset (filter (\<lambda>s. ps_PostID s = ae_PostID e) (t_steps (if ForceMaster c then master w1 else replica w1))))
     \<and> auditor c \<lparr>rq_PostID = ae_PostID e, rq_AuthorID = ae_AuthorID e, rq_Title = p_Title found, rq_Content = p_Content found,
          rq_ImageURLs = (if p_CoverURL found \<noteq> [] then [p_CoverURL found] else []) @ concat (map ps_ImageURLs steps)\<rparr> w2 = (Inr r, w3)
     \<and> p' = p\<lparr>p_AuditStatus := rr_Status r, p_IsVisible := (if rr_Status r = AuditStatusMachinePass then PostVisible else PostInvisible),
               p_AuditRemark := rr_Remark r, p_UpdatedAt := t0\<rparr>
     \<and> (p_IsVisible p' = PostVisible \<longleftrightarrow> rr_Status r = AuditStatusMachinePass)"
proof -
  note pl = assms(1)
  obtain w1 found sres w2 r w3 t0 where x: "posts_FindByID db c (ae_PostID e) w = (Inr found, w1)"
      "posts_LoadSteps db c (ae_PostID e) w1 = (sres, w2)"
      "auditor c (review_request e found (case sres of Inl _ \<Rightarrow> [] | Inr xs \<Rightarrow> xs)) w2 = (Inr r, w3)"
      "p' \<in> set (update_rows (\<lambda>p. p_ID p = ae_PostID e \<and> post_live p)
               (set_audit (rr_Status r) (visible_for r) (rr_Remark r) t0) (t_posts (master w)))"
    using platform.process_posts [where master = master and auditor = auditor and c = c, OF pl assms(3,2) refl, where e = e and w = w] assms(4,5)
    by (elim disjE exE conjE) simp_all
  obtain p where p: "p \<in> set (t_posts (master w))" "p_ID p = ae_PostID e \<and> post_live p"
      "p' = set_audit (rr_Status r) (visible_for r) (rr_Remark r) t0 p"
    using x(4) assms(5) by (auto simp: update_rows_def split: if_splits)
  define steps where "steps = (case sres of Inl _ \<Rightarrow> [] | Inr xs \<Rightarrow> xs)"
  have st: "(\<exists>y. sres = Inl y) \<and> steps = [] \<or> sres = Inr steps
      \<and> mset steps = mset (filter (\<lambda>s. ps_PostID s = ae_PostID e) (t_steps (if ForceMaster c then master w1 else replica w1)))"
    using platform.steps_answer [OF pl, where c = c and w = w1] x(2) by (cases sres) (auto simp: steps_def)
  have fnd: "found \<in> set (t_posts (if ForceMaster c then master w else replica w))" "p_ID found = ae_PostID e" "post_live found"
    using platform.posts_find [OF pl x(1)] by simp_all
  have vis: "p_IsVisible p' = PostVisible \<longleftrightarrow> rr_Status r = AuditStatusMachinePass"
    by (simp add: p(3) set_audit_def visible_for_def PostVisible_def PostInvisible_def)
  have calls: "pr_FindByID (NewPostRepository rt db) c (ae_PostID e) w = (Inr found, w1)"
      "pr_LoadSteps (NewPostRepository rt db) c (ae_PostID e) w1 = (sres, w2)"
    using x(1,2) by (simp_all add: NewPostRepository_def)
  show ?thesis
    by (intro exI conjI, rule p(1), rule p(2) [THEN conjunct1], rule p(2) [THEN conjunct2], rule calls(1), rule fnd(1),
        rule fnd(2), rule fnd(3), rule calls(2), rule st, rule x(3) [folded steps_def, unfolded review_request_def collectImageURLs_def],
        rule p(3) [unfolded set_audit_def visible_for_def], rule vis)
qed

definition pending_world :: world where
  "pending_world =
     (let s = demo_db\<lparr>t_posts := [(demo_post 1 7 1)\<lparr>p_IsVisible := PostInvisible, p_AuditStatus := AuditStatusPending\<rparr>]\<rparr>
      in demo_world\<lparr>w_db := s, w_replica := s\<rparr>)"

definition demo_auditor :: "world Auditor" where
  "demo_auditor = MockAuditor_Review doc_rt (NewMockAuditor
     \<lparr>adc_Provider = ''mock'', adc_AccessKeyID = [], adc_AccessKeySecret = [], adc_Region = [], adc_MockResult = ''pass''\<rparr>)"

definition demo_audit_event :: AuditEvent where
  "demo_audit_event = \<lparr>ae_EventID = ''e'', ae_PostID = 1, ae_AuthorID = 7, ae_AuditStatus = 0, ae_Remark = [],
                    ae_RawResponse = [], ae_Timestamp = 1\<rparr>"

lemma demo_auditor_frame: "tables (w_db (snd (demo_auditor c rq w))) = tables (w_db w)"
  by (simp add: demo_auditor_def MockAuditor_Review_def doc_rt_def)

abbreviation demo_audit_run :: "ctx \<Rightarrow> world \<Rightarrow> world" where
  "demo_audit_run c \<equiv> AuditConsumer_process doc_rt (NewAuditConsumer (NewPostRepository doc_rt doc_db)
     (NewAuditRepository doc_db) demo_auditor (NewFeedCache doc_rdb 1 1)) c demo_audit_event"

theorem audit_fails_closed_witness:
  "\<exists>p' images w2 r w3. p' \<in> set (t_posts (w_db (demo_audit_run Background pending_world))) \<and> p_IsVisible p' = PostVisible
     \<and> demo_auditor Background \<lparr>rq_PostID = 1, rq_AuthorID = 7, rq_Title = ''soup'', rq_Content = [], rq_ImageURLs = images\<rparr> w2 = (Inr r, w3)
     \<and> rr_Status r = AuditStatusMachinePass"
proof -
  let ?w' = "demo_audit_run Background pending_world"
  have "map p_IsVisible (t_posts (w_db ?w')) = [PostVisible]" by code_simp
  then obtain p' where p': "p' \<in> set (t_posts (w_db ?w'))" "p_IsVisible p' = PostVisible" by (auto simp: map_eq_Cons_conv)
  have new: "p' \<notin> set (t_posts (w_db pending_world))"
    using p'(2) by (auto simp: pending_world_def Let_def PostVisible_def PostInvisible_def)
  have fc: "fc_rdb (NewFeedCache doc_rdb 1 1) = doc_rdb" by (simp add: NewFeedCache_def)
  obtain found images w2 r w3 where f: "found \<in> set (t_posts (w_replica pending_world))"
      "demo_auditor Background \<lparr>rq_PostID = ae_PostID demo_audit_event, rq_AuthorID = ae_AuthorID demo_audit_event,
         rq_Title = p_Title found, rq_Content = p_Content found, rq_ImageURLs = images\<rparr> w2 = (Inr r, w3)"
      "rr_Status r = AuditStatusMachinePass"
    using audit_fails_closed [OF doc.platform_axioms fc demo_auditor_frame p'(1) new] p'(2)
    by (elim exE conjE) (simp add: Background_def)
  then have "p_Title found = ''soup''" "p_Content found = []"
    by (simp_all add: pending_world_def Let_def demo_post_def zero_Post_def)
  then have "demo_auditor Background \<lparr>rq_PostID = 1, rq_AuthorID = 7, rq_Title = ''soup'', rq_Content = [],
      rq_ImageURLs = images\<rparr> w2 = (Inr r, w3)"
    using f(2) by (simp add: demo_audit_event_def)
  with f(3) p' show ?thesis by blast
qed

text \<open>
  A review behind the replica is lost.  The consumer reads the post without forcing the
  primary: when the replica has not got the post yet, the handler acknowledges the event, the
  post stays as it is, and the auditor is not asked.
\<close>
theorem audit_lost_behind_replica:
  fixes a :: "'w AuditConsumer"
  assumes "platform rdb kv db master replica pub sent rt" "adq_postRepo a = NewPostRepository rt db"
    and "\<not> ForceMaster c" "AuditEvent_of_json payload = Inr e"
    and "\<forall>p\<in>set (t_posts (replica w)). p_ID p \<noteq> ae_PostID e"
  shows "\<exists>w'. audit_handler rt a c payload w = (None, w') \<and> tables (master w') = tables (master w)
     \<and> (\<forall>auditor. audit_handler rt (a\<lparr>adq_auditor := auditor\<rparr>) c payload w = (None, w'))"
proof (cases "ae_AuditStatus e = AuditStatusPending")
  case True
  obtain r w1 where f: "posts_FindByID db c (ae_PostID e) w = (r, w1)" by fastforce
  note law = platform.posts_find [OF assms(1) f]
  obtain x where "r = Inl x" using law assms(3,5) by (cases r) auto
  with f law True assms(2,4) show ?thesis
    by (simp add: audit_handler_def AuditConsumer_process_def NewPostRepository_def readonly_def)
next
  case False
  with assms(4) show ?thesis by (simp add: audit_handler_def)
qed

theorem audit_lost_behind_replica_witness:
  "\<exists>w'. audit_handler doc_rt (NewAuditConsumer (NewPostRepository doc_rt doc_db) (NewAuditRepository doc_db)
          demo_auditor (NewFeedCache doc_rdb 1 1)) Background (json_of_AuditEvent demo_audit_event)
          (pending_world\<lparr>w_replica := empty_db 0\<rparr>) = (None, w')
     \<and> map p_AuditStatus (t_posts (w_db w')) = [AuditStatusPending]"
proof -
  have e: "AuditEvent_of_json (json_of_AuditEvent demo_audit_event) = Inr demo_audit_event"
    by (rule AuditEvent_roundtrip) (simp add: demo_audit_event_def in_int64_def int64_min_def int64_max_def)
  have p: "adq_postRepo (NewAuditConsumer (NewPostRepository doc_rt doc_db) (NewAuditRepository doc_db)
          demo_auditor (NewFeedCache doc_rdb 1 1)) = NewPostRepository doc_rt doc_db"
    by (simp add: NewAuditConsumer_def)
  from audit_lost_behind_replica [OF doc.platform_axioms p _ e, of Background "pending_world\<lparr>w_replica := empty_db 0\<rparr>"]
  show ?thesis by (auto simp: Background_def empty_db_def pending_world_def tables_def Let_def)
qed

end
