(* ===== verification/BusSpec.thy ===== *)
theory BusSpec
  imports ChannelBus
begin

text \<open>
  What event.EventBus promises of the in-process bus, without channels and goroutines: a log of the
  messages accepted and handled per subscriber, and for every call of Publish the subscribers it
  still has to reach.  The bus of channel.go implements it, step by step of its goroutines.
\<close>

section \<open>The specification\<close>

text \<open>
  A call is refused or begins; at one moment after that it fixes its audience, the subscribers of the topic
  then; it reaches them one by one, in any order, and answers when none is left.  A log is what was
  accepted, and what was handled of it, in order; the logs of subscribers that left are kept.
\<close>

datatype spec_call = Begun Event | Reaching Event "nat set" | Answered Event error

type_synonym sub_history = "json list \<times> json list"

record bus_spec =
  bs_closed :: bool
  bs_logs :: "string \<Rightarrow> nat \<Rightarrow> sub_history option"
  bs_gone :: "nat \<Rightarrow> sub_history option"
  bs_calls :: "spec_call list"

text \<open>A message is accepted unless as many as the buffer holds wait to be handled.\<close>

definition accept :: "nat \<Rightarrow> json \<Rightarrow> sub_history \<Rightarrow> sub_history" where
  "accept n p l = (if length (fst l) - length (snd l) < n then (fst l @ [p], snd l) else l)"

definition at_log :: "nat \<Rightarrow> (sub_history \<Rightarrow> sub_history) \<Rightarrow> (nat \<Rightarrow> sub_history option) \<Rightarrow> nat \<Rightarrow> sub_history option" where
  "at_log i f m = m(i := map_option f (m i))"

definition set_call :: "nat \<Rightarrow> spec_call \<Rightarrow> bus_spec \<Rightarrow> bus_spec" where
  "set_call k c a = a\<lparr>bs_calls := (bs_calls a)[k := c]\<rparr>"

definition set_log :: "string \<Rightarrow> nat \<Rightarrow> sub_history option \<Rightarrow> bus_spec \<Rightarrow> bus_spec" where
  "set_log t i l a = a\<lparr>bs_logs := (bs_logs a)(t := (bs_logs a t)(i := l))\<rparr>"

inductive spec_step :: "nat \<Rightarrow> bus_spec \<Rightarrow> bus_spec \<Rightarrow> bool" for n where
  refuse: "bs_closed a \<Longrightarrow> e \<noteq> None \<Longrightarrow> spec_step n a (a\<lparr>bs_calls := bs_calls a @ [Answered evt e]\<rparr>)"
| begin_call: "\<not> bs_closed a \<Longrightarrow> spec_step n a (a\<lparr>bs_calls := bs_calls a @ [Begun evt]\<rparr>)"
| audience: "\<lbrakk>k < length (bs_calls a); bs_calls a ! k = Begun evt\<rbrakk>
     \<Longrightarrow> spec_step n a (set_call k (Reaching evt (dom (bs_logs a (ev_Topic evt)))) a)"
| reach: "\<lbrakk>k < length (bs_calls a); bs_calls a ! k = Reaching evt I; i \<in> I\<rbrakk>
     \<Longrightarrow> spec_step n a (set_call k (Reaching evt (I - {i}))
           (a\<lparr>bs_logs := (\<lambda>t. at_log i (accept n (ev_Payload evt)) (bs_logs a t)),
              bs_gone := at_log i (accept n (ev_Payload evt)) (bs_gone a)\<rparr>))"
| answer: "\<lbrakk>k < length (bs_calls a); bs_calls a ! k = Reaching evt {}\<rbrakk>
     \<Longrightarrow> spec_step n a (set_call k (Answered evt None) a)"
| deliver: "\<lbrakk>bs_logs a t i = Some (xs, hs); length hs < length xs\<rbrakk>
     \<Longrightarrow> spec_step n a (set_log t i (Some (xs, hs @ [xs ! length hs])) a)"
| join: "\<lbrakk>\<forall>t. bs_logs a t i = None; bs_gone a i = None\<rbrakk>
     \<Longrightarrow> spec_step n a (set_log t i (Some ([], [])) a)"
| part: "bs_logs a t i = Some l
     \<Longrightarrow> spec_step n a (set_log t i None (a\<lparr>bs_gone := (bs_gone a)(i \<mapsto> l)\<rparr>))"
| shut: "spec_step n a (a\<lparr>bs_closed := True\<rparr>)"

definition no_logs :: bus_spec where
  "no_logs = \<lparr>bs_closed = False, bs_logs = (\<lambda>t i. None), bs_gone = (\<lambda>i. None), bs_calls = []\<rparr>"

text \<open>
  What the specification guarantees a subscriber, whatever the interleaving: it handles what was accepted in
  that order and each message once, at most n messages wait, and only a message of a call that
  was not refused is ever accepted.
\<close>

inductive spec_reach :: "nat \<Rightarrow> bus_spec \<Rightarrow> bool" for n where
  start: "spec_reach n no_logs"
| step: "spec_reach n a \<Longrightarrow> spec_step n a a' \<Longrightarrow> spec_reach n a'"

fun admitted :: "spec_call \<Rightarrow> json set" where
  "admitted (Begun evt) = {ev_Payload evt}"
| "admitted (Reaching evt I) = {ev_Payload evt}"
| "admitted (Answered evt e) = (if e = None then {ev_Payload evt} else {})"

definition history_ok :: "nat \<Rightarrow> bus_spec \<Rightarrow> sub_history \<Rightarrow> bool" where
  "history_ok n a l \<longleftrightarrow> snd l = take (length (snd l)) (fst l) \<and> length (fst l) \<le> length (snd l) + n
     \<and> set (fst l) \<subseteq> (\<Union>c\<in>set (bs_calls a). admitted c)"

definition histories_ok :: "nat \<Rightarrow> bus_spec \<Rightarrow> bool" where
  "histories_ok n a \<longleftrightarrow> (\<forall>t i l. bs_logs a t i = Some l \<longrightarrow> history_ok n a l)
     \<and> (\<forall>i l. bs_gone a i = Some l \<longrightarrow> history_ok n a l)"

lemma history_ok_fields [simp]:
  "history_ok n (a\<lparr>bs_logs := m\<rparr>) = history_ok n a" "history_ok n (a\<lparr>bs_gone := g\<rparr>) = history_ok n a"
  "history_ok n (a\<lparr>bs_closed := c\<rparr>) = history_ok n a"
  "history_ok n a ([], [])"
  by (simp_all add: history_ok_def fun_eq_iff)

lemma histories_calls:
  assumes "histories_ok n a" "bs_logs a' = bs_logs a" "bs_gone a' = bs_gone a"
    and "(\<Union>c\<in>set (bs_calls a). admitted c) \<subseteq> (\<Union>c\<in>set (bs_calls a'). admitted c)"
  shows "histories_ok n a'"
proof -
  have "history_ok n a' l" if "history_ok n a l" for l using that assms(4) by (auto simp: history_ok_def)
  with assms(1-3) show ?thesis by (auto simp: histories_ok_def)
qed

lemma history_ok_accept:
  assumes "history_ok n a l" "p \<in> (\<Union>c\<in>set (bs_calls a). admitted c)"
  shows "history_ok n a (accept n p l)"
proof -
  have "length (snd l) \<le> length (fst l)" using assms(1) by (metis history_ok_def nat_le_linear take_all)
  with assms show ?thesis by (auto simp: history_ok_def accept_def)
qed

lemma history_ok_deliver:
  assumes "history_ok n a (xs, hs)" "length hs < length xs"
  shows "history_ok n a (xs, hs @ [xs ! length hs])"
  using assms by (auto simp: history_ok_def take_Suc_conv_app_nth)

lemma at_log_some: "at_log i f m j = Some l \<Longrightarrow> \<exists>l0. m j = Some l0 \<and> (l = l0 \<or> l = f l0)"
  by (cases "m j") (auto simp: at_log_def split: if_splits)

lemma admitted_update:
  assumes "k < length cs" "admitted c = admitted (cs ! k)"
  shows "(\<Union>c\<in>set (cs[k := c]). admitted c) = (\<Union>c\<in>set cs. admitted c)"
proof -
  have "map admitted (cs[k := c]) = map admitted cs" by (simp add: assms map_update list_update_same_conv)
  then show ?thesis by (metis list.set_map)
qed

lemma histories_step: "spec_step n a a' \<Longrightarrow> histories_ok n a \<Longrightarrow> histories_ok n a'"
proof (induction rule: spec_step.induct)
  case (refuse a e evt)
  from refuse(3) show ?case by (rule histories_calls) auto
next
  case (begin_call a evt)
  from begin_call(2) show ?case by (rule histories_calls) auto
next
  case (audience k a evt)
  from audience(3) show ?case by (rule histories_calls) (simp_all add: audience(1,2) set_call_def admitted_update)
next
  case (reach k a evt I i)
  have "admitted (bs_calls a ! k) = {ev_Payload evt}" using reach(2) by simp
  then have p: "ev_Payload evt \<in> (\<Union>c\<in>set (bs_calls a). admitted c)" using reach(1) nth_mem by blast
  let ?a = "set_call k (Reaching evt (I - {i})) (a\<lparr>bs_logs := (\<lambda>t. at_log i (accept n (ev_Payload evt)) (bs_logs a t)),
              bs_gone := at_log i (accept n (ev_Payload evt)) (bs_gone a)\<rparr>)"
  have "history_ok n ?a = history_ok n a"
    using reach(1,2) by (simp add: history_ok_def fun_eq_iff set_call_def admitted_update)
  moreover have "history_ok n a l" if "at_log i (accept n (ev_Payload evt)) m j = Some l"
    "\<And>l. m j = Some l \<Longrightarrow> history_ok n a l" for m j l
    using at_log_some [OF that(1)] that(2) history_ok_accept [OF _ p] by blast
  ultimately show ?case using reach(4)
    by (simp add: histories_ok_def set_call_def del: split_paired_All)
next
  case (answer k a evt)
  from answer(3) show ?case by (rule histories_calls) (simp_all add: answer(1,2) set_call_def admitted_update)
next
  case (deliver a t i xs hs)
  then have "history_ok n a (xs, hs @ [xs ! length hs])" by (metis histories_ok_def history_ok_deliver)
  with deliver show ?case by (auto simp: histories_ok_def set_log_def)
qed (auto simp: histories_ok_def set_log_def)

lemma histories_reach: "spec_reach n a \<Longrightarrow> histories_ok n a"
  by (induction rule: spec_reach.induct) (simp add: histories_ok_def no_logs_def, rule histories_step)

section \<open>The bus as an instance\<close>

definition sub_log :: "subscriber \<Rightarrow> sub_history" where
  "sub_log s = (sub_accepted s, sub_handled s)"

definition subs_abs :: "subscriber list \<Rightarrow> nat \<Rightarrow> sub_history option" where
  "subs_abs ss = map_of (map (\<lambda>s. (sub_id s, sub_log s)) ss)"

definition call_abs :: "publish_call \<Rightarrow> spec_call" where
  "call_abs c = (case pc_phase c of Checked \<Rightarrow> Begun (pc_evt c)
     | Sending is \<Rightarrow> Reaching (pc_evt c) (set is) | Returned e \<Rightarrow> Answered (pc_evt c) e)"

definition bus_abs :: "bus_system \<Rightarrow> bus_spec" where
  "bus_abs s = \<lparr>bs_closed = cb_closed (sy_bus s), bs_logs = (\<lambda>t. subs_abs (cb_subs (sy_bus s) t)),
     bs_gone = subs_abs (cb_left (sy_bus s)), bs_calls = map call_abs (sy_calls s)\<rparr>"

text \<open>The identities are fresh and different, and a call never holds a channel twice.\<close>

definition ids_ok :: "ChannelBus \<Rightarrow> bool" where
  "ids_ok b \<longleftrightarrow> (\<forall>t. distinct (map sub_id (cb_subs b t)) \<and> (\<forall>s\<in>set (cb_subs b t). sub_id s < cb_next b))
     \<and> (\<forall>s\<in>set (cb_left b). sub_id s < cb_next b)"

definition calls_ok :: "publish_call list \<Rightarrow> bool" where
  "calls_ok cs \<longleftrightarrow> (\<forall>c\<in>set cs. \<forall>is. pc_phase c = Sending is \<longrightarrow> distinct is)"

lemma ids_fresh:
  assumes "ids_ok b"
  shows "cb_next b \<notin> sub_id ` set (cb_subs b t)" "cb_next b \<notin> sub_id ` set (cb_left b)"
  using assms unfolding ids_ok_def by (metis imageE less_irrefl)+

lemma offer_id [simp]: "sub_id (offer n p s) = sub_id s"
  by (simp add: offer_def)

lemma receive_id [simp]: "sub_id (receive s) = sub_id s"
  by (simp add: receive_def split: list.split)

lemma ids_on_sub:
  assumes "ids_ok b" "\<And>s. sub_id (f s) = sub_id s"
  shows "ids_ok (on_sub t i f b)"
proof -
  have "sub_id \<circ> (\<lambda>s. if sub_id s = i then f s else s) = sub_id" by (auto simp: assms(2))
  with assms show ?thesis by (auto simp: ids_ok_def on_sub_def)
qed

lemma ids_send: "ids_ok b \<Longrightarrow> ids_ok (Publish_send evt i b)"
proof -
  have "sub_id \<circ> (\<lambda>s. if sub_id s = i then offer n p s else s) = sub_id" for n p by auto
  then show "ids_ok b \<Longrightarrow> ids_ok (Publish_send evt i b)" by (auto simp: ids_ok_def Publish_send_def)
qed

lemma ids_step: "bus_step s s' \<Longrightarrow> ids_ok (sy_bus s) \<Longrightarrow> ids_ok (sy_bus s')"
proof (induction rule: bus_step.induct)
  case (close s)
  then show ?case by (auto simp: ChannelBus_Close_def ids_ok_def)
next
  case (subscribe s t)
  with ids_fresh [OF subscribe] show ?case by (auto simp: ids_ok_def new_subscriber_def less_Suc_eq)
next
  case (leave s t xs x ys)
  then have "distinct (map sub_id (xs @ x # ys))" "\<forall>s'\<in>set (xs @ x # ys). sub_id s' < cb_next (sy_bus s)"
    unfolding ids_ok_def by metis+
  with leave show ?case by (auto simp: ids_ok_def)
qed (auto intro!: ids_on_sub ids_send)

lemma ids_reach: "bus_reach n s \<Longrightarrow> ids_ok (sy_bus s)"
  by (induction rule: bus_reach.induct) (simp add: ids_ok_def NewChannelBus_def, rule ids_step)

lemma calls_update: "calls_ok cs \<Longrightarrow> (\<And>is. pc_phase c = Sending is \<Longrightarrow> distinct is) \<Longrightarrow> calls_ok (cs[k := c])"
  using set_update_subset_insert by (fastforce simp: calls_ok_def)

lemma calls_step: "bus_step s s' \<Longrightarrow> ids_ok (sy_bus s) \<Longrightarrow> calls_ok (sy_calls s) \<Longrightarrow> calls_ok (sy_calls s')"
proof (induction rule: bus_step.induct)
  case (call s evt)
  then show ?case by (auto simp: calls_ok_def Publish_check_def split: if_splits)
next
  case (snapshot k s evt)
  then show ?case by (auto simp: Publish_snapshot_def ids_ok_def intro!: calls_update)
next
  case (send k s evt i js)
  then have "distinct (i # js)" using nth_mem [OF send(1)] by (auto simp: calls_ok_def)
  with send show ?case by (auto intro!: calls_update)
qed (auto intro!: calls_update)

lemma calls_reach: "bus_reach n s \<Longrightarrow> calls_ok (sy_calls s)"
  by (induction rule: bus_reach.induct) (simp add: calls_ok_def, blast intro: calls_step ids_reach)

section \<open>Refinement\<close>

lemma subs_abs_simps [simp]:
  "subs_abs [] = Map.empty" "subs_abs (s # ss) = (subs_abs ss)(sub_id s \<mapsto> sub_log s)"
  by (simp_all add: subs_abs_def)

lemma subs_abs_none: "i \<notin> sub_id ` set ss \<Longrightarrow> subs_abs ss i = None"
  by (induction ss) auto

lemma subs_abs_snoc: "sub_id s \<notin> sub_id ` set ss \<Longrightarrow> subs_abs (ss @ [s]) = (subs_abs ss)(sub_id s \<mapsto> sub_log s)"
  by (induction ss) (auto simp: fun_upd_twist)

lemma subs_abs_remove:
  "distinct (map sub_id (xs @ s # ys)) \<Longrightarrow> subs_abs (xs @ ys) = (subs_abs (xs @ s # ys))(sub_id s := None)"
proof (induction xs)
  case Nil
  then show ?case using subs_abs_none [of "sub_id s" ys] by (simp add: fun_eq_iff)
next
  case (Cons x xs)
  then show ?case by (auto simp: fun_eq_iff)
qed

lemma subs_abs_map:
  assumes "\<And>s. s \<in> set ss \<Longrightarrow> sub_id (f s) = sub_id s \<and> sub_log (f s) = g (sub_log s)"
  shows "subs_abs (map f ss) = map_option g \<circ> subs_abs ss"
  using assms by (induction ss) (auto simp: subs_abs_def fun_eq_iff)

lemma subs_abs_same:
  assumes "\<And>s. s \<in> set ss \<Longrightarrow> sub_id (f s) = sub_id s \<and> sub_log (f s) = sub_log s"
  shows "subs_abs (map f ss) = subs_abs ss"
  using assms by (induction ss) (auto simp: subs_abs_def)

lemma subs_abs_at:
  assumes "distinct (map sub_id ss)" "s \<in> set ss"
  shows "subs_abs ss (sub_id s) = Some (sub_log s)"
  using assms unfolding subs_abs_def by (auto intro!: map_of_is_SomeI simp: o_def)

lemma subs_abs_update:
  assumes "distinct (map sub_id ss)" "s \<in> set ss" "\<And>x. sub_id (f x) = sub_id x"
  shows "subs_abs (map (\<lambda>x. if sub_id x = sub_id s then f x else x) ss) = (subs_abs ss)(sub_id s \<mapsto> sub_log (f s))"
  using assms(1,2)
proof (induction ss)
  case (Cons a ss)
  let ?g = "\<lambda>x. if sub_id x = sub_id s then f x else x"
  show ?case
  proof (cases "a = s")
    case True
    with Cons.prems(1) have "\<And>x. x \<in> set ss \<Longrightarrow> sub_id x \<noteq> sub_id s" by simp (metis imageI)
    then have "map ?g ss = ss" by (intro map_idI) simp
    with True assms(3) show ?thesis by (simp add: subs_abs_def fun_eq_iff)
  next
    case False
    with Cons.prems have "subs_abs (map ?g ss) = (subs_abs ss)(sub_id s \<mapsto> sub_log (f s))" "sub_id a \<noteq> sub_id s"
      using Cons.IH by auto
    then show ?thesis by (simp add: subs_abs_def fun_eq_iff)
  qed
qed simp

lemma sub_log_offer:
  assumes "sub_inv n s" shows "sub_log (offer n p s) = accept n p (sub_log s)"
  using assms by (auto simp: sub_inv_def offer_def sub_log_def accept_def)

lemma subs_abs_dom: "dom (subs_abs ss) = set (map sub_id ss)"
  by (simp add: subs_abs_def dom_map_of_conv_image_fst image_image)

lemma subs_abs_send:
  assumes "list_all (sub_inv n) ss"
  shows "subs_abs (map (\<lambda>s. if sub_id s = i then offer n p s else s) ss) = at_log i (accept n p) (subs_abs ss)"
  using assms by (induction ss) (auto simp: sub_log_offer at_log_def fun_eq_iff)

lemma abs_on_sub:
  "bus_abs (on_bus (on_sub t i f) s) = (bus_abs s)\<lparr>bs_logs := (bs_logs (bus_abs s))
     (t := subs_abs (map (\<lambda>x. if sub_id x = i then f x else x) (cb_subs (sy_bus s) t)))\<rparr>"
  by (auto simp: bus_abs_def on_sub_def fun_eq_iff)

lemma abs_set_phase:
  "k < length (sy_calls s) \<Longrightarrow> sy_calls s ! k = \<lparr>pc_evt = evt, pc_phase = p\<rparr>
     \<Longrightarrow> bus_abs (set_phase k p' s) = set_call k (call_abs \<lparr>pc_evt = evt, pc_phase = p'\<rparr>) (bus_abs s)"
  by (simp add: bus_abs_def set_call_def map_update)

lemma abs_call: "k < length (sy_calls s) \<Longrightarrow> bs_calls (bus_abs s) ! k = call_abs (sy_calls s ! k)"
  by (simp add: bus_abs_def)

lemma abs_calls_length [simp]: "length (bs_calls (bus_abs s)) = length (sy_calls s)"
  by (simp add: bus_abs_def)

text \<open>The steps of a call of Publish.\<close>

lemma call_refines: "spec_step n (bus_abs s) (bus_abs (s\<lparr>sy_calls := sy_calls s @ [Publish_check evt (sy_bus s)]\<rparr>))"
proof (cases "cb_closed (sy_bus s)")
  case True
  with spec_step.refuse [of "bus_abs s" "Some (Plain ''event bus: publish on closed bus'')" n evt] show ?thesis
    by (simp add: bus_abs_def Publish_check_def call_abs_def)
next
  case False
  with spec_step.begin_call [of "bus_abs s" n evt] show ?thesis
    by (simp add: bus_abs_def Publish_check_def call_abs_def)
qed

lemma snapshot_refines:
  assumes "k < length (sy_calls s)" "sy_calls s ! k = \<lparr>pc_evt = evt, pc_phase = Checked\<rparr>"
  shows "spec_step n (bus_abs s) (bus_abs (set_phase k (Sending (Publish_snapshot evt (sy_bus s))) s))"
proof -
  have "bs_calls (bus_abs s) ! k = Begun evt" using assms by (simp add: abs_call call_abs_def)
  moreover have "dom (bs_logs (bus_abs s) (ev_Topic evt)) = set (Publish_snapshot evt (sy_bus s))"
    by (simp add: bus_abs_def subs_abs_dom Publish_snapshot_def)
  ultimately show ?thesis using spec_step.audience [of k "bus_abs s" evt n] assms
    by (simp add: abs_set_phase call_abs_def)
qed

lemma send_refines:
  assumes "bus_reach n s" "k < length (sy_calls s)" "sy_calls s ! k = \<lparr>pc_evt = evt, pc_phase = Sending (i # js)\<rparr>"
  shows "spec_step n (bus_abs s) (bus_abs (set_phase k (Sending js) (on_bus (Publish_send evt i) s)))"
proof -
  let ?acc = "at_log i (accept n (ev_Payload evt))"
  have inv: "cb_bufSize (sy_bus s) = n" "\<And>t. list_all (sub_inv n) (cb_subs (sy_bus s) t)" "list_all (sub_inv n) (cb_left (sy_bus s))"
    using bus_inv_reach [OF assms(1)] by (simp_all add: bus_inv_def)
  have "distinct (i # js)" using calls_reach [OF assms(1)] nth_mem [OF assms(2)] assms(3) by (auto simp: calls_ok_def)
  then have rest: "insert i (set js) - {i} = set js" by auto
  have c: "bs_calls (bus_abs s) ! k = Reaching evt (set (i # js))" using assms(2,3) by (simp add: abs_call call_abs_def)
  have "bus_abs (on_bus (Publish_send evt i) s)
      = (bus_abs s)\<lparr>bs_logs := (\<lambda>t. ?acc (bs_logs (bus_abs s) t)), bs_gone := ?acc (bs_gone (bus_abs s))\<rparr>"
    by (simp add: bus_abs_def Publish_send_def inv subs_abs_send)
  with spec_step.reach [OF _ c, of i n] assms(2,3) rest show ?thesis
    by (simp add: abs_set_phase call_abs_def)
qed

lemma return_refines:
  assumes "k < length (sy_calls s)" "sy_calls s ! k = \<lparr>pc_evt = evt, pc_phase = Sending []\<rparr>"
  shows "spec_step n (bus_abs s) (bus_abs (set_phase k (Returned None) s))"
  using spec_step.answer [of k "bus_abs s" evt n] assms by (simp add: abs_set_phase abs_call call_abs_def)

text \<open>The steps of a subscriber's goroutine that change the logs.\<close>

lemma subscribe_refines:
  assumes "bus_reach n s"
  shows "spec_step n (bus_abs s) (bus_abs (on_bus (\<lambda>b. b\<lparr>cb_subs := (cb_subs b)(t := cb_subs b t @ [new_subscriber (cb_next b)]),
           cb_next := cb_next b + 1\<rparr>) s))"
proof -
  let ?b = "sy_bus s" and ?i = "cb_next (sy_bus s)"
  note fresh = ids_fresh [OF ids_reach [OF assms]]
  have "\<forall>t. bs_logs (bus_abs s) t ?i = None" "bs_gone (bus_abs s) ?i = None"
    using subs_abs_none fresh by (simp_all add: bus_abs_def)
  from spec_step.join [OF this] moreover
  have "subs_abs (cb_subs ?b t @ [new_subscriber ?i]) = (subs_abs (cb_subs ?b t))(?i \<mapsto> ([], []))"
    using subs_abs_snoc [of "new_subscriber ?i"] fresh(1) by (simp add: new_subscriber_def sub_log_def)
  then have "bus_abs (on_bus (\<lambda>b. b\<lparr>cb_subs := (cb_subs b)(t := cb_subs b t @ [new_subscriber (cb_next b)]),
           cb_next := cb_next b + 1\<rparr>) s) = set_log t ?i (Some ([], [])) (bus_abs s)"
    by (auto simp: bus_abs_def set_log_def)
  ultimately show ?thesis by metis
qed

lemma receive_refines:
  assumes "bus_reach n s" "x \<in> set (cb_subs (sy_bus s) t)" "sub_queue x \<noteq> []"
  shows "spec_step n (bus_abs s) (bus_abs (on_bus (on_sub t (sub_id x) receive) s))"
proof -
  obtain p ps where q: "sub_queue x = p # ps" using assms(3) by (cases "sub_queue x") auto
  have ids: "distinct (map sub_id (cb_subs (sy_bus s) t))" using ids_reach [OF assms(1)] by (simp add: ids_ok_def)
  have inv: "sub_inv n x" using bus_inv_reach [OF assms(1)] assms(2) by (auto simp: bus_inv_def list_all_iff)
  have at: "bs_logs (bus_abs s) t (sub_id x) = Some (sub_accepted x, sub_handled x)"
    using subs_abs_at [OF ids assms(2)] by (simp add: bus_abs_def sub_log_def)
  have n: "length (sub_handled x) < length (sub_accepted x)" "sub_accepted x ! length (sub_handled x) = p"
    using inv q by (simp_all add: sub_inv_def)
  have "bus_abs (on_bus (on_sub t (sub_id x) receive) s) = set_log t (sub_id x) (Some (sub_log (receive x))) (bus_abs s)"
    using subs_abs_update [OF ids assms(2), of receive] by (simp add: abs_on_sub set_log_def) (simp add: bus_abs_def)
  moreover have "sub_log (receive x) = (sub_accepted x, sub_handled x @ [sub_accepted x ! length (sub_handled x)])"
    using q n(2) by (simp add: receive_def sub_log_def)
  ultimately show ?thesis using spec_step.deliver [OF at n(1), of n] by metis
qed

lemma leave_refines:
  assumes "bus_reach n s" "cb_subs (sy_bus s) t = xs @ x # ys"
  shows "spec_step n (bus_abs s) (bus_abs (on_bus (\<lambda>b. b\<lparr>cb_subs := (cb_subs b)(t := xs @ ys), cb_left := x # cb_left b\<rparr>) s))"
proof -
  have ids: "distinct (map sub_id (xs @ x # ys))" using ids_reach [OF assms(1)] assms(2) unfolding ids_ok_def by metis
  then have "subs_abs (xs @ ys) = (subs_abs (xs @ x # ys))(sub_id x := None)" by (rule subs_abs_remove)
  then have "bus_abs (on_bus (\<lambda>b. b\<lparr>cb_subs := (cb_subs b)(t := xs @ ys), cb_left := x # cb_left b\<rparr>) s)
      = set_log t (sub_id x) None ((bus_abs s)\<lparr>bs_gone := (bs_gone (bus_abs s))(sub_id x \<mapsto> sub_log x)\<rparr>)"
    using assms(2) by (auto simp: bus_abs_def set_log_def)
  moreover have "bs_logs (bus_abs s) t (sub_id x) = Some (sub_log x)"
    using subs_abs_at [OF ids, of x] assms(2) by (simp add: bus_abs_def)
  ultimately show ?thesis using spec_step.part by metis
qed

text \<open>The others leave them as they are.\<close>

lemma silent_refines:
  assumes "\<And>x. sub_id (f x) = sub_id x \<and> sub_log (f x) = sub_log x"
  shows "bus_abs (on_bus (on_sub t i f) s) = bus_abs s"
  by (simp add: abs_on_sub) (subst subs_abs_same, auto simp: assms bus_abs_def)

lemma bus_step_refines:
  assumes "bus_reach n s" "bus_step s s'"
  shows "spec_step n (bus_abs s) (bus_abs s') \<or> bus_abs s' = bus_abs s"
  using assms(2)
proof cases
  case (call evt)
  then show ?thesis using call_refines by simp
next
  case (snapshot k evt)
  then show ?thesis using snapshot_refines by simp
next
  case (send k evt i js)
  then show ?thesis using send_refines [OF assms(1)] by simp
next
  case (return k evt)
  then show ?thesis using return_refines by simp
next
  case close
  then have "bus_abs s' = (bus_abs s)\<lparr>bs_closed := True\<rparr>" by (auto simp: ChannelBus_Close_def bus_abs_def)
  then show ?thesis using spec_step.shut by metis
next
  case (subscribe t)
  then show ?thesis using subscribe_refines [OF assms(1)] by simp
next
  case (receive x t i)
  then show ?thesis using receive_refines [OF assms(1), of x t] by simp
next
  case (leave t xs x ys)
  then show ?thesis using leave_refines [OF assms(1)] by simp
qed (simp_all add: silent_refines sub_log_def)

lemma bus_reach_refines: "bus_reach n s \<Longrightarrow> spec_reach n (bus_abs s)"
proof (induction rule: bus_reach.induct)
  case start
  have "bus_abs \<lparr>sy_bus = NewChannelBus n, sy_calls = []\<rparr> = no_logs"
    by (simp add: bus_abs_def no_logs_def NewChannelBus_def fun_eq_iff)
  then show ?case by (simp add: spec_reach.start)
next
  case (step s s')
  then show ?case using bus_step_refines [OF step(1,2)] spec_reach.step by metis
qed

text \<open>
  C23: The in-process bus refines its specification.  From every state the bus can reach, every
  step of a publisher's, a subscriber's or a closing goroutine is a step of the specification, or
  leaves the logs and calls as they are.  Publish is not atomic: its closed check, the copy of the
  channel list and each single send are steps of their own, so a message may still be accepted
  after Close or by a subscriber that has left, and two subscribers may see two messages in different
  orders.  Whatever the interleaving, a subscriber handles what its channel accepted in that order and each
  message once, at most as many wait as the buffer holds, and nothing is accepted but the
  payload of a call of Publish that was not refused.
\<close>
theorem channel_bus_refines:
  assumes "bus_reach n s" "bus_step s s'"
  shows "(spec_step n (bus_abs s) (bus_abs s') \<or> bus_abs s' = bus_abs s) \<and> histories_ok n (bus_abs s')"
proof
  have "bus_reach n s'" using assms by (rule bus_reach.step)
  then show "histories_ok n (bus_abs s')" by (intro histories_reach bus_reach_refines)
qed (rule bus_step_refines [OF assms])

text \<open>A publisher between its check and its send, when the only subscriber leaves and the bus is closed.\<close>

definition late_event :: Event where
  "late_event = \<lparr>ev_ID = ''e1'', ev_Topic = TopicLike, ev_Timestamp = 5, ev_Payload = JNum 7\<rparr>"

definition late_bus :: bus_system where
  "late_bus = \<lparr>sy_bus = \<lparr>cb_subs = (\<lambda>_. []), cb_bufSize = 1, cb_closed = True, cb_next = 1,
       cb_left = [(new_subscriber 0)\<lparr>sub_phase := Leaving, sub_cancelled := True\<rparr>]\<rparr>,
     sy_calls = [\<lparr>pc_evt = late_event, pc_phase = Sending [0]\<rparr>]\<rparr>"

lemma late_reach: "bus_reach 1 late_bus"
proof -
  let ?s0 = "\<lparr>sy_bus = NewChannelBus 1, sy_calls = []\<rparr>"
  let ?s1 = "on_bus (\<lambda>b. b\<lparr>cb_subs := (cb_subs b)(TopicLike := cb_subs b TopicLike @ [new_subscriber (cb_next b)]),
    cb_next := cb_next b + 1\<rparr>) ?s0"
  let ?s2 = "?s1\<lparr>sy_calls := sy_calls ?s1 @ [Publish_check late_event (sy_bus ?s1)]\<rparr>"
  let ?s3 = "set_phase 0 (Sending (Publish_snapshot late_event (sy_bus ?s2))) ?s2"
  let ?s4 = "on_bus (on_sub TopicLike 0 (\<lambda>x. x\<lparr>sub_cancelled := True\<rparr>)) ?s3"
  let ?s5 = "on_bus (on_sub TopicLike 0 (\<lambda>x. x\<lparr>sub_phase := Draining\<rparr>)) ?s4"
  let ?s6 = "on_bus (on_sub TopicLike 0 (\<lambda>x. x\<lparr>sub_phase := Leaving\<rparr>)) ?s5"
  let ?x = "(new_subscriber 0)\<lparr>sub_phase := Leaving, sub_cancelled := True\<rparr>"
  let ?s7 = "on_bus (\<lambda>b. b\<lparr>cb_subs := (cb_subs b)(TopicLike := [] @ []), cb_left := ?x # cb_left b\<rparr>) ?s6"
  note eval = NewChannelBus_def Publish_check_def Publish_snapshot_def new_subscriber_def on_sub_def late_event_def
  have "bus_reach 1 ?s2"
    by (rule bus_reach.step [OF bus_reach.step [OF bus_reach.start bus_step.subscribe] bus_step.call])
  moreover have "bus_step ?s2 ?s3" by (rule bus_step.snapshot) (simp_all add: eval)
  moreover have "bus_step ?s3 ?s4" by (rule bus_step.cancel)
  moreover have "bus_step ?s4 ?s5" by (rule bus_step.ctx_done) (simp add: eval)+
  moreover have "bus_step ?s5 ?s6" by (rule bus_step.drained) (simp add: eval)+
  moreover have "bus_step ?s6 ?s7" by (rule bus_step.leave) (simp_all add: eval)
  ultimately have "bus_reach 1 ?s7" by (meson bus_reach.step)
  from bus_reach.step [OF this bus_step.close] moreover
  have "on_bus (\<lambda>b. snd (ChannelBus_Close b)) ?s7 = late_bus"
    by (auto simp: eval late_bus_def ChannelBus_Close_def fun_eq_iff intro!: bus_system.equality ChannelBus.equality)
  ultimately show ?thesis by simp
qed

theorem channel_bus_refines_witness:
  "\<exists>s'. bus_step late_bus s' \<and> spec_step 1 (bus_abs late_bus) (bus_abs s')
     \<and> bs_closed (bus_abs late_bus) \<and> bs_gone (bus_abs s') 0 = Some ([JNum 7], [])"
proof -
  let ?s = "set_phase 0 (Sending []) (on_bus (Publish_send late_event 0) late_bus)"
  have step: "bus_step late_bus ?s" by (rule bus_step.send) (simp_all add: late_bus_def)
  have after: "bs_gone (bus_abs ?s) 0 = Some ([JNum 7], [])"
    by (simp add: bus_abs_def late_bus_def Publish_send_def new_subscriber_def offer_def late_event_def sub_log_def)
  have before: "bs_gone (bus_abs late_bus) 0 = Some ([], [])" "bs_closed (bus_abs late_bus)"
    by (simp_all add: bus_abs_def late_bus_def new_subscriber_def sub_log_def)
  from channel_bus_refines [OF late_reach step] step before after show ?thesis by auto
qed

end
