(* ===== verification/Utf8.thy ===== *)
theory Utf8
  imports Text
begin

text \<open>
  UTF-8 as Go decodes it: the runes of a string, an invalid byte being U+FFFD of width one, the
  encoding of runes, and strings.Map, strings.ContainsRune and strings.Fields over them.
\<close>

section \<open>Decoding and encoding\<close>

definition between :: "nat \<Rightarrow> nat \<Rightarrow> nat \<Rightarrow> bool" where
  "between lo hi b \<longleftrightarrow> lo \<le> b \<and> b \<le> hi"

text \<open>The range of the second byte after a first byte of three or four.\<close>

definition second_lo :: "nat \<Rightarrow> nat" where
  "second_lo b = (if b = 224 then 160 else if b = 240 then 144 else 128)"

definition second_hi :: "nat \<Rightarrow> nat" where
  "second_hi b = (if b = 237 then 159 else if b = 244 then 143 else 191)"

text \<open>The first rune and its width.\<close>

definition decode_rune :: "nat list \<Rightarrow> nat \<times> nat" where
  "decode_rune bs =
     (case bs of
        [] \<Rightarrow> (65533, 0)
      | b # rest \<Rightarrow>
          if b < 128 then (b, 1)
          else (case rest of
             [] \<Rightarrow> (65533, 1)
           | c # rest \<Rightarrow>
               if between 194 223 b then
                 if between 128 191 c then ((b - 192) * 64 + (c - 128), 2) else (65533, 1)
               else (case rest of
                  [] \<Rightarrow> (65533, 1)
                | d # rest \<Rightarrow>
                    if between 224 239 b then
                      if between (second_lo b) (second_hi b) c \<and> between 128 191 d
                      then ((b - 224) * 4096 + (c - 128) * 64 + (d - 128), 3) else (65533, 1)
                    else (case rest of
                       [] \<Rightarrow> (65533, 1)
                     | e # rest \<Rightarrow>
                         if between 240 244 b \<and> between (second_lo b) (second_hi b) c \<and> between 128 191 d \<and> between 128 191 e
                         then ((b - 240) * 262144 + (c - 128) * 4096 + (d - 128) * 64 + (e - 128), 4)
                         else (65533, 1)))))"

lemma decode_width: "bs \<noteq> [] \<Longrightarrow> 1 \<le> snd (decode_rune bs)"
  by (auto simp: decode_rune_def split: list.splits)

function decode_runes :: "nat list \<Rightarrow> nat list" where
  "decode_runes bs =
     (if bs = [] then [] else fst (decode_rune bs) # decode_runes (drop (snd (decode_rune bs)) bs))"
  by auto
termination
proof (relation "measure length")
  fix bs :: "nat list" assume "bs \<noteq> []"
  with decode_width [of bs] show "(drop (snd (decode_rune bs)) bs, bs) \<in> measure length" by (cases bs) auto
qed simp

declare decode_runes.simps [simp del]

definition runes :: "string \<Rightarrow> nat list" where
  "runes s = decode_runes (map byte_of s)"

definition valid_rune :: "nat \<Rightarrow> bool" where
  "valid_rune r \<longleftrightarrow> r < 55296 \<or> 57344 \<le> r \<and> r < 1114112"

text \<open>A value that is not a rune is encoded as U+FFFD.\<close>

definition encode_rune :: "nat \<Rightarrow> nat list" where
  "encode_rune r0 =
     (let r = (if valid_rune r0 then r0 else 65533) in
      if r < 128 then [r]
      else if r < 2048 then [192 + r div 64, 128 + r mod 64]
      else if r < 65536 then [224 + r div 4096, 128 + r div 64 mod 64, 128 + r mod 64]
      else [240 + r div 262144, 128 + r div 4096 mod 64, 128 + r div 64 mod 64, 128 + r mod 64])"

definition string_of_runes :: "nat list \<Rightarrow> string" where
  "string_of_runes rs = map char_of (concat (map encode_rune rs))"

section \<open>Functions of the strings package\<close>

definition ContainsRune :: "string \<Rightarrow> nat \<Rightarrow> bool" where
  "ContainsRune s r \<longleftrightarrow> r \<in> set (runes s)"

definition IsSpace :: "nat \<Rightarrow> bool" where
  "IsSpace r \<longleftrightarrow> between 9 13 r \<or> between 8192 8202 r \<or> r \<in> {32, 133, 160, 5760, 8232, 8233, 8239, 8287, 12288}"

text \<open>The fields of a list of runes: the maximal runs without a space.\<close>

fun fields_from :: "nat list \<Rightarrow> nat list \<Rightarrow> nat list list" where
  "fields_from cur [] = (if cur = [] then [] else [cur])"
| "fields_from cur (r # rs) =
     (if IsSpace r then (if cur = [] then fields_from [] rs else cur # fields_from [] rs)
      else fields_from (cur @ [r]) rs)"

definition Fields :: "string \<Rightarrow> string list" where
  "Fields s = map string_of_runes (fields_from [] (runes s))"

section \<open>Round trip\<close>

lemma decode_encode:
  assumes "valid_rune r"
  shows "decode_rune (encode_rune r @ bs) = (r, length (encode_rune r))"
proof -
  consider (1) "r < 128" | (2) "128 \<le> r" "r < 2048" | (3) "2048 \<le> r" "r < 65536" | (4) "65536 \<le> r" by linarith
  then show ?thesis
  proof cases
    case 1
    then show ?thesis using assms by (simp add: encode_rune_def decode_rune_def)
  next
    case 2
    have "2 \<le> r div 64" "r div 64 < 32" using 2 by auto
    then show ?thesis using 2 assms by (simp add: encode_rune_def decode_rune_def between_def)
  next
    case 3
    have a: "r div 4096 \<le> 15" "r div 64 mod 64 \<le> 63" "r mod 64 \<le> 63"
      using 3 mod_less_divisor [of 64 "r div 64"] mod_less_divisor [of 64 r] by auto
    have e: "r div 4096 * 64 + r div 64 mod 64 = r div 64" "r div 64 * 64 + r mod 64 = r"
      using div_mult_mod_eq [of "r div 64" 64] by (simp_all flip: div_mult2_eq)
    then have sum: "r div 4096 * 4096 + r div 64 mod 64 * 64 + r mod 64 = r" by linarith
    have lo: "32 \<le> r div 64 mod 64" if "r div 4096 = 0" using that 3 sum a by linarith
    have hi: "r div 64 mod 64 \<le> 31" if "r div 4096 = 13"
    proof -
      have "r < 57344" using sum a unfolding that by linarith
      with assms have "r < 55296" by (simp add: valid_rune_def)
      with sum show ?thesis unfolding that by linarith
    qed
    show ?thesis using 3 assms a sum lo hi
      by (auto simp: encode_rune_def decode_rune_def between_def second_lo_def second_hi_def Let_def)
  next
    case 4
    have l: "r < 1114112" using assms 4 by (auto simp: valid_rune_def)
    have a: "r div 262144 \<le> 4" "r div 4096 mod 64 \<le> 63" "r div 64 mod 64 \<le> 63" "r mod 64 \<le> 63"
      using l mod_less_divisor [of 64 "r div 4096"] mod_less_divisor [of 64 "r div 64"] mod_less_divisor [of 64 r] by auto
    have e: "r div 262144 * 64 + r div 4096 mod 64 = r div 4096" "r div 4096 * 64 + r div 64 mod 64 = r div 64"
      "r div 64 * 64 + r mod 64 = r"
      using div_mult_mod_eq [of "r div 64" 64] div_mult_mod_eq [of "r div 4096" 64] by (simp_all flip: div_mult2_eq)
    then have sum: "r div 262144 * 262144 + r div 4096 mod 64 * 4096 + r div 64 mod 64 * 64 + r mod 64 = r" by linarith
    have lo: "16 \<le> r div 4096 mod 64" if "r div 262144 = 0" using that 4 sum a by linarith
    have hi: "r div 4096 mod 64 \<le> 15" if "r div 262144 = 4" using l sum unfolding that by linarith
    show ?thesis using 4 l assms a sum lo hi
      by (auto simp: encode_rune_def decode_rune_def between_def second_lo_def second_hi_def Let_def)
  qed
qed

lemma encode_bytes: "b \<in> set (encode_rune r) \<Longrightarrow> b < 256"
  by (auto simp: encode_rune_def Let_def valid_rune_def split: if_splits)

lemma encode_nonempty [simp]: "encode_rune r \<noteq> []"
  by (simp add: encode_rune_def Let_def)

lemma decode_runes_encode:
  "list_all valid_rune rs \<Longrightarrow> decode_runes (concat (map encode_rune rs)) = rs"
proof (induction rs)
  case Nil
  show ?case by (simp add: decode_runes.simps)
next
  case (Cons r rs)
  then show ?case
    by (subst decode_runes.simps) (simp add: decode_encode)
qed

text \<open>Runes survive being written and read.\<close>

lemma runes_string [simp]:
  assumes "list_all valid_rune rs" shows "runes (string_of_runes rs) = rs"
proof -
  have "byte_of (char_of b) = b" if "b \<in> set (concat (map encode_rune rs))" for b
    using that encode_bytes by (auto simp: byte_of_def)
  then have "map byte_of (string_of_runes rs) = concat (map encode_rune rs)"
    unfolding string_of_runes_def map_map by (intro map_idI) (simp only: o_apply)
  then show ?thesis using decode_runes_encode [OF assms] by (simp add: runes_def)
qed

lemma valid_ascii: "b < 128 \<Longrightarrow> valid_rune b" and valid_65533: "valid_rune 65533"
  by (simp_all add: valid_rune_def)

lemma valid_two: "between 194 223 b \<Longrightarrow> between 128 191 c \<Longrightarrow> valid_rune ((b - 192) * 64 + (c - 128))"
  unfolding between_def valid_rune_def by linarith

lemma valid_three:
  assumes "between 224 239 b" "between (second_lo b) (second_hi b) c" "between 128 191 d"
  shows "valid_rune ((b - 224) * 4096 + (c - 128) * 64 + (d - 128))"
proof -
  consider "b \<le> 236" | "b = 237" | "238 \<le> b" by linarith
  then show ?thesis
  proof cases
    case 1
    have "c \<le> 191" using assms(2) by (auto simp: between_def second_hi_def split: if_splits)
    then show ?thesis using 1 assms(1,3) unfolding between_def valid_rune_def by linarith
  next
    case 2
    have "c \<le> 159" using assms(2) 2 by (auto simp: between_def second_hi_def)
    then show ?thesis using 2 assms(1,3) unfolding between_def valid_rune_def by linarith
  next
    case 3
    have "c \<le> 191" using assms(2) by (auto simp: between_def second_hi_def split: if_splits)
    then show ?thesis using 3 assms(1,3) unfolding between_def valid_rune_def by linarith
  qed
qed

lemma valid_four:
  assumes "between 240 244 b" "between (second_lo b) (second_hi b) c" "between 128 191 d" "between 128 191 e"
  shows "valid_rune ((b - 240) * 262144 + (c - 128) * 4096 + (d - 128) * 64 + (e - 128))"
proof -
  consider "b = 240" | "241 \<le> b" "b \<le> 243" | "b = 244" using assms(1) unfolding between_def by linarith
  then show ?thesis
  proof cases
    case 1
    have "144 \<le> c" "c \<le> 191" using assms(2) 1 by (auto simp: between_def second_lo_def second_hi_def)
    then show ?thesis using 1 assms(3,4) unfolding between_def valid_rune_def by linarith
  next
    case 2
    have "c \<le> 191" using assms(2) by (auto simp: between_def second_hi_def split: if_splits)
    then show ?thesis using 2 assms(3,4) unfolding between_def valid_rune_def by linarith
  next
    case 3
    have "c \<le> 143" using assms(2) 3 by (auto simp: between_def second_lo_def second_hi_def)
    then show ?thesis using 3 assms(3,4) unfolding between_def valid_rune_def by linarith
  qed
qed

lemma decode_valid: "valid_rune (fst (decode_rune bs))"
  by (simp add: decode_rune_def valid_ascii valid_65533 valid_two valid_three valid_four split: list.split)

lemma runes_valid: "list_all valid_rune (decode_runes bs)"
proof (induction bs rule: decode_runes.induct)
  case (1 bs)
  then show ?case using decode_valid by (subst decode_runes.simps) simp
qed

text \<open>ASCII text is its own decoding.\<close>

lemma decode_ascii: "list_all (\<lambda>b. b < 128) bs \<Longrightarrow> decode_runes bs = bs"
  by (induction bs) (subst decode_runes.simps, simp add: decode_rune_def)+

lemma runes_ascii: "list_all (\<lambda>c. byte_of c < 128) s \<Longrightarrow> runes s = map byte_of s"
  by (simp add: runes_def decode_ascii list_all_iff)

lemma string_of_ascii: "list_all (\<lambda>b. b < 128) rs \<Longrightarrow> string_of_runes rs = map char_of rs"
  by (induction rs) (simp_all add: string_of_runes_def encode_rune_def valid_rune_def)

end
