(* ===== verification/UserSessions.thy ===== *)
theory UserSessions
  imports UserService
begin

text \<open>
  What the user service promises across its operations: codes that were sent log in, logins
  answer for the user of the phone, logging out revokes the access token (but not its exchange
  for a new pair), a profile update is seen by its owner.
\<close>

section \<open>Tokens that were revoked\<close>

text \<open>Claims of a parsed token, and a blacklist entry that lasts.\<close>

context redis_server
begin

lemma blacklist_stored:
  assumes "uc_rdb c = rdb" "BlacklistJWT c jti ttl w = (None, w')" "0 < ttl"
  shows "rs_db (kv w') (keyJWTBlacklist jti) = Some (VStr (Text ''1''), Some (rs_now (kv w') + ttl))"
    "rs_now (kv w) \<le> rs_now (kv w')"
proof -
  have "run_status rdb ''redis SET jwt:bl'' (SET (keyJWTBlacklist jti) (Text ''1'') ttl) w = (None, w')"
    using assms by (simp add: BlacklistJWT_def)
  then obtain d where "0 \<le> d" "kv w' = rput (keyJWTBlacklist jti) (VStr (Text ''1'')) (Some (rs_now (kv w) + d + ttl)) (tick d (kv w))"
    by (rule set_ok [OF _ assms(3)])
  then show "rs_db (kv w') (keyJWTBlacklist jti) = Some (VStr (Text ''1''), Some (rs_now (kv w') + ttl))"
    "rs_now (kv w) \<le> rs_now (kv w')"
    by (simp_all add: rput_def tick_def)
qed

lemma blacklisted_answer:
  assumes "uc_rdb c = rdb" "IsJWTBlacklisted c jti w = (Inr b, w')"
    and "rs_db (kv w) (keyJWTBlacklist jti) = Some (v, Some x)" "rs_now (kv w') < x"
  shows "b"
proof -
  obtain n where r: "rdb (Cmd (EXISTS (keyJWTBlacklist jti))) w = (RInt n, w')" and b: "b = (n > 0)"
    using assms(1,2) by (auto simp: IsJWTBlacklisted_def run_int_def cmd_ok split: prod.splits sum.splits)
  note e = exists_ok [OF r]
  have "rget (kv w') (keyJWTBlacklist jti) = Some v"
    using e(1) assms(3,4) by (auto simp: idle_kv_def rget_def tick_def)
  with e(2) b show ?thesis by simp
qed

end

text \<open>
  C13: Logging out revokes the token.  After a Logout returned without an error for a
  token that parses, a later VerifyAccessToken of the token, in whatever world, fails, provided
  Redis answers the blacklist lookup, has kept the entry until its deadline, and its clock has not
  advanced further than the process clock since; this holds for tokens about to expire too, whose
  remaining time is not stored.
\<close>
theorem logout_revokes:
  assumes "jwt_library (prim_jwt pr) payload" "redis_server rdb kv" "uc_rdb (uss_userCache s) = rdb"
    and "Manager_Parse (prim_jwt pr) rt (uss_jwtMgr s) t w1 = (Inr claims, wp)" "rt_now rt wp = (t1, wq)"
    and "UserService_Logout pr rt s c t w1 = (None, w1')"
    and "Manager_Parse (prim_jwt pr) rt (uss_jwtMgr s) t w2 = (r2, wv)" "fst (rt_now rt w2) = t2" "t1 \<le> t2"
    and "IsJWTBlacklisted (uss_userCache s) (cl_JTI claims) wv = (Inr b, wb)"
    and "rs_db (kv wv) (keyJWTBlacklist (cl_JTI claims)) = rs_db (kv w1') (keyJWTBlacklist (cl_JTI claims))"
    and "rs_now (kv wb) - rs_now (kv w1') \<le> t2 - t1"
    and "UserService_VerifyAccessToken pr rt s c' t w2 = (res, w2')"
  shows "res = Inl (App ErrTokenExpired) \<or> res = Inl (App ErrTokenInvalid)"
proof (cases r2)
  case (Inl e)
  with assms(7,13) show ?thesis by (simp add: UserService_VerifyAccessToken_def token_error_def split: if_splits)
next
  case (Inr claims')
  obtain now where n: "rt_now rt w2 = (now, wv)" "claims' = payload t" "unexpired claims' now"
    by (rule jwt_library.Parse_ok [OF assms(1) assms(7) [unfolded Inr]])
  have same: "claims = payload t"
    by (rule jwt_library.Parse_ok [OF assms(1,4)])
  obtain expires where x: "cl_ExpiresAt claims = Some expires"
    using assms(4,6) by (auto simp: UserService_Logout_def split: option.splits)
  have t2: "t2 < expires" using n same x assms(8) by (simp add: unexpired_def)
  have "BlacklistJWT (uss_userCache s) (cl_JTI claims) (expires - t1) wq = (None, w1')"
    using assms(4,5,6,9) x t2 by (auto simp: UserService_Logout_def split: prod.splits option.splits if_splits)
  note st = redis_server.blacklist_stored [OF assms(2,3) this]
  have "b"
    by (rule redis_server.blacklisted_answer [OF assms(2,3,10)])
      (use assms(9,11,12) st(1) t2 in auto)
  with assms(7,10,13) n(2) same Inr show ?thesis
    by (simp add: UserService_VerifyAccessToken_def)
qed

definition doc_prims :: primitives where
  "doc_prims = \<lparr>prim_aead = open_cipher, prim_sha256 = (\<lambda>s. s), prim_lower = (\<lambda>s. s), prim_jwt = doc_jwt\<rparr>"

definition demo_sms :: SMSConfig where
  "demo_sms = \<lparr>sms_Provider = ''mock'', sms_AccessKeyID = [], sms_AccessKeySecret = [], sms_SignName = [],
     sms_TemplateCode = [], sms_CodeLength = 6, sms_CodeTTL = 300000\<rparr>"

definition demo_bucket :: OSSConfig where
  "demo_bucket =
     \<lparr>oss_Provider = ''mock'', oss_AccessKeyID = [], oss_AccessKeySecret = [], oss_Endpoint = [],
      oss_Bucket = [], oss_URLPrefix = ''http://x/'', oss_PresignTTL = 9000, oss_MaxImageSize = 100,
      oss_UploadHourly = 5, oss_MockListenAddr = ''x''\<rparr>"

definition doc_users :: "world UserService" where
  "doc_users = NewUserService (NewUserRepository doc_db) (Some (NewFollowRepository doc_db)) doc_user_cache
     (NewWriteMarker doc_rdb 3000) demo_manager (\<lambda>c phone code w. (None, w)) demo_sms demo_bucket
     \<lparr>enc_PhoneKey = demo_key, enc_PhonePepper = ''pepper''\<rparr>
     \<lparr>rl_SMSPhoneWindow = 60000, rl_SMSPerPhonePerDay = 5, rl_SMSPerIPPerDay = 10\<rparr>"

definition demo_claims :: Claims where
  "demo_claims = new_claims 7 (''uuid-'' @ FormatInt 0) 1000 7200000"

definition demo_token :: string where
  "demo_token = concat (map put_field (claim_fields demo_claims ''secret''))"

lemma demo_token_parses:
  assumes "1000 \<le> w_clock w" "w_clock w < 7201000"
  shows "Manager_Parse doc_jwt doc_rt demo_manager demo_token w = (Inr demo_claims, w)"
proof -
  define jti where "jti = ''uuid-'' @ FormatInt 0"
  have v: "jti \<noteq> []" "ascii jti" unfolding jti_def by code_simp+
  obtain w' where r: "Manager_issue doc_jwt doc_rt demo_manager 7 7200000 demo_world = (Inr (demo_token, jti, 7201000), w')"
    by (simp add: Manager_issue_def doc_rt_def doc_jwt_def demo_world_def fresh_world_def jti_def
        demo_token_def demo_claims_def demo_manager_def NewManager_def)
  have t0: "fst (rt_now doc_rt demo_world) = 1000" by code_simp
  have now: "rt_now doc_rt w = (w_clock w, w)" by (simp add: doc_rt_def)
  from doc_jwt.issued_parses(1) [OF r _ _ v t0 _ _ _ _ now] assms show ?thesis
    by (simp add: in_int64_def int64_min_def int64_max_def NewNumericDate_def demo_claims_def jti_def)
qed

lemma doc_rt_now [simp]: "rt_now doc_rt w = (w_clock w, w)"
  by (simp add: doc_rt_def)

lemma doc_users_simps [simp]:
  "uss_jwtMgr doc_users = demo_manager" "uss_userCache doc_users = doc_user_cache" "prim_jwt doc_prims = doc_jwt"
  "uss_repo doc_users = NewUserRepository doc_db" "uc_rdb doc_user_cache = doc_rdb"
  by (simp_all add: doc_users_def NewUserService_def doc_prims_def doc_user_cache_def NewUserCache_def)

definition logged_out_world :: world where
  "logged_out_world = snd (UserService_Logout doc_prims doc_rt doc_users Background demo_token demo_world)"

lemma logged_out:
  "UserService_Logout doc_prims doc_rt doc_users Background demo_token demo_world = (None, logged_out_world)"
  "w_kv logged_out_world = rput (keyJWTBlacklist (cl_JTI demo_claims)) (VStr (Text ''1'')) (Some 7201000) (empty_kv 1000)"
  "w_clock logged_out_world = 1000" "w_faults logged_out_world = []" "w_db logged_out_world = demo_db"
  "w_replica logged_out_world = demo_db"
  using demo_token_parses [of demo_world]
  by (simp_all add: UserService_Logout_def logged_out_world_def BlacklistJWT_def run_status_def doc_rdb_def fault_def
      demo_claims_def new_claims_def NewNumericDate_def demo_world_def fresh_world_def deadline_in_def empty_kv_def)

theorem logout_revokes_witness:
  "fst (UserService_VerifyAccessToken doc_prims doc_rt doc_users Background demo_token logged_out_world)
     = Inl (App ErrTokenInvalid)"
proof -
  obtain res w2 where v: "UserService_VerifyAccessToken doc_prims doc_rt doc_users Background demo_token logged_out_world = (res, w2)"
    by fastforce
  have p1: "Manager_Parse (prim_jwt doc_prims) doc_rt (uss_jwtMgr doc_users) demo_token demo_world = (Inr demo_claims, demo_world)"
    using demo_token_parses [of demo_world] by (simp add: demo_world_def fresh_world_def)
  have p2: "Manager_Parse (prim_jwt doc_prims) doc_rt (uss_jwtMgr doc_users) demo_token logged_out_world = (Inr demo_claims, logged_out_world)"
    using demo_token_parses [of logged_out_world] by (simp add: logged_out)
  have b: "IsJWTBlacklisted (uss_userCache doc_users) (cl_JTI demo_claims) logged_out_world = (Inr True, logged_out_world)"
    by (simp add: IsJWTBlacklisted_def run_int_def doc_rdb_def fault_def logged_out empty_kv_def)
  have "res = Inl (App ErrTokenExpired) \<or> res = Inl (App ErrTokenInvalid)"
    by (rule logout_revokes [where ?t1.0 = 1000 and ?t2.0 = 1000, OF doc_jwt.jwt_library_axioms [folded doc_users_simps(3)] doc.redis_server_axioms _ p1 _
          logged_out(1) p2 _ _ b refl _ v])
      (simp_all add: demo_world_def fresh_world_def logged_out)
  moreover have "res \<noteq> Inl (App ErrTokenExpired)"
    using v p2 b by (auto simp: UserService_VerifyAccessToken_def ErrTokenExpired_def ErrTokenInvalid_def New_def)
  ultimately show ?thesis using v by auto
qed

text \<open>
  C36: Refresh does not honour a logout.  A token that is revoked (VerifyAccessToken
  refuses it as invalid although it parses) is exchanged by Refresh for a new pair all the same,
  whenever the user is found and not banned and the library signs: a logged-out access token can
  be traded for fresh access and refresh tokens until it expires.
\<close>
theorem revoked_token_refreshes:
  assumes "Manager_Parse (prim_jwt pr) rt (uss_jwtMgr s) t w = (Inr claims, w1)"
    and "UserService_VerifyAccessToken pr rt s c t w = (Inl (App ErrTokenInvalid), wv)"
    and "ur_FindByID (uss_repo s) c (cl_UserID claims) w1 = (Inr user, w2)" "\<not> IsBanned user"
    and "\<And>cl. \<exists>tok. jwt_SignedString (prim_jwt pr) cl (mgr_secret (uss_jwtMgr s)) = Inr tok"
  shows "\<exists>pair w'. UserService_Refresh pr rt s c t w = (Inr pair, w')"
proof -
  have signs: "\<exists>r w'. Manager_issue (prim_jwt pr) rt (uss_jwtMgr s) uid ttl v = (Inr r, w')" for uid ttl v
  proof -
    obtain now v1 where 1: "rt_now rt v = (now, v1)" by fastforce
    obtain jti v2 where 2: "rt_uuid rt v1 = (jti, v2)" by fastforce
    obtain tok where "jwt_SignedString (prim_jwt pr) (new_claims uid jti now ttl) (mgr_secret (uss_jwtMgr s)) = Inr tok"
      using assms(5) by blast
    with 1 2 show ?thesis by (simp add: Manager_issue_def)
  qed
  obtain a w3 where 3: "Manager_issue (prim_jwt pr) rt (uss_jwtMgr s) (cl_UserID claims) (mgr_accessTokenTTL (uss_jwtMgr s)) w2 = (Inr a, w3)"
    using signs by blast
  obtain b w4 where 4: "Manager_issue (prim_jwt pr) rt (uss_jwtMgr s) (cl_UserID claims) (mgr_refreshTokenTTL (uss_jwtMgr s)) w3 = (Inr b, w4)"
    using signs by blast
  obtain x y z where "a = (x, y, z)" by (cases a)
  moreover obtain x' y' z' where "b = (x', y', z')" by (cases b)
  ultimately show ?thesis using assms(1,3,4) 3 4
    by (simp add: UserService_Refresh_def issueTokenPair_def IssueAccessToken_def IssueRefreshToken_def)
qed

theorem revoked_token_refreshes_witness:
  "\<exists>pair w'. UserService_Refresh doc_prims doc_rt doc_users Background demo_token logged_out_world = (Inr pair, w')"
proof -
  have p: "Manager_Parse (prim_jwt doc_prims) doc_rt (uss_jwtMgr doc_users) demo_token logged_out_world = (Inr demo_claims, logged_out_world)"
    using demo_token_parses [of logged_out_world] by (simp add: logged_out)
  have b: "IsJWTBlacklisted (uss_userCache doc_users) (cl_JTI demo_claims) logged_out_world = (Inr True, logged_out_world)"
    by (simp add: IsJWTBlacklisted_def run_int_def doc_rdb_def fault_def logged_out empty_kv_def)
  have v: "UserService_VerifyAccessToken doc_prims doc_rt doc_users Background demo_token logged_out_world
      = (Inl (App ErrTokenInvalid), logged_out_world)"
    using p b by (simp add: UserService_VerifyAccessToken_def)
  have u: "ur_FindByID (uss_repo doc_users) Background (cl_UserID demo_claims) logged_out_world = (Inr (demo_user 7 ''ann''), logged_out_world)"
    by (simp add: NewUserRepository_def users_FindByID_def doc_db_def fault_def logged_out demo_claims_def new_claims_def
        by_id_query_def first_user_def Apply_def IsForceMaster_def Background_def run_query_def demo_db_def user_live_def
        demo_user_def zero_User_def window_def)
  have "\<not> IsBanned (demo_user 7 ''ann'')" by code_simp
  moreover have "\<exists>tok. jwt_SignedString (prim_jwt doc_prims) cl (mgr_secret (uss_jwtMgr doc_users)) = Inr tok" for cl
    by (simp add: doc_jwt_def)
  ultimately show ?thesis by (intro revoked_token_refreshes [OF p v u]) auto
qed

section \<open>Codes\<close>

context redis_server
begin

lemma code_stored:
  assumes "uc_rdb c = rdb" "SaveSMSCode c ph code ttl w = (None, w')" "0 < ttl"
  shows "rs_db (kv w') (keySMSCode ph) = Some (VStr (Text code), Some (rs_now (kv w') + ttl))"
proof -
  have "run_status rdb ''redis SET sms:code'' (SET (keySMSCode ph) (Text code) ttl) w = (None, w')"
    using assms by (simp add: SaveSMSCode_def)
  then obtain d where "kv w' = rput (keySMSCode ph) (VStr (Text code)) (Some (rs_now (kv w) + d + ttl)) (tick d (kv w))"
    by (rule set_ok [OF _ assms(3)])
  then show ?thesis by (simp add: rput_def tick_def)
qed

lemma code_read:
  assumes "uc_rdb c = rdb" "GetSMSCode c ph w = (res, w')"
    and "rs_db (kv w) (keySMSCode ph) = Some (VStr (Text code), Some x)" "rs_now (kv w') < x"
  shows "res = Inr code \<or> (\<exists>m. res = Inl (Wrap ''redis GET sms:code'' (Plain m)))"
proof -
  obtain r where r: "rdb (Cmd (GET (keySMSCode ph))) w = (r, w')"
    using assms(1,2) by (auto simp: GetSMSCode_def run_get_def split: prod.splits sum.splits if_splits)
  show ?thesis
  proof (cases "\<exists>m. r = RError m")
    case True
    then show ?thesis using assms(1,2) r by (auto simp: GetSMSCode_def run_get_def redis_Nil_def)
  next
    case False
    then obtain d where d: "0 \<le> d" "kv_step (GET (keySMSCode ph)) (tick d (kv w)) = (r, kv w')"
      using redis_answered [OF r] by auto
    have "rs_now (kv w') = rs_now (kv w) + d"
      using d(2) now_exec [of "GET (keySMSCode ph)" "tick d (kv w)"] by (simp add: tick_def)
    then have "rget (tick d (kv w)) (keySMSCode ph) = Some (VStr (Text code))"
      using assms(3,4) by (simp add: rget_def tick_def)
    then have "r = RBulk (Text code)" using d(2) by simp
    then show ?thesis using assms(1,2) r by (simp add: GetSMSCode_def run_get_def bulk_text_def)
  qed
qed

end

lemma numeric_code_digits:
  assumes "\<forall>w d w'. rt_randInt rt 10 w = (Inr d, w') \<longrightarrow> 0 \<le> d \<and> d < 10"
  shows "numeric_code rt n w = (Inr code, w') \<Longrightarrow> length code = n \<and> list_all (is_digit_in 0 9) code"
proof (induction n arbitrary: w code)
  case (Suc n)
  obtain d w1 ds where d: "rt_randInt rt 10 w = (Inr d, w1)" "numeric_code rt n w1 = (Inr ds, w')" "code = digit_char (nat d) # ds"
    using Suc.prems by (auto split: prod.splits sum.splits)
  have "nat d < 10" using assms d(1) by (metis nat_less_iff zless_nat_conj nat_numeral zero_less_numeral)
  then have "is_digit_in 0 9 (digit_char (nat d))" by (simp add: is_digit_in_def)
  with Suc.IH [OF d(2)] d(3) show ?case by simp
qed simp

lemma find_or_register_error:
  assumes "find_or_register pr rt s c phone ph w = (Inl (App e), w')"
  shows "e = ErrPhoneKeyMissing \<or> e = ErrEncryptPhone"
  using assms by (auto simp: find_or_register_def Let_def split: prod.splits sum.splits if_splits)

lemma send_code_steps:
  assumes "UserService_SendCode pr rt s c phone ip w = (Inr resp, w')"
  shows "\<exists>code w1 w2 w3. generateNumericCode rt (sms_CodeLength (uss_smsCfg s)) w1 = (Inr code, w2)
    \<and> SaveSMSCode (uss_userCache s) (hashPhone pr s phone) code (sms_CodeTTL (uss_smsCfg s)) w2 = (None, w3)
    \<and> uss_smsSender s c phone code w3 = (None, w')"
  using assms by (auto simp: UserService_SendCode_def Let_def split: prod.splits sum.splits bool.splits option.splits)

text \<open>What Login makes of the answer to the lookup of the code.\<close>

lemma login_checks_code:
  assumes "GetSMSCode (uss_userCache s) (hashPhone pr s phone) w2 = (Inr code, w2')"
  shows "if entered = code
     then fst (UserService_Login pr rt s c phone entered w2) \<notin> {Inl (App ErrCodeNotFound), Inl (App ErrCodeMismatch)}
     else fst (UserService_Login pr rt s c phone entered w2) = Inl (App ErrCodeMismatch)"
proof (cases "entered = code")
  case True
  obtain d w3 where d: "DeleteSMSCode (uss_userCache s) (hashPhone pr s phone) w2' = (d, w3)" by fastforce
  have "fst (UserService_Login pr rt s c phone code w2) \<noteq> Inl (App e)"
    if "e = ErrCodeNotFound \<or> e = ErrCodeMismatch" for e
    using that assms d find_or_register_error [of pr rt s c phone "hashPhone pr s phone" w3]
    by (auto simp: UserService_Login_def Let_def ErrCodeNotFound_def ErrCodeMismatch_def ErrUserBanned_def
          ErrPhoneKeyMissing_def ErrEncryptPhone_def New_def
        split: prod.splits sum.splits if_splits)
  with True show ?thesis by simp
next
  case False
  with assms show ?thesis by (simp add: UserService_Login_def Let_def)
qed

text \<open>
  C15: A code that was sent is the code that logs in.  After a SendCode that succeeded,
  the gateway was handed a code of the configured length, digits only, under the phone it was
  asked for; and as long as the stored code is untouched and its time has not passed, a login
  with another code is refused as a mismatch, and a login with that code is refused neither as
  missing nor as a mismatch: every other outcome comes after the check.
\<close>
theorem code_roundtrip:
  assumes "redis_server rdb kv" "uc_rdb (uss_userCache s) = rdb"
    and "0 < sms_CodeTTL (uss_smsCfg s)" "0 \<le> sms_CodeLength (uss_smsCfg s)"
    and "\<forall>w d w'. rt_randInt rt 10 w = (Inr d, w') \<longrightarrow> 0 \<le> d \<and> d < 10"
    and "UserService_SendCode pr rt s c phone ip w1 = (Inr resp, w1')"
  shows "\<exists>code wa wb. int (length code) = sms_CodeLength (uss_smsCfg s) \<and> list_all (is_digit_in 0 9) code
    \<and> uss_smsSender s c phone code wa = (None, w1')
    \<and> (\<forall>w2 entered res w2'.
         rs_db (kv w2) (keySMSCode (hashPhone pr s phone)) = rs_db (kv wa) (keySMSCode (hashPhone pr s phone))
         \<longrightarrow> GetSMSCode (uss_userCache s) (hashPhone pr s phone) w2 = (res, w2')
         \<longrightarrow> rs_now (kv w2') < rs_now (kv wa) + sms_CodeTTL (uss_smsCfg s)
         \<longrightarrow> (\<exists>m. res = Inl (Wrap ''redis GET sms:code'' (Plain m))
                \<and> fst (UserService_Login pr rt s c phone entered w2) = Inl (Wrap ''get sms code'' (Wrap ''redis GET sms:code'' (Plain m))))
           \<or> (if entered = code
               then fst (UserService_Login pr rt s c phone entered w2) \<notin> {Inl (App ErrCodeNotFound), Inl (App ErrCodeMismatch)}
               else fst (UserService_Login pr rt s c phone entered w2) = Inl (App ErrCodeMismatch)))"
proof -
  let ?ph = "hashPhone pr s phone"
  obtain code wz wy wa where code: "generateNumericCode rt (sms_CodeLength (uss_smsCfg s)) wz = (Inr code, wy)"
      "SaveSMSCode (uss_userCache s) ?ph code (sms_CodeTTL (uss_smsCfg s)) wy = (None, wa)"
      "uss_smsSender s c phone code wa = (None, w1')"
    using send_code_steps [OF assms(6)] by blast
  have digits: "int (length code) = sms_CodeLength (uss_smsCfg s)" "list_all (is_digit_in 0 9) code"
    using numeric_code_digits [OF assms(5)] code(1) assms(4) by (auto simp: generateNumericCode_def)
  note st = redis_server.code_stored [OF assms(1,2) code(2) assms(3)]
  show ?thesis
  proof (intro exI conjI allI impI)
    fix w2 entered res w2'
    assume kv: "rs_db (kv w2) (keySMSCode ?ph) = rs_db (kv wa) (keySMSCode ?ph)"
      and g: "GetSMSCode (uss_userCache s) ?ph w2 = (res, w2')"
      and t: "rs_now (kv w2') < rs_now (kv wa) + sms_CodeTTL (uss_smsCfg s)"
    from redis_server.code_read [OF assms(1,2) g kv [unfolded st] t]
    show "(\<exists>m. res = Inl (Wrap ''redis GET sms:code'' (Plain m))
                \<and> fst (UserService_Login pr rt s c phone entered w2) = Inl (Wrap ''get sms code'' (Wrap ''redis GET sms:code'' (Plain m))))
           \<or> (if entered = code
               then fst (UserService_Login pr rt s c phone entered w2) \<notin> {Inl (App ErrCodeNotFound), Inl (App ErrCodeMismatch)}
               else fst (UserService_Login pr rt s c phone entered w2) = Inl (App ErrCodeMismatch))"
    proof
      assume "res = Inr code"
      then show ?thesis using login_checks_code [OF g [unfolded \<open>res = Inr code\<close>]] by (intro disjI2)
    next
      assume "\<exists>m. res = Inl (Wrap ''redis GET sms:code'' (Plain m))"
      with g show ?thesis by (auto simp: UserService_Login_def Let_def ErrCacheNotFound_def)
    qed
  qed (use digits code(3) in auto)
qed

lemma doc_numeric_code: "\<exists>code w'. numeric_code doc_rt n w = (Inr code, w') \<and> w_faults w' = w_faults w"
proof (induction n arbitrary: w)
  case (Suc n)
  obtain code w' where "numeric_code doc_rt n (w\<lparr>w_serial := w_serial w + 1\<rparr>) = (Inr code, w')" "w_faults w' = w_faults w"
    using Suc.IH [of "w\<lparr>w_serial := w_serial w + 1\<rparr>"] by auto
  then show ?case by (simp add: doc_rt_def)
qed simp

lemma send_code_evaluated:
  "\<exists>w'. UserService_SendCode doc_prims doc_rt doc_users Background ''13800138000'' ''10.0.0.1'' demo_world
     = (Inr \<lparr>sc_ExpiresIn = 300\<rparr>, w')"
proof -
  define ph where "ph = hashPhone doc_prims doc_users ''13800138000''"
  define ih where "ih = hashIP doc_prims ''10.0.0.1''"
  define w1 where "w1 = demo_world\<lparr>w_kv := rput (keySMSWindow ph) (VStr (Text ''1'')) (Some 61000) (empty_kv 1000)\<rparr>"
  define one where "one k w = w\<lparr>w_kv := rput k (VStr (Text (FormatInt 1))) (Some 86401000) (rput k (VStr (Text (FormatInt 1))) None (w_kv w))\<rparr>" for k and w :: world
  have 1: "CheckAndConsumeSMSWindow doc_user_cache ph 60000 demo_world = (Inr (True, 0), w1)"
    by (simp add: w1_def CheckAndConsumeSMSWindow_def doc_user_cache_def NewUserCache_def doc_rdb_def fault_def
        demo_world_def fresh_world_def deadline_in_def) (simp add: empty_kv_def rget_def deadline_in_def)
  have incr: "incrAndCheck doc_user_cache k limit 86400000 w = (Inr (1 \<le> limit), one k w)"
    if "w_faults w = []" "rget (w_kv w) k = None" "rs_now (w_kv w) = 1000" for k limit w
    using that by (simp add: incrAndCheck_def run_int_def doc_user_cache_def NewUserCache_def doc_rdb_def fault_def
        add_counter_def one_def formatSec_def)
  define w2 where "w2 = one (keySMSDailyPhone ph) w1"
  define w3 where "w3 = one (keySMSDailyIP ih) w2"
  have f: "w_faults w1 = []" "w_faults w2 = []" "w_faults w3 = []" "rs_now (w_kv w1) = 1000" "rs_now (w_kv w2) = 1000"
    by (simp_all add: w1_def w2_def w3_def one_def demo_world_def fresh_world_def) (simp_all add: empty_kv_def)
  have keys: "keySMSDailyPhone ph \<noteq> keySMSWindow ph" "keySMSDailyIP ih \<noteq> keySMSWindow ph"
    "keySMSDailyIP ih \<noteq> keySMSDailyPhone ph"
    by (simp_all add: user_key_defs)
  have r1: "rget (w_kv w1) k = None" if "k \<noteq> keySMSWindow ph" for k
    using that by (simp add: w1_def rget_rput) (simp add: empty_kv_def rget_def)
  have r2: "rget (w_kv (one k w)) k' = rget (w_kv w) k'" if "k' \<noteq> k" for k k' w
    using that by (simp add: one_def rget_rput)
  have 2: "IncrementAndCheckSMSPhoneDaily doc_user_cache ph 5 w1 = (Inr True, w2)"
    using incr [OF f(1) r1 [OF keys(1)] f(4), of 5]
    by (simp add: IncrementAndCheckSMSPhoneDaily_def w2_def) (simp add: doc_user_cache_def NewUserCache_def)
  have "rget (w_kv w2) (keySMSDailyIP ih) = None"
    unfolding w2_def using r2 [OF keys(3)] r1 [OF keys(2)] by simp
  from incr [OF f(2) this f(5), of 10]
  have 3: "IncrementAndCheckSMSIPDaily doc_user_cache ih 10 w2 = (Inr True, w3)"
    by (simp add: IncrementAndCheckSMSIPDaily_def w3_def) (simp add: doc_user_cache_def NewUserCache_def)
  obtain code w4 where 4: "generateNumericCode doc_rt 6 w3 = (Inr code, w4)" "w_faults w4 = []"
    using doc_numeric_code [of 6 w3] f by (auto simp: generateNumericCode_def)
  obtain w5 where 5: "SaveSMSCode doc_user_cache ph code 300000 w4 = (None, w5)"
    using 4(2) by (simp add: SaveSMSCode_def run_status_def doc_user_cache_def NewUserCache_def doc_rdb_def fault_def)
  have cfg: "rl_SMSPhoneWindow (uss_rlCfg doc_users) = 60000" "rl_SMSPerPhonePerDay (uss_rlCfg doc_users) = 5"
    "rl_SMSPerIPPerDay (uss_rlCfg doc_users) = 10" "sms_CodeLength (uss_smsCfg doc_users) = 6"
    "sms_CodeTTL (uss_smsCfg doc_users) = 300000" "uss_smsSender doc_users = (\<lambda>c phone code w. (None, w))"
    by (simp_all add: doc_users_def NewUserService_def demo_sms_def)
  show ?thesis
    unfolding UserService_SendCode_def Let_def ph_def [symmetric] ih_def [symmetric]
    by (simp add: cfg 1 2 3 4(1) 5 seconds_of_def)
qed

theorem code_roundtrip_witness:
  "\<exists>w' code. UserService_SendCode doc_prims doc_rt doc_users Background ''13800138000'' ''10.0.0.1'' demo_world
     = (Inr \<lparr>sc_ExpiresIn = 300\<rparr>, w') \<and> length code = 6 \<and> list_all (is_digit_in 0 9) code"
proof -
  obtain w' where r: "UserService_SendCode doc_prims doc_rt doc_users Background ''13800138000'' ''10.0.0.1'' demo_world
      = (Inr \<lparr>sc_ExpiresIn = 300\<rparr>, w')"
    using send_code_evaluated by blast
  have cfg: "uc_rdb (uss_userCache doc_users) = doc_rdb" "0 < sms_CodeTTL (uss_smsCfg doc_users)"
    "0 \<le> sms_CodeLength (uss_smsCfg doc_users)" "sms_CodeLength (uss_smsCfg doc_users) = 6"
    by (simp_all add: doc_users_def NewUserService_def demo_sms_def doc_user_cache_def NewUserCache_def)
  have "\<forall>w d w'. rt_randInt doc_rt 10 w = (Inr d, w') \<longrightarrow> 0 \<le> d \<and> d < 10"
    by (auto simp: doc_rt_def)
  from code_roundtrip [OF doc.redis_server_axioms cfg(1-3) this r] cfg(4) r
  show ?thesis by auto
qed

section \<open>Login\<close>

text \<open>Both tokens of a pair are signed for the user, with the lifetimes of the manager.\<close>

definition pair_for :: "primitives \<Rightarrow> Manager \<Rightarrow> int \<Rightarrow> TokenPair \<Rightarrow> bool" where
  "pair_for pr m uid p \<longleftrightarrow> (\<exists>j1 j2 t1 t2.
     jwt_SignedString (prim_jwt pr) (new_claims uid j1 t1 (mgr_accessTokenTTL m)) (mgr_secret m) = Inr (tp_AccessToken p)
     \<and> tp_AccessTokenExpiresAt p = t1 + mgr_accessTokenTTL m
     \<and> jwt_SignedString (prim_jwt pr) (new_claims uid j2 t2 (mgr_refreshTokenTTL m)) (mgr_secret m) = Inr (tp_RefreshToken p))"

lemma profile_fields:
  assumes "profile_updates pr s req = Inr upds"
  shows "u_Nickname (set_profile upds t u) = (case up_Nickname req of None \<Rightarrow> u_Nickname u | Some n \<Rightarrow> TrimSpace n)"
    "u_Bio (set_profile upds t u) = (case up_Bio req of None \<Rightarrow> u_Bio u | Some b \<Rightarrow> TrimSpace b)"
    "u_AvatarURL (set_profile upds t u) = (case up_AvatarURL req of None \<Rightarrow> u_AvatarURL u | Some a \<Rightarrow> TrimSpace a)"
    "u_ID (set_profile upds t u) = u_ID u" "user_live (set_profile upds t u) = user_live u"
    "\<forall>a. up_AvatarURL req = Some a \<longrightarrow> IsAllowedURL (prim_lower pr) (TrimSpace a) (oss_URLPrefix (uss_ossCfg s))"
    "\<forall>n. up_Nickname req = Some n \<longrightarrow> TrimSpace n \<noteq> []"
  using assms
  by (auto simp: profile_updates_def set_profile_def set_profile_field_def user_live_def Let_def
      split: option.splits if_splits sum.splits)

locale user_env =
  follow_repository rdb kv db master replica pub sent rt follows
  + user_repository rdb kv db master replica pub sent rt users
  for rdb kv db master replica pub sent rt users follows +
  fixes pr :: primitives and payload :: "string \<Rightarrow> Claims"
  assumes token_library: "jwt_library (prim_jwt pr) payload"
begin

lemma signed_claims:
  assumes "Manager_issue (prim_jwt pr) rt m uid ttl w = (Inr (t, jti, x), w')"
  shows "\<exists>now. jwt_SignedString (prim_jwt pr) (new_claims uid jti now ttl) (mgr_secret m) = Inr t \<and> x = now + ttl"
  by (rule jwt_library.issue_ok [OF token_library assms]) blast

lemma pair_issued:
  assumes "issueTokenPair pr rt s uid w = (Inr p, w')"
  shows "pair_for pr (uss_jwtMgr s) uid p"
proof -
  obtain a j1 x w1 b j2 y where 1: "Manager_issue (prim_jwt pr) rt (uss_jwtMgr s) uid (mgr_accessTokenTTL (uss_jwtMgr s)) w = (Inr (a, j1, x), w1)"
    and 2: "Manager_issue (prim_jwt pr) rt (uss_jwtMgr s) uid (mgr_refreshTokenTTL (uss_jwtMgr s)) w1 = (Inr (b, j2, y), w')"
    and p: "p = \<lparr>tp_AccessToken = a, tp_RefreshToken = b, tp_AccessTokenExpiresAt = x, tp_TokenType = ''Bearer''\<rparr>"
    using assms by (auto simp: issueTokenPair_def IssueAccessToken_def IssueRefreshToken_def split: prod.splits sum.splits)
  from signed_claims [OF 1] signed_claims [OF 2] p show ?thesis unfolding pair_for_def by auto
qed

text \<open>Who a registration returns.\<close>

lemma found_or_registered:
  assumes "find_or_register pr rt s c phone ph w = (Inr u, w')" "uss_repo s = users"
  shows "u_PhoneHash u = ph
    \<and> (readonly sent kv master w w' \<and> user_live u \<and> u \<in> set (t_users (replica w))
       \<or> enc_PhoneKey (uss_encCfg s) \<noteq> [] \<and> \<not> (\<exists>x\<in>set (t_users (replica w)). u_PhoneHash x = ph \<and> user_live x)
         \<and> (\<exists>w1 w2 c now. EncryptPhone (prim_aead pr) rt phone (enc_PhoneKey (uss_encCfg s)) w1 = (Inr c, w2)
              \<and> u_PhoneEncrypted u = c \<and> u_Nickname u = defaultNickname phone
              \<and> \<not> IsBanned u \<and> u \<in> set (t_users (master w'))))"
proof -
  obtain r w1 where 1: "ur_FindByPhoneHash users c ph w = (r, w1)" by fastforce
  note l = phone_law [OF 1]
  show ?thesis
  proof (cases r)
    case (Inr x)
    then have "u = x" "w' = w1" using assms 1 by (simp_all add: find_or_register_def)
    with l Inr show ?thesis by simp
  next
    case (Inl e)
    have nf: "errors_is e repo_ErrUserNotFound"
      using assms 1 Inl by (auto simp: find_or_register_def split: if_splits)
    obtain ct w2 where 2: "EncryptPhone (prim_aead pr) rt phone (enc_PhoneKey (uss_encCfg s)) w1 = (Inr ct, w2)"
      using assms 1 Inl nf by (auto simp: find_or_register_def split: prod.splits sum.splits)
    obtain now w3 where 3: "rt_now rt w2 = (now, w3)" by fastforce
    have 4: "ur_Create users c (new_user ph ct phone now) w3 = (Inr u, w')"
      using assms 1 Inl nf 2 3 by (auto simp: find_or_register_def split: prod.splits sum.splits)
    have key: "enc_PhoneKey (uss_encCfg s) \<noteq> []"
      using 2 by (auto simp: EncryptPhone_def phone_key_def)
    from user_create_law [OF 4] obtain uid ct' ut where
        u: "u = (new_user ph ct phone now)\<lparr>u_ID := uid, u_CreatedAt := ct', u_UpdatedAt := ut\<rparr>"
        "t_users (master w') = t_users (master w3) @ [u]"
      by blast
    have "u_PhoneHash u = ph" "u_PhoneEncrypted u = ct" "u_Nickname u = defaultNickname phone" "\<not> IsBanned u"
      by (simp_all add: u(1) new_user_def zero_User_def IsBanned_def UserStatusBanned_def)
    with l Inl nf key 2 u(2) show ?thesis by auto
  qed
qed

lemma login_returns:
  assumes "UserService_Login pr rt s c phone code w = (Inr resp, w')" "uss_repo s = users" "uc_rdb (uss_userCache s) = rdb"
  defines "ph \<equiv> hashPhone pr s phone"
  shows "\<exists>w1 w2 w3 d u b. rget (kv w1) (keySMSCode ph) = Some (VStr b) \<and> bulk_text b = code
    \<and> DeleteSMSCode (uss_userCache s) ph w1 = (d, w2) \<and> (d = None \<longrightarrow> rget (kv w2) (keySMSCode ph) = None)
    \<and> find_or_register pr rt s c phone ph w2 = (Inr u, w3)
    \<and> \<not> IsBanned u \<and> lg_User resp = toPublicResp u \<and> pair_for pr (uss_jwtMgr s) (u_ID u) (lg_TokenPair resp)"
proof -
  obtain w1 where 1: "GetSMSCode (uss_userCache s) ph w = (Inr code, w1)"
    using assms(1) by (auto simp: UserService_Login_def ph_def Let_def split: prod.splits sum.splits if_splits)
  obtain d w2 where 2: "DeleteSMSCode (uss_userCache s) ph w1 = (d, w2)" by fastforce
  obtain u w3 where 3: "find_or_register pr rt s c phone ph w2 = (Inr u, w3)"
    using assms(1) 1 2 by (auto simp: UserService_Login_def ph_def [symmetric] split: prod.splits sum.splits)
  have 4: "\<not> IsBanned u" using assms(1) 1 2 3 by (auto simp: UserService_Login_def ph_def [symmetric])
  obtain p where 5: "issueTokenPair pr rt s (u_ID u) w3 = (Inr p, w')" "resp = \<lparr>lg_TokenPair = p, lg_User = toPublicResp u\<rparr>"
    using assms(1) 1 2 3 4 by (auto simp: UserService_Login_def ph_def [symmetric] split: prod.splits sum.splits)
  obtain b where b: "rget (kv w1) (keySMSCode ph) = Some (VStr b)" "bulk_text b = code"
  proof -
    obtain b where g: "run_get rdb ''redis GET sms:code'' (GET (keySMSCode ph)) w = (Inr b, w1)" "bulk_text b = code"
      using 1 assms(3) by (auto simp: GetSMSCode_def split: prod.splits sum.splits)
    from get_ok [OF g(1)] g(2) that show thesis by metis
  qed
  have "d = None \<longrightarrow> rget (kv w2) (keySMSCode ph) = None"
    using del_ok [of "''redis DEL sms:code''"] 2 assms(3) by (auto simp: DeleteSMSCode_def)
  with 2 3 4 b pair_issued [OF 5(1)] show ?thesis
    unfolding 5(2) by (intro exI conjI) (assumption | simp)+
qed

lemma profile_updated:
  assumes "UserService_UpdateProfile pr s c uid req w = (None, w')" "uss_repo s = users"
    and "uss_writeMarker s = NewWriteMarker rdb ttl" "uc_rdb (uss_userCache s) = rdb"
    and "profile_updates pr s req = Inr upds" "upds \<noteq> []"
  shows "\<exists>t0. t_users (master w') = update_rows (\<lambda>u. u_ID u = uid \<and> user_live u) (set_profile upds t0) (t_users (master w))"
proof -
  obtain w1 where 1: "ur_UpdateProfile users c uid upds w = (None, w1)"
    using assms by (auto simp: UserService_UpdateProfile_def split: prod.splits option.splits)
  obtain d w3 where 2: "DeleteUserInfo (uss_userCache s) uid (WriteMarker_Mark (uss_writeMarker s) uid w1) = (d, w3)"
    by fastforce
  have w': "w' = w3" using assms(1,2,5,6) 1 2 by (simp add: UserService_UpdateProfile_def)
  obtain r wm where m: "rdb (Cmd (SET (keyWriteMarker uid) (Text ''1'') ttl)) w1 = (r, wm)" by fastforce
  have mm: "WriteMarker_Mark (uss_writeMarker s) uid w1 = wm"
    using m by (simp add: WriteMarker_Mark_def assms(3) NewWriteMarker_def)
  obtain r2 where d: "rdb (Cmd (DEL (keyUserInfo uid))) wm = (r2, w3)"
    using 2 mm assms(4) by (auto simp: DeleteUserInfo_def run_status_def split: prod.splits rreply.splits)
  have "t_users (master w3) = t_users (master w1)"
    using rdb_frame [OF m] rdb_frame [OF d] by (simp add: tables_def)
  with profile_law [OF 1] assms(6) w' show ?thesis by auto
qed

lemma own_profile:
  assumes "UserService_GetMyProfile pr s c uid w = (Inr resp, w')" "uss_repo s = users"
    and "WriteMarker_Has (uss_writeMarker s) uid w = (True, w1)" "tables (master w1) = tables (master w)"
  shows "\<exists>u\<in>set (t_users (master w)). u_ID u = uid \<and> user_live u \<and> pv_Public resp = toPublicResp u"
proof -
  obtain u where u: "ur_FindByID users (WithForceMaster c) uid w1 = (Inr u, w')" "pv_Public resp = toPublicResp u"
    using assms by (auto simp: UserService_GetMyProfile_def split: prod.splits sum.splits)
  from user_find_law [OF u(1)] u(2) assms(4) show ?thesis
    by (auto simp: WithForceMaster_def tables_def)
qed

end

context platform
begin

lemma gorm_user_env:
  "jwt_library (prim_jwt pr) payload \<Longrightarrow>
   user_env rdb kv db master replica pub sent rt (NewUserRepository db) (NewFollowRepository db) pr payload"
  by (intro user_env.intro user_env_axioms.intro gorm_user_repository gorm_follow_repository)

end

interpretation doc_user: user_env doc_rdb w_kv doc_db w_db w_replica doc_pub w_sent doc_rt
    "NewUserRepository doc_db" "NewFollowRepository doc_db" doc_prims "\<lambda>t. read_claims (token_fields t)"
  by (rule doc.gorm_user_env) (simp add: doc_jwt.jwt_library_axioms)

text \<open>
  C10: A Login that succeeds was with the code stored for the phone, which it deleted
  (or Redis failed to), and answers for a user who is not banned: either the live user with the
  hash of the phone, with nothing written, or, where the node it read has none, a user it has
  registered, in the primary, under the hash, with the default nickname and the encrypted phone,
  never with an empty encryption key.  Both tokens are signed for that user.
\<close>
theorem login_success:
  fixes db :: "'w gorm"
  assumes "platform rdb kv db master replica pub sent rt" "jwt_library (prim_jwt pr) payload"
    and "uss_repo s = NewUserRepository db" "uc_rdb (uss_userCache s) = rdb"
    and "UserService_Login pr rt s c phone code w = (Inr resp, w')"
  shows "\<exists>w1 w2 w3 d u b. rget (kv w1) (keySMSCode (hashPhone pr s phone)) = Some (VStr b) \<and> bulk_text b = code
    \<and> DeleteSMSCode (uss_userCache s) (hashPhone pr s phone) w1 = (d, w2)
    \<and> (d = None \<longrightarrow> rget (kv w2) (keySMSCode (hashPhone pr s phone)) = None)
    \<and> \<not> IsBanned u \<and> lg_User resp = toPublicResp u \<and> u_PhoneHash u = hashPhone pr s phone
    \<and> pair_for pr (uss_jwtMgr s) (u_ID u) (lg_TokenPair resp)
    \<and> (readonly sent kv master w2 w3 \<and> user_live u \<and> u \<in> set (t_users (replica w2))
       \<or> enc_PhoneKey (uss_encCfg s) \<noteq> []
         \<and> \<not> (\<exists>x\<in>set (t_users (replica w2)). u_PhoneHash x = hashPhone pr s phone \<and> user_live x)
         \<and> (\<exists>v v' ct. EncryptPhone (prim_aead pr) rt phone (enc_PhoneKey (uss_encCfg s)) v = (Inr ct, v')
              \<and> u_PhoneEncrypted u = ct \<and> u_Nickname u = defaultNickname phone \<and> u \<in> set (t_users (master w3))))"
proof -
  note env = platform.gorm_user_env [OF assms(1,2)]
  obtain w1 w2 w3 d u b where l: "rget (kv w1) (keySMSCode (hashPhone pr s phone)) = Some (VStr b)" "bulk_text b = code"
      "DeleteSMSCode (uss_userCache s) (hashPhone pr s phone) w1 = (d, w2)"
      "d = None \<longrightarrow> rget (kv w2) (keySMSCode (hashPhone pr s phone)) = None"
      "\<not> IsBanned u" "lg_User resp = toPublicResp u" "pair_for pr (uss_jwtMgr s) (u_ID u) (lg_TokenPair resp)"
    and f: "find_or_register pr rt s c phone (hashPhone pr s phone) w2 = (Inr u, w3)"
    using user_env.login_returns [OF env assms(5,3,4)] by blast
  from user_env.found_or_registered [OF env f assms(3)] l show ?thesis
    by (intro exI [of _ w1] exI [of _ w2] exI [of _ w3] exI [of _ d] exI [of _ u] exI [of _ b]) auto
qed

text \<open>
  C17: A profile update is seen by its owner at once.  After an UpdateProfile that
  returned without an error, the next GetMyProfile that finds the write marker, before the tables of
  the primary change again, whatever the replicas hold, returns every field of the request, trimmed, and every
  other field as it was; the nickname is not empty and the avatar is on the whitelist.
\<close>
theorem profile_update_visible:
  fixes db :: "'w gorm"
  assumes "platform rdb kv db master replica pub sent rt" "jwt_library (prim_jwt pr) payload"
    and "uss_repo s = NewUserRepository db" "uc_rdb (uss_userCache s) = rdb" "uss_writeMarker s = NewWriteMarker rdb ttl"
    and "UserService_UpdateProfile pr s c uid req w = (None, w')"
    and "tables (master w2) = tables (master w')" "WriteMarker_Has (uss_writeMarker s) uid w2 = (True, w3)"
    and "UserService_GetMyProfile pr s c' uid w2 = (Inr resp, w4)"
  shows "\<exists>u\<in>set (t_users (master w)). u_ID u = uid \<and> user_live u
    \<and> pu_Nickname (pv_Public resp) = (case up_Nickname req of None \<Rightarrow> u_Nickname u | Some n \<Rightarrow> TrimSpace n)
    \<and> pu_Bio (pv_Public resp) = (case up_Bio req of None \<Rightarrow> u_Bio u | Some b \<Rightarrow> TrimSpace b)
    \<and> pu_AvatarURL (pv_Public resp) = (case up_AvatarURL req of None \<Rightarrow> u_AvatarURL u | Some a \<Rightarrow> TrimSpace a)
    \<and> (\<forall>n. up_Nickname req = Some n \<longrightarrow> TrimSpace n \<noteq> [])
    \<and> (\<forall>a. up_AvatarURL req = Some a \<longrightarrow> IsAllowedURL (prim_lower pr) (TrimSpace a) (oss_URLPrefix (uss_ossCfg s)))"
proof -
  note env = platform.gorm_user_env [OF assms(1,2)]
  obtain upds where upds: "profile_updates pr s req = Inr upds"
    using assms(6) by (auto simp: UserService_UpdateProfile_def split: sum.splits)
  note fields = profile_fields [OF upds]
  have "tables (master w3) = tables (master w2)"
    using platform.rdb_frame [OF assms(1)] assms(5,8)
    by (auto simp: WriteMarker_Has_def NewWriteMarker_def split: prod.splits sum.splits)
  from user_env.own_profile [OF env assms(9,3,8) this]
  obtain x where x: "x \<in> set (t_users (master w'))" "u_ID x = uid" "user_live x" "pv_Public resp = toPublicResp x"
    using assms(7) by (auto simp: tables_def)
  obtain u t where u: "u \<in> set (t_users (master w))" "x = u \<and> upds = [] \<or> x = set_profile upds t u"
    "u_ID u = uid" "user_live u"
  proof (cases "upds = []")
    case True
    then have "w' = w" using assms(6) upds by (simp add: UserService_UpdateProfile_def)
    with x True that show thesis by auto
  next
    case False
    from user_env.profile_updated [OF env assms(6,3,5,4) upds False] obtain t where
      "t_users (master w') = update_rows (\<lambda>u. u_ID u = uid \<and> user_live u) (set_profile upds t) (t_users (master w))"
      by blast
    then obtain y where y: "y \<in> set (t_users (master w))"
        "x = (if u_ID y = uid \<and> user_live y then set_profile upds t y else y)"
      using x(1) by (auto simp: update_rows_def)
    with x(2,3) have "u_ID y = uid" "user_live y" by (auto split: if_splits)
    with y show thesis by (intro that [of y t]) simp_all
  qed
  have "set_profile [] t u = u\<lparr>u_UpdatedAt := t\<rparr>" by (simp add: set_profile_def)
  with u(2) fields(1-3) [of t u] x(4) have
    "pu_Nickname (pv_Public resp) = (case up_Nickname req of None \<Rightarrow> u_Nickname u | Some n \<Rightarrow> TrimSpace n)"
    "pu_Bio (pv_Public resp) = (case up_Bio req of None \<Rightarrow> u_Bio u | Some b \<Rightarrow> TrimSpace b)"
    "pu_AvatarURL (pv_Public resp) = (case up_AvatarURL req of None \<Rightarrow> u_AvatarURL u | Some a \<Rightarrow> TrimSpace a)"
    by (auto simp: toPublicResp_def)
  with u fields(6,7) show ?thesis by blast
qed

definition demo_update :: UpdateProfileReq where
  "demo_update = \<lparr>up_Nickname = Some '' anna '', up_AvatarURL = Some ''HTTP://x/a.png'', up_Bio = None\<rparr>"

definition updated_world :: world where
  "updated_world = snd (UserService_UpdateProfile doc_prims doc_users Background 7 demo_update demo_world)"

theorem profile_update_visible_witness:
  "\<exists>resp w'. UserService_GetMyProfile doc_prims doc_users Background 7 updated_world = (Inr resp, w')
     \<and> pu_Nickname (pv_Public resp) = ''anna'' \<and> pu_AvatarURL (pv_Public resp) = ''HTTP://x/a.png''"
proof -
  have e: "fst (UserService_UpdateProfile doc_prims doc_users Background 7 demo_update demo_world) = None"
    "fst (WriteMarker_Has (NewWriteMarker doc_rdb 3000) 7 updated_world) = True"
    "case fst (UserService_GetMyProfile doc_prims doc_users Background 7 updated_world) of Inr _ \<Rightarrow> True | Inl _ \<Rightarrow> False"
    "TrimSpace '' anna '' = ''anna''" "TrimSpace ''HTTP://x/a.png'' = ''HTTP://x/a.png''"
    by code_simp+
  have wm: "uss_writeMarker doc_users = NewWriteMarker doc_rdb 3000" by (simp add: doc_users_def NewUserService_def)
  have u: "UserService_UpdateProfile doc_prims doc_users Background 7 demo_update demo_world = (None, updated_world)"
    using e(1) by (metis updated_world_def prod.collapse)
  obtain w3 where m: "WriteMarker_Has (uss_writeMarker doc_users) 7 updated_world = (True, w3)"
    using e(2) wm by (metis prod.collapse)
  obtain resp w4 where g: "UserService_GetMyProfile doc_prims doc_users Background 7 updated_world = (Inr resp, w4)"
    using e(3) by (cases "UserService_GetMyProfile doc_prims doc_users Background 7 updated_world") (auto split: sum.splits)
  from profile_update_visible [OF doc.platform_axioms doc_jwt.jwt_library_axioms [folded doc_users_simps(3)] doc_users_simps(4)
      _ wm u refl m g] e(4,5)
  have "pu_Nickname (pv_Public resp) = ''anna''" "pu_AvatarURL (pv_Public resp) = ''HTTP://x/a.png''"
    by (auto simp: demo_update_def)
  with g show ?thesis by blast
qed

text \<open>User 7 under the hash of a phone, for which a code is stored.\<close>

definition demo_hash :: string where
  "demo_hash = hashPhone doc_prims doc_users ''13800138000''"

definition coded_world :: world where
  "coded_world =
     (let s = demo_db\<lparr>t_users := [(demo_user 7 ''ann'')\<lparr>u_PhoneHash := demo_hash\<rparr>]\<rparr>
      in demo_world\<lparr>w_db := s, w_replica := s,
           w_kv := rput (keySMSCode demo_hash) (VStr (Text ''123456'')) (Some 5000) (empty_kv 1000)\<rparr>)"

lemma doc_signs: "\<exists>p w'. issueTokenPair doc_prims doc_rt doc_users uid w = (Inr p, w')"
  by (simp add: issueTokenPair_def IssueAccessToken_def IssueRefreshToken_def Manager_issue_def doc_jwt_def split: prod.splits)

theorem login_success_witness:
  "\<exists>resp w'. UserService_Login doc_prims doc_rt doc_users Background ''13800138000'' ''123456'' coded_world = (Inr resp, w')
     \<and> pair_for doc_prims demo_manager (pu_ID (lg_User resp)) (lg_TokenPair resp)"
proof -
  let ?u = "(demo_user 7 ''ann'')\<lparr>u_PhoneHash := demo_hash\<rparr>"
  have w: "w_faults coded_world = []" "w_replica coded_world = demo_db\<lparr>t_users := [?u]\<rparr>"
    by (simp_all add: coded_world_def Let_def demo_world_def fresh_world_def)
  have k: "rget (w_kv coded_world) (keySMSCode demo_hash) = Some (VStr (Text ''123456''))"
    by (simp add: coded_world_def Let_def rget_rput) (simp add: empty_kv_def)
  have 1: "GetSMSCode doc_user_cache demo_hash coded_world = (Inr ''123456'', coded_world)"
    using w(1) k by (simp add: GetSMSCode_def run_get_def doc_rdb_def fault_def bulk_text_def)
  define w2 where "w2 = coded_world\<lparr>w_kv := rdel (keySMSCode demo_hash) (w_kv coded_world)\<rparr>"
  have 2: "DeleteSMSCode doc_user_cache demo_hash coded_world = (None, w2)" "w_faults w2 = []"
      "w_replica w2 = demo_db\<lparr>t_users := [?u]\<rparr>"
    using w k by (simp_all add: w2_def DeleteSMSCode_def run_status_def doc_rdb_def fault_def)
  have 3: "find_or_register doc_prims doc_rt doc_users Background ''13800138000'' demo_hash w2 = (Inr ?u, w2)"
    by (simp add: find_or_register_def NewUserRepository_def users_FindByPhoneHash_def doc_db_def fault_def 2
        by_id_query_def first_user_def run_query_def user_live_def demo_user_def zero_User_def window_def)
  have nb: "\<not> IsBanned ?u" by (simp add: IsBanned_def demo_user_def zero_User_def UserStatusBanned_def)
  obtain p w4 where 4: "issueTokenPair doc_prims doc_rt doc_users (u_ID ?u) w2 = (Inr p, w4)"
    using doc_signs by blast
  have r: "UserService_Login doc_prims doc_rt doc_users Background ''13800138000'' ''123456'' coded_world
      = (Inr \<lparr>lg_TokenPair = p, lg_User = toPublicResp ?u\<rparr>, w4)"
    using 1 2 3 4 nb by (simp add: UserService_Login_def demo_hash_def [symmetric])
  obtain u where "lg_User \<lparr>lg_TokenPair = p, lg_User = toPublicResp ?u\<rparr> = toPublicResp u"
      "pair_for doc_prims (uss_jwtMgr doc_users) (u_ID u) (lg_TokenPair \<lparr>lg_TokenPair = p, lg_User = toPublicResp ?u\<rparr>)"
    using login_success [OF doc.platform_axioms doc_jwt.jwt_library_axioms [folded doc_users_simps(3)] doc_users_simps(4) _ r]
    by (auto simp del: demo_hash_def)
  then have "pair_for doc_prims demo_manager (u_ID u) p" "u_ID u = pu_ID (toPublicResp ?u)"
    by (simp_all add: toPublicResp_def)
  with r show ?thesis by auto
qed

end
