(* ===== verification/UploadService.thy ===== *)
theory UploadService
  imports Oss Caches
begin

text \<open>
  internal/service/upload_service.go over a presigning client and the upload cache, with the
  wire types of internal/model/dto/upload.go: a presigned upload is recorded under a fresh nonce,
  which its callback takes out again.
\<close>

record PresignReq =
  ps_Filename :: string
  ps_ContentType :: string
  ps_Size :: int
  ps_Purpose :: string

record PresignResp =
  psr_UploadURL :: string
  psr_PublicURL :: string
  psr_Method :: string
  psr_Headers :: "(string \<times> string) list"
  psr_Nonce :: string
  psr_ExpiresAt :: int

record CallbackReq =
  cb_Nonce :: string

record CallbackResp =
  cbr_URL :: string
  cbr_ObjectKey :: string

record 'w UploadService =
  us_ossClient :: "'w oss_presign"
  us_uploadCache :: "'w UploadCache"
  us_ossCfg :: OSSConfig

definition NewUploadService :: "'w oss_presign \<Rightarrow> 'w UploadCache \<Rightarrow> OSSConfig \<Rightarrow> 'w UploadService" where
  "NewUploadService ossClient uploadCache ossCfg =
     \<lparr>us_ossClient = ossClient, us_uploadCache = uploadCache, us_ossCfg = ossCfg\<rparr>"

definition generateNonce :: "'w runtime \<Rightarrow> 'w \<Rightarrow> string result \<times> 'w" where
  "generateNonce rt w =
     (case rt_randBytes rt 16 w of
        (Inl e, w) \<Rightarrow> (err (Wrap ''crypto/rand'' e), w)
      | (Inr bs, w) \<Rightarrow> (ok (hex_EncodeToString (map char_of bs)), w))"

definition nonce_record :: "int \<Rightarrow> PresignReq \<Rightarrow> PresignResult \<Rightarrow> NonceRecord" where
  "nonce_record userID req r =
     \<lparr>nr_UserID = userID, nr_ObjectKey = pr_ObjectKey r, nr_PublicURL = pr_PublicURL r,
      nr_Purpose = ps_Purpose req, nr_ContentType = ps_ContentType req, nr_Size = ps_Size req\<rparr>"

definition UploadService_Presign ::
  "'w runtime \<Rightarrow> 'w UploadService \<Rightarrow> int \<Rightarrow> PresignReq \<Rightarrow> 'w \<Rightarrow> PresignResp result \<times> 'w" where
  "UploadService_Presign rt s userID req w =
     (if ps_Size req > oss_MaxImageSize (us_ossCfg s) then (err (App ErrUploadFileTooLarge), w)
      else if \<not> PresignPurpose_IsValid (ps_Purpose req) then (err (App ErrInvalidParams), w)
      else
     (case us_ossClient s
             \<lparr>pp_UserID = userID, pp_Filename = ps_Filename req, pp_ContentType = ps_ContentType req,
              pp_Size = ps_Size req, pp_Purpose = ps_Purpose req\<rparr> w of
        (Inl e, w) \<Rightarrow> (err (App ErrUploadPresignFailed), w)
      | (Inr r, w) \<Rightarrow>
     (case generateNonce rt w of
        (Inl e, w) \<Rightarrow> (err (App ErrUploadPresignFailed), w)
      | (Inr nonce, w) \<Rightarrow>
     (case SaveNonce (us_uploadCache s) nonce (nonce_record userID req r) (oss_PresignTTL (us_ossCfg s)) w of
        (Some e, w) \<Rightarrow> (err (App ErrUploadPresignFailed), w)
      | (None, w) \<Rightarrow>
          (ok \<lparr>psr_UploadURL = pr_UploadURL r, psr_PublicURL = pr_PublicURL r, psr_Method = pr_Method r,
               psr_Headers = pr_Headers r, psr_Nonce = nonce, psr_ExpiresAt = pr_ExpiresAt r\<rparr>, w)))))"

definition UploadService_Callback ::
  "'w UploadService \<Rightarrow> int \<Rightarrow> CallbackReq \<Rightarrow> 'w \<Rightarrow> CallbackResp result \<times> 'w" where
  "UploadService_Callback s userID req w =
     (case ConsumeNonce (us_uploadCache s) (cb_Nonce req) w of
        (Inl e, w) \<Rightarrow>
          (err (if errors_is e ErrCacheNotFound then App ErrUploadCallbackInvalid else App ErrServer), w)
      | (Inr rec, w) \<Rightarrow>
          (if nr_UserID rec \<noteq> userID then (err (App ErrUploadCallbackInvalid), w)
           else (ok \<lparr>cbr_URL = nr_PublicURL rec, cbr_ObjectKey = nr_ObjectKey rec\<rparr>, w)))"

section \<open>What a presign that succeeds has done\<close>

lemma presign_steps:
  assumes "UploadService_Presign rt s uid req w = (Inr resp, w')"
  shows "\<exists>r w1 w2. ps_Size req \<le> oss_MaxImageSize (us_ossCfg s) \<and> PresignPurpose_IsValid (ps_Purpose req)
    \<and> us_ossClient s \<lparr>pp_UserID = uid, pp_Filename = ps_Filename req, pp_ContentType = ps_ContentType req,
              pp_Size = ps_Size req, pp_Purpose = ps_Purpose req\<rparr> w = (Inr r, w1)
    \<and> generateNonce rt w1 = (Inr (psr_Nonce resp), w2)
    \<and> SaveNonce (us_uploadCache s) (psr_Nonce resp) (nonce_record uid req r) (oss_PresignTTL (us_ossCfg s)) w2 = (None, w')
    \<and> psr_PublicURL resp = pr_PublicURL r \<and> psr_UploadURL resp = pr_UploadURL r"
  using assms by (auto simp: UploadService_Presign_def split: if_splits prod.splits sum.splits option.splits)

context redis_server
begin

lemma stored_nonce:
  assumes "upc_rdb c = rdb" "SaveNonce c n rec ttl w = (None, w')" "0 < ttl"
  shows "rs_db (kv w') (keyUploadNonce n) = Some (VStr (Payload (json_of_NonceRecord rec)), Some (rs_now (kv w') + ttl))"
proof -
  obtain d where "kv w' = rput (keyUploadNonce n) (VStr (Payload (json_of_NonceRecord rec)))
      (Some (rs_now (kv w) + d + ttl)) (tick d (kv w))"
    by (rule set_ok [OF assms(2) [unfolded SaveNonce_def assms(1)] assms(3)])
  then show ?thesis by (simp add: rput_def tick_def)
qed

text \<open>Taking out a record that is there, before its deadline.\<close>

lemma consume_stored:
  assumes "upc_rdb c = rdb" "ConsumeNonce c n w = (res, w')"
    and "rs_db (kv w) (keyUploadNonce n) = Some (VStr (Payload (json_of_NonceRecord rec)), Some x)"
    and "rs_now (kv w') < x" "in_int64 (nr_UserID rec)" "in_int64 (nr_Size rec)"
  shows "res = Inr rec \<or> (\<exists>m. res = Inl (Wrap ''redis GETDEL upload:nonce'' (Plain m)))"
proof -
  let ?k = "keyUploadNonce n"
  obtain r where r: "rdb (Cmd (GETDEL ?k)) w = (r, w')"
    using assms(1,2) by (auto simp: ConsumeNonce_def run_get_def split: prod.splits sum.splits bulk.splits if_splits)
  show ?thesis
  proof (cases "\<exists>m. r = RError m")
    case True
    then show ?thesis
      using assms(1,2) r by (auto simp: ConsumeNonce_def run_get_def redis_Nil_def)
  next
    case False
    then obtain d where d: "0 \<le> d" "kv_step (GETDEL ?k) (tick d (kv w)) = (r, kv w')"
      using redis_answered [OF r] by auto
    have "rs_now (kv w') = rs_now (kv w) + d"
      using d(2) now_exec [of "GETDEL ?k" "tick d (kv w)"] by (simp add: tick_def)
    then have "rget (tick d (kv w)) ?k = Some (VStr (Payload (json_of_NonceRecord rec)))"
      using assms(3,4) by (simp add: rget_def tick_def)
    then have "r = RBulk (Payload (json_of_NonceRecord rec))" using d(2) by simp
    then show ?thesis
      using assms(1,2,5,6) r by (simp add: ConsumeNonce_def run_get_def NonceRecord_roundtrip)
  qed
qed

end

text \<open>
  C22: A presigned upload and its callback are a round trip: after a Presign that
  succeeded, as long as the record under its nonce is neither taken nor overwritten and its time
  has not passed, a callback with the nonce answers its owner with exactly the public URL that
  was promised, refuses every other user as an invalid callback, and fails otherwise only
  because Redis did.
\<close>
theorem upload_roundtrip:
  assumes "redis_server rdb kv"
    and "s = NewUploadService oss (NewUploadCache rdb) cfg" "0 < oss_PresignTTL cfg"
    and "in_int64 uid" "in_int64 (ps_Size req)"
    and "UploadService_Presign rt s uid req w1 = (Inr resp, w1')"
    and "rs_db (kv w2) (keyUploadNonce (psr_Nonce resp)) = rs_db (kv w1') (keyUploadNonce (psr_Nonce resp))"
    and "UploadService_Callback s v \<lparr>cb_Nonce = psr_Nonce resp\<rparr> w2 = (res, w2')"
    and "rs_now (kv w2') < rs_now (kv w1') + oss_PresignTTL cfg"
  shows "res = Inl (App ErrServer)
    \<or> (if v = uid then \<exists>key. res = Inr \<lparr>cbr_URL = psr_PublicURL resp, cbr_ObjectKey = key\<rparr>
        else res = Inl (App ErrUploadCallbackInvalid))"
proof -
  obtain r w0 where save: "SaveNonce (NewUploadCache rdb) (psr_Nonce resp) (nonce_record uid req r) (oss_PresignTTL cfg) w0 = (None, w1')"
      and url: "psr_PublicURL resp = pr_PublicURL r"
    using presign_steps [OF assms(6)] assms(2) by (auto simp: NewUploadService_def)
  have db: "rs_db (kv w2) (keyUploadNonce (psr_Nonce resp))
      = Some (VStr (Payload (json_of_NonceRecord (nonce_record uid req r))), Some (rs_now (kv w1') + oss_PresignTTL cfg))"
    using redis_server.stored_nonce [OF assms(1) _ save assms(3)] assms(7) by (simp add: NewUploadCache_def)
  obtain cres where c: "ConsumeNonce (NewUploadCache rdb) (psr_Nonce resp) w2 = (cres, w2')"
    using assms(2,8) by (auto simp: UploadService_Callback_def NewUploadService_def split: prod.splits sum.splits if_splits)
  have "cres = Inr (nonce_record uid req r) \<or> (\<exists>m. cres = Inl (Wrap ''redis GETDEL upload:nonce'' (Plain m)))"
    by (rule redis_server.consume_stored [OF assms(1) _ c db assms(9)])
      (use assms(4,5) in \<open>simp_all add: NewUploadCache_def nonce_record_def\<close>)
  then show ?thesis
  proof
    assume "cres = Inr (nonce_record uid req r)"
    with assms(2,8) c url show ?thesis
      by (auto simp: UploadService_Callback_def NewUploadService_def nonce_record_def)
  next
    assume "\<exists>m. cres = Inl (Wrap ''redis GETDEL upload:nonce'' (Plain m))"
    with assms(2,8) c show ?thesis
      by (auto simp: UploadService_Callback_def NewUploadService_def ErrCacheNotFound_def)
  qed
qed

definition demo_oss :: OSSConfig where
  "demo_oss =
     \<lparr>oss_Provider = ''mock'', oss_AccessKeyID = [], oss_AccessKeySecret = [], oss_Endpoint = [],
      oss_Bucket = [], oss_URLPrefix = ''http://x/'', oss_PresignTTL = 9000, oss_MaxImageSize = 100,
      oss_UploadHourly = 5, oss_MockListenAddr = ''x''\<rparr>"

definition doc_upload_with :: "world oss_presign \<Rightarrow> world UploadService" where
  "doc_upload_with oss = NewUploadService oss (NewUploadCache doc_rdb) demo_oss"

definition fixed_presign :: "world oss_presign" where
  "fixed_presign p w =
     (Inr \<lparr>pr_UploadURL = ''http://y/a.png'', pr_PublicURL = ''http://x/a.png'', pr_Method = ''PUT'',
           pr_Headers = [], pr_ObjectKey = ''a.png'', pr_ExpiresAt = 9000\<rparr>, w)"

abbreviation doc_upload :: "world UploadService" where
  "doc_upload \<equiv> doc_upload_with fixed_presign"

definition demo_presign :: PresignReq where
  "demo_presign = \<lparr>ps_Filename = ''a.png'', ps_ContentType = ''image/png'', ps_Size = 50, ps_Purpose = ''avatar''\<rparr>"

definition demo_nonce :: string where
  "demo_nonce = hex_EncodeToString (replicate 16 (char_of (0::nat)))"

definition demo_presigned :: world where
  "demo_presigned = snd (UploadService_Presign doc_rt doc_upload 7 demo_presign demo_world)"

lemma presign_evaluated:
  "UploadService_Presign doc_rt doc_upload 7 demo_presign demo_world
     = (Inr \<lparr>psr_UploadURL = ''http://y/a.png'', psr_PublicURL = ''http://x/a.png'', psr_Method = ''PUT'',
             psr_Headers = [], psr_Nonce = demo_nonce, psr_ExpiresAt = 9000\<rparr>, demo_presigned)"
  "w_kv demo_presigned = rput (keyUploadNonce demo_nonce)
     (VStr (Payload (json_of_NonceRecord \<lparr>nr_UserID = 7, nr_ObjectKey = ''a.png'', nr_PublicURL = ''http://x/a.png'',
        nr_Purpose = ''avatar'', nr_ContentType = ''image/png'', nr_Size = 50\<rparr>))) (Some 10000) (empty_kv 1000)"
  "w_faults demo_presigned = []"
  by (simp_all add: demo_presigned_def UploadService_Presign_def doc_upload_with_def fixed_presign_def NewUploadService_def
     demo_presign_def demo_oss_def PresignPurpose_IsValid_def PurposeAvatar_def generateNonce_def doc_rt_def SaveNonce_def
     NewUploadCache_def run_status_def doc_rdb_def fault_def demo_world_def fresh_world_def demo_nonce_def nonce_record_def
     deadline_in_def empty_kv_def)

lemma callback_evaluated:
  "fst (UploadService_Callback doc_upload 7 \<lparr>cb_Nonce = demo_nonce\<rparr> demo_presigned)
     = Inr \<lparr>cbr_URL = ''http://x/a.png'', cbr_ObjectKey = ''a.png''\<rparr>"
  "rs_now (w_kv (snd (UploadService_Callback doc_upload v \<lparr>cb_Nonce = demo_nonce\<rparr> demo_presigned))) = 1000"
  by (simp_all add: UploadService_Callback_def doc_upload_with_def NewUploadService_def NewUploadCache_def ConsumeNonce_def
     run_get_def doc_rdb_def fault_def presign_evaluated NonceRecord_roundtrip in_int64_def int64_min_def int64_max_def
     empty_kv_def split: prod.splits)

theorem upload_roundtrip_witness:
  "\<exists>key. fst (UploadService_Callback doc_upload 7 \<lparr>cb_Nonce = demo_nonce\<rparr> demo_presigned)
           = Inr \<lparr>cbr_URL = ''http://x/a.png'', cbr_ObjectKey = key\<rparr>"
proof -
  obtain res w2 where c: "UploadService_Callback doc_upload 7 \<lparr>cb_Nonce = demo_nonce\<rparr> demo_presigned = (res, w2)"
    by fastforce
  have t: "rs_now (w_kv w2) = 1000" "res \<noteq> Inl (App ErrServer)" using callback_evaluated(1) callback_evaluated(2) [of 7] c by simp_all
  have "res = Inl (App ErrServer)
    \<or> (if (7::int) = 7 then \<exists>key. res = Inr \<lparr>cbr_URL = psr_PublicURL \<lparr>psr_UploadURL = ''http://y/a.png'',
             psr_PublicURL = ''http://x/a.png'', psr_Method = ''PUT'', psr_Headers = [], psr_Nonce = demo_nonce,
             psr_ExpiresAt = 9000\<rparr>, cbr_ObjectKey = key\<rparr>
        else res = Inl (App ErrUploadCallbackInvalid))"
    by (rule upload_roundtrip [where ?w2.0 = demo_presigned and ?w2' = w2, OF doc.redis_server_axioms doc_upload_with_def _ _ _ presign_evaluated(1)])
      (use c t(1) in \<open>simp_all add: demo_oss_def demo_presign_def presign_evaluated in_int64_def int64_max_def int64_min_def empty_kv_def\<close>)
  with t(2) c show ?thesis by auto
qed

text \<open>
  C27: A nonce is used once: after a callback with the nonce that succeeded, the record
  belonged to the caller, and no later callback with the nonce, by whatever user and at whatever
  time, succeeds unless the record has been written again.
\<close>
theorem upload_nonce_once:
  assumes "redis_server rdb kv" "s = NewUploadService oss (NewUploadCache rdb) cfg"
    and "UploadService_Callback s u \<lparr>cb_Nonce = n\<rparr> w1 = (Inr r, w1')"
    and "rs_db (kv w2) (keyUploadNonce n) = rs_db (kv w1') (keyUploadNonce n)" "rs_now (kv w1') \<le> rs_now (kv w2)"
    and "UploadService_Callback s v \<lparr>cb_Nonce = n\<rparr> w2 = (res, w2')"
  shows "(\<exists>j rec. rget (kv w1) (keyUploadNonce n) = Some (VStr (Payload j)) \<and> NonceRecord_of_json j = Inr rec
            \<and> nr_UserID rec = u \<and> cbr_URL r = nr_PublicURL rec)
    \<and> (\<exists>e. res = Inl e)"
proof -
  obtain rec where c: "ConsumeNonce (NewUploadCache rdb) n w1 = (Inr rec, w1')" "nr_UserID rec = u" "cbr_URL r = nr_PublicURL rec"
    using assms(2,3) by (auto simp: UploadService_Callback_def NewUploadService_def split: prod.splits sum.splits if_splits)
  have "upc_rdb (NewUploadCache rdb) = rdb" by (simp add: NewUploadCache_def)
  note k = redis_server.consume_nonce [OF assms(1) this c(1)]
  have "rget (kv w2) (keyUploadNonce n) = None"
    using k(2) assms(4,5) by (auto simp: rget_def alive_def split: option.splits if_splits)
  then have "\<exists>e. res = Inl e"
    using redis_server.consume_nonce(1) [OF assms(1), of "NewUploadCache rdb" n w2] assms(2,6)
    by (auto simp: UploadService_Callback_def NewUploadService_def NewUploadCache_def split: prod.splits sum.splits if_splits)
  with k(1) c(2,3) show ?thesis by blast
qed

theorem upload_nonce_once_witness:
  "\<exists>r1 w1 e. UploadService_Callback doc_upload 7 \<lparr>cb_Nonce = demo_nonce\<rparr> demo_presigned = (Inr r1, w1)
     \<and> fst (UploadService_Callback doc_upload 7 \<lparr>cb_Nonce = demo_nonce\<rparr> w1) = Inl e"
proof -
  obtain r1 w1 where 1: "UploadService_Callback doc_upload 7 \<lparr>cb_Nonce = demo_nonce\<rparr> demo_presigned = (Inr r1, w1)"
    using callback_evaluated(1) by (metis prod.collapse)
  obtain r2 w2 where 2: "UploadService_Callback doc_upload 7 \<lparr>cb_Nonce = demo_nonce\<rparr> w1 = (r2, w2)" by fastforce
  from upload_nonce_once [OF doc.redis_server_axioms doc_upload_with_def 1 refl order.refl 2] 1 2
  show ?thesis by auto
qed

section \<open>What is handed out is on the whitelist\<close>

lemma Split_chars: "x \<in> set (Split s c) \<Longrightarrow> set x \<subseteq> set s"
proof (induction s arbitrary: x)
  case (Cons a s)
  obtain y ys where y: "Split s c = y # ys" by (cases "Split s c") simp_all
  have "set z \<subseteq> set s" if "z = y \<or> z \<in> set ys" for z using Cons.IH [of z] that y by auto
  with Cons.prems y show ?case by (fastforce split: if_splits)
qed simp

lemma foldl_clean: "set (foldl (clean_step b) acc xs) \<subseteq> set acc \<union> set xs"
  by (induction xs arbitrary: acc)
    (fastforce simp: clean_step_def dest: in_set_butlastD split: if_splits)+

lemma Join_chars: "set (Join xs sep) \<subseteq> (\<Union>x\<in>set xs. set x) \<union> set sep"
  by (induction xs sep rule: Join.induct) auto

lemma path_Clean_chars: "set (path_Clean p) \<subseteq> set p \<union> {CHR ''/'', CHR ''.''}"
proof -
  have parts: "(\<Union>x\<in>set (foldl (clean_step b) [] (Split p CHR ''/'')). set x) \<subseteq> set p" for b
    using foldl_clean [of b "[]" "Split p CHR ''/''"] Split_chars [of _ p "CHR ''/''"] by (auto dest!: subsetD)
  have "set (Join (foldl (clean_step b) [] (Split p CHR ''/'')) ''/'') \<subseteq> set p \<union> {CHR ''/''}" for b
    using Join_chars [of "foldl (clean_step b) [] (Split p CHR ''/'')" "''/''"] parts [of b] by auto
  then show ?thesis by (auto simp: path_Clean_def Let_def)
qed

text \<open>Every character of the text is ASCII.\<close>

definition is_ascii :: "string \<Rightarrow> bool" where
  "is_ascii s \<longleftrightarrow> list_all (\<lambda>c. byte_of c < 128) s"

lemma is_ascii_FormatInt [simp]: "is_ascii (FormatInt n)"
proof -
  have "is_ascii (FormatNat n)" for n
  proof (induction n rule: FormatNat.induct)
    case (1 n)
    have "byte_of (digit_char d) < 128" if "d < 10" for d using that by (simp add: digit_char_def)
    with 1 show ?case by (subst FormatNat.simps) (auto simp: is_ascii_def)
  qed
  then show ?thesis by (simp add: FormatInt_def is_ascii_def byte_of_def [of "CHR ''-''"])
qed

lemma object_key_ascii:
  assumes "buildObjectKey yyyymm rt p w = (key, w')" "PresignPurpose_IsValid (pp_Purpose p)"
    and "\<forall>t. is_ascii (yyyymm t)" "\<forall>w. is_ascii (fst (rt_uuid rt w))"
  shows "is_ascii key"
proof -
  obtain now w1 where 1: "rt_now rt w = (now, w1)" by fastforce
  obtain i where 2: "rt_uuid rt w1 = (i, w')" and key: "key = path_Clean (pp_Purpose p @ ''/'' @ FormatInt (pp_UserID p)
      @ ''/'' @ yyyymm now @ ''/'' @ i @ ''.'' @ extFromContentType (pp_ContentType p))"
    using assms(1) 1 by (auto simp: buildObjectKey_def split: prod.splits)
  have "is_ascii i" using assms(4) 2 by (metis fst_conv)
  moreover have "is_ascii (extFromContentType ct)" for ct
    by (simp add: is_ascii_def extFromContentType_def byte_of_def)
  moreover have "is_ascii (pp_Purpose p)"
    using assms(2) by (auto simp: is_ascii_def PresignPurpose_IsValid_def PurposeAvatar_def PurposeCover_def PurposeStep_def byte_of_def)
  moreover have "is_ascii (FormatInt (pp_UserID p))" "is_ascii (yyyymm now)" using assms(3) by simp_all
  ultimately have "is_ascii (pp_Purpose p @ ''/'' @ FormatInt (pp_UserID p)
      @ ''/'' @ yyyymm now @ ''/'' @ i @ ''.'' @ extFromContentType (pp_ContentType p))"
    by (simp add: is_ascii_def byte_of_def [of "CHR ''/''"] byte_of_def [of "CHR ''.''"])
  with path_Clean_chars key show ?thesis
    by (fastforce simp: is_ascii_def list_all_iff byte_of_def [of "CHR ''/''"] byte_of_def [of "CHR ''.''"])
qed

text \<open>
  What the service hands out passes its own whitelist: a Presign through the mock
  or the Aliyun client that succeeds was within the size limit, and its public URL is one that
  profile and post updates accept, whatever the prefix (not empty, ASCII, not ending in two
  slashes), whatever the letters outside ASCII map to.
\<close>
theorem presigned_url_allowed:
  assumes "s = NewUploadService oss (NewUploadCache rdb) cfg"
    and "oss = MockClient_Presign yyyymm rt cfg addr \<or> oss = AliyunClient_Presign yyyymm rt signURL cfg"
    and "UploadService_Presign rt s uid req w = (Inr resp, w')"
    and "\<forall>t. is_ascii (yyyymm t)" "\<forall>w. is_ascii (fst (rt_uuid rt w))"
    and "oss_URLPrefix cfg \<noteq> []" "is_ascii (oss_URLPrefix cfg)" "\<not> (\<exists>t. oss_URLPrefix cfg = t @ ''//'')"
  shows "ps_Size req \<le> oss_MaxImageSize cfg \<and> IsAllowedURL unicode (psr_PublicURL resp) (oss_URLPrefix cfg)"
proof -
  obtain r w1 where size: "ps_Size req \<le> oss_MaxImageSize cfg" and url: "psr_PublicURL resp = pr_PublicURL r"
    and p: "oss \<lparr>pp_UserID = uid, pp_Filename = ps_Filename req, pp_ContentType = ps_ContentType req,
              pp_Size = ps_Size req, pp_Purpose = ps_Purpose req\<rparr> w = (Inr r, w1)" (is "oss ?p w = _")
    using presign_steps [OF assms(3)] assms(1) by (auto simp: NewUploadService_def)
  have valid: "PresignPurpose_IsValid (pp_Purpose ?p)"
    using presign_steps [OF assms(3)] by simp
  obtain key w0 where k: "buildObjectKey yyyymm rt ?p w = (key, w0)" by fastforce
  have "pr_PublicURL r = public_url cfg key"
    using assms(2) p k valid
    by (auto simp: MockClient_Presign_def AliyunClient_Presign_def Let_def split: prod.splits sum.splits)
  with public_url_allowed [OF assms(6,8) assms(7) [unfolded is_ascii_def]
        object_key_ascii [OF k valid assms(4,5), unfolded is_ascii_def]] size url
  show ?thesis by simp
qed

theorem presigned_url_allowed_witness:
  "\<exists>resp w'. UploadService_Presign doc_rt (doc_upload_with (MockClient_Presign (\<lambda>_. ''202501'') doc_rt demo_oss ''y''))
        7 demo_presign demo_world = (Inr resp, w')
     \<and> IsAllowedURL id (psr_PublicURL resp) ''http://x/''"
proof -
  let ?oss = "MockClient_Presign (\<lambda>_. ''202501'') doc_rt demo_oss ''y''"
  obtain r w1 where p: "UploadService_Presign doc_rt (doc_upload_with ?oss) 7 demo_presign demo_world = (r, w1)" by fastforce
  have "fault w = (False, w)" if "w_faults w = []" for w using that by (simp add: fault_def)
  then obtain resp where resp: "r = Inr resp"
    using p by (auto simp: UploadService_Presign_def doc_upload_with_def NewUploadService_def demo_presign_def demo_oss_def
      PresignPurpose_IsValid_def PurposeAvatar_def MockClient_Presign_def buildObjectKey_def generateNonce_def doc_rt_def
      SaveNonce_def NewUploadCache_def run_status_def doc_rdb_def fault_def demo_world_def fresh_world_def)
  have a: "\<forall>t::int. is_ascii ((\<lambda>_. ''202501'') t)" "\<forall>w. is_ascii (fst (rt_uuid doc_rt w))"
    "oss_URLPrefix demo_oss = ''http://x/''" "is_ascii (oss_URLPrefix demo_oss)" "\<not> (\<exists>t. oss_URLPrefix demo_oss = t @ ''//'')"
    using is_ascii_FormatInt
    by (auto simp: is_ascii_def doc_rt_def demo_oss_def byte_of_def append_eq_Cons_conv Cons_eq_append_conv)
  have "IsAllowedURL id (psr_PublicURL resp) (oss_URLPrefix demo_oss)"
    using presigned_url_allowed [OF doc_upload_with_def disjI1 [OF refl] p [unfolded resp] a(1,2) _ a(4,5)] a(3) by simp
  with p resp a(3) show ?thesis by simp
qed

end
