(* ===== verification/AuthorAssembler.thy ===== *)
theory AuthorAssembler
  imports UserRepository LikeCache
begin

text \<open>
  internal/service/author_assembler.go: loading the authors of a page of posts, the list items
  with the author embedded, and the flags of the viewer's likes.
\<close>

record 'w AuthorAssembler =
  asm_userRepo :: "'w UserRepository"

definition NewAuthorAssembler :: "'w UserRepository \<Rightarrow> 'w AuthorAssembler" where
  "NewAuthorAssembler userRepo = \<lparr>asm_userRepo = userRepo\<rparr>"

text \<open>No author is the answer for an account that is gone.\<close>

definition LoadOne :: "'w AuthorAssembler \<Rightarrow> ctx \<Rightarrow> int \<Rightarrow> 'w \<Rightarrow> User option result \<times> 'w" where
  "LoadOne a c userID w =
     (case ur_FindByID (asm_userRepo a) c userID w of
        (Inl e, w) \<Rightarrow>
          (if errors_is e repo_ErrUserNotFound then (ok None, w) else (err (Wrap ''load author'' e), w))
      | (Inr u, w) \<Rightarrow> (ok (Some u), w))"

fun unique_from :: "int set \<Rightarrow> Post list \<Rightarrow> int list" where
  "unique_from seen [] = []"
| "unique_from seen (p # ps) =
     (if p_UserID p \<notin> seen then p_UserID p # unique_from (insert (p_UserID p) seen) ps
      else unique_from seen ps)"

definition uniqueAuthorIDs :: "Post list \<Rightarrow> int list" where
  "uniqueAuthorIDs posts = unique_from {} posts"

fun load_authors ::
  "'w AuthorAssembler \<Rightarrow> ctx \<Rightarrow> int list \<Rightarrow> (int \<rightharpoonup> User option) \<Rightarrow> 'w \<Rightarrow> (int \<rightharpoonup> User option) result \<times> 'w" where
  "load_authors a c [] m w = (ok m, w)"
| "load_authors a c (uid # uids) m w =
     (case LoadOne a c uid w of
        (Inl e, w) \<Rightarrow> (err e, w)
      | (Inr u, w) \<Rightarrow> load_authors a c uids (m(uid \<mapsto> u)) w)"

definition LoadMap :: "'w AuthorAssembler \<Rightarrow> ctx \<Rightarrow> Post list \<Rightarrow> 'w \<Rightarrow> (int \<rightharpoonup> User option) result \<times> 'w" where
  "LoadMap a c posts w = load_authors a c (uniqueAuthorIDs posts) Map.empty w"

text \<open>The nickname of the placeholder is the UTF-8 of the text in the source.\<close>

definition deleted_nickname :: string where
  "deleted_nickname =
     utf8 [239, 188, 136, 231, 148, 168, 230, 136, 183, 229, 183, 178, 230, 179, 168, 233, 148, 128, 239, 188, 137]"

definition BuildAuthorBrief :: "int \<Rightarrow> User option \<Rightarrow> PostAuthorBrief" where
  "BuildAuthorBrief authorID u =
     (case u of
        Some x \<Rightarrow> \<lparr>pa_ID = u_ID x, pa_Nickname = u_Nickname x, pa_AvatarURL = u_AvatarURL x\<rparr>
      | None \<Rightarrow> \<lparr>pa_ID = authorID, pa_Nickname = deleted_nickname, pa_AvatarURL = []\<rparr>)"

definition BuildListItem :: "Post \<Rightarrow> User option \<Rightarrow> PostListItem" where
  "BuildListItem p author =
     \<lparr>pi_ID = p_ID p, pi_Title = p_Title p, pi_SceneTag = p_SceneTag p, pi_SceneName = SceneTag_Name (p_SceneTag p),
      pi_CoverURL = p_CoverURL p, pi_LikeCount = p_LikeCount p, pi_ViewCount = p_ViewCount p,
      pi_Author = BuildAuthorBrief (p_UserID p) author, pi_CreatedAt = p_CreatedAt p, pi_LikedByMe = False\<rparr>"

text \<open>A key that is missing reads as nil.\<close>

definition author_of :: "(int \<rightharpoonup> User option) \<Rightarrow> int \<Rightarrow> User option" where
  "author_of m uid = (case m uid of None \<Rightarrow> None | Some u \<Rightarrow> u)"

definition BuildListItems :: "Post list \<Rightarrow> (int \<rightharpoonup> User option) \<Rightarrow> PostListItem list" where
  "BuildListItems posts authorMap = map (\<lambda>p. BuildListItem p (author_of authorMap (p_UserID p))) posts"

definition set_liked :: "(int \<rightharpoonup> bool) \<Rightarrow> PostListItem \<Rightarrow> PostListItem" where
  "set_liked m it = (if m (pi_ID it) = Some True then it\<lparr>pi_LikedByMe := True\<rparr> else it)"

definition AttachLikedByMe ::
  "'w LikeCache option \<Rightarrow> int \<Rightarrow> PostListItem list \<Rightarrow> 'w \<Rightarrow> PostListItem list \<times> 'w" where
  "AttachLikedByMe likeCache viewerID items w =
     (if viewerID = 0 \<or> items = [] then (items, w)
      else (case likeCache of
              None \<Rightarrow> (items, w)
            | Some lc \<Rightarrow>
                (case BatchHasLiked lc viewerID (map pi_ID items) w of
                   (Inl e, w) \<Rightarrow> (items, w)
                 | (Inr likedMap, w) \<Rightarrow> (map (set_liked likedMap) items, w))))"

section \<open>Facts\<close>

lemma unique_from_set: "set (unique_from seen posts) = p_UserID ` set posts - seen"
  by (induction posts arbitrary: seen) auto

lemma unique_from_distinct: "distinct (unique_from seen posts)"
  by (induction posts arbitrary: seen) (auto simp: unique_from_set)

text \<open>The items but for the flag of the viewer.\<close>

definition plain_item :: "PostListItem \<Rightarrow> PostListItem" where
  "plain_item it = it\<lparr>pi_LikedByMe := False\<rparr>"

lemma plain_set_liked [simp]: "plain_item (set_liked m it) = plain_item it"
  by (simp add: set_liked_def plain_item_def)

lemma attach_plain:
  "AttachLikedByMe lc v items w = (items', w') \<Longrightarrow> map plain_item items' = map plain_item items"
  by (auto simp: AttachLikedByMe_def o_def split: if_splits option.splits prod.splits sum.splits)

lemma plain_BuildListItem [simp]: "plain_item (BuildListItem p u) = BuildListItem p u"
  by (simp add: plain_item_def BuildListItem_def)

context user_repository
begin

lemma load_one:
  assumes "LoadOne (NewAuthorAssembler users) c uid w = (r, w')"
  shows "readonly sent kv master w w'"
    "r = Inr (Some u) \<Longrightarrow> u_ID u = uid \<and> user_live u \<and> u \<in> set (t_users (if ForceMaster c then master w else replica w))"
    "r = Inr None \<Longrightarrow> \<not> (\<exists>u\<in>set (t_users (if ForceMaster c then master w else replica w)). u_ID u = uid \<and> user_live u)"
proof -
  obtain x w1 where f: "ur_FindByID users c uid w = (x, w1)" by fastforce
  note law = user_find_law [OF f]
  show "readonly sent kv master w w'"
    "r = Inr (Some u) \<Longrightarrow> u_ID u = uid \<and> user_live u \<and> u \<in> set (t_users (if ForceMaster c then master w else replica w))"
    "r = Inr None \<Longrightarrow> \<not> (\<exists>u\<in>set (t_users (if ForceMaster c then master w else replica w)). u_ID u = uid \<and> user_live u)"
    using assms f law by (auto simp: LoadOne_def NewAuthorAssembler_def split: sum.splits if_splits)
qed

lemma load_authors_readonly:
  "load_authors (NewAuthorAssembler users) c uids m w = (r, w') \<Longrightarrow> readonly sent kv master w w'"
proof (induction uids arbitrary: m w)
  case (Cons uid uids)
  obtain x w1 where l: "LoadOne (NewAuthorAssembler users) c uid w = (x, w1)" by fastforce
  show ?case
  proof (cases x)
    case (Inl e)
    with Cons.prems l load_one(1) [OF l] show ?thesis by simp
  next
    case (Inr u)
    with Cons.prems l have "load_authors (NewAuthorAssembler users) c uids (m(uid \<mapsto> u)) w1 = (r, w')" by simp
    from readonly_trans [OF load_one(1) [OF l] Cons.IH [OF this]] show ?thesis .
  qed
qed simp

end

end
