(* ===== verification/PostService.thy ===== *)
theory PostService
  imports AuthorAssembler PostRepository UserService
begin

text \<open>
  internal/service/post_service.go: creating and deleting posts with their events, the detail
  page with its view event, the cached feed and the list of an author.
\<close>

record 'w PostService =
  psv_postRepo :: "'w PostRepository"
  psv_userRepo :: "'w UserRepository"
  psv_feedCache :: "'w FeedCache"
  psv_likeCache :: "'w LikeCache option"
  psv_writeMarker :: "'w WriteMarker"
  psv_bus :: "'w publisher"
  psv_assembler :: "'w AuthorAssembler"
  psv_ossCfg :: OSSConfig
  psv_feedCacheTTL :: int

text \<open>dto.FeedQuery.\<close>

record FeedQuery =
  fq_SceneTag :: int
  fq_Cursor :: string
  fq_Size :: int

text \<open>Of config.CacheConfig the service reads the TTL of the feed pages only.\<close>

definition NewPostService ::
  "'w PostRepository \<Rightarrow> 'w UserRepository \<Rightarrow> 'w FeedCache \<Rightarrow> 'w LikeCache option \<Rightarrow> 'w WriteMarker
     \<Rightarrow> 'w publisher \<Rightarrow> 'w AuthorAssembler \<Rightarrow> OSSConfig \<Rightarrow> int \<Rightarrow> 'w PostService" where
  "NewPostService postRepo userRepo feedCache likeCache writeMarker bus assembler ossCfg feedCacheTTL =
     \<lparr>psv_postRepo = postRepo, psv_userRepo = userRepo, psv_feedCache = feedCache, psv_likeCache = likeCache,
      psv_writeMarker = writeMarker, psv_bus = bus, psv_assembler = assembler, psv_ossCfg = ossCfg,
      psv_feedCacheTTL = feedCacheTTL\<rparr>"

section \<open>Events\<close>

definition post_event :: "Post \<Rightarrow> int \<Rightarrow> string \<Rightarrow> Event" where
  "post_event p now i =
     \<lparr>ev_ID = i, ev_Topic = TopicPost, ev_Timestamp = now,
      ev_Payload = json_of_PostEvent
        \<lparr>pe_EventID = i, pe_PostID = p_ID p, pe_AuthorID = p_UserID p, pe_SceneTag = p_SceneTag p, pe_Timestamp = now\<rparr>\<rparr>"

definition audit_event :: "Post \<Rightarrow> int \<Rightarrow> string \<Rightarrow> Event" where
  "audit_event p now i =
     \<lparr>ev_ID = i, ev_Topic = TopicAudit, ev_Timestamp = now,
      ev_Payload = json_of_AuditEvent
        \<lparr>ae_EventID = i, ae_PostID = p_ID p, ae_AuthorID = p_UserID p, ae_AuditStatus = AuditStatusPending,
          ae_Remark = [], ae_RawResponse = [], ae_Timestamp = now\<rparr>\<rparr>"

definition post_deleted_event :: "Post \<Rightarrow> int \<Rightarrow> string \<Rightarrow> Event" where
  "post_deleted_event p now i =
     \<lparr>ev_ID = i, ev_Topic = TopicPostDeleted, ev_Timestamp = now,
      ev_Payload = json_of_PostDeletedEvent
        \<lparr>pde_EventID = i, pde_PostID = p_ID p, pde_AuthorID = p_UserID p, pde_Timestamp = now\<rparr>\<rparr>"

definition pv_event :: "int \<Rightarrow> int \<Rightarrow> string \<Rightarrow> int \<Rightarrow> string \<Rightarrow> Event" where
  "pv_event postID viewerID ip now i =
     \<lparr>ev_ID = i, ev_Topic = TopicPV, ev_Timestamp = now,
      ev_Payload = json_of_PVEvent
        \<lparr>pv_EventID = i, pv_PostID = postID, pv_ViewerID = viewerID, pv_IP = ip, pv_Timestamp = now\<rparr>\<rparr>"

text \<open>What the four functions share: the time, the identifier, and a publish whose error is logged.\<close>

definition publish_event :: "'w runtime \<Rightarrow> 'w publisher \<Rightarrow> ctx \<Rightarrow> (int \<Rightarrow> string \<Rightarrow> Event) \<Rightarrow> 'w \<Rightarrow> 'w" where
  "publish_event rt bus c mk w =
     (let (now, w) = rt_now rt w;
          (i, w) = rt_uuid rt w
      in snd (bus c (mk now i) w))"

definition publishPostEvent :: "'w runtime \<Rightarrow> 'w PostService \<Rightarrow> ctx \<Rightarrow> Post \<Rightarrow> 'w \<Rightarrow> 'w" where
  "publishPostEvent rt s c p = publish_event rt (psv_bus s) c (post_event p)"

definition publishAuditEvent :: "'w runtime \<Rightarrow> 'w PostService \<Rightarrow> ctx \<Rightarrow> Post \<Rightarrow> 'w \<Rightarrow> 'w" where
  "publishAuditEvent rt s c p = publish_event rt (psv_bus s) c (audit_event p)"

definition publishPostDeletedEvent :: "'w runtime \<Rightarrow> 'w PostService \<Rightarrow> ctx \<Rightarrow> Post \<Rightarrow> 'w \<Rightarrow> 'w" where
  "publishPostDeletedEvent rt s c p = publish_event rt (psv_bus s) c (post_deleted_event p)"

definition bumpFeedVersion :: "'w PostService \<Rightarrow> 'w \<Rightarrow> 'w" where
  "bumpFeedVersion s w = snd (BumpFeedVersion (psv_feedCache s) w)"

definition maskIP :: "string \<Rightarrow> string" where
  "maskIP ip =
     (let parts = Split ip CHR ''.'' in
      if length parts \<noteq> 4 then []
      else parts ! 0 @ ''.'' @ parts ! 1 @ ''.*.*'')"

definition sha256_hex :: "primitives \<Rightarrow> string \<Rightarrow> string" where
  "sha256_hex pr s = hex_EncodeToString (prim_sha256 pr s)"

definition recordPV :: "primitives \<Rightarrow> 'w runtime \<Rightarrow> 'w PostService \<Rightarrow> ctx \<Rightarrow> int \<Rightarrow> int \<Rightarrow> string \<Rightarrow> 'w \<Rightarrow> 'w" where
  "recordPV pr rt s c postID viewerID viewerIP w =
     (case MarkPVSeen (sha256_hex pr) (psv_feedCache s) postID viewerID viewerIP w of
        (Inl e, w) \<Rightarrow> w
      | (Inr firstView, w) \<Rightarrow>
          if \<not> firstView then w
          else publish_event rt (psv_bus s) c (pv_event postID viewerID (maskIP viewerIP)) w)"

section \<open>Create\<close>

definition new_post :: "int \<Rightarrow> string \<Rightarrow> CreatePostReq \<Rightarrow> int \<Rightarrow> Post" where
  "new_post userID title req now =
     zero_Post\<lparr>p_UserID := userID, p_Title := title, p_Content := cp_Content req, p_SceneTag := cp_SceneTag req,
       p_CoverURL := cp_CoverURL req, p_IsVisible := PostInvisible, p_AuditStatus := AuditStatusPending,
       p_CreatedAt := now, p_UpdatedAt := now\<rparr>"

fun new_steps :: "int \<Rightarrow> int \<Rightarrow> PostStepReq list \<Rightarrow> PostStep list" where
  "new_steps now i [] = []"
| "new_steps now i (st # sts) =
     \<lparr>ps_ID = 0, ps_PostID = 0, ps_StepNo = (i + 1) mod 256, ps_Text = sr_Text st, ps_ImageURLs = sr_ImageURLs st,
      ps_CreatedAt = now\<rparr> # new_steps now (i + 1) sts"

fun steps_allowed :: "(string \<Rightarrow> string) \<Rightarrow> string \<Rightarrow> PostStepReq list \<Rightarrow> bool" where
  "steps_allowed unicode prefix [] = True"
| "steps_allowed unicode prefix (st # sts) =
     (if \<not> AllAllowed unicode (sr_ImageURLs st) prefix then False else steps_allowed unicode prefix sts)"

definition store_post :: "'w PostService \<Rightarrow> ctx \<Rightarrow> Post \<Rightarrow> CreatePostReq \<Rightarrow> int \<Rightarrow> 'w \<Rightarrow> Post result \<times> 'w" where
  "store_post s c p req now w =
     (if cp_Steps req = [] then
        (case pr_Create (psv_postRepo s) c p w of
           (Inl e, w) \<Rightarrow> (err (Wrap ''create post'' e), w)
         | (Inr p, w) \<Rightarrow> (ok p, w))
      else
        (case pr_CreateWithSteps (psv_postRepo s) c p (new_steps now 0 (cp_Steps req)) w of
           (Inl e, w) \<Rightarrow> (err (Wrap ''create post with steps'' e), w)
         | (Inr (p, _), w) \<Rightarrow> (ok p, w)))"

definition PostService_Create ::
  "primitives \<Rightarrow> 'w runtime \<Rightarrow> 'w PostService \<Rightarrow> ctx \<Rightarrow> int \<Rightarrow> CreatePostReq \<Rightarrow> 'w \<Rightarrow> CreatePostResp result \<times> 'w" where
  "PostService_Create pr rt s c userID req w =
     (let prefix = oss_URLPrefix (psv_ossCfg s);
          title = TrimSpace (cp_Title req) in
      if \<not> SceneTag_IsValid (cp_SceneTag req) then (err (App ErrSceneTagInvalid), w)
      else if title = [] then (err (App ErrTitleEmpty), w)
      else if \<not> IsAllowedURL (prim_lower pr) (cp_CoverURL req) prefix then (err (App ErrUploadURLNotAllowed), w)
      else if length (cp_Steps req) > 30 then (err (App ErrPostStepsInvalid), w)
      else if \<not> steps_allowed (prim_lower pr) prefix (cp_Steps req) then (err (App ErrUploadURLNotAllowed), w)
      else
        (let (now, w) = rt_now rt w in
         case store_post s c (new_post userID title req now) req now w of
           (Inl e, w) \<Rightarrow> (err e, w)
         | (Inr p, w) \<Rightarrow>
             (let w = WriteMarker_Mark (psv_writeMarker s) userID w;
                  w = publishPostEvent rt s c p w;
                  w = publishAuditEvent rt s c p w;
                  w = bumpFeedVersion s w
              in (ok \<lparr>cr_PostID = p_ID p, cr_AuditStatus = p_AuditStatus p, cr_IsVisible = p_IsVisible p,
                      cr_CreatedAt = p_CreatedAt p\<rparr>, w))))"

section \<open>Delete\<close>

definition PostService_Delete :: "'w runtime \<Rightarrow> 'w PostService \<Rightarrow> ctx \<Rightarrow> int \<Rightarrow> int \<Rightarrow> 'w \<Rightarrow> error \<times> 'w" where
  "PostService_Delete rt s c userID postID w =
     (case pr_FindByID (psv_postRepo s) c postID w of
        (Inl e, w) \<Rightarrow>
          (Some (if errors_is e repo_ErrPostNotFound then App ErrPostNotFound else Wrap ''find post'' e), w)
      | (Inr p, w) \<Rightarrow>
          if p_UserID p \<noteq> userID then (Some (App ErrPostForbidden), w)
          else
            (case pr_SoftDeleteByOwner (psv_postRepo s) c postID userID w of
               (Inl e, w) \<Rightarrow> (Some (Wrap ''soft delete post'' e), w)
             | (Inr affected, w) \<Rightarrow>
                 if affected = 0 then (Some (App ErrPostNotFound), w)
                 else
                   (let w = WriteMarker_Mark (psv_writeMarker s) userID w;
                        w = publishPostDeletedEvent rt s c p w;
                        w = bumpFeedVersion s w
                    in (None, w))))"

section \<open>Detail\<close>

definition toDetailResp :: "Post \<Rightarrow> User option \<Rightarrow> PostStep list \<Rightarrow> PostDetailResp" where
  "toDetailResp p author steps =
     \<lparr>pd_ID = p_ID p, pd_Title = p_Title p, pd_SceneTag = p_SceneTag p, pd_SceneName = SceneTag_Name (p_SceneTag p),
      pd_Content = p_Content p, pd_CoverURL = p_CoverURL p, pd_LikeCount = p_LikeCount p, pd_ViewCount = p_ViewCount p,
      pd_Author = BuildAuthorBrief (p_UserID p) author,
      pd_Steps = map (\<lambda>st. \<lparr>st_StepNo = ps_StepNo st, st_Text = ps_Text st, st_ImageURLs = ps_ImageURLs st\<rparr>) steps,
      pd_AuditStatus = p_AuditStatus p, pd_IsVisible = p_IsVisible p, pd_CreatedAt = p_CreatedAt p,
      pd_UpdatedAt = p_UpdatedAt p\<rparr>"

definition PostService_GetDetail ::
  "primitives \<Rightarrow> 'w runtime \<Rightarrow> 'w PostService \<Rightarrow> ctx \<Rightarrow> int \<Rightarrow> int \<Rightarrow> string \<Rightarrow> 'w \<Rightarrow> PostDetailResp result \<times> 'w" where
  "PostService_GetDetail pr rt s c postID viewerID viewerIP w =
     (case pr_FindByID (psv_postRepo s) c postID w of
        (Inl e, w) \<Rightarrow>
          (err (if errors_is e repo_ErrPostNotFound then App ErrPostNotFound else Wrap ''find post'' e), w)
      | (Inr p, w) \<Rightarrow>
          if p_IsVisible p \<noteq> PostVisible then (err (App ErrPostNotFound), w)
          else
            (case LoadOne (psv_assembler s) c (p_UserID p) w of
               (Inl e, w) \<Rightarrow> (err e, w)
             | (Inr author, w) \<Rightarrow>
                 (let (sres, w) = pr_LoadSteps (psv_postRepo s) c postID w;
                      steps = (case sres of Inl _ \<Rightarrow> [] | Inr xs \<Rightarrow> xs);
                      w = recordPV pr rt s c postID viewerID viewerIP w
                  in (ok (toDetailResp p author steps), w))))"

section \<open>Lists\<close>

definition parseCursor :: "string \<Rightarrow> int result" where
  "parseCursor s =
     (if s = [] then ok zero_time
      else (case ParseInt s of
              None \<Rightarrow> err (Plain ''invalid syntax'')
            | Some ms \<Rightarrow> if ms \<le> 0 then err (Plain ''cursor must be a positive unix-milli'') else ok ms))"

definition nextCursorOf :: "Post list \<Rightarrow> int \<Rightarrow> string" where
  "nextCursorOf posts sz =
     (if int (length posts) < sz then [] else FormatInt (p_CreatedAt (last posts)))"

definition normaliseSize :: "int \<Rightarrow> int" where
  "normaliseSize sz = (if sz \<le> 0 then 20 else if sz > 50 then 50 else sz)"

definition assembleFeed :: "'w PostService \<Rightarrow> ctx \<Rightarrow> Post list \<Rightarrow> int \<Rightarrow> 'w \<Rightarrow> FeedResp result \<times> 'w" where
  "assembleFeed s c posts sz w =
     (case LoadMap (psv_assembler s) c posts w of
        (Inl e, w) \<Rightarrow> (err e, w)
      | (Inr authorMap, w) \<Rightarrow>
          (ok \<lparr>fr_Posts = BuildListItems posts authorMap, fr_NextCursor = nextCursorOf posts sz,
               fr_HasMore = (int (length posts) \<ge> sz)\<rparr>, w))"

text \<open>The JSON of a page of the feed.\<close>

definition json_of_author :: "PostAuthorBrief \<Rightarrow> json" where
  "json_of_author a =
     JObj [(''id'', JNum (pa_ID a)), (''nickname'', JStr (pa_Nickname a)), (''avatar_url'', JStr (pa_AvatarURL a))]"

definition author_of_json :: "json \<Rightarrow> PostAuthorBrief result" where
  "author_of_json j =
     result_bind (as_obj j) (\<lambda>kvs.
     result_bind (as_int (json_field ''id'' kvs)) (\<lambda>i.
     result_bind (as_str (json_field ''nickname'' kvs)) (\<lambda>n.
     result_bind (as_str (json_field ''avatar_url'' kvs)) (\<lambda>u.
       ok \<lparr>pa_ID = i, pa_Nickname = n, pa_AvatarURL = u\<rparr>))))"

definition json_of_item :: "PostListItem \<Rightarrow> json" where
  "json_of_item x =
     JObj [(''id'', JNum (pi_ID x)), (''title'', JStr (pi_Title x)), (''scene_tag'', JNum (pi_SceneTag x)),
           (''scene_name'', JStr (pi_SceneName x)), (''cover_url'', JStr (pi_CoverURL x)),
           (''like_count'', JNum (pi_LikeCount x)), (''view_count'', JNum (pi_ViewCount x)),
           (''author'', json_of_author (pi_Author x)), (''created_at'', JNum (pi_CreatedAt x)),
           (''liked_by_me'', JBool (pi_LikedByMe x))]"

definition item_fields_of_json :: "json \<Rightarrow> PostListItem result" where
  "item_fields_of_json j =
     result_bind (as_obj j) (\<lambda>kvs.
     result_bind (as_int (json_field ''id'' kvs)) (\<lambda>i.
     result_bind (as_str (json_field ''title'' kvs)) (\<lambda>t.
     result_bind (as_ranged (- 128) 127 (json_field ''scene_tag'' kvs)) (\<lambda>sc.
     result_bind (as_str (json_field ''scene_name'' kvs)) (\<lambda>sn.
     result_bind (as_str (json_field ''cover_url'' kvs)) (\<lambda>cu.
     result_bind (as_ranged 0 4294967295 (json_field ''like_count'' kvs)) (\<lambda>lc.
     result_bind (as_ranged 0 4294967295 (json_field ''view_count'' kvs)) (\<lambda>vc.
     result_bind (author_of_json (json_field ''author'' kvs)) (\<lambda>a.
     result_bind (as_int (json_field ''created_at'' kvs)) (\<lambda>ca.
     result_bind (as_bool (json_field ''liked_by_me'' kvs)) (\<lambda>l.
       ok \<lparr>pi_ID = i, pi_Title = t, pi_SceneTag = sc, pi_SceneName = sn, pi_CoverURL = cu, pi_LikeCount = lc,
           pi_ViewCount = vc, pi_Author = a, pi_CreatedAt = ca, pi_LikedByMe = l\<rparr>)))))))))))"

definition json_of_feed :: "FeedResp \<Rightarrow> json" where
  "json_of_feed r =
     JObj [(''posts'', JArr (map json_of_item (fr_Posts r))), (''next_cursor'', JStr (fr_NextCursor r)),
           (''has_more'', JBool (fr_HasMore r))]"

definition feed_of_json :: "json \<Rightarrow> FeedResp result" where
  "feed_of_json j =
     result_bind (as_obj j) (\<lambda>kvs.
     result_bind (as_list item_fields_of_json (json_field ''posts'' kvs)) (\<lambda>ps.
     result_bind (as_str (json_field ''next_cursor'' kvs)) (\<lambda>nc.
     result_bind (as_bool (json_field ''has_more'' kvs)) (\<lambda>hm.
       ok \<lparr>fr_Posts = ps, fr_NextCursor = nc, fr_HasMore = hm\<rparr>))))"

text \<open>A string that was not written as JSON does not decode.\<close>

definition decode_feed :: "bulk \<Rightarrow> FeedResp result" where
  "decode_feed b = (case b of Text t \<Rightarrow> err json_error | Payload j \<Rightarrow> feed_of_json j)"

definition attach :: "'w PostService \<Rightarrow> int \<Rightarrow> FeedResp \<Rightarrow> 'w \<Rightarrow> FeedResp result \<times> 'w" where
  "attach s viewerID resp w =
     (let (items, w) = AttachLikedByMe (psv_likeCache s) viewerID (fr_Posts resp) w
      in (ok (resp\<lparr>fr_Posts := items\<rparr>), w))"

text \<open>The cached page, if the version and the page can be read; with the version for the write.\<close>

definition cached_feed ::
  "'w PostService \<Rightarrow> int \<Rightarrow> int \<Rightarrow> 'w \<Rightarrow> (int option \<times> FeedResp option) \<times> 'w" where
  "cached_feed s scene cursorTime w =
     (case GetFeedVersion (psv_feedCache s) w of
        (Inl e, w) \<Rightarrow> ((None, None), w)
      | (Inr ver, w) \<Rightarrow>
          (case GetFeed (psv_feedCache s) scene ver cursorTime w of
             (Inl e, w) \<Rightarrow> ((Some ver, None), w)
           | (Inr None, w) \<Rightarrow> ((Some ver, None), w)
           | (Inr (Some b), w) \<Rightarrow>
               (case decode_feed b of
                  Inl e \<Rightarrow> ((Some ver, None), w)
                | Inr resp \<Rightarrow> ((Some ver, Some resp), w))))"

definition PostService_ListFeed ::
  "'w PostService \<Rightarrow> ctx \<Rightarrow> int \<Rightarrow> FeedQuery \<Rightarrow> 'w \<Rightarrow> FeedResp result \<times> 'w" where
  "PostService_ListFeed s c viewerID q w =
     (let sz = normaliseSize (fq_Size q) in
      case parseCursor (fq_Cursor q) of
        Inl e \<Rightarrow> (err (App ErrCursorInvalid), w)
      | Inr cursorTime \<Rightarrow>
          (case cached_feed s (fq_SceneTag q) cursorTime w of
             ((_, Some resp), w) \<Rightarrow> attach s viewerID resp w
           | ((ver, None), w) \<Rightarrow>
               (case pr_ListFeed (psv_postRepo s) c (fq_SceneTag q) cursorTime sz w of
                  (Inl e, w) \<Rightarrow> (err (Wrap ''list feed'' e), w)
                | (Inr posts, w) \<Rightarrow>
                    (case assembleFeed s c posts sz w of
                       (Inl e, w) \<Rightarrow> (err e, w)
                     | (Inr resp, w) \<Rightarrow>
                         (let w = (case ver of
                                     None \<Rightarrow> w
                                   | Some v \<Rightarrow> snd (SetFeed (psv_feedCache s) (fq_SceneTag q) v cursorTime
                                                      (json_of_feed resp) (psv_feedCacheTTL s) w))
                          in attach s viewerID resp w)))))"

definition PostService_ListByUser ::
  "'w PostService \<Rightarrow> ctx \<Rightarrow> int \<Rightarrow> int \<Rightarrow> string \<Rightarrow> int \<Rightarrow> 'w \<Rightarrow> FeedResp result \<times> 'w" where
  "PostService_ListByUser s c viewerID authorID cursor size0 w =
     (let sz = normaliseSize size0 in
      case parseCursor cursor of
        Inl e \<Rightarrow> (err (App ErrCursorInvalid), w)
      | Inr cursorTime \<Rightarrow>
          (let (fresh, w) = WriteMarker_Has (psv_writeMarker s) authorID w;
               c = (if fresh then WithForceMaster c else c)
           in case pr_ListByUser (psv_postRepo s) c authorID False cursorTime sz w of
                (Inl e, w) \<Rightarrow> (err (Wrap ''list by user'' e), w)
              | (Inr posts, w) \<Rightarrow>
                  (case (if posts \<noteq> [] then LoadOne (psv_assembler s) c authorID w else (ok None, w)) of
                     (Inl e, w) \<Rightarrow> (err e, w)
                   | (Inr author, w) \<Rightarrow>
                       attach s viewerID
                         \<lparr>fr_Posts = map (\<lambda>p. BuildListItem p author) posts, fr_NextCursor = nextCursorOf posts sz,
                          fr_HasMore = (int (length posts) \<ge> sz)\<rparr> w)))"

end
