(* ===== verification/PostContent.thy ===== *)
theory PostContent
  imports PostService FollowService UserSessions
begin

text \<open>
  What the content service promises: creating a post stores what was checked and nothing
  visible, deleting touches the caller's own post only, the detail page shows visible posts, and
  what the pages of the feed and of an author contain.
\<close>

section \<open>Frames\<close>

context platform
begin

lemma publish_event_frame:
  assumes "w' = publish_event rt pub c mk w"
  shows "sent_event sent (\<lambda>i t. mk t i) w w'" "idle_kv (kv w) (kv w')" "tables (master w') = tables (master w)"
proof -
  obtain t w1 where 1: "rt_now rt w = (t, w1)" by fastforce
  obtain i w2 where 2: "rt_uuid rt w1 = (i, w2)" by fastforce
  obtain r where 3: "pub c (mk t i) w2 = (r, w')"
    using assms 1 2 by (cases "pub c (mk t i) w2") (simp add: publish_event_def)
  show "sent_event sent (\<lambda>i t. mk t i) w w'" "idle_kv (kv w) (kv w')" "tables (master w') = tables (master w)"
    using now_frame [OF 1] uuid_frame [OF 2] pub_call [OF 3]
    by (auto simp: sent_event_def intro: idle_kv_trans)
qed

lemma bump_feed_frame:
  assumes "fc_rdb (psv_feedCache s) = rdb"
  shows "sent (bumpFeedVersion s w) = sent w" "tables (master (bumpFeedVersion s w)) = tables (master w)"
  using assms rdb_frame by (auto simp: bumpFeedVersion_def BumpFeedVersion_def split: prod.splits)

lemma mark_frames:
  assumes "wm_rdb m = rdb"
  shows "sent (WriteMarker_Mark m u w) = sent w" "tables (master (WriteMarker_Mark m u w)) = tables (master w)"
  using mark_frame [of "wm_ttl m" u w] assms by (cases m; simp)+

text \<open>Storing the post and its steps.\<close>

lemma store_facts:
  assumes "store_post s c p req now w = (Inr p', w')" "psv_postRepo s = NewPostRepository rt db"
  shows "\<exists>pid ct ut sts. p' = p\<lparr>p_ID := pid, p_CreatedAt := ct, p_UpdatedAt := ut\<rparr>
     \<and> t_posts (master w') = t_posts (master w) @ [p'] \<and> t_steps (master w') = t_steps (master w) @ sts
     \<and> map ps_Text sts = map sr_Text (cp_Steps req) \<and> (\<forall>x\<in>set sts. ps_PostID x = pid)"
    "sent w' = sent w"
proof -
  define sts0 where "sts0 = (if cp_Steps req = [] then [] else new_steps now 0 (cp_Steps req))"
  obtain sts where r: "db (InsertPost p sts0) w = (InsertedPost p' sts, w')"
    using assms by (auto simp: store_post_def NewPostRepository_def posts_Create_def posts_CreateWithSteps_def sts0_def
        split: if_splits prod.splits sum.splits sqlreply.splits)
  obtain d g where "dml (InsertPost p sts0) (advance d g (master w)) = (InsertedPost p' sts, master w')"
    by (rule sql_write [OF r]) auto
  note i = dml_InsertPost [OF this]
  have "map ps_Text (new_steps now n rs) = map sr_Text rs" for n rs
    by (induction now n rs rule: new_steps.induct) auto
  then have "map ps_Text sts0 = map sr_Text (cp_Steps req)" by (simp add: sts0_def)
  note txts = this
  obtain pid ct ut where p': "p' = p\<lparr>p_ID := pid, p_CreatedAt := ct, p_UpdatedAt := ut\<rparr>" using i(1) by blast
  show "\<exists>pid ct ut sts. p' = p\<lparr>p_ID := pid, p_CreatedAt := ct, p_UpdatedAt := ut\<rparr>
     \<and> t_posts (master w') = t_posts (master w) @ [p'] \<and> t_steps (master w') = t_steps (master w) @ sts
     \<and> map ps_Text sts = map sr_Text (cp_Steps req) \<and> (\<forall>x\<in>set sts. ps_PostID x = pid)"
  proof (intro exI conjI)
    show "p' = p\<lparr>p_ID := pid, p_CreatedAt := ct, p_UpdatedAt := ut\<rparr>" by (rule p')
    show "t_posts (master w') = t_posts (master w) @ [p']" using i(2) by (simp only: advance_tables)
    show "t_steps (master w') = t_steps (master w) @ sts" using i(3) by (simp only: advance_tables)
    show "map ps_Text sts = map sr_Text (cp_Steps req)" using i(4) txts by (rule trans)
    have "p_ID p' = pid" unfolding p' by simp
    with i(5) show "\<forall>x\<in>set sts. ps_PostID x = pid" by simp
  qed
  show "sent w' = sent w" using db_frame [OF r] by simp
qed

end

lemma steps_allowed_iff:
  "steps_allowed unicode prefix sts \<longleftrightarrow> (\<forall>st\<in>set sts. \<forall>u\<in>set (sr_ImageURLs st). IsAllowedURL unicode u prefix)"
  by (induction sts) (auto simp: AllAllowed_iff)

text \<open>The service over the repositories, the caches and the bus of an environment.\<close>

definition content_service ::
  "'w runtime \<Rightarrow> 'w rdb \<Rightarrow> 'w gorm \<Rightarrow> 'w publisher \<Rightarrow> 'w LikeCache option \<Rightarrow> OSSConfig \<Rightarrow> int \<Rightarrow> int \<Rightarrow> int \<Rightarrow> 'w PostService" where
  "content_service rt rdb db pub lc cfg feedTTL pvTTL markTTL =
     NewPostService (NewPostRepository rt db) (NewUserRepository db) (NewFeedCache rdb feedTTL pvTTL) lc
       (NewWriteMarker rdb markTTL) pub (NewAuthorAssembler (NewUserRepository db)) cfg feedTTL"

lemma content_service_simps [simp]:
  "psv_postRepo (content_service rt rdb db pub lc cfg a b m) = NewPostRepository rt db"
  "psv_feedCache (content_service rt rdb db pub lc cfg a b m) = NewFeedCache rdb a b"
  "fc_rdb (NewFeedCache rdb a b) = rdb"
  "psv_likeCache (content_service rt rdb db pub lc cfg a b m) = lc"
  "psv_writeMarker (content_service rt rdb db pub lc cfg a b m) = NewWriteMarker rdb m"
  "wm_rdb (NewWriteMarker rdb m) = rdb"
  "psv_bus (content_service rt rdb db pub lc cfg a b m) = pub"
  "psv_assembler (content_service rt rdb db pub lc cfg a b m) = NewAuthorAssembler (NewUserRepository db)"
  "psv_ossCfg (content_service rt rdb db pub lc cfg a b m) = cfg"
  "psv_feedCacheTTL (content_service rt rdb db pub lc cfg a b m) = a"
  by (simp_all add: content_service_def NewPostService_def NewFeedCache_def NewWriteMarker_def)

section \<open>The operations\<close>

text \<open>What Create checks first.\<close>

definition create_checks :: "primitives \<Rightarrow> OSSConfig \<Rightarrow> CreatePostReq \<Rightarrow> bool" where
  "create_checks pr cfg req \<longleftrightarrow>
     SceneTag_IsValid (cp_SceneTag req) \<and> TrimSpace (cp_Title req) \<noteq> [] \<and> length (cp_Steps req) \<le> 30
     \<and> (\<forall>u\<in>insert (cp_CoverURL req) (\<Union>st\<in>set (cp_Steps req). set (sr_ImageURLs st)).
          IsAllowedURL (prim_lower pr) u (oss_URLPrefix cfg))"

text \<open>What it has done when it succeeds.\<close>

context platform
begin

lemma create_facts:
  assumes "PostService_Create pr rt (content_service rt rdb db pub lc cfg a b m) c uid req w = (Inr resp, w')"
  shows "create_checks pr cfg req
     \<and> (\<exists>p now pid ct ut sts w1 w2 w3. p = (new_post uid (TrimSpace (cp_Title req)) req now)\<lparr>p_ID := pid, p_CreatedAt := ct, p_UpdatedAt := ut\<rparr>
        \<and> pid = cr_PostID resp \<and> t_posts (master w') = t_posts (master w) @ [p] \<and> t_steps (master w') = t_steps (master w) @ sts
        \<and> map ps_Text sts = map sr_Text (cp_Steps req) \<and> (\<forall>x\<in>set sts. ps_PostID x = pid)
        \<and> sent w1 = sent w \<and> sent_event sent (\<lambda>i t. post_event p t i) w1 w2 \<and> sent_event sent (\<lambda>i t. audit_event p t i) w2 w3
        \<and> sent w' = sent w3)"
proof -
  let ?s = "content_service rt rdb db pub lc cfg a b m"
  obtain now w0 where n: "rt_now rt w = (now, w0)" by fastforce
  let ?p0 = "new_post uid (TrimSpace (cp_Title req)) req now"
  have checks: "create_checks pr cfg req"
    using assms by (auto simp: PostService_Create_def create_checks_def steps_allowed_iff Let_def split: if_splits)
  then have "\<not> (\<not> SceneTag_IsValid (cp_SceneTag req))" "TrimSpace (cp_Title req) \<noteq> []"
    "\<not> \<not> IsAllowedURL (prim_lower pr) (cp_CoverURL req) (oss_URLPrefix cfg)" "\<not> length (cp_Steps req) > 30"
    "\<not> \<not> steps_allowed (prim_lower pr) (oss_URLPrefix cfg) (cp_Steps req)"
    by (auto simp: create_checks_def steps_allowed_iff)
  note go = this
  obtain p w1 where st: "store_post ?s c ?p0 req now w0 = (Inr p, w1)"
    using assms go n by (auto simp: PostService_Create_def split: prod.splits sum.splits)
  let ?w2 = "WriteMarker_Mark (NewWriteMarker rdb m) uid w1"
  let ?w3 = "publish_event rt pub c (post_event p) ?w2"
  let ?w4 = "publish_event rt pub c (audit_event p) ?w3"
  have w': "w' = bumpFeedVersion ?s ?w4" and resp: "cr_PostID resp = p_ID p"
    using assms go n st by (auto simp: PostService_Create_def publishPostEvent_def publishAuditEvent_def)
  note f = mark_frames [of "NewWriteMarker rdb m" uid w1, simplified] publish_event_frame(1,3) [OF refl, where c = c and mk = "post_event p" and w = "?w2"]
    publish_event_frame(1,3) [OF refl, where c = c and mk = "audit_event p" and w = "?w3"] bump_feed_frame [of ?s ?w4, simplified]
  have s2: "sent ?w2 = sent w" using store_facts(2) [OF st] now_frame [OF n] f(1) by simp
  have tb: "t_posts (master w') = t_posts (master w1)" "t_steps (master w') = t_steps (master w1)"
    "t_posts (master w0) = t_posts (master w)" "t_steps (master w0) = t_steps (master w)"
    using f(2,4,6,8) now_frame [OF n] by (simp_all add: w' tables_def)
  obtain pid ct ut sts where sf: "p = ?p0\<lparr>p_ID := pid, p_CreatedAt := ct, p_UpdatedAt := ut\<rparr>"
      "t_posts (master w1) = t_posts (master w0) @ [p]" "t_steps (master w1) = t_steps (master w0) @ sts"
      "map ps_Text sts = map sr_Text (cp_Steps req)" "\<forall>x\<in>set sts. ps_PostID x = pid"
    using store_facts(1) [OF st] by auto
  have pid: "pid = cr_PostID resp" by (simp add: resp sf(1))
  show ?thesis
  proof (intro conjI exI)
    show "create_checks pr cfg req" by (rule checks)
    show "p = ?p0\<lparr>p_ID := pid, p_CreatedAt := ct, p_UpdatedAt := ut\<rparr>" by (rule sf(1))
    show "pid = cr_PostID resp" by (rule pid)
    show "t_posts (master w') = t_posts (master w) @ [p]" "t_steps (master w') = t_steps (master w) @ sts"
      using tb sf(2,3) by simp_all
    show "map ps_Text sts = map sr_Text (cp_Steps req)" "\<forall>x\<in>set sts. ps_PostID x = pid" by (rule sf)+
    show "sent ?w2 = sent w" by (rule s2)
    show "sent_event sent (\<lambda>i t. post_event p t i) ?w2 ?w3" by (rule f(3))
    show "sent_event sent (\<lambda>i t. audit_event p t i) ?w3 ?w4" by (rule f(5))
    show "sent w' = sent ?w4" using f(7) w' by simp
  qed
qed

text \<open>A delete that succeeds, and one that fails.\<close>

lemma delete_done:
  assumes "PostService_Delete rt (content_service rt rdb db pub lc cfg a b m) c uid pid w = (None, w')"
  shows "\<exists>p now t0. p_ID p = pid \<and> p_UserID p = uid \<and> sent_event sent (\<lambda>i t. post_deleted_event p t i) w w'
     \<and> t_posts (master w') = update_rows (\<lambda>p. p_ID p = pid \<and> p_UserID p = uid \<and> post_live p)
             (set_deleted now t0) (t_posts (master w))
     \<and> (\<exists>p\<in>set (t_posts (master w)). p_ID p = pid \<and> p_UserID p = uid \<and> post_live p)"
proof -
  let ?s = "content_service rt rdb db pub lc cfg a b m"
  let ?posts = "NewPostRepository rt db" and ?Q = "\<lambda>p. p_ID p = pid \<and> p_UserID p = uid \<and> post_live p"
  obtain p w1 where f: "pr_FindByID ?posts c pid w = (Inr p, w1)" and u: "p_UserID p = uid"
    using assms by (auto simp: PostService_Delete_def split: prod.splits sum.splits if_splits)
  obtain n w2 where d: "pr_SoftDeleteByOwner ?posts c pid uid w1 = (Inr n, w2)" and n: "n \<noteq> 0"
    using assms f u by (auto simp: PostService_Delete_def split: prod.splits sum.splits if_splits)
  let ?w3 = "WriteMarker_Mark (NewWriteMarker rdb m) uid w2"
  let ?w4 = "publish_event rt pub c (post_deleted_event p) ?w3"
  have w': "w' = bumpFeedVersion ?s ?w4"
    using assms f u d n by (simp add: PostService_Delete_def publishPostDeletedEvent_def)
  note fl = gorm_posts.find_law [OF f] and dl = gorm_posts.delete_law [OF d]
  have f1: "t_posts (master w1) = t_posts (master w)" "sent w1 = sent w" "p_ID p = pid"
    using fl by (simp_all add: readonly_def db_only_def tables_def)
  note fr = mark_frames [of "NewWriteMarker rdb m" uid w2, simplified] publish_event_frame(1,3) [OF refl, where c = c and mk = "post_deleted_event p" and w = "?w3"]
    bump_feed_frame [of ?s ?w4, simplified]
  have ev: "sent_event sent (\<lambda>i t. post_deleted_event p t i) w w'"
    using fr(1,3,5) dl f1(2) by (simp add: w' sent_event_def db_only_def)
  have tb: "t_posts (master w') = t_posts (master w2)" using fr(2,4,6) by (simp add: w' tables_def)
  obtain now t0 where upd: "t_posts (master w2) = update_rows ?Q (set_deleted now t0) (t_posts (master w1))"
      "n = int (length (filter ?Q (t_posts (master w1))))"
    using dl by auto
  have "filter ?Q (t_posts (master w)) \<noteq> []" using upd(2) n f1(1) by auto
  then have "\<exists>p\<in>set (t_posts (master w)). ?Q p" by (auto simp: filter_empty_conv)
  with ev tb upd(1) f1(1,3) u show ?thesis
    by (intro exI [of _ p] exI [of _ now] exI [of _ t0]) simp
qed

lemma delete_failed:
  assumes "PostService_Delete rt (content_service rt rdb db pub lc cfg a b m) c uid pid w = (Some e, w')"
  shows "sent w' = sent w
     \<and> (t_posts (master w') = t_posts (master w)
        \<or> (\<exists>now t0. t_posts (master w') = update_rows (\<lambda>p. p_ID p = pid \<and> p_UserID p = uid \<and> post_live p)
             (set_deleted now t0) (t_posts (master w))))"
proof -
  let ?posts = "NewPostRepository rt db"
  obtain fres w1 where f: "pr_FindByID ?posts c pid w = (fres, w1)" by fastforce
  have f1: "t_posts (master w1) = t_posts (master w)" "sent w1 = sent w"
    using gorm_posts.find_law [OF f] by (simp_all add: readonly_def db_only_def tables_def)
  show ?thesis
  proof (cases "\<exists>p. fres = Inr p \<and> p_UserID p = uid")
    case False
    then have "w' = w1" using assms f by (auto simp: PostService_Delete_def split: sum.splits if_splits)
    with f1 show ?thesis by simp
  next
    case True
    obtain dres w2 where d: "pr_SoftDeleteByOwner ?posts c pid uid w1 = (dres, w2)" by fastforce
    have "w' = w2"
      using assms f d True by (auto simp: PostService_Delete_def Let_def split: sum.splits if_splits)
    with gorm_posts.delete_law [OF d] f1 show ?thesis by (auto simp: db_only_def)
  qed
qed

text \<open>The detail page.\<close>

lemma detail_facts:
  assumes "PostService_GetDetail pr rt (content_service rt rdb db pub lc cfg a b m) c pid vid ip w = (Inr resp, w')"
  shows "\<exists>p author steps. p_ID p = pid \<and> post_live p \<and> p_IsVisible p = PostVisible
     \<and> p \<in> set (t_posts (if ForceMaster c then master w else replica w))
     \<and> (\<forall>x. author = Some x \<longrightarrow> u_ID x = p_UserID p \<and> user_live x) \<and> resp = toDetailResp p author steps
     \<and> sent_event sent (\<lambda>i t. pv_event pid vid (maskIP ip) t i) w w' \<and> tables (master w') = tables (master w)"
proof -
  let ?s = "content_service rt rdb db pub lc cfg a b m"
  let ?posts = "NewPostRepository rt db"
  obtain p w1 where f: "pr_FindByID ?posts c pid w = (Inr p, w1)" and v: "p_IsVisible p = PostVisible"
    using assms by (auto simp: PostService_GetDetail_def split: prod.splits sum.splits if_splits)
  obtain author w2 where l: "LoadOne (NewAuthorAssembler (NewUserRepository db)) c (p_UserID p) w1 = (Inr author, w2)"
    using assms f v by (auto simp: PostService_GetDetail_def split: prod.splits sum.splits)
  obtain sres w3 where st: "posts_LoadSteps db c pid w2 = (sres, w3)" by fastforce
  let ?steps = "case sres of Inl _ \<Rightarrow> [] | Inr xs \<Rightarrow> xs"
  have r: "resp = toDetailResp p author ?steps" "w' = recordPV pr rt ?s c pid vid ip w3"
    using assms f v l st by (auto simp: PostService_GetDetail_def NewPostRepository_def)
  obtain mres w4 where mk: "MarkPVSeen (sha256_hex pr) (NewFeedCache rdb a b) pid vid ip w3 = (mres, w4)" by fastforce
  have m4: "sent w4 = sent w3" "tables (master w4) = tables (master w3)"
    using mk rdb_frame by (auto simp: MarkPVSeen_def Let_def split: prod.splits)
  have "w' = (if mres = Inr True then publish_event rt pub c (pv_event pid vid (maskIP ip)) w4 else w4)"
    using r(2) mk by (auto simp: recordPV_def split: sum.splits)
  then have "sent_event sent (\<lambda>i t. pv_event pid vid (maskIP ip) t i) w4 w' \<and> tables (master w') = tables (master w4)"
    using publish_event_frame(1,3) [OF refl, where c = c and mk = "pv_event pid vid (maskIP ip)" and w = w4] by (auto simp: sent_event_def)
  moreover have "sent w3 = sent w" "tables (master w3) = tables (master w)"
    using gorm_posts.find_law [OF f] gorm_users.load_one(1) [OF l] steps_load [OF st]
    by (simp_all add: readonly_def db_only_def)
  ultimately have fr: "sent_event sent (\<lambda>i t. pv_event pid vid (maskIP ip) t i) w w'" "tables (master w') = tables (master w)"
    using m4 by (simp_all add: sent_event_def)
  have "p_ID p = pid \<and> post_live p \<and> p \<in> set (t_posts (if ForceMaster c then master w else replica w))"
    using gorm_posts.find_law [OF f] by simp
  moreover have "\<forall>x. author = Some x \<longrightarrow> u_ID x = p_UserID p \<and> user_live x"
    using gorm_users.load_one(2) [OF l] by blast
  ultimately show ?thesis using v r(1) fr by blast
qed

end

section \<open>Properties\<close>

text \<open>
  C3: A created post is what was checked.  A Create that succeeds appended exactly one post,
  of the caller, with the trimmed title that is not empty, a scene of the list, a cover and at
  most 30 steps whose images are on the whitelist, invisible and pending; its steps are stored
  under its id in order, and at most its PostEvent and then its AuditEvent were sent.
\<close>
theorem create_success:
  fixes db :: "'w gorm"
  assumes "platform rdb kv db master replica pub sent rt"
    and "PostService_Create pr rt (content_service rt rdb db pub lc cfg a b m) c uid req w = (Inr resp, w')"
  shows "create_checks pr cfg req
     \<and> (\<exists>p sts w1 w2 w3. t_posts (master w') = t_posts (master w) @ [p] \<and> t_steps (master w') = t_steps (master w) @ sts
        \<and> p_ID p = cr_PostID resp \<and> p_UserID p = uid \<and> p_IsVisible p = PostInvisible \<and> p_AuditStatus p = AuditStatusPending
        \<and> p_Title p = TrimSpace (cp_Title req) \<and> p_Content p = cp_Content req \<and> p_SceneTag p = cp_SceneTag req
        \<and> p_CoverURL p = cp_CoverURL req \<and> post_live p
        \<and> map ps_Text sts = map sr_Text (cp_Steps req) \<and> (\<forall>x\<in>set sts. ps_PostID x = p_ID p)
        \<and> sent w1 = sent w \<and> sent_event sent (\<lambda>i t. post_event p t i) w1 w2
        \<and> sent_event sent (\<lambda>i t. audit_event p t i) w2 w3 \<and> sent w' = sent w3)"
proof -
  note f = platform.create_facts [OF assms]
  from conjunct2 [OF f] obtain p now pid ct ut sts w1 w2 w3 where x:
    "p = (new_post uid (TrimSpace (cp_Title req)) req now)\<lparr>p_ID := pid, p_CreatedAt := ct, p_UpdatedAt := ut\<rparr>"
    "pid = cr_PostID resp" "t_posts (master w') = t_posts (master w) @ [p]" "t_steps (master w') = t_steps (master w) @ sts"
    "map ps_Text sts = map sr_Text (cp_Steps req)" "\<forall>x\<in>set sts. ps_PostID x = pid" "sent w1 = sent w"
    "sent_event sent (\<lambda>i t. post_event p t i) w1 w2" "sent_event sent (\<lambda>i t. audit_event p t i) w2 w3" "sent w' = sent w3"
    by blast
  have "p_ID p = pid" "p_UserID p = uid" "p_IsVisible p = PostInvisible" "p_AuditStatus p = AuditStatusPending"
    "p_Title p = TrimSpace (cp_Title req)" "p_Content p = cp_Content req" "p_SceneTag p = cp_SceneTag req"
    "p_CoverURL p = cp_CoverURL req" "post_live p"
    unfolding x(1) by (simp_all add: new_post_def zero_Post_def post_live_def)
  then show ?thesis
    using x(2-10) conjunct1 [OF f]
    by (intro conjI exI [of _ p] exI [of _ sts] exI [of _ w1] exI [of _ w2] exI [of _ w3]) (assumption | simp only:)+
qed

definition doc_content :: "world PostService" where
  "doc_content = content_service doc_rt doc_rdb doc_db doc_pub (Some (NewLikeCache doc_rdb 5000)) demo_bucket 5000 5000 3000"

definition demo_req :: CreatePostReq where
  "demo_req = \<lparr>cp_Title = '' soup '', cp_SceneTag = 3, cp_Content = ''text'', cp_CoverURL = [],
     cp_Steps = [\<lparr>sr_Text = ''chop'', sr_ImageURLs = []\<rparr>, \<lparr>sr_Text = ''cook'', sr_ImageURLs = []\<rparr>]\<rparr>"

theorem create_success_witness:
  "\<exists>resp w'. PostService_Create doc_prims doc_rt doc_content Background 7 demo_req demo_world = (Inr resp, w')
     \<and> create_checks doc_prims demo_bucket demo_req \<and> cr_PostID resp = 100"
proof -
  let ?r = "PostService_Create doc_prims doc_rt doc_content Background 7 demo_req demo_world"
  let ?p = "(new_post 7 ''soup'' demo_req 1000)\<lparr>p_ID := 100\<rparr>"
  have c: "TrimSpace (cp_Title demo_req) = ''soup''" "SceneTag_IsValid (cp_SceneTag demo_req)" "length (cp_Steps demo_req) \<le> 30"
    "IsAllowedURL (prim_lower doc_prims) (cp_CoverURL demo_req) (oss_URLPrefix (psv_ossCfg doc_content))"
    "steps_allowed (prim_lower doc_prims) (oss_URLPrefix (psv_ossCfg doc_content)) (cp_Steps demo_req)"
    by code_simp+
  have clock: "w_clock demo_world = 1000" by (simp add: demo_world_def fresh_world_def)
  have "fst (store_post doc_content Background (new_post 7 ''soup'' demo_req 1000) demo_req 1000 demo_world) = Inr ?p"
    by code_simp
  then obtain w1 where st: "store_post doc_content Background (new_post 7 ''soup'' demo_req 1000) demo_req 1000 demo_world = (Inr ?p, w1)"
    by (metis prod.collapse)
  obtain resp w' where r: "?r = (Inr resp, w')" and id: "cr_PostID resp = 100"
    using c by (simp add: PostService_Create_def clock st Let_def)
  with create_success [OF doc.platform_axioms r [unfolded doc_content_def]] show ?thesis by (intro exI conjI) (rule r, blast, rule id)
qed

text \<open>
  C7: A delete touches the caller's own post only.  Whatever Delete answers, the posts table
  is as before or differs in live posts with that id of that user, which are soft-deleted; when it
  succeeds there was one and at most its PostDeletedEvent was sent, when it fails no event was.
\<close>
theorem delete_own_post:
  fixes db :: "'w gorm"
  assumes "platform rdb kv db master replica pub sent rt"
    and "PostService_Delete rt (content_service rt rdb db pub lc cfg a b m) c uid pid w = (r, w')"
  shows "(t_posts (master w') = t_posts (master w) \<and> r \<noteq> None
       \<or> (\<exists>now t0. t_posts (master w') = map (\<lambda>p. if p_ID p = pid \<and> p_UserID p = uid \<and> post_live p then set_deleted now t0 p else p)
             (t_posts (master w))))
     \<and> (if r = None then (\<exists>p\<in>set (t_posts (master w)). p_ID p = pid \<and> p_UserID p = uid \<and> post_live p)
            \<and> (\<exists>p. p_ID p = pid \<and> p_UserID p = uid \<and> sent_event sent (\<lambda>i t. post_deleted_event p t i) w w')
        else sent w' = sent w)"
proof (cases r)
  case None
  with platform.delete_done [OF assms(1)] assms(2) show ?thesis by (simp add: update_rows_def) blast
next
  case (Some e)
  with platform.delete_failed [OF assms(1)] assms(2) show ?thesis by (simp add: update_rows_def)
qed

theorem delete_own_post_witness:
  "\<exists>w'. PostService_Delete doc_rt doc_content Background 7 1 demo_world = (None, w')
     \<and> (\<exists>p\<in>set (t_posts (w_db demo_world)). p_ID p = 1 \<and> p_UserID p = 7 \<and> post_live p)"
proof -
  let ?r = "PostService_Delete doc_rt doc_content Background 7 1 demo_world"
  have "fst ?r = None" by code_simp
  then obtain w' where r: "?r = (None, w')" by (metis prod.collapse)
  with delete_own_post [OF doc.platform_axioms r [unfolded doc_content_def]] show ?thesis by simp
qed

text \<open>
  C11: Only visible posts are shown.  A detail page that is served shows a live, visible post
  of the node that was read, with its author if the account is live; it changes no table and sends
  at most one view event, with the masked address.
\<close>
theorem detail_visible:
  fixes db :: "'w gorm"
  assumes "platform rdb kv db master replica pub sent rt"
    and "PostService_GetDetail pr rt (content_service rt rdb db pub lc cfg a b m) c pid vid ip w = (Inr resp, w')"
  shows "\<exists>p author steps. p \<in> set (t_posts (if ForceMaster c then master w else replica w))
     \<and> p_ID p = pid \<and> post_live p \<and> p_IsVisible p = PostVisible
     \<and> (\<forall>x. author = Some x \<longrightarrow> u_ID x = p_UserID p \<and> user_live x) \<and> resp = toDetailResp p author steps
     \<and> sent_event sent (\<lambda>i t. pv_event pid vid (maskIP ip) t i) w w' \<and> tables (master w') = tables (master w)"
  using platform.detail_facts [OF assms] by blast

theorem detail_visible_witness:
  "\<exists>resp w'. PostService_GetDetail doc_prims doc_rt doc_content Background 1 42 ''10.1.2.3'' demo_world = (Inr resp, w')
     \<and> tables (w_db w') = tables (w_db demo_world) \<and> pd_IsVisible resp = PostVisible"
proof -
  let ?r = "PostService_GetDetail doc_prims doc_rt doc_content Background 1 42 ''10.1.2.3'' demo_world"
  define w1 where "w1 = snd (pr_FindByID (psv_postRepo doc_content) Background 1 demo_world)"
  define w2 where "w2 = snd (LoadOne (psv_assembler doc_content) Background 7 w1)"
  have "fst (pr_FindByID (psv_postRepo doc_content) Background 1 demo_world) = Inr (demo_post 1 7 1)" by code_simp
  then have f: "pr_FindByID (psv_postRepo doc_content) Background 1 demo_world = (Inr (demo_post 1 7 1), w1)"
    unfolding w1_def by (metis prod.collapse)
  have "fst (LoadOne (psv_assembler doc_content) Background 7 w1) = Inr (Some (demo_user 7 ''ann''))"
    unfolding w1_def by code_simp
  then have l: "LoadOne (psv_assembler doc_content) Background (p_UserID (demo_post 1 7 1)) w1 = (Inr (Some (demo_user 7 ''ann'')), w2)"
    unfolding w2_def by (simp add: demo_post_def prod_eq_iff)
  have v: "p_IsVisible (demo_post 1 7 1) = PostVisible" by (simp add: demo_post_def PostVisible_def)
  obtain resp w' where r: "?r = (Inr resp, w')"
    by (cases "pr_LoadSteps (psv_postRepo doc_content) Background 1 w2") (auto simp: PostService_GetDetail_def f l v Let_def)
  with detail_visible [OF doc.platform_axioms r [unfolded doc_content_def]] show ?thesis
    by (auto simp: toDetailResp_def)
qed

end
