(* ===== verification/FeedPages.thy ===== *)
theory FeedPages
  imports PostContent
begin

text \<open>
  The pages of the feed: their shape, kept by the shared cache; which posts a reader who follows
  the cursors sees; and the page size, which the cache does not know.
\<close>

section \<open>The shape of a page\<close>

definition created :: "FeedResp \<Rightarrow> int list" where
  "created r = map pi_CreatedAt (fr_Posts r)"

definition page_shape :: "int \<Rightarrow> int \<Rightarrow> FeedResp \<Rightarrow> bool" where
  "page_shape scene ct r \<longleftrightarrow>
     sorted_wrt (\<ge>) (created r) \<and> length (created r) \<le> 50
     \<and> (scene \<noteq> 0 \<longrightarrow> set (map pi_SceneTag (fr_Posts r)) \<subseteq> {scene})
     \<and> (\<not> IsZero ct \<longrightarrow> (\<forall>t\<in>set (created r). t < ct))
     \<and> fr_NextCursor r = (if fr_HasMore r then FormatInt (last (created r)) else [])
     \<and> (fr_HasMore r \<longrightarrow> created r \<noteq> [])"

lemma query_ok_prefix:
  assumes "query_ok q rows xs" "q_offset q = 0" "q_limit q = Some n"
  obtains ys where "mset ys = mset (filter (q_where q) rows)" "sorted_wrt (key_le (q_order q)) ys" "xs = take (nat n) ys"
  using assms by (auto simp: query_ok_def window_def)

lemma feed_query_rows:
  assumes "query_ok (feed_query scene ct n) rows xs"
  obtains ys where "mset ys = mset (filter (q_where (feed_query scene ct n)) rows)"
    "sorted_wrt (\<lambda>a b. p_CreatedAt b \<le> p_CreatedAt a) ys" "xs = take (nat n) ys"
proof (rule query_ok_prefix [OF assms])
  show "q_offset (feed_query scene ct n) = 0" "q_limit (feed_query scene ct n) = Some n"
    by (simp_all add: feed_query_def)
  fix ys assume ys: "mset ys = mset (filter (q_where (feed_query scene ct n)) rows)"
    "sorted_wrt (key_le (q_order (feed_query scene ct n))) ys" "xs = take (nat n) ys"
  have "key_le (q_order (feed_query scene ct n)) = (\<lambda>a b. p_CreatedAt b \<le> p_CreatedAt a)"
    by (auto simp: feed_query_def fun_eq_iff)
  with ys that show thesis by simp
qed

lemma normaliseSize_range: "1 \<le> normaliseSize n" "normaliseSize n \<le> 50"
  by (simp_all add: normaliseSize_def)

lemma built_page_shape:
  assumes "query_ok (feed_query scene ct n) rows posts" "1 \<le> n" "n \<le> 50"
    and "map pi_CreatedAt items = map p_CreatedAt posts" "map pi_SceneTag items = map p_SceneTag posts"
  shows "page_shape scene ct \<lparr>fr_Posts = items, fr_NextCursor = nextCursorOf posts n, fr_HasMore = (int (length posts) \<ge> n)\<rparr>"
proof -
  obtain ys where ys: "sorted_wrt (\<lambda>a b. p_CreatedAt b \<le> p_CreatedAt a) ys" "posts = take (nat n) ys"
    by (rule feed_query_rows [OF assms(1)])
  have s: "sorted_wrt (\<lambda>a b. p_CreatedAt b \<le> p_CreatedAt a) posts"
    unfolding ys(2) by (rule sorted_wrt_take [OF ys(1)])
  have w: "q_where (feed_query scene ct n) p" if "p \<in> set posts" for p
    using query_ok_subset [OF assms(1) that] by simp
  have "length posts \<le> 50" using ys(2) assms(2,3) by simp
  moreover have "posts \<noteq> []" if "int (length posts) \<ge> n" using that assms(2) by auto
  moreover have "last (map p_CreatedAt posts) = p_CreatedAt (last posts)" if "posts \<noteq> []"
    using that by (rule last_map)
  ultimately show ?thesis
    using s w unfolding page_shape_def created_def
    by (auto simp: assms(4,5) sorted_wrt_map nextCursorOf_def feed_query_def)
qed

lemma page_shape_plain:
  assumes "map plain_item (fr_Posts r) = map plain_item items"
  shows "page_shape scene ct (r\<lparr>fr_Posts := items\<rparr>) = page_shape scene ct r"
proof -
  have "map (pi_CreatedAt \<circ> plain_item) (fr_Posts r) = map (pi_CreatedAt \<circ> plain_item) items"
    "map (pi_SceneTag \<circ> plain_item) (fr_Posts r) = map (pi_SceneTag \<circ> plain_item) items"
    using arg_cong [OF assms, of "map pi_CreatedAt"] arg_cong [OF assms, of "map pi_SceneTag"] by simp_all
  moreover have "pi_CreatedAt \<circ> plain_item = pi_CreatedAt" "pi_SceneTag \<circ> plain_item = pi_SceneTag"
    by (auto simp: plain_item_def)
  ultimately show ?thesis by (simp add: page_shape_def created_def del: set_map)
qed

section \<open>The JSON of a page\<close>

lemma author_json: "author_of_json (json_of_author a) = Inr a' \<Longrightarrow> a' = a"
  by (cases a) (auto simp: author_of_json_def json_of_author_def result_bind_Inr split: if_splits)

lemma item_json: "item_fields_of_json (json_of_item x) = Inr x' \<Longrightarrow> x' = x"
  by (cases x) (auto simp: item_fields_of_json_def json_of_item_def result_bind_Inr dest: author_json split: if_splits)

lemma map_item_json: "map_result item_fields_of_json (map json_of_item xs) = Inr ys \<Longrightarrow> ys = xs"
  by (induction xs arbitrary: ys) (auto simp: result_bind_Inr dest: item_json)

text \<open>A page that decodes at all decodes to itself.\<close>

lemma feed_json: "feed_of_json (json_of_feed r) = Inr r' \<Longrightarrow> r' = r"
  by (cases r) (auto simp: feed_of_json_def json_of_feed_def result_bind_Inr dest: map_item_json)

section \<open>The keys\<close>

lemma digit_not_colon: "d < 10 \<Longrightarrow> digit_char d \<noteq> CHR '':''"
  using char_digit_digit_char [of d] by (auto simp: char_digit_def)

lemma FormatNat_chars: "CHR '':'' \<notin> set (FormatNat n)"
proof (induction n rule: FormatNat.induct)
  case (1 n)
  show ?case
  proof (cases "n < 10")
    case True
    then show ?thesis using digit_not_colon [of n] by (subst FormatNat.simps) auto
  next
    case False
    from 1 [OF False] digit_not_colon [of "n mod 10"] False show ?thesis by (subst FormatNat.simps) auto
  qed
qed

lemma FormatInt_chars: "c \<in> set (FormatInt n) \<Longrightarrow> c \<noteq> CHR '':''"
  using FormatNat_chars by (auto simp: FormatInt_def split: if_splits)

lemma split_at_colon:
  "\<lbrakk>FormatInt m @ CHR '':'' # xs = FormatInt n @ CHR '':'' # ys\<rbrakk> \<Longrightarrow> m = n \<and> xs = ys"
proof -
  assume eq: "FormatInt m @ CHR '':'' # xs = FormatInt n @ CHR '':'' # ys"
  have t: "takeWhile (\<lambda>c. c \<noteq> CHR '':'') (FormatInt k @ CHR '':'' # zs) = FormatInt k"
    "dropWhile (\<lambda>c. c \<noteq> CHR '':'') (FormatInt k @ CHR '':'' # zs) = CHR '':'' # zs" for k zs
    using FormatInt_chars by (auto simp: takeWhile_append2 dropWhile_append2)
  from t [of m xs] t [of n ys] eq show "m = n \<and> xs = ys" by (metis FormatInt_inj list.inject)
qed

definition cursor_time :: "int \<Rightarrow> bool" where
  "cursor_time ct \<longleftrightarrow> IsZero ct \<or> 0 < ct"

lemma parseCursor_time: "parseCursor s = Inr ct \<Longrightarrow> cursor_time ct"
  by (auto simp: parseCursor_def cursor_time_def IsZero_def split: if_splits option.splits)

lemma feedCacheKey_inj:
  assumes "feedCacheKey sc v ct = feedCacheKey sc' v' ct'" "cursor_time ct" "cursor_time ct'"
  shows "sc = sc' \<and> v = v' \<and> ct = ct'"
proof -
  have "FormatInt sc @ CHR '':'' # CHR ''v'' # FormatInt v @ CHR '':'' # CHR ''c'' # FormatInt (if IsZero ct then 0 else ct)
      = FormatInt sc' @ CHR '':'' # CHR ''v'' # FormatInt v' @ CHR '':'' # CHR ''c'' # FormatInt (if IsZero ct' then 0 else ct')"
    using assms(1) by (simp add: feedCacheKey_def)
  from split_at_colon [OF this] have "sc = sc'" and
    "FormatInt v @ CHR '':'' # CHR ''c'' # FormatInt (if IsZero ct then 0 else ct)
      = FormatInt v' @ CHR '':'' # CHR ''c'' # FormatInt (if IsZero ct' then 0 else ct')" by simp_all
  from this(1) split_at_colon [OF this(2)] assms(2,3) show ?thesis
    by (auto simp: cursor_time_def IsZero_def split: if_splits)
qed

section \<open>The cache keeps the shape\<close>

text \<open>Every page in the cache that decodes has the shape its key asks for.\<close>

definition feed_cache_ok :: "rstate \<Rightarrow> bool" where
  "feed_cache_ok s \<longleftrightarrow>
     (\<forall>scene ver ct b dl r. cursor_time ct \<longrightarrow> rs_db s (feedCacheKey scene ver ct) = Some (VStr b, dl) \<longrightarrow>
        decode_feed b = Inr r \<longrightarrow> page_shape scene ct r)"

lemma feed_cache_tick [simp]: "feed_cache_ok (tick d s) = feed_cache_ok s"
  by (simp add: feed_cache_ok_def tick_def)

lemma feed_cache_idle: "idle_kv s s' \<Longrightarrow> feed_cache_ok s \<Longrightarrow> feed_cache_ok s'"
  by (auto simp: idle_kv_def)

lemma feed_cache_put:
  assumes "feed_cache_ok s" "cursor_time ct" "page_shape scene ct r"
  shows "feed_cache_ok (rput (feedCacheKey scene ver ct) (VStr (Payload (json_of_feed r))) dl s)"
  unfolding feed_cache_ok_def
proof (intro allI impI)
  fix scene' ver' ct' b dl' x
  assume a: "cursor_time ct'" "rs_db (rput (feedCacheKey scene ver ct) (VStr (Payload (json_of_feed r))) dl s)
      (feedCacheKey scene' ver' ct') = Some (VStr b, dl')" "decode_feed b = Inr x"
  show "page_shape scene' ct' x"
  proof (cases "feedCacheKey scene' ver' ct' = feedCacheKey scene ver ct")
    case True
    with a have "b = Payload (json_of_feed r)" by (simp add: rput_def)
    with a(3) have "x = r" using feed_json by (simp add: decode_feed_def)
    with feedCacheKey_inj [OF True a(1) assms(2)] assms(3) show ?thesis by simp
  next
    case False
    then have "rs_db s (feedCacheKey scene' ver' ct') = Some (VStr b, dl')" using a(2) by (simp add: rput_def)
    with a(1,3) assms(1) show ?thesis unfolding feed_cache_ok_def by blast
  qed
qed

text \<open>What a call of ListFeed leaves as it was, and the shape of the cached pages.\<close>

definition feed_same ::
  "('w \<Rightarrow> rstate) \<Rightarrow> ('w \<Rightarrow> Event list) \<Rightarrow> ('w \<Rightarrow> dbstate) \<Rightarrow> 'w \<Rightarrow> 'w \<Rightarrow> bool" where
  "feed_same kv sent master w w' \<longleftrightarrow>
     feed_cache_ok (kv w') \<and> sent w' = sent w \<and> tables (master w') = tables (master w)"

context platform
begin

lemma idle_pipe:
  assumes "pipe_exec rdb cs w = (rs, w')" "\<And>c s. c \<in> set cs \<Longrightarrow> snd (kv_step c s) = s"
  shows "idle_kv (kv w) (kv w')"
  using assms
proof (induction cs arbitrary: w rs)
  case (Cons c cs)
  obtain r w1 where r: "rdb (Cmd c) w = (r, w1)" by fastforce
  obtain rs' where rs: "pipe_exec rdb cs w1 = (rs', w')" using Cons.prems(1) r by (auto split: prod.splits)
  have "idle_kv (kv w) (kv w1)" by (rule redis_readonly [OF r]) (simp add: Cons.prems(2))
  moreover have "idle_kv (kv w1) (kv w')" using Cons.IH [OF rs] Cons.prems(2) by simp
  ultimately show ?case by (rule idle_kv_trans)
qed simp

lemma pipe_frame: "pipe_exec rdb cs w = (rs, w') \<Longrightarrow> sent w' = sent w \<and> tables (master w') = tables (master w)"
  using rdb_calls_frame [OF pipe_exec_calls] by simp

lemma liked_frame:
  assumes "AttachLikedByMe lc vid its w = (items, w')" "\<And>l. lc = Some l \<Longrightarrow> lc_rdb l = rdb"
  shows "readonly sent kv master w w'"
proof (cases "vid = 0 \<or> its = [] \<or> lc = None")
  case True
  with assms(1) show ?thesis by (auto simp: AttachLikedByMe_def split: if_splits)
next
  case False
  then obtain l where l: "lc = Some l" "lc_rdb l = rdb" using assms(2) by auto
  let ?cs = "map (\<lambda>pid. SISMEMBER (keyLikeSet pid) (FormatInt vid)) (map pi_ID its)"
  obtain rs where pe: "pipe_exec rdb ?cs w = (rs, w')"
    using assms(1) False l by (auto simp: AttachLikedByMe_def BatchHasLiked_def split: prod.splits option.splits sum.splits)
  have ro: "snd (kv_step c s) = s" if "c \<in> set ?cs" for c s
    using that by (auto split: option.splits rval.splits)
  show ?thesis using idle_pipe [OF pe ro] pipe_frame [OF pe] by (simp add: readonly_def db_only_def)
qed

lemma attach_frame:
  assumes "attach s vid resp w = (res, w')" "\<And>l. psv_likeCache s = Some l \<Longrightarrow> lc_rdb l = rdb"
  shows "readonly sent kv master w w' \<and> (\<exists>items. res = Inr (resp\<lparr>fr_Posts := items\<rparr>) \<and> map plain_item items = map plain_item (fr_Posts resp))"
proof -
  obtain items where i: "AttachLikedByMe (psv_likeCache s) vid (fr_Posts resp) w = (items, w')"
      "res = Inr (resp\<lparr>fr_Posts := items\<rparr>)"
    using assms(1) by (auto simp: attach_def split: prod.splits)
  have "readonly sent kv master w w'" by (rule liked_frame [OF i(1) assms(2)])
  with i(2) attach_plain [OF i(1)] show ?thesis by blast
qed

text \<open>Reading the cache changes nothing, and a hit has the shape of its key.\<close>

lemma get_page:
  assumes "rdb (Cmd (GET k)) w = (r, w')"
  shows "readonly sent kv master w w'" "bytes_cmd r = Inr b \<Longrightarrow> \<exists>dl. rs_db (kv w) k = Some (VStr b, dl)"
proof -
  have ro: "snd (exec (Cmd (GET k)) s) = s" for s by (auto split: option.splits rval.splits)
  show "readonly sent kv master w w'"
    using redis_readonly [OF assms ro] rdb_frame [OF assms] by (simp add: readonly_def db_only_def)
  assume b: "bytes_cmd r = Inr b"
  then have ne: "\<And>m. r \<noteq> RError m" by auto
  obtain d where "exec (Cmd (GET k)) (tick d (kv w)) = (r, kv w')" using redis_answered [OF assms ne] by metis
  with b have "rget (tick d (kv w)) k = Some (VStr b)"
    by (auto split: option.splits rval.splits)
  then show "\<exists>dl. rs_db (kv w) k = Some (VStr b, dl)"
    by (auto simp: rget_def tick_def split: option.splits if_splits prod.splits)
qed

lemma cached_feed_frame:
  assumes "cached_feed s scene ct w = ((ver, page), w')" "fc_rdb (psv_feedCache s) = rdb"
  shows "readonly sent kv master w w'"
    "page = Some r \<Longrightarrow> feed_cache_ok (kv w) \<Longrightarrow> cursor_time ct \<Longrightarrow> page_shape scene ct r"
proof -
  obtain r1 w1 where g: "rdb (Cmd (GET feedVersionKey)) w = (r1, w1)" by fastforce
  note g1 = get_page(1) [OF g]
  have ver: "GetFeedVersion (psv_feedCache s) w =
      (case get_int64 r1 of Inl e \<Rightarrow> if errors_is e redis_Nil then (ok 0, w1) else (err e, w1) | Inr v \<Rightarrow> (ok v, w1))"
    using g assms(2) by (simp add: GetFeedVersion_def)
  show "readonly sent kv master w w'"
    "page = Some r \<Longrightarrow> feed_cache_ok (kv w) \<Longrightarrow> cursor_time ct \<Longrightarrow> page_shape scene ct r"
  proof -
    obtain v where v: "fst (GetFeedVersion (psv_feedCache s) w) = v" "snd (GetFeedVersion (psv_feedCache s) w) = w1"
      using ver by (simp split: sum.splits)
    show "readonly sent kv master w w'"
    proof (cases v)
      case (Inl e)
      with v assms(1) g1 show ?thesis by (cases "GetFeedVersion (psv_feedCache s) w") (auto simp: cached_feed_def)
    next
      case (Inr n)
      obtain r2 w2 where g2: "rdb (Cmd (GET (feedCacheKey scene n ct))) w1 = (r2, w2)" by fastforce
      have "w' = w2" using v Inr assms g2
        by (cases "GetFeedVersion (psv_feedCache s) w")
          (auto simp: cached_feed_def GetFeed_def split: sum.splits if_splits)
      with readonly_trans [OF g1 get_page(1) [OF g2]] show ?thesis by simp
    qed
    assume p: "page = Some r" and ok: "feed_cache_ok (kv w)" and ct: "cursor_time ct"
    obtain n where n: "GetFeedVersion (psv_feedCache s) w = (Inr n, w1)"
      using assms(1) p v by (cases "GetFeedVersion (psv_feedCache s) w") (auto simp: cached_feed_def split: sum.splits)
    obtain r2 w2 where g2: "rdb (Cmd (GET (feedCacheKey scene n ct))) w1 = (r2, w2)" by fastforce
    obtain b where b: "bytes_cmd r2 = Inr b" "decode_feed b = Inr r"
      using assms p n g2
      by (auto simp: cached_feed_def GetFeed_def split: sum.splits if_splits)
    have "feed_cache_ok (kv w1)" using feed_cache_idle [of "kv w" "kv w1"] ok g1 by (simp add: readonly_def db_only_def)
    with get_page(2) [OF g2 b(1)] b(2) ct show "page_shape scene ct r" unfolding feed_cache_ok_def by blast
  qed
qed

lemma load_map_readonly:
  "LoadMap (NewAuthorAssembler (NewUserRepository db)) c posts w = (r, w') \<Longrightarrow> readonly sent kv master w w'"
  unfolding LoadMap_def by (rule gorm_users.load_authors_readonly)

lemma set_feed_ok:
  assumes "SetFeed (NewFeedCache rdb a b) scene ver ct (json_of_feed r) ttl w = (e, w')"
    and "feed_cache_ok (kv w)" "cursor_time ct" "page_shape scene ct r"
  shows "feed_cache_ok (kv w')" "sent w' = sent w" "tables (master w') = tables (master w)"
proof -
  let ?c = "SET (feedCacheKey scene ver ct) (Payload (json_of_feed r)) ttl"
  obtain x where x: "rdb (Cmd ?c) w = (x, w')"
    using assms(1) by (auto simp: SetFeed_def NewFeedCache_def split: prod.splits)
  obtain d where "kv w' = tick d (kv w) \<or> kv w' = snd (exec (Cmd ?c) (tick d (kv w)))"
    using redis_effect [OF x] by metis
  moreover have "\<exists>dl. snd (exec (Cmd ?c) s) = rput (feedCacheKey scene ver ct) (VStr (Payload (json_of_feed r))) dl s" for s
    by auto
  moreover have "feed_cache_ok (tick d (kv w))" using assms(2) by simp
  ultimately show "feed_cache_ok (kv w')" using feed_cache_put [OF _ assms(3,4)] assms(2) by (metis feed_cache_tick)
  show "sent w' = sent w" "tables (master w') = tables (master w)" using rdb_frame [OF x] by simp_all
qed

text \<open>A step of ListFeed that changes no table, sends nothing and leaves the pages in shape.\<close>

lemma feed_same_readonly:
  "feed_same kv sent master w v \<Longrightarrow> readonly sent kv master v v' \<Longrightarrow> feed_same kv sent master w v'"
  using feed_cache_idle by (auto simp: feed_same_def readonly_def db_only_def)

lemma feed_attached:
  assumes "attach (content_service rt rdb db pub lc cfg a b m) vid r v = (res, w')" "\<And>l. lc = Some l \<Longrightarrow> lc_rdb l = rdb"
    and "feed_same kv sent master w v" "page_shape scene ct r"
  shows "feed_same kv sent master w w' \<and> (\<exists>r'. res = Inr r' \<and> page_shape scene ct r')"
proof -
  from attach_frame [OF assms(1)] assms(2) obtain items where i: "readonly sent kv master v w'"
      "res = Inr (r\<lparr>fr_Posts := items\<rparr>)" "map plain_item items = map plain_item (fr_Posts r)"
    by auto
  have "page_shape scene ct (r\<lparr>fr_Posts := items\<rparr>)"
    using page_shape_plain [OF i(3) [symmetric]] assms(4) by simp
  with i(2) feed_same_readonly [OF assms(3) i(1)] show ?thesis by simp
qed

lemma feed_assembled:
  assumes "assembleFeed (content_service rt rdb db pub lc cfg a b m) c posts (normaliseSize n) v = (res, w')"
    and "query_ok (feed_query scene ct (normaliseSize n)) rows posts" "feed_same kv sent master w v"
  shows "feed_same kv sent master w w'" "res = Inr r \<Longrightarrow> page_shape scene ct r"
proof -
  obtain mres w3 where lm: "LoadMap (NewAuthorAssembler (NewUserRepository db)) c posts v = (mres, w3)" by fastforce
  have w': "w' = w3" using assms(1) lm by (auto simp: assembleFeed_def split: sum.splits)
  show "feed_same kv sent master w w'"
    unfolding w' by (rule feed_same_readonly [OF assms(3) load_map_readonly [OF lm]])
  assume r: "res = Inr r"
  then obtain authorMap where r': "r = \<lparr>fr_Posts = BuildListItems posts authorMap, fr_NextCursor = nextCursorOf posts (normaliseSize n),
      fr_HasMore = (int (length posts) \<ge> normaliseSize n)\<rparr>"
    using assms(1) lm by (auto simp: assembleFeed_def split: sum.splits)
  have "map pi_CreatedAt (BuildListItems posts authorMap) = map p_CreatedAt posts"
    "map pi_SceneTag (BuildListItems posts authorMap) = map p_SceneTag posts"
    by (simp_all add: BuildListItems_def BuildListItem_def)
  from built_page_shape [OF assms(2) normaliseSize_range this] show "page_shape scene ct r" unfolding r' .
qed

lemma feed_stored:
  assumes "w' = (case ver of None \<Rightarrow> v | Some n \<Rightarrow> snd (SetFeed (NewFeedCache rdb a b) scene n ct (json_of_feed r) ttl v))"
    and "feed_same kv sent master w v" "cursor_time ct" "page_shape scene ct r"
  shows "feed_same kv sent master w w'"
proof (cases ver)
  case (Some n)
  obtain e v' where st: "SetFeed (NewFeedCache rdb a b) scene n ct (json_of_feed r) ttl v = (e, v')" by fastforce
  with set_feed_ok [OF this _ assms(3,4)] assms(1,2) Some show ?thesis by (simp add: feed_same_def)
qed (use assms in simp)

lemma feed_served:
  assumes "PostService_ListFeed (content_service rt rdb db pub lc cfg a b m) c vid q w = (res, w')"
    and lc: "\<And>l. lc = Some l \<Longrightarrow> lc_rdb l = rdb" and ok: "feed_cache_ok (kv w)"
  shows "feed_same kv sent master w w'
     \<and> (\<forall>r. res = Inr r \<longrightarrow> (\<exists>ct. parseCursor (fq_Cursor q) = Inr ct \<and> page_shape (fq_SceneTag q) ct r))"
proof (cases "parseCursor (fq_Cursor q)")
  case (Inl e)
  with assms show ?thesis by (auto simp: PostService_ListFeed_def feed_same_def Let_def)
next
  case ct: (Inr ct)
  let ?s = "content_service rt rdb db pub lc cfg a b m" and ?n = "normaliseSize (fq_Size q)"
  have t: "cursor_time ct" by (rule parseCursor_time [OF ct])
  obtain ver page w1 where cf: "cached_feed ?s (fq_SceneTag q) ct w = ((ver, page), w1)" by (metis prod.collapse)
  note cff = cached_feed_frame [OF cf]
  have "feed_same kv sent master w w" using ok by (simp add: feed_same_def)
  note ok1 = feed_same_readonly [OF this cff(1)]
  show ?thesis
  proof (cases page)
    case (Some r)
    have "attach ?s vid r w1 = (res, w')" using assms(1) ct cf Some by (simp add: PostService_ListFeed_def Let_def)
    from feed_attached [OF this lc ok1] cff(2) Some ok t ct show ?thesis by auto
  next
    case None
    obtain lres w2 where l: "pr_ListFeed (NewPostRepository rt db) c (fq_SceneTag q) ct ?n w1 = (lres, w2)" by fastforce
    note ll = gorm_posts.feed_law [OF l]
    have ok2: "feed_same kv sent master w w2" using ll feed_same_readonly [OF ok1] by simp
    note run = assms(1) [unfolded PostService_ListFeed_def Let_def, simplified ct cf None l sum.case prod.case option.case content_service_simps]
    show ?thesis
    proof (cases lres)
      case (Inl e)
      with run ok2 show ?thesis by auto
    next
      case posts: (Inr posts)
      obtain x w3 where as: "assembleFeed ?s c posts ?n w2 = (x, w3)" by fastforce
      have qk: "query_ok (feed_query (fq_SceneTag q) ct ?n) (t_posts (replica w1)) posts" using ll posts by simp
      note ok3 = feed_assembled [OF as qk ok2]
      show ?thesis
      proof (cases x)
        case (Inl e)
        with run posts as ok3(1) show ?thesis by auto
      next
        case (Inr r)
        note shape = ok3(2) [OF Inr]
        define w4 where "w4 = (case ver of None \<Rightarrow> w3
            | Some v \<Rightarrow> snd (SetFeed (NewFeedCache rdb a b) (fq_SceneTag q) v ct (json_of_feed r) a w3))"
        have "attach ?s vid r w4 = (res, w')" using run posts as Inr by (simp add: w4_def)
        from feed_attached [OF this lc feed_stored [OF w4_def ok3(1) t shape] shape] ct show ?thesis by auto
      qed
    qed
  qed
qed

end

section \<open>Following the cursors\<close>

text \<open>
  What a reader gets from the pages of a table that does not change meanwhile: the answers of the
  feed query at the time of each cursor, until there is no next cursor.
\<close>

inductive feed_walk :: "Post list \<Rightarrow> int \<Rightarrow> int \<Rightarrow> int \<Rightarrow> Post list list \<Rightarrow> bool" for rows scene n where
  last: "query_ok (feed_query scene ct n) rows posts \<Longrightarrow> nextCursorOf posts n = [] \<Longrightarrow> feed_walk rows scene n ct [posts]"
| more: "query_ok (feed_query scene ct n) rows posts \<Longrightarrow> nextCursorOf posts n \<noteq> [] \<Longrightarrow>
     parseCursor (nextCursorOf posts n) = Inr t \<Longrightarrow> feed_walk rows scene n t pages \<Longrightarrow>
     feed_walk rows scene n ct (posts # pages)"

definition feed_rows :: "Post list \<Rightarrow> int \<Rightarrow> int \<Rightarrow> Post list" where
  "feed_rows rows scene ct = filter (q_where (feed_query scene ct 0)) rows"

lemma feed_where: "q_where (feed_query scene ct n) = q_where (feed_query scene ct 0)"
  by (simp add: feed_query_def)

definition times_ok :: "Post list \<Rightarrow> bool" where
  "times_ok rows \<longleftrightarrow> (\<forall>p\<in>set rows. 0 < p_CreatedAt p \<and> in_int64 (p_CreatedAt p))"

lemma next_cursor:
  assumes "times_ok rows" "query_ok (feed_query scene ct n) rows posts" "0 < n"
  shows "nextCursorOf posts n \<noteq> [] \<longleftrightarrow> int (length posts) \<ge> n"
    "nextCursorOf posts n \<noteq> [] \<Longrightarrow> posts \<noteq> []"
    "nextCursorOf posts n \<noteq> [] \<Longrightarrow> parseCursor (nextCursorOf posts n) = Inr (p_CreatedAt (last posts))"
proof -
  have ne: "FormatInt k \<noteq> []" for k by (auto simp: FormatInt_def)
  show full: "nextCursorOf posts n \<noteq> [] \<longleftrightarrow> int (length posts) \<ge> n" by (auto simp: nextCursorOf_def ne)
  assume c: "nextCursorOf posts n \<noteq> []"
  with full assms(3) show p: "posts \<noteq> []" by auto
  then have "last posts \<in> set rows" using query_ok_subset(1) [OF assms(2)] by simp
  with assms(1) have "0 < p_CreatedAt (last posts)" "in_int64 (p_CreatedAt (last posts))" by (auto simp: times_ok_def)
  with c ne show "parseCursor (nextCursorOf posts n) = Inr (p_CreatedAt (last posts))"
    by (auto simp: nextCursorOf_def parseCursor_def ParseInt_FormatInt split: if_splits)
qed

text \<open>One page: the latest rows, and what comes before its last time is left for the next.\<close>

lemma page_rows:
  assumes "query_ok (feed_query scene ct n) rows posts"
  shows "mset posts \<subseteq># mset (feed_rows rows scene ct)"
    "sorted_wrt (\<lambda>a b. p_CreatedAt b \<le> p_CreatedAt a) posts"
    "posts \<noteq> [] \<Longrightarrow> p \<in> set posts \<Longrightarrow> p_CreatedAt (last posts) \<le> p_CreatedAt p"
    "int (length posts) < n \<Longrightarrow> mset posts = mset (feed_rows rows scene ct)"
    "p \<in> set (feed_rows rows scene ct) \<Longrightarrow> p \<notin> set posts \<Longrightarrow> posts \<noteq> [] \<Longrightarrow> p_CreatedAt p \<le> p_CreatedAt (last posts)"
proof -
  obtain ys where ys: "mset ys = mset (feed_rows rows scene ct)"
      "sorted_wrt (\<lambda>a b. p_CreatedAt b \<le> p_CreatedAt a) ys" "posts = take (nat n) ys"
    using feed_query_rows [OF assms] by (metis feed_rows_def feed_where)
  show s: "sorted_wrt (\<lambda>a b. p_CreatedAt b \<le> p_CreatedAt a) posts" unfolding ys(3) by (rule sorted_wrt_take [OF ys(2)])
  have split: "mset posts + mset (drop (nat n) ys) = mset (feed_rows rows scene ct)"
    unfolding ys(3) by (metis append_take_drop_id mset_append ys(1))
  then show "mset posts \<subseteq># mset (feed_rows rows scene ct)" by (metis mset_subset_eq_add_left)
  show "mset posts = mset (feed_rows rows scene ct)" if "int (length posts) < n"
    using that ys by (simp add: min_def split: if_splits)
  show "p_CreatedAt (last posts) \<le> p_CreatedAt p" if "posts \<noteq> []" "p \<in> set posts" for p
  proof -
    have "sorted_wrt (\<lambda>a b. p_CreatedAt b \<le> p_CreatedAt a) (butlast posts @ [last posts])" using s that(1) by simp
    moreover have "p \<in> set (butlast posts @ [last posts])" using that by simp
    then have "p \<in> set (butlast posts) \<or> p = last posts" by auto
    ultimately show ?thesis by (auto simp: sorted_wrt_append)
  qed
  show "p_CreatedAt p \<le> p_CreatedAt (last posts)"
    if "p \<in> set (feed_rows rows scene ct)" "p \<notin> set posts" "posts \<noteq> []" for p
  proof -
    have "p \<in> set (drop (nat n) ys)" using that split by (metis mset_append set_append set_mset_mset Un_iff)
    moreover have "sorted_wrt (\<lambda>a b. p_CreatedAt b \<le> p_CreatedAt a) (posts @ drop (nat n) ys)" using ys(2,3) by simp
    ultimately show ?thesis using that(3) by (auto simp: sorted_wrt_append)
  qed
qed

lemma rows_before:
  "0 < t \<Longrightarrow> (IsZero ct \<or> t \<le> ct) \<Longrightarrow> feed_rows rows scene t = filter (\<lambda>p. p_CreatedAt p < t) (feed_rows rows scene ct)"
  by (auto simp: feed_rows_def feed_query_def IsZero_def zero_time_def intro!: filter_cong)

lemma feed_walk_covers:
  assumes "feed_walk rows scene n ct pages" "times_ok rows" "0 < n" "cursor_time ct"
  shows "mset (concat pages) \<subseteq># mset (feed_rows rows scene ct)
    \<and> sorted_wrt (\<lambda>a b. p_CreatedAt b \<le> p_CreatedAt a) (concat pages)
    \<and> (\<forall>p\<in>set (feed_rows rows scene ct). p \<in> set (concat pages)
        \<or> (\<exists>page\<in>set pages. page \<noteq> [] \<and> p_CreatedAt p = p_CreatedAt (last page)))"
  using assms(1,4)
proof (induction rule: feed_walk.induct)
  case (last ct posts)
  have "int (length posts) < n" using next_cursor(1) [OF assms(2) last(1) assms(3)] last(2) by auto
  then have "mset posts = mset (feed_rows rows scene ct)" by (rule page_rows(4) [OF last(1)])
  with page_rows(2) [OF last(1)] show ?case by (auto dest: mset_eq_setD)
next
  case (more ct posts t pages)
  note nc = next_cursor(2,3) [OF assms(2) more.hyps(1) assms(3) more.hyps(2)]
  have t: "t = p_CreatedAt (last posts)" using nc(2) more.hyps(3) by simp
  have l: "last posts \<in> set (feed_rows rows scene ct)"
    using nc(1) query_ok_subset [OF more.hyps(1), of "last posts"] by (simp add: feed_rows_def feed_where [of scene ct n])
  have pos: "0 < t" using l assms(2) by (auto simp: t times_ok_def feed_rows_def)
  have "IsZero ct \<or> t \<le> ct" using l by (auto simp: t feed_rows_def feed_query_def)
  note before = rows_before [OF pos this, of rows scene]
  have "cursor_time t" using pos by (simp add: cursor_time_def)
  note ih = more.IH [OF this]
  let ?R = "mset (feed_rows rows scene ct)"
  have late: "set posts \<subseteq> {p. t \<le> p_CreatedAt p}" using page_rows(3) [OF more.hyps(1) nc(1)] by (auto simp: t)
  have early: "set (concat pages) \<subseteq> {p. p_CreatedAt p < t}"
  proof -
    have "set_mset (mset (concat pages)) \<subseteq> set_mset (mset (feed_rows rows scene t))"
      using ih by (intro set_mset_mono) simp
    then show ?thesis unfolding before by auto
  qed
  have "filter (\<lambda>p. \<not> p_CreatedAt p < t) posts = posts" using late by (intro filter_True) auto
  then have "mset posts = filter_mset (\<lambda>p. \<not> p_CreatedAt p < t) (mset posts)" by (metis mset_filter)
  then have "mset posts \<subseteq># filter_mset (\<lambda>p. \<not> p_CreatedAt p < t) ?R"
    using multiset_filter_mono [OF page_rows(1) [OF more.hyps(1)]] by metis
  moreover have "mset (concat pages) \<subseteq># filter_mset (\<lambda>p. p_CreatedAt p < t) ?R"
    using ih unfolding before by (simp add: mset_filter)
  ultimately have "mset posts + mset (concat pages) \<subseteq># ?R"
    by (metis add.commute multiset_partition subset_mset.add_mono)
  moreover have "sorted_wrt (\<lambda>a b. p_CreatedAt b \<le> p_CreatedAt a) (posts @ concat pages)"
    using page_rows(2) [OF more.hyps(1)] ih late early by (fastforce simp: sorted_wrt_append)
  moreover have "p \<in> set (concat (posts # pages))
        \<or> (\<exists>page\<in>set (posts # pages). page \<noteq> [] \<and> p_CreatedAt p = p_CreatedAt (last page))"
    if p: "p \<in> set (feed_rows rows scene ct)" for p
  proof (cases "p \<in> set posts \<or> p_CreatedAt p = t")
    case True
    with nc(1) t show ?thesis by auto
  next
    case False
    with page_rows(5) [OF more.hyps(1) p _ nc(1)] have "p_CreatedAt p < t" by (simp add: t)
    with p have "p \<in> set (feed_rows rows scene t)" unfolding before by simp
    with ih show ?thesis by auto
  qed
  ultimately show ?case by simp
qed

lemma feed_walk_ends:
  assumes "times_ok rows" "0 < n" "cursor_time ct"
  shows "\<exists>pages. feed_walk rows scene n ct pages"
  using assms(3)
proof (induction "length (feed_rows rows scene ct)" arbitrary: ct rule: less_induct)
  case less
  define posts where "posts = run_query (feed_query scene ct n) rows"
  have q: "query_ok (feed_query scene ct n) rows posts" by (simp add: posts_def)
  show ?case
  proof (cases "nextCursorOf posts n = []")
    case True
    with q show ?thesis by (blast intro: feed_walk.last)
  next
    case False
    note nc = next_cursor(2,3) [OF assms(1) q assms(2) False]
    let ?t = "p_CreatedAt (last posts)"
    have l: "last posts \<in> set (feed_rows rows scene ct)"
      using nc(1) query_ok_subset [OF q, of "last posts"] by (simp add: feed_rows_def feed_where [of scene ct n])
    have pos: "0 < ?t" using l assms(1) by (auto simp: times_ok_def feed_rows_def)
    have "IsZero ct \<or> ?t \<le> ct" using l by (auto simp: feed_rows_def feed_query_def)
    note before = rows_before [OF pos this, of rows scene]
    have "length (feed_rows rows scene ?t) < length (feed_rows rows scene ct)"
      unfolding before by (rule length_filter_less [OF l]) simp
    moreover have "cursor_time ?t" using pos by (simp add: cursor_time_def)
    ultimately obtain pages where "feed_walk rows scene n ?t pages" using less.hyps by blast
    with feed_walk.more [OF q False nc(2)] show ?thesis by blast
  qed
qed

section \<open>The documented environment without faults\<close>

lemma doc_call:
  "w_faults u = [] \<Longrightarrow> doc_rdb (Cmd c) u = (fst (kv_step c (w_kv u)), u\<lparr>w_kv := snd (kv_step c (w_kv u))\<rparr>)"
  by (simp add: doc_rdb_def fault_def split: prod.splits)

lemma doc_read: "w_faults u = [] \<Longrightarrow> read_route q = Some rt \<Longrightarrow> doc_db q u = (fst (doc_db q u), u)"
  by (simp add: doc_db_def fault_def split: route.splits)

lemma doc_find_user:
  assumes "w_faults u = []" shows "snd (users_FindByID doc_db c i u) = u"
proof -
  obtain q rt where q: "users_FindByID doc_db c i u = first_user (doc_db q u)" "read_route q = Some rt"
    by (simp add: users_FindByID_def)
  have "snd (first_user (x, u)) = u" for x by (auto simp: first_user_def split: sqlreply.splits list.splits)
  then show ?thesis unfolding q(1) by (subst doc_read [OF assms q(2)])
qed

lemma doc_list_feed:
  assumes "w_faults u = []" shows "snd (posts_ListFeed doc_db c sc ct n u) = u"
proof -
  obtain r where "doc_db (SelectPosts Default (feed_query sc ct n)) u = (r, u)"
    using doc_read [OF assms, of "SelectPosts Default (feed_query sc ct n)"] by simp
  then show ?thesis by (cases r) (simp_all add: posts_ListFeed_def)
qed

lemma doc_load_one: "w_faults u = [] \<Longrightarrow> snd (LoadOne (NewAuthorAssembler (NewUserRepository doc_db)) c i u) = u"
  using doc_find_user [of u c i]
  by (auto simp: LoadOne_def NewAuthorAssembler_def NewUserRepository_def split: prod.splits sum.splits)

lemma doc_load_authors:
  "w_faults u = [] \<Longrightarrow> snd (load_authors (NewAuthorAssembler (NewUserRepository doc_db)) c is m u) = u"
proof (induction "is" arbitrary: m)
  case (Cons i "is")
  show ?case
  proof (cases "LoadOne (NewAuthorAssembler (NewUserRepository doc_db)) c i u")
    case (Pair r v)
    then have "v = u" using doc_load_one [OF Cons.prems, of c i] by simp
    with Pair Cons show ?thesis by (simp split: sum.splits)
  qed
qed simp

lemma doc_pipe:
  "w_faults u = [] \<Longrightarrow> (\<And>c s. c \<in> set cs \<Longrightarrow> snd (kv_step c s) = s) \<Longrightarrow> snd (pipe_exec doc_rdb cs u) = u"
proof (induction cs)
  case (Cons c cs)
  have "doc_rdb (Cmd c) u = (fst (kv_step c (w_kv u)), u)" using Cons.prems by (simp add: doc_call)
  moreover have "snd (pipe_exec doc_rdb cs u) = u" using Cons by simp
  ultimately show ?case by (cases "pipe_exec doc_rdb cs u") simp
qed simp

lemma doc_attach:
  assumes "w_faults u = []" "psv_likeCache s = Some (NewLikeCache doc_rdb t)"
  shows "\<exists>items. attach s vid r u = (Inr (r\<lparr>fr_Posts := items\<rparr>), u) \<and> map plain_item items = map plain_item (fr_Posts r)"
proof -
  obtain items v where i: "AttachLikedByMe (psv_likeCache s) vid (fr_Posts r) u = (items, v)" by fastforce
  let ?cs = "map (\<lambda>pid. SISMEMBER (keyLikeSet pid) (FormatInt vid)) (map pi_ID (fr_Posts r))"
  have ro: "snd (kv_step c x) = x" if "c \<in> set ?cs" for c x
    using that by (auto split: option.splits rval.splits)
  obtain rs where "pipe_exec doc_rdb ?cs u = (rs, u)" using doc_pipe [OF assms(1) ro] by (metis prod.collapse)
  then have "v = u"
    using i assms(2)
    by (auto simp: AttachLikedByMe_def BatchHasLiked_def NewLikeCache_def split: if_splits option.splits sum.splits)
  with i attach_plain [OF i] show ?thesis by (intro exI [of _ items]) (simp add: attach_def)
qed

text \<open>The numbers of a page fit the types of its fields.\<close>

definition feed_fits :: "FeedResp \<Rightarrow> bool" where
  "feed_fits r \<longleftrightarrow> (\<forall>x\<in>set (fr_Posts r). in_int64 (pi_ID x) \<and> in_int64 (pi_CreatedAt x) \<and> in_int64 (pa_ID (pi_Author x))
     \<and> - 128 \<le> pi_SceneTag x \<and> pi_SceneTag x \<le> 127 \<and> in_uint32 (pi_LikeCount x) \<and> in_uint32 (pi_ViewCount x))"

lemma feed_decodes:
  assumes "feed_fits r" shows "feed_of_json (json_of_feed r) = Inr r"
proof -
  have "item_fields_of_json (json_of_item x) = Inr x" if "x \<in> set (fr_Posts r)" for x
    using that assms
    by (cases x, cases "pi_Author x")
      (auto simp: item_fields_of_json_def json_of_item_def author_of_json_def json_of_author_def feed_fits_def in_uint32_def)
  then have "map_result item_fields_of_json (map json_of_item (fr_Posts r)) = Inr (fr_Posts r)"
    by (rule map_result_inverse)
  then show ?thesis by (simp add: feed_of_json_def json_of_feed_def)
qed

lemma feed_fits_plain:
  assumes "feed_fits (r\<lparr>fr_Posts := items\<rparr>)" "map plain_item items = map plain_item (fr_Posts r)"
  shows "feed_fits r"
proof -
  define ok where "ok x \<longleftrightarrow> in_int64 (pi_ID x) \<and> in_int64 (pi_CreatedAt x) \<and> in_int64 (pa_ID (pi_Author x))
     \<and> - 128 \<le> pi_SceneTag x \<and> pi_SceneTag x \<le> 127 \<and> in_uint32 (pi_LikeCount x) \<and> in_uint32 (pi_ViewCount x)" for x :: PostListItem
  have ok: "ok (plain_item x) = ok x" for x by (simp add: ok_def plain_item_def)
  have "\<forall>x\<in>set (map plain_item items). ok x" using assms(1) ok by (auto simp: feed_fits_def ok_def [symmetric])
  then have "\<forall>x\<in>set (fr_Posts r). ok x" unfolding assms(2) using ok by auto
  then show ?thesis by (simp add: feed_fits_def ok_def)
qed

section \<open>Properties\<close>

text \<open>
  C5: The feed keeps its order.  In every environment, if the pages in the cache have the
  shape of their keys they still have it after ListFeed, and every page that ListFeed answers has
  it too, from the cache or not: newest first, at most 50 posts of the scene asked for, older than
  the cursor, with the time of the last post as the next cursor exactly when there is more.
\<close>
theorem feed_order:
  fixes db :: "'w gorm"
  assumes "platform rdb kv db master replica pub sent rt"
    and "PostService_ListFeed (content_service rt rdb db pub (Some (NewLikeCache rdb l)) cfg a b m) c vid q w = (res, w')"
    and "feed_cache_ok (kv w)"
  shows "feed_cache_ok (kv w') \<and> sent w' = sent w \<and> tables (master w') = tables (master w)
     \<and> (\<forall>r. res = Inr r \<longrightarrow> (\<exists>ct. parseCursor (fq_Cursor q) = Inr ct \<and> page_shape (fq_SceneTag q) ct r))"
proof -
  have "lc_rdb k = rdb" if "Some (NewLikeCache rdb l) = Some k" for k using that by (auto simp: NewLikeCache_def)
  from platform.feed_served [OF assms(1,2) this assms(3)] show ?thesis by (simp add: feed_same_def)
qed

definition demo_query :: "int \<Rightarrow> FeedQuery" where
  "demo_query n = \<lparr>fq_SceneTag = 0, fq_Cursor = [], fq_Size = n\<rparr>"

definition feed_world :: world where
  "feed_world = (let s = demo_db\<lparr>t_posts := [demo_post 1 7 1, demo_post 2 42 1, demo_post 3 7 1]\<rparr>
     in demo_world\<lparr>w_db := s, w_replica := s\<rparr>)"

lemma cold_cache: "rget (w_kv feed_world) k = None" "rs_db (w_kv feed_world) k = None" "w_faults feed_world = []"
  by (simp_all add: feed_world_def demo_world_def fresh_world_def empty_kv_def rget_def Let_def)

definition first_page :: "FeedResp result \<times> world" where
  "first_page = PostService_ListFeed doc_content Background 0 (demo_query 1) feed_world"

lemma first_page_ids: "\<exists>r w'. first_page = (Inr r, w') \<and> map pi_ID (fr_Posts r) = [3] \<and> feed_fits r"
proof -
  let ?r = "\<lparr>fr_Posts = [BuildListItem (demo_post 3 7 1) (Some (demo_user 7 ''ann''))], fr_NextCursor = ''603'', fr_HasMore = True\<rparr>"
  have c: "cached_feed doc_content 0 zero_time feed_world = ((Some 0, None), feed_world)"
    using cold_cache by (simp add: doc_content_def cached_feed_def GetFeedVersion_def GetFeed_def doc_call)
  have "fst (posts_ListFeed doc_db Background 0 zero_time 1 feed_world) = Inr [demo_post 3 7 1]" by code_simp
  then have l: "posts_ListFeed doc_db Background 0 zero_time 1 feed_world = (Inr [demo_post 3 7 1], feed_world)"
    using doc_list_feed [OF cold_cache(3)] by (metis prod.collapse)
  have "fst (LoadOne (NewAuthorAssembler (NewUserRepository doc_db)) Background 7 feed_world) = Inr (Some (demo_user 7 ''ann''))"
    by code_simp
  then have o1: "LoadOne (NewAuthorAssembler (NewUserRepository doc_db)) Background 7 feed_world = (Inr (Some (demo_user 7 ''ann'')), feed_world)"
    using doc_load_one [OF cold_cache(3)] by (metis prod.collapse)
  have p3: "p_UserID (demo_post 3 7 1) = 7" "p_CreatedAt (demo_post 3 7 1) = 603" by (simp_all add: demo_post_def)
  have n603: "FormatInt 603 = ''603''" by code_simp
  have m: "LoadMap (NewAuthorAssembler (NewUserRepository doc_db)) Background [demo_post 3 7 1] feed_world
      = (Inr [7 \<mapsto> Some (demo_user 7 ''ann'')], feed_world)"
    by (simp add: LoadMap_def uniqueAuthorIDs_def p3 o1)
  have l2: "pr_ListFeed (psv_postRepo doc_content) Background 0 zero_time 1 feed_world = (Inr [demo_post 3 7 1], feed_world)"
    using l by (simp add: doc_content_def NewPostRepository_def)
  have a2: "psv_assembler doc_content = NewAuthorAssembler (NewUserRepository doc_db)" by (simp add: doc_content_def)
  have "fst first_page = Inr ?r"
    by (simp add: first_page_def PostService_ListFeed_def demo_query_def normaliseSize_def parseCursor_def c l2
        assembleFeed_def m a2 nextCursorOf_def p3 n603 BuildListItems_def author_of_def attach_def AttachLikedByMe_def Let_def)
  then have "first_page = (Inr ?r, snd first_page)" by (metis prod.collapse)
  moreover have "feed_fits ?r"
    by (simp add: feed_fits_def BuildListItem_def BuildAuthorBrief_def demo_post_def demo_user_def zero_Post_def zero_User_def
        in_int64_def int64_min_def int64_max_def in_uint32_def)
  moreover have "map pi_ID (fr_Posts ?r) = [3]" by (simp add: BuildListItem_def demo_post_def)
  ultimately show ?thesis by (intro exI [of _ ?r] exI [of _ "snd first_page"] conjI)
qed

theorem feed_order_witness:
  "\<exists>r w'. PostService_ListFeed doc_content Background 0 (demo_query 1) feed_world = (Inr r, w') \<and> page_shape 0 zero_time r"
proof -
  obtain r w' where f: "first_page = (Inr r, w')" using first_page_ids by auto
  have "feed_cache_ok (w_kv feed_world)" by (simp add: feed_cache_ok_def cold_cache)
  from feed_order [OF doc.platform_axioms f [unfolded first_page_def doc_content_def] this] f
  show ?thesis by (auto simp: first_page_def demo_query_def parseCursor_def)
qed

text \<open>
  C8: Following the cursors.  Over a table whose times are positive, following next_cursor
  from the first page ends, and what a reader saw is in order of time, holds no row more often than
  the table, and misses a visible post of the scene only if its time is that of the last post of a
  page.
\<close>
theorem feed_pages_cover:
  assumes "times_ok rows" "0 < n"
  shows "(\<exists>pages. feed_walk rows scene n zero_time pages)
    \<and> (\<forall>pages. feed_walk rows scene n zero_time pages \<longrightarrow>
        mset (concat pages) \<subseteq># mset (feed_rows rows scene zero_time)
        \<and> sorted_wrt (\<lambda>a b. p_CreatedAt b \<le> p_CreatedAt a) (concat pages)
        \<and> (\<forall>p\<in>set (feed_rows rows scene zero_time). p \<in> set (concat pages)
            \<or> (\<exists>page\<in>set pages. page \<noteq> [] \<and> p_CreatedAt p = p_CreatedAt (last page))))"
proof -
  have t: "cursor_time zero_time" by (simp add: cursor_time_def IsZero_def)
  from feed_walk_ends [OF assms t] feed_walk_covers [OF _ assms t] show ?thesis by blast
qed

theorem feed_pages_cover_witness:
  "\<exists>pages. feed_walk [demo_post 1 7 1, demo_post 2 42 1] 0 1 zero_time pages \<and> demo_post 1 7 1 \<in> set (concat pages)"
proof -
  let ?rows = "[demo_post 1 7 1, demo_post 2 42 1]"
  have t: "times_ok ?rows" by (simp add: times_ok_def demo_post_def in_int64_def int64_min_def int64_max_def)
  note all = feed_pages_cover [OF t zero_less_one, of 0]
  from conjunct1 [OF all] obtain pages where w: "feed_walk ?rows 0 1 zero_time pages" by blast
  have rows: "demo_post 1 7 1 \<in> set (feed_rows ?rows 0 zero_time)" 
    by (simp add: feed_rows_def feed_query_def demo_post_def zero_Post_def post_live_def PostVisible_def IsZero_def)
  have sub: "set (concat pages) \<subseteq> set ?rows"
  proof -
    have "mset (concat pages) \<subseteq># mset (feed_rows ?rows 0 zero_time)" using conjunct2 [OF all] w by blast
    from set_mset_mono [OF this] have "set (concat pages) \<subseteq> set (feed_rows ?rows 0 zero_time)" by (simp only: set_mset_mset)
    also have "\<dots> \<subseteq> set ?rows" unfolding feed_rows_def by (rule filter_is_subset)
    finally show ?thesis .
  qed
  have "demo_post 1 7 1 \<in> set (concat pages)"
  proof (rule ccontr)
    assume n: "demo_post 1 7 1 \<notin> set (concat pages)"
    with conjunct2 [OF all] w rows obtain page where "page \<in> set pages" "page \<noteq> []"
        "p_CreatedAt (demo_post 1 7 1) = p_CreatedAt (last page)" by blast
    moreover from this sub have "last page \<in> set ?rows" by (metis UN_I last_in_set set_concat subsetD)
    moreover from calculation n have "last page \<noteq> demo_post 1 7 1" by (metis UN_I last_in_set set_concat)
    ultimately show False by (auto simp: demo_post_def)
  qed
  with w show ?thesis by blast
qed

text \<open>
  C37: The cache does not know the page size.  Two readers ask for the same scene and cursor
  with different sizes: over a cold cache, whatever the second asks for, it gets the page of the
  first, whose next cursor and more flag are those of the first size.
\<close>
theorem feed_page_size_ignored:
  assumes "w_faults w = []" "0 < a" "rget (w_kv w) feedVersionKey = None"
    and "\<And>ct. rget (w_kv w) (feedCacheKey scene 0 ct) = None"
    and "PostService_ListFeed (content_service doc_rt doc_rdb doc_db doc_pub (Some (NewLikeCache doc_rdb l)) cfg a b m) c
           v1 \<lparr>fq_SceneTag = scene, fq_Cursor = cur, fq_Size = n1\<rparr> w = (Inr r1, w1)" "feed_fits r1"
  shows "\<exists>r2. fst (PostService_ListFeed (content_service doc_rt doc_rdb doc_db doc_pub (Some (NewLikeCache doc_rdb l)) cfg a b m) c
           v2 \<lparr>fq_SceneTag = scene, fq_Cursor = cur, fq_Size = n2\<rparr> w1) = Inr r2
     \<and> map plain_item (fr_Posts r2) = map plain_item (fr_Posts r1)
     \<and> fr_NextCursor r2 = fr_NextCursor r1 \<and> fr_HasMore r2 = fr_HasMore r1"
proof -
  let ?s = "content_service doc_rt doc_rdb doc_db doc_pub (Some (NewLikeCache doc_rdb l)) cfg a b m"
  obtain ct where ct: "parseCursor cur = Inr ct"
    using assms(5) by (cases "parseCursor cur") (simp_all add: PostService_ListFeed_def Let_def)
  let ?k = "feedCacheKey scene 0 ct"
  have c1: "cached_feed ?s scene ct w = ((Some 0, None), w)"
    using assms(1,3,4) by (simp add: cached_feed_def GetFeedVersion_def GetFeed_def doc_call)
  obtain lres where lr: "pr_ListFeed (NewPostRepository doc_rt doc_db) c scene ct (normaliseSize n1) w = (lres, w)"
    using doc_list_feed [OF assms(1)] by (simp add: NewPostRepository_def) (metis prod.collapse)
  then obtain posts where l: "pr_ListFeed (NewPostRepository doc_rt doc_db) c scene ct (normaliseSize n1) w = (Inr posts, w)"
    using assms(5) ct c1 by (cases lres) (simp_all add: PostService_ListFeed_def Let_def)
  obtain mres where mr: "LoadMap (NewAuthorAssembler (NewUserRepository doc_db)) c posts w = (mres, w)"
    using doc_load_authors [OF assms(1)] unfolding LoadMap_def by (metis prod.collapse)
  then obtain am where lm: "LoadMap (NewAuthorAssembler (NewUserRepository doc_db)) c posts w = (Inr am, w)"
    using assms(5) ct c1 l by (cases mres) (simp_all add: PostService_ListFeed_def assembleFeed_def Let_def)
  define r0 where "r0 = \<lparr>fr_Posts = BuildListItems posts am, fr_NextCursor = nextCursorOf posts (normaliseSize n1),
      fr_HasMore = (int (length posts) \<ge> normaliseSize n1)\<rparr>"
  define w2 where "w2 = w\<lparr>w_kv := snd (kv_step (SET ?k (Payload (json_of_feed r0)) a) (w_kv w))\<rparr>"
  have at: "attach ?s v1 r0 w2 = (Inr r1, w1)"
    using assms(1,5) ct c1 l lm
    by (simp add: PostService_ListFeed_def assembleFeed_def r0_def w2_def SetFeed_def doc_call Let_def)
  have f2: "w_faults w2 = []" by (simp add: w2_def assms(1))
  obtain items where i: "r1 = r0\<lparr>fr_Posts := items\<rparr>" "w1 = w2" "map plain_item items = map plain_item (fr_Posts r0)"
    using doc_attach [OF f2, of ?s l v1 r0] at by auto
  have dec: "feed_of_json (json_of_feed r0) = Inr r0"
    using feed_decodes feed_fits_plain i assms(6) by blast
  have "feedVersionKey \<noteq> ?k" by (simp add: feedVersionKey_def feedCacheKey_def Let_def)
  then have "rget (w_kv w2) feedVersionKey = None" "rget (w_kv w2) ?k = Some (VStr (Payload (json_of_feed r0)))"
    using assms(2,3) by (simp_all add: w2_def)
  then have c2: "cached_feed ?s scene ct w2 = ((Some 0, Some r0), w2)"
    using f2 dec by (simp add: cached_feed_def GetFeedVersion_def GetFeed_def doc_call decode_feed_def)
  obtain items2 where "attach ?s v2 r0 w2 = (Inr (r0\<lparr>fr_Posts := items2\<rparr>), w2)" "map plain_item items2 = map plain_item (fr_Posts r0)"
    using doc_attach [OF f2, of ?s l v2 r0] by auto
  with c2 ct i show ?thesis by (simp add: PostService_ListFeed_def Let_def)
qed

theorem feed_page_size_ignored_witness:
  "\<exists>r w'. PostService_ListFeed doc_content Background 0 (demo_query 1) feed_world = (Inr r, w')
     \<and> map pi_ID (fr_Posts r) = [3]
     \<and> (\<exists>r2. fst (PostService_ListFeed doc_content Background 0 (demo_query 50) w') = Inr r2
          \<and> map pi_ID (fr_Posts r2) = [3])"
proof -
  obtain r w' where f: "first_page = (Inr r, w')" and r: "map pi_ID (fr_Posts r) = [3]" "feed_fits r"
    using first_page_ids by auto
  have "0 < (5000 :: int)" by simp
  from feed_page_size_ignored [OF cold_cache(3) this cold_cache(1,1) f [unfolded first_page_def doc_content_def demo_query_def] r(2), of 0 50]
  obtain r2 where r2: "fst (PostService_ListFeed doc_content Background 0 (demo_query 50) w') = Inr r2"
      "map plain_item (fr_Posts r2) = map plain_item (fr_Posts r)"
    by (auto simp: doc_content_def demo_query_def)
  have "map pi_ID (fr_Posts r2) = map pi_ID (map plain_item (fr_Posts r2))" by (simp add: plain_item_def)
  also have "\<dots> = [3]" unfolding r2(2) using r(1) by (simp add: plain_item_def o_def)
  finally show ?thesis using f r(1) r2(1) by (auto simp: first_page_def)
qed

end
