(* ===== verification/SearchService.thy ===== *)
theory SearchService
  imports Utf8 FeedPages
begin

text \<open>
  internal/repository/search_repository.go and internal/service/search_service.go: the keyword
  is trimmed, cut to its first runes and freed of the operators of BOOLEAN MODE, the cursor is an
  offset, and one more row than the page shows tells whether there is a next page.
\<close>

section \<open>The repository\<close>

text \<open>
  The full-text index of MySQL is a parameter: whether a title matches a keyword, and the
  relevance of a post on a scale of whole numbers, which depends on all titles of that moment.
\<close>

record 'w fulltext =
  ft_match :: "string \<Rightarrow> string \<Rightarrow> bool"
  ft_relevance :: "'w \<Rightarrow> string \<Rightarrow> Post \<Rightarrow> int"

record 'w SearchRepository =
  srp_SearchByTitle :: "ctx \<Rightarrow> string \<Rightarrow> int \<Rightarrow> int \<Rightarrow> int \<Rightarrow> 'w \<Rightarrow> Post list result \<times> 'w"

definition search_query :: "'w fulltext \<Rightarrow> 'w \<Rightarrow> string \<Rightarrow> int \<Rightarrow> int \<Rightarrow> int \<Rightarrow> Post query" where
  "search_query ft w keyword scene offset sz =
     \<lparr>q_where = (\<lambda>p. post_live p \<and> p_IsVisible p = PostVisible \<and> ft_match ft keyword (p_Title p)
                   \<and> (scene \<noteq> 0 \<longrightarrow> p_SceneTag p = scene)),
      q_order = [ft_relevance ft w keyword, p_LikeCount], q_offset = offset, q_limit = Some sz\<rparr>"

definition posts_SearchByTitle ::
  "'w fulltext \<Rightarrow> 'w gorm \<Rightarrow> ctx \<Rightarrow> string \<Rightarrow> int \<Rightarrow> int \<Rightarrow> int \<Rightarrow> 'w \<Rightarrow> Post list result \<times> 'w" where
  "posts_SearchByTitle ft db c keyword scene offset sz w =
     (case db (SelectPosts Default (search_query ft w keyword scene offset sz)) w of
        (Posts xs, w') \<Rightarrow> (ok xs, w')
      | (SqlErr e, w') \<Rightarrow> (err e, w')
      | (_, w') \<Rightarrow> (err bad_reply, w'))"

definition NewSearchRepository :: "'w fulltext \<Rightarrow> 'w gorm \<Rightarrow> 'w SearchRepository" where
  "NewSearchRepository ft db = \<lparr>srp_SearchByTitle = posts_SearchByTitle ft db\<rparr>"

section \<open>The service\<close>

record SearchConfig =
  sec_MaxKeywordLen :: int
  sec_BooleanOperators :: string

record 'w SearchService =
  ss_searchRepo :: "'w SearchRepository"
  ss_assembler :: "'w AuthorAssembler"
  ss_likeCache :: "'w LikeCache option"
  ss_maxKeywordLen :: int
  ss_booleanOperators :: string

definition NewSearchService ::
  "'w SearchRepository \<Rightarrow> 'w AuthorAssembler \<Rightarrow> 'w LikeCache option \<Rightarrow> SearchConfig \<Rightarrow> 'w SearchService" where
  "NewSearchService repo asm likeCache cfg =
     \<lparr>ss_searchRepo = repo, ss_assembler = asm, ss_likeCache = likeCache,
      ss_maxKeywordLen = sec_MaxKeywordLen cfg, ss_booleanOperators = sec_BooleanOperators cfg\<rparr>"

record SearchQuery =
  sq_Keyword :: string
  sq_SceneTag :: int
  sq_Cursor :: string
  sq_Size :: int

text \<open>The length is positive: the configuration is refused otherwise.\<close>

definition normaliseKeyword :: "'w SearchService \<Rightarrow> string \<Rightarrow> string" where
  "normaliseKeyword s raw =
     (let rs = runes (TrimSpace raw);
          rs = (if int (length rs) > ss_maxKeywordLen s then take (nat (ss_maxKeywordLen s)) rs else rs)
      in string_of_runes rs)"

text \<open>strings.Map with a function that drops runes; an invalid byte becomes U+FFFD.\<close>

definition sanitiseBoolean :: "'w SearchService \<Rightarrow> string \<Rightarrow> string" where
  "sanitiseBoolean s keyword =
     (let cleaned = string_of_runes (filter (\<lambda>r. \<not> ContainsRune (ss_booleanOperators s) r) (runes keyword))
      in Join (Fields cleaned) '' '')"

definition parseSearchCursor :: "string \<Rightarrow> int result" where
  "parseSearchCursor s =
     (if s = [] then ok 0
      else (case ParseInt s of
              None \<Rightarrow> err (Plain ''invalid syntax'')
            | Some n \<Rightarrow> if n < 0 then err (Plain ''search cursor must be non-negative'') else ok n))"

definition nextSearchCursor :: "int \<Rightarrow> int \<Rightarrow> bool \<Rightarrow> string" where
  "nextSearchCursor offset n hasMore = (if \<not> hasMore then [] else FormatInt (offset + n))"

definition Search :: "'w SearchService \<Rightarrow> ctx \<Rightarrow> int \<Rightarrow> SearchQuery \<Rightarrow> 'w \<Rightarrow> SearchResp result \<times> 'w" where
  "Search s c viewerID q w =
     (let keyword = normaliseKeyword s (sq_Keyword q) in
      if keyword = [] then (err (App ErrSearchKeywordEmpty), w)
      else let safe = sanitiseBoolean s keyword in
      if safe = [] then (err (App ErrSearchKeywordEmpty), w)
      else (case parseSearchCursor (sq_Cursor q) of
         Inl _ \<Rightarrow> (err (App ErrSearchCursorInvalid), w)
       | Inr offset \<Rightarrow>
           (let n = normaliseSize (sq_Size q) in
            case srp_SearchByTitle (ss_searchRepo s) c safe (sq_SceneTag q) offset (n + 1) w of
              (Inl e, w) \<Rightarrow> (err (Wrap ''search by title'' e), w)
            | (Inr rows, w) \<Rightarrow>
                (let hasMore = int (length rows) > n;
                     rows = (if hasMore then take (nat n) rows else rows)
                 in case LoadMap (ss_assembler s) c rows w of
                      (Inl e, w) \<Rightarrow> (err e, w)
                    | (Inr authorMap, w) \<Rightarrow>
                        (case AttachLikedByMe (ss_likeCache s) viewerID (BuildListItems rows authorMap) w of
                           (items, w) \<Rightarrow>
                             (ok \<lparr>se_Posts = items, se_NextCursor = nextSearchCursor offset n hasMore,
                                  se_HasMore = hasMore\<rparr>, w))))))"

section \<open>The keyword\<close>

definition term_ok :: "nat list \<Rightarrow> bool" where
  "term_ok f \<longleftrightarrow> f \<noteq> [] \<and> (\<forall>r\<in>set f. \<not> IsSpace r)"

text \<open>The terms with one space between them.\<close>

fun spaced :: "nat list list \<Rightarrow> nat list" where
  "spaced [] = []"
| "spaced [f] = f"
| "spaced (f # fs) = f @ 32 # spaced fs"

lemma fields_terms:
  "(\<forall>r\<in>set cur. \<not> IsSpace r) \<Longrightarrow> f \<in> set (fields_from cur rs) \<Longrightarrow> term_ok f"
proof (induction cur rs rule: fields_from.induct)
  case (2 cur r rs)
  then show ?case
    by (cases "IsSpace r"; cases "cur = []") (auto simp: term_ok_def)
qed (simp add: term_ok_def split: if_splits)

lemma fields_runes: "f \<in> set (fields_from cur rs) \<Longrightarrow> set f \<subseteq> set cur \<union> set rs"
proof (induction cur rs rule: fields_from.induct)
  case (2 cur r rs)
  then show ?case by (cases "IsSpace r"; cases "cur = []") auto
qed (simp split: if_splits)

lemma fields_prefix:
  "\<forall>r\<in>set f. \<not> IsSpace r \<Longrightarrow> fields_from cur (f @ rs) = fields_from (cur @ f) rs"
  by (induction f arbitrary: cur) auto

lemma IsSpace_space [simp]: "IsSpace 32"
  by (simp add: IsSpace_def)

lemma fields_spaced: "\<forall>f\<in>set fs. term_ok f \<Longrightarrow> fields_from [] (spaced fs) = fs"
proof (induction fs rule: spaced.induct)
  case (2 f)
  then show ?case using fields_prefix [of f "[]" "[]"] by (simp add: term_ok_def)
next
  case (3 f g fs)
  then show ?case using fields_prefix [of f "[]" "32 # spaced (g # fs)"] by (simp add: term_ok_def)
qed simp

lemma spaced_runes: "set (spaced fs) \<subseteq> insert 32 (\<Union>f\<in>set fs. set f)"
  by (induction fs rule: spaced.induct) auto

lemma spaced_length:
  "length (spaced (fields_from cur rs)) \<le> length cur + length rs"
proof (induction cur rs rule: fields_from.induct)
  case (2 cur r rs)
  have c: "length (spaced (f # fs)) \<le> length f + 1 + length (spaced fs)" for f fs by (cases fs) auto
  from 2 c [of cur "fields_from [] rs"] show ?case by (auto split: if_splits)
qed simp

lemma encode_space: "string_of_runes [32] = '' ''"
  by code_simp

lemma string_of_runes_append: "string_of_runes (xs @ ys) = string_of_runes xs @ string_of_runes ys"
  by (simp add: string_of_runes_def)

lemma Join_spaced: "Join (map string_of_runes fs) '' '' = string_of_runes (spaced fs)"
proof (induction fs rule: spaced.induct)
  case (3 f g fs)
  have "string_of_runes (f @ [32] @ spaced (g # fs)) = string_of_runes f @ '' '' @ string_of_runes (spaced (g # fs))"
    by (simp only: string_of_runes_append encode_space)
  with 3 show ?case by simp
qed (simp_all add: string_of_runes_def)

text \<open>What is left of a keyword, as runes.\<close>

definition clean_runes :: "string \<Rightarrow> nat list \<Rightarrow> nat list" where
  "clean_runes ops rs = spaced (fields_from [] (filter (\<lambda>r. \<not> ContainsRune ops r) rs))"

lemma valid_runes [simp]: "list_all valid_rune (runes s)"
  by (simp add: runes_def runes_valid)

lemma sanitise_runes: "sanitiseBoolean s keyword = string_of_runes (clean_runes (ss_booleanOperators s) (runes keyword))"
proof -
  have "list_all valid_rune (filter P (runes keyword))" for P
    using valid_runes [of keyword] by (auto simp: list_all_iff)
  then show ?thesis by (simp add: sanitiseBoolean_def Fields_def Join_spaced clean_runes_def)
qed

lemma clean_valid: "list_all valid_rune rs \<Longrightarrow> list_all valid_rune (clean_runes ops rs)"
proof -
  assume v: "list_all valid_rune rs"
  have "set (clean_runes ops rs) \<subseteq> insert 32 (set rs)"
    using spaced_runes fields_runes unfolding clean_runes_def by fastforce
  moreover have "valid_rune 32" by (simp add: valid_rune_def)
  ultimately show ?thesis using v by (auto simp: list_all_iff)
qed

lemma runes_sanitise: "runes (sanitiseBoolean s keyword) = clean_runes (ss_booleanOperators s) (runes keyword)"
  by (simp add: sanitise_runes clean_valid)

lemma clean_kept:
  assumes "r \<in> set (clean_runes ops rs)" "\<not> ContainsRune ops 32" shows "\<not> ContainsRune ops r"
proof -
  have "r \<in> insert 32 (\<Union>f\<in>set (fields_from [] (filter (\<lambda>r. \<not> ContainsRune ops r) rs)). set f)"
    using assms(1) spaced_runes unfolding clean_runes_def by blast
  with fields_runes assms(2) show ?thesis by fastforce
qed

lemma clean_again:
  assumes "\<not> ContainsRune ops 32" shows "clean_runes ops (clean_runes ops rs) = clean_runes ops rs"
proof -
  have "filter (\<lambda>r. \<not> ContainsRune ops r) (clean_runes ops rs) = clean_runes ops rs"
    by (rule filter_True) (use clean_kept assms in blast)
  moreover have "fields_from [] (clean_runes ops rs) = fields_from [] (filter (\<lambda>r. \<not> ContainsRune ops r) rs)"
    unfolding clean_runes_def by (rule fields_spaced) (use fields_terms in force)
  ultimately show ?thesis by (simp add: clean_runes_def)
qed

lemma normalise_length:
  assumes "0 \<le> ss_maxKeywordLen s" shows "int (length (runes (normaliseKeyword s raw))) \<le> ss_maxKeywordLen s"
proof -
  have "list_all valid_rune (take n (runes t))" for n t
    using valid_runes [of t] by (auto simp: list_all_iff dest: in_set_takeD)
  then show ?thesis using assms by (simp add: normaliseKeyword_def Let_def)
qed

text \<open>
  C38: The keyword that reaches the FULLTEXT query has at most the configured number of runes,
  none of them an operator of BOOLEAN MODE, with single spaces between its terms: cleaning it
  once more changes nothing.
\<close>
theorem search_keyword_clean:
  assumes "0 \<le> ss_maxKeywordLen s" "\<not> ContainsRune (ss_booleanOperators s) 32"
  shows "let k = sanitiseBoolean s (normaliseKeyword s raw) in
    int (length (runes k)) \<le> ss_maxKeywordLen s
    \<and> (\<forall>r\<in>set (runes k). \<not> ContainsRune (ss_booleanOperators s) r)
    \<and> runes k = spaced (fields_from [] (runes k))
    \<and> sanitiseBoolean s k = k"
proof -
  let ?ops = "ss_booleanOperators s" and ?rs = "runes (normaliseKeyword s raw)"
  define k where "k = sanitiseBoolean s (normaliseKeyword s raw)"
  have k: "runes k = clean_runes ?ops ?rs" by (simp add: k_def runes_sanitise)
  have "length (clean_runes ?ops ?rs) \<le> length ?rs"
    using spaced_length [of "[]" "filter (\<lambda>r. \<not> ContainsRune ?ops r) ?rs"]
      length_filter_le [of "\<lambda>r. \<not> ContainsRune ?ops r" ?rs] unfolding clean_runes_def by (simp add: order_trans)
  with normalise_length [OF assms(1), of raw] k have 1: "int (length (runes k)) \<le> ss_maxKeywordLen s" by simp
  have 2: "\<forall>r\<in>set (runes k). \<not> ContainsRune ?ops r" using k clean_kept assms(2) by auto
  have "fields_from [] (clean_runes ?ops ?rs) = fields_from [] (filter (\<lambda>r. \<not> ContainsRune ?ops r) ?rs)"
    unfolding clean_runes_def by (rule fields_spaced) (use fields_terms in force)
  then have 3: "runes k = spaced (fields_from [] (runes k))" by (simp add: k) (simp add: clean_runes_def)
  have "sanitiseBoolean s k = string_of_runes (clean_runes ?ops (clean_runes ?ops ?rs))"
    by (simp add: sanitise_runes k)
  also have "\<dots> = k" by (simp add: clean_again [OF assms(2)] k_def sanitise_runes)
  finally show ?thesis using 1 2 3 unfolding Let_def k_def by blast
qed

definition search_service ::
  "'w fulltext \<Rightarrow> 'w gorm \<Rightarrow> 'w LikeCache option \<Rightarrow> SearchConfig \<Rightarrow> 'w SearchService" where
  "search_service ft db lc cfg =
     NewSearchService (NewSearchRepository ft db) (NewAuthorAssembler (NewUserRepository db)) lc cfg"

text \<open>The configuration the repository ships: fifty runes, and the operators of BOOLEAN MODE.\<close>

definition shipped_search :: SearchConfig where
  "shipped_search = \<lparr>sec_MaxKeywordLen = 50, sec_BooleanOperators = ''+-><()~*\"@''\<rparr>"

section \<open>A page of results\<close>

context platform
begin

lemma search_rows:
  assumes "posts_SearchByTitle ft db c keyword scene offset n w = (res, w')"
  shows "readonly sent kv master w w'"
    "res = Inr xs \<Longrightarrow> query_ok (search_query ft w keyword scene offset n) (t_posts (replica w)) xs"
proof -
  let ?q = "search_query ft w keyword scene offset n"
  obtain r where r: "db (SelectPosts Default ?q) w = (r, w')"
    using assms by (auto simp: posts_SearchByTitle_def split: prod.splits sqlreply.splits)
  show "readonly sent kv master w w'" by (rule sql_readonly [OF r]) simp
  have "(\<exists>m. r = SqlErr (Plain m)) \<or> (\<exists>xs. r = Posts xs \<and> query_ok ?q (t_posts (replica w)) xs)"
    by (rule sql_read [OF r, of Default]) auto
  then show "res = Inr xs \<Longrightarrow> query_ok ?q (t_posts (replica w)) xs"
    using assms r by (auto simp: posts_SearchByTitle_def)
qed

end

text \<open>The rows a search ranks, and a page of them with the next cursor.\<close>

definition search_hits :: "'w fulltext \<Rightarrow> string \<Rightarrow> int \<Rightarrow> Post list \<Rightarrow> Post list" where
  "search_hits ft keyword scene rows =
     filter (\<lambda>p. post_live p \<and> p_IsVisible p = PostVisible \<and> ft_match ft keyword (p_Title p)
                \<and> (scene \<noteq> 0 \<longrightarrow> p_SceneTag p = scene)) rows"

definition page_of :: "Post list \<Rightarrow> int \<Rightarrow> int \<Rightarrow> SearchResp \<Rightarrow> bool" where
  "page_of ranked offset n r \<longleftrightarrow>
     map pi_ID (se_Posts r) = map p_ID (take (nat n) (drop (nat offset) ranked))
     \<and> se_HasMore r = (offset + n < int (length ranked))
     \<and> se_NextCursor r = (if se_HasMore r then FormatInt (offset + n) else [])"

lemma plain_ids: "map plain_item xs = map plain_item ys \<Longrightarrow> map pi_ID xs = map pi_ID ys"
proof -
  assume "map plain_item xs = map plain_item ys"
  from arg_cong [OF this, of "map pi_ID"] have "map (pi_ID \<circ> plain_item) xs = map (pi_ID \<circ> plain_item) ys" by simp
  moreover have "pi_ID \<circ> plain_item = pi_ID" by (auto simp: plain_item_def)
  ultimately show ?thesis by simp
qed

text \<open>The calls of a search that succeeds.\<close>

lemma search_runs:
  fixes db :: "'w gorm"
  assumes "Search (search_service ft db lc cfg) c vid q w = (Inr r, w')"
    and "k = sanitiseBoolean (search_service ft db lc cfg) (normaliseKeyword (search_service ft db lc cfg) (sq_Keyword q))"
    and "n = normaliseSize (sq_Size q)"
  obtains offset rows hm pg am items w1 w2 where "k \<noteq> []" "parseSearchCursor (sq_Cursor q) = Inr offset"
    "posts_SearchByTitle ft db c k (sq_SceneTag q) offset (n + 1) w = (Inr rows, w1)"
    "hm = (int (length rows) > n)" "pg = (if hm then take (nat n) rows else rows)"
    "LoadMap (NewAuthorAssembler (NewUserRepository db)) c pg w1 = (Inr am, w2)"
    "AttachLikedByMe lc vid (BuildListItems pg am) w2 = (items, w')"
    "r = \<lparr>se_Posts = items, se_NextCursor = nextSearchCursor offset n hm, se_HasMore = hm\<rparr>"
proof -
  let ?s = "search_service ft db lc cfg"
  define kw where "kw = normaliseKeyword ?s (sq_Keyword q)"
  note k = assms(2) [folded kw_def]
  have parts: "ss_searchRepo ?s = NewSearchRepository ft db"
    "ss_assembler ?s = NewAuthorAssembler (NewUserRepository db)" "ss_likeCache ?s = lc"
    by (simp_all add: search_service_def NewSearchService_def)
  note run = assms(1) [unfolded Search_def Let_def parts, folded kw_def, folded k assms(3)]
  have ne: "kw \<noteq> []" "k \<noteq> []" using run by (auto split: if_splits)
  obtain offset where off: "parseSearchCursor (sq_Cursor q) = Inr offset" using run ne by (auto split: sum.splits)
  obtain res w1 where sr: "posts_SearchByTitle ft db c k (sq_SceneTag q) offset (n + 1) w = (res, w1)" by fastforce
  obtain rows where rows: "res = Inr rows" using run ne off sr by (cases res) (simp_all add: NewSearchRepository_def)
  define hm where "hm = (int (length rows) > n)"
  define pg where "pg = (if hm then take (nat n) rows else rows)"
  obtain mres w2 where lm: "LoadMap (NewAuthorAssembler (NewUserRepository db)) c pg w1 = (mres, w2)" by fastforce
  obtain am where am: "mres = Inr am"
    using run ne off sr rows lm by (cases mres) (simp_all add: NewSearchRepository_def flip: hm_def pg_def)
  obtain items w3 where at: "AttachLikedByMe lc vid (BuildListItems pg am) w2 = (items, w3)" by fastforce
  have "r = \<lparr>se_Posts = items, se_NextCursor = nextSearchCursor offset n hm, se_HasMore = hm\<rparr>" "w' = w3"
    using run ne off sr rows lm am at by (simp_all add: NewSearchRepository_def flip: hm_def pg_def)
  with that ne(2) off sr rows lm am at show thesis unfolding hm_def pg_def by blast
qed

text \<open>One row more than the page tells whether there is a next one.\<close>

lemma search_slice:
  assumes "rows = take (nat (n + 1)) (drop (nat offset) ranked)" "1 \<le> n" "0 \<le> offset"
  shows "(int (length rows) > n) = (offset + n < int (length ranked))"
    "(if int (length rows) > n then take (nat n) rows else rows) = take (nat n) (drop (nat offset) ranked)"
proof -
  show more: "(int (length rows) > n) = (offset + n < int (length ranked))"
    using assms by (auto simp: min_def)
  show "(if int (length rows) > n then take (nat n) rows else rows) = take (nat n) (drop (nat offset) ranked)"
  proof (cases "int (length rows) > n")
    case True
    have "nat n \<le> nat (n + 1)" by simp
    with True assms(1) show ?thesis by (simp add: min_absorb1)
  next
    case False
    with more assms(3) have "length (drop (nat offset) ranked) \<le> nat n" by auto
    with False assms(1) show ?thesis by simp
  qed
qed

text \<open>
  C30: A search that returns shows one page of the ranking of the visible, live posts whose
  title matches the cleaned keyword, from the offset of the cursor; there is more exactly if the
  ranking goes on behind the page, and the next cursor then leads there.  Nothing is written.
\<close>
theorem search_page:
  fixes db :: "'w gorm"
  assumes "platform rdb kv db master replica pub sent rt"
    and "\<And>l. lc = Some l \<Longrightarrow> lc_rdb l = rdb"
    and "Search (search_service ft db lc cfg) c vid q w = (Inr r, w')"
  shows "\<exists>offset ranked k. parseSearchCursor (sq_Cursor q) = Inr offset \<and> 0 \<le> offset
     \<and> k = sanitiseBoolean (search_service ft db lc cfg) (normaliseKeyword (search_service ft db lc cfg) (sq_Keyword q))
     \<and> k \<noteq> []
     \<and> mset ranked = mset (search_hits ft k (sq_SceneTag q) (t_posts (replica w)))
     \<and> sorted_wrt (key_le [ft_relevance ft w k, p_LikeCount]) ranked
     \<and> page_of ranked offset (normaliseSize (sq_Size q)) r
     \<and> readonly sent kv master w w'"
proof -
  let ?s = "search_service ft db lc cfg" and ?n = "normaliseSize (sq_Size q)"
  define k where "k = sanitiseBoolean ?s (normaliseKeyword ?s (sq_Keyword q))"
  obtain offset rows hm pg am items w1 w2 where x: "k \<noteq> []" "parseSearchCursor (sq_Cursor q) = Inr offset"
    "posts_SearchByTitle ft db c k (sq_SceneTag q) offset (?n + 1) w = (Inr rows, w1)"
    "hm = (int (length rows) > ?n)" "pg = (if hm then take (nat ?n) rows else rows)"
    "LoadMap (NewAuthorAssembler (NewUserRepository db)) c pg w1 = (Inr am, w2)"
    "AttachLikedByMe lc vid (BuildListItems pg am) w2 = (items, w')"
    "r = \<lparr>se_Posts = items, se_NextCursor = nextSearchCursor offset ?n hm, se_HasMore = hm\<rparr>"
    by (rule search_runs [OF assms(3) k_def refl])
  have off0: "0 \<le> offset" using x(2) by (auto simp: parseSearchCursor_def split: if_splits option.splits)
  obtain ranked where rk: "mset ranked = mset (search_hits ft k (sq_SceneTag q) (t_posts (replica w)))"
      "sorted_wrt (key_le [ft_relevance ft w k, p_LikeCount]) ranked"
      "rows = take (nat (?n + 1)) (drop (nat offset) ranked)"
    using platform.search_rows(2) [OF assms(1) x(3) refl]
    by (auto simp: query_ok_def search_query_def search_hits_def window_def)
  note slice = search_slice [OF rk(3) normaliseSize_range(1) off0, folded x(4), folded x(5)]
  have "map pi_ID items = map pi_ID (BuildListItems pg am)" by (rule plain_ids [OF attach_plain [OF x(7)]])
  also have "\<dots> = map p_ID pg" by (simp add: BuildListItems_def BuildListItem_def)
  finally have "page_of ranked offset ?n r"
    by (simp add: page_of_def x(8) slice nextSearchCursor_def)
  moreover have "readonly sent kv master w w'"
    by (rule readonly_trans [OF readonly_trans [OF platform.search_rows(1) [OF assms(1) x(3)]
          platform.load_map_readonly [OF assms(1) x(6)]] platform.liked_frame [OF assms(1) x(7) assms(2)]])
  ultimately show ?thesis using x(1,2) off0 rk(1,2) unfolding k_def by blast
qed

text \<open>A full-text index on which a title matches if it contains the keyword.\<close>

definition doc_fulltext :: "world fulltext" where
  "doc_fulltext = \<lparr>ft_match = (\<lambda>k t. list_ex (\<lambda>n. HasPrefix (drop n t) k) [0..<Suc (length t)]), ft_relevance = (\<lambda>w k p. 0)\<rparr>"

definition doc_search :: "world SearchService" where
  "doc_search = search_service doc_fulltext doc_db (Some (NewLikeCache doc_rdb 5000)) shipped_search"

lemma doc_operators: "runes (ss_booleanOperators doc_search) = [43, 45, 62, 60, 40, 41, 126, 42, 34, 64]"
  by (simp add: doc_search_def search_service_def NewSearchService_def shipped_search_def runes_ascii byte_of_def)

lemma doc_keyword_length: "ss_maxKeywordLen doc_search = 50"
  by (simp add: doc_search_def search_service_def NewSearchService_def shipped_search_def)

theorem search_keyword_clean_witness:
  "sanitiseBoolean doc_search (normaliseKeyword doc_search ''  +red  (pork)* '') = ''red pork''
   \<and> sanitiseBoolean doc_search ''red pork'' = ''red pork''"
proof -
  have "TrimSpace ''  +red  (pork)* '' = ''+red  (pork)*''" by code_simp
  then have n: "normaliseKeyword doc_search ''  +red  (pork)* '' = ''+red  (pork)*''"
    by (simp add: normaliseKeyword_def runes_ascii string_of_ascii byte_of_def doc_keyword_length char_of_def bit_Suc_0_iff Let_def)
  have k: "sanitiseBoolean doc_search ''+red  (pork)*'' = ''red pork''"
    by (simp add: sanitise_runes clean_runes_def ContainsRune_def doc_operators runes_ascii string_of_ascii byte_of_def char_of_def bit_Suc_0_iff IsSpace_def between_def)
  have "0 \<le> ss_maxKeywordLen doc_search" "\<not> ContainsRune (ss_booleanOperators doc_search) 32"
    by (simp_all add: doc_keyword_length doc_operators ContainsRune_def)
  from search_keyword_clean [OF this, of "''  +red  (pork)* ''"] n k show ?thesis by (simp add: Let_def)
qed

lemma doc_search_rows:
  "posts_SearchByTitle doc_fulltext doc_db Background ''soup'' 0 0 2 feed_world = (Inr [demo_post 1 7 1, demo_post 2 42 1], feed_world)"
proof -
  let ?q = "SelectPosts Default (search_query doc_fulltext feed_world ''soup'' 0 0 2)"
  have "fst (doc_db ?q feed_world) = Posts [demo_post 1 7 1, demo_post 2 42 1]" by code_simp
  then have "doc_db ?q feed_world = (Posts [demo_post 1 7 1, demo_post 2 42 1], feed_world)"
    using doc_read [OF cold_cache(3), of ?q Default] by simp
  then show ?thesis by (simp add: posts_SearchByTitle_def)
qed

theorem search_page_witness:
  "\<exists>r w'. Search doc_search Background 0 \<lparr>sq_Keyword = '' +soup '', sq_SceneTag = 0, sq_Cursor = [], sq_Size = 1\<rparr> feed_world = (Inr r, w')
     \<and> map pi_ID (se_Posts r) = [1] \<and> se_NextCursor r = ''1''
     \<and> (\<exists>ranked. page_of ranked 0 1 r \<and> mset ranked = mset (search_hits doc_fulltext ''soup'' 0 (t_posts (w_replica feed_world))))"
proof -
  let ?q = "\<lparr>sq_Keyword = '' +soup '', sq_SceneTag = 0, sq_Cursor = [], sq_Size = 1\<rparr>"
  have "TrimSpace '' +soup '' = ''+soup''" by code_simp
  then have k: "normaliseKeyword doc_search '' +soup '' = ''+soup''"
    by (simp add: normaliseKeyword_def runes_ascii string_of_ascii byte_of_def doc_keyword_length char_of_def bit_Suc_0_iff Let_def)
  moreover have "sanitiseBoolean doc_search ''+soup'' = ''soup''"
    by (simp add: sanitise_runes clean_runes_def ContainsRune_def doc_operators runes_ascii string_of_ascii byte_of_def char_of_def bit_Suc_0_iff IsSpace_def between_def)
  ultimately have k: "normaliseKeyword doc_search '' +soup '' = ''+soup''" "sanitiseBoolean doc_search ''+soup'' = ''soup''" by simp_all
  have parts: "ss_searchRepo doc_search = NewSearchRepository doc_fulltext doc_db"
    "ss_assembler doc_search = NewAuthorAssembler (NewUserRepository doc_db)"
    by (simp_all add: doc_search_def search_service_def NewSearchService_def)
  have n: "normaliseSize 1 = 1" "FormatInt 1 = ''1''" "parseSearchCursor [] = Inr 0"
    by code_simp+
  have "fst (LoadOne (NewAuthorAssembler (NewUserRepository doc_db)) Background 7 feed_world) = Inr (Some (demo_user 7 ''ann''))"
    by code_simp
  then have o1: "LoadOne (NewAuthorAssembler (NewUserRepository doc_db)) Background 7 feed_world = (Inr (Some (demo_user 7 ''ann'')), feed_world)"
    using doc_load_one [OF cold_cache(3)] by (metis prod.collapse)
  have p1: "p_UserID (demo_post 1 7 1) = 7" "p_ID (demo_post 1 7 1) = 1" by (simp_all add: demo_post_def)
  have m: "LoadMap (NewAuthorAssembler (NewUserRepository doc_db)) Background [demo_post 1 7 1] feed_world
      = (Inr [7 \<mapsto> Some (demo_user 7 ''ann'')], feed_world)"
    by (simp add: LoadMap_def uniqueAuthorIDs_def p1 o1)
  obtain r where r: "Search doc_search Background 0 ?q feed_world = (Inr r, feed_world)"
      "map pi_ID (se_Posts r) = [1]" "se_NextCursor r = ''1''"
    by (simp add: Search_def k parts n NewSearchRepository_def doc_search_rows m AttachLikedByMe_def nextSearchCursor_def
        BuildListItems_def BuildListItem_def p1 Let_def)
  have lc: "lc_rdb l = doc_rdb" if "Some (NewLikeCache doc_rdb 5000) = Some l" for l
    using that by (auto simp: NewLikeCache_def)
  from search_page [OF doc.platform_axioms lc r(1) [unfolded doc_search_def]]
  obtain ranked where "mset ranked = mset (search_hits doc_fulltext ''soup'' 0 (t_posts (w_replica feed_world)))" "page_of ranked 0 1 r"
    using k n by (auto simp flip: doc_search_def)
  with r show ?thesis by (intro exI [of _ r] exI [of _ feed_world] exI [of _ ranked] conjI) simp_all
qed

end
