(* ===== verification/Binding.thy ===== *)
theory Binding
  imports Utf8 UserSessions UploadService SearchService
begin

text \<open>
  Binding of requests: the bodies and query strings of internal/model/dto with their binding
  tags, as encoding/json, gin and its validator read them (the tag phone is validatePhone).  A number of a body is a whole number.
\<close>

section \<open>The fields of a body\<close>

text \<open>
  A key names a field if it agrees with its tag under simple folding: letters without case, and
  U+017F and U+212A as S and K.
\<close>

definition fold_rune :: "nat \<Rightarrow> nat" where
  "fold_rune r = (if 97 \<le> r \<and> r \<le> 122 then r - 32 else if r = 383 then 83 else if r = 8490 then 75 else r)"

definition same_name :: "string \<Rightarrow> string \<Rightarrow> bool" where
  "same_name a b \<longleftrightarrow> map fold_rune (runes a) = map fold_rune (runes b)"

text \<open>The fields of an object are read in order, each value into what is there.\<close>

fun bind_field :: "string \<Rightarrow> ('a \<Rightarrow> json \<Rightarrow> 'a result) \<Rightarrow> 'a \<Rightarrow> (string \<times> json) list \<Rightarrow> 'a result" where
  "bind_field name dec cur [] = ok cur"
| "bind_field name dec cur ((k, v) # kvs) =
     (if same_name k name then result_bind (dec cur v) (\<lambda>x. bind_field name dec x kvs)
      else bind_field name dec cur kvs)"

text \<open>Null leaves a string or a number as it is and clears a pointer or a list.\<close>

definition into_str :: "string \<Rightarrow> json \<Rightarrow> string result" where
  "into_str cur j = (if j = JNull then ok cur else as_str j)"

definition into_int :: "int \<Rightarrow> int \<Rightarrow> int \<Rightarrow> json \<Rightarrow> int result" where
  "into_int lo hi cur j = (if j = JNull then ok cur else as_ranged lo hi j)"

definition into_ptr :: "string option \<Rightarrow> json \<Rightarrow> string option result" where
  "into_ptr cur j = (if j = JNull then ok None else result_bind (as_str j) (\<lambda>s. ok (Some s)))"

definition into_list :: "(json \<Rightarrow> 'a result) \<Rightarrow> 'a list \<Rightarrow> json \<Rightarrow> 'a list result" where
  "into_list dec cur j = as_list dec j"

section \<open>Tags\<close>

definition rune_count :: "string \<Rightarrow> int" where
  "rune_count s = int (length (runes s))"

definition tag_max :: "int \<Rightarrow> string \<Rightarrow> bool" where
  "tag_max n s \<longleftrightarrow> rune_count s \<le> n"

definition tag_min :: "int \<Rightarrow> string \<Rightarrow> bool" where
  "tag_min n s \<longleftrightarrow> n \<le> rune_count s"

definition tag_range :: "int \<Rightarrow> int \<Rightarrow> int \<Rightarrow> bool" where
  "tag_range lo hi n \<longleftrightarrow> lo \<le> n \<and> n \<le> hi"

text \<open>The pattern of the tag numeric: a sign, digits, and perhaps a point and digits.\<close>

definition unsigned_text :: "string \<Rightarrow> string" where
  "unsigned_text s = (case s of [] \<Rightarrow> [] | c # cs \<Rightarrow> if c = CHR ''-'' \<or> c = CHR ''+'' then cs else s)"

definition tag_numeric :: "string \<Rightarrow> bool" where
  "tag_numeric s =
     (let t = unsigned_text s; whole = takeWhile (is_digit_in 0 9) t; rest = dropWhile (is_digit_in 0 9) t
      in whole \<noteq> [] \<and>
         (rest = [] \<or> (hd rest = CHR ''.'' \<and> tl rest \<noteq> [] \<and> list_all (is_digit_in 0 9) (tl rest))))"

section \<open>Requests\<close>

definition bind :: "json option \<Rightarrow> ((string \<times> json) list \<Rightarrow> 'a result) \<Rightarrow> ('a \<Rightarrow> bool) \<Rightarrow> 'a option" where
  "bind body dec valid =
     (case body of
        None \<Rightarrow> None
      | Some j \<Rightarrow>
          (case result_bind (as_obj j) dec of
             Inl e \<Rightarrow> None
           | Inr x \<Rightarrow> if valid x then Some x else None))"

definition decode_SendCodeReq :: "(string \<times> json) list \<Rightarrow> string result" where
  "decode_SendCodeReq = bind_field ''phone'' into_str []"

definition valid_SendCodeReq :: "string \<Rightarrow> bool" where
  "valid_SendCodeReq phone \<longleftrightarrow> phone \<noteq> [] \<and> validatePhone phone"

definition decode_LoginReq :: "(string \<times> json) list \<Rightarrow> (string \<times> string) result" where
  "decode_LoginReq kvs =
     result_bind (bind_field ''phone'' into_str [] kvs) (\<lambda>p.
     result_bind (bind_field ''code'' into_str [] kvs) (\<lambda>c. ok (p, c)))"

definition valid_LoginReq :: "string \<times> string \<Rightarrow> bool" where
  "valid_LoginReq r \<longleftrightarrow> fst r \<noteq> [] \<and> validatePhone (fst r) \<and> snd r \<noteq> [] \<and> rune_count (snd r) = 6 \<and> tag_numeric (snd r)"

definition decode_RefreshReq :: "(string \<times> json) list \<Rightarrow> string result" where
  "decode_RefreshReq = bind_field ''refresh_token'' into_str []"

definition decode_UpdateProfileReq :: "(string \<times> json) list \<Rightarrow> UpdateProfileReq result" where
  "decode_UpdateProfileReq kvs =
     result_bind (bind_field ''nickname'' into_ptr None kvs) (\<lambda>n.
     result_bind (bind_field ''avatar_url'' into_ptr None kvs) (\<lambda>a.
     result_bind (bind_field ''bio'' into_ptr None kvs) (\<lambda>b.
     ok \<lparr>up_Nickname = n, up_AvatarURL = a, up_Bio = b\<rparr>)))"

text \<open>omitempty skips a pointer that is nil, not one to the empty string.\<close>

definition valid_UpdateProfileReq :: "UpdateProfileReq \<Rightarrow> bool" where
  "valid_UpdateProfileReq r \<longleftrightarrow>
     (case up_Nickname r of None \<Rightarrow> True | Some s \<Rightarrow> tag_min 1 s \<and> tag_max 50 s)
     \<and> (case up_AvatarURL r of None \<Rightarrow> True | Some s \<Rightarrow> tag_max 500 s)
     \<and> (case up_Bio r of None \<Rightarrow> True | Some s \<Rightarrow> tag_max 200 s)"

definition decode_PostStepReq :: "json \<Rightarrow> PostStepReq result" where
  "decode_PostStepReq j =
     result_bind (as_obj j) (\<lambda>kvs.
     result_bind (bind_field ''text'' into_str [] kvs) (\<lambda>t.
     result_bind (bind_field ''image_urls'' (into_list as_str) [] kvs) (\<lambda>us.
     ok \<lparr>sr_Text = t, sr_ImageURLs = us\<rparr>)))"

definition valid_PostStepReq :: "PostStepReq \<Rightarrow> bool" where
  "valid_PostStepReq st \<longleftrightarrow> sr_Text st \<noteq> [] \<and> tag_max 500 (sr_Text st)
     \<and> length (sr_ImageURLs st) \<le> 3 \<and> list_all (tag_max 500) (sr_ImageURLs st)"

definition decode_CreatePostReq :: "(string \<times> json) list \<Rightarrow> CreatePostReq result" where
  "decode_CreatePostReq kvs =
     result_bind (bind_field ''title'' into_str [] kvs) (\<lambda>t.
     result_bind (bind_field ''scene_tag'' (into_int (- 128) 127) 0 kvs) (\<lambda>s.
     result_bind (bind_field ''content'' into_str [] kvs) (\<lambda>c.
     result_bind (bind_field ''cover_url'' into_str [] kvs) (\<lambda>u.
     result_bind (bind_field ''steps'' (into_list decode_PostStepReq) [] kvs) (\<lambda>ss.
     ok \<lparr>cp_Title = t, cp_SceneTag = s, cp_Content = c, cp_CoverURL = u, cp_Steps = ss\<rparr>)))))"

definition valid_CreatePostReq :: "CreatePostReq \<Rightarrow> bool" where
  "valid_CreatePostReq r \<longleftrightarrow>
     cp_Title r \<noteq> [] \<and> tag_min 1 (cp_Title r) \<and> tag_max 100 (cp_Title r)
     \<and> cp_SceneTag r \<noteq> 0 \<and> tag_range 1 8 (cp_SceneTag r) \<and> tag_max 5000 (cp_Content r)
     \<and> (cp_CoverURL r \<noteq> [] \<longrightarrow> tag_max 500 (cp_CoverURL r))
     \<and> length (cp_Steps r) \<le> 30 \<and> list_all valid_PostStepReq (cp_Steps r)"

definition decode_PresignReq :: "(string \<times> json) list \<Rightarrow> PresignReq result" where
  "decode_PresignReq kvs =
     result_bind (bind_field ''filename'' into_str [] kvs) (\<lambda>f.
     result_bind (bind_field ''content_type'' into_str [] kvs) (\<lambda>t.
     result_bind (bind_field ''size'' (into_int int64_min int64_max) 0 kvs) (\<lambda>n.
     result_bind (bind_field ''purpose'' into_str [] kvs) (\<lambda>p.
     ok \<lparr>ps_Filename = f, ps_ContentType = t, ps_Size = n, ps_Purpose = p\<rparr>))))"

definition valid_PresignReq :: "PresignReq \<Rightarrow> bool" where
  "valid_PresignReq r \<longleftrightarrow>
     ps_Filename r \<noteq> [] \<and> tag_max 200 (ps_Filename r)
     \<and> ps_ContentType r \<in> {''image/jpeg'', ''image/png'', ''image/webp''}
     \<and> ps_Size r \<noteq> 0 \<and> tag_range 1 5242880 (ps_Size r) \<and> ps_Purpose r \<in> {''avatar'', ''cover'', ''step''}"

definition decode_CallbackReq :: "(string \<times> json) list \<Rightarrow> CallbackReq result" where
  "decode_CallbackReq kvs = result_bind (bind_field ''nonce'' into_str [] kvs) (\<lambda>n. ok \<lparr>cb_Nonce = n\<rparr>)"

definition valid_CallbackReq :: "CallbackReq \<Rightarrow> bool" where
  "valid_CallbackReq r \<longleftrightarrow> cb_Nonce r \<noteq> [] \<and> tag_min 16 (cb_Nonce r) \<and> tag_max 128 (cb_Nonce r)"

section \<open>Queries\<close>

text \<open>A number of a query: the empty text is zero.\<close>

definition form_int :: "int \<Rightarrow> int \<Rightarrow> string \<Rightarrow> int option" where
  "form_int lo hi s =
     (if s = [] then Some 0
      else (case ParseInt s of None \<Rightarrow> None | Some n \<Rightarrow> if lo \<le> n \<and> n \<le> hi then Some n else None))"

definition optional_range :: "int \<Rightarrow> int \<Rightarrow> int \<Rightarrow> bool" where
  "optional_range lo hi n \<longleftrightarrow> n = 0 \<or> tag_range lo hi n"

definition bind_FeedQuery :: "(string \<Rightarrow> string) \<Rightarrow> FeedQuery option" where
  "bind_FeedQuery q =
     (case (form_int (- 128) 127 (q ''scene_tag''), form_int int64_min int64_max (q ''size'')) of
        (Some s, Some n) \<Rightarrow>
          if optional_range 1 8 s \<and> optional_range 1 50 n
          then Some \<lparr>fq_SceneTag = s, fq_Cursor = q ''cursor'', fq_Size = n\<rparr> else None
      | _ \<Rightarrow> None)"

definition bind_SearchQuery :: "(string \<Rightarrow> string) \<Rightarrow> SearchQuery option" where
  "bind_SearchQuery q =
     (case (form_int (- 128) 127 (q ''scene_tag''), form_int int64_min int64_max (q ''size'')) of
        (Some s, Some n) \<Rightarrow>
          if optional_range 1 8 s \<and> optional_range 1 50 n
          then Some \<lparr>sq_Keyword = q ''q'', sq_SceneTag = s, sq_Cursor = q ''cursor'', sq_Size = n\<rparr> else None
      | _ \<Rightarrow> None)"

record FollowListQuery =
  flq_Cursor :: string
  flq_Size :: int

definition bind_FollowListQuery :: "(string \<Rightarrow> string) \<Rightarrow> FollowListQuery option" where
  "bind_FollowListQuery q =
     (case form_int int64_min int64_max (q ''size'') of
        Some n \<Rightarrow> if optional_range 1 50 n then Some \<lparr>flq_Cursor = q ''cursor'', flq_Size = n\<rparr> else None
      | None \<Rightarrow> None)"

end
