(* ===== verification/Handlers.thy ===== *)
theory Handlers
  imports Binding Middleware LikeService
begin

text \<open>
  internal/handler: the handlers of the API over the gin context, each with its binding, its checks
  of the caller, the one service call and the answer.
\<close>

section \<open>Answers\<close>

text \<open>The data of an answer.\<close>

datatype body =
    BSendCode SendCodeResp | BLogin LoginResp | BTokens TokenPair | BPrivate UserPrivateResp | BPublic UserPublicResp
  | BCreate CreatePostResp | BDetail PostDetailResp | BFeed FeedResp | BLike LikeResp | BFollow FollowActionResp
  | BFollowList FollowListResp | BSearch SearchResp | BPresign PresignResp | BCallback CallbackResp
  | BChecks "(string \<times> string) list"

definition respond_data :: "body option \<Rightarrow> body gin \<Rightarrow> body gin" where
  "respond_data d c = respond (Success (gc_requestID c) d) c"

definition bad_params :: "body gin \<Rightarrow> body gin" where
  "bad_params c = respond (BadRequest (gc_requestID c) ErrInvalidParams) c"

definition refuse :: "AppError \<Rightarrow> body gin \<Rightarrow> body gin" where
  "refuse e c = respond_error (Some (App e)) c"

text \<open>The answer to a result, and to an error alone.\<close>

definition answer :: "('a \<Rightarrow> body) \<Rightarrow> body gin \<Rightarrow> 'a result \<times> 'w \<Rightarrow> body gin \<times> 'w" where
  "answer mk c r =
     (case r of
        (Inl e, w) \<Rightarrow> (respond_error (Some e) c, w)
      | (Inr x, w) \<Rightarrow> (respond_data (Some (mk x)) c, w))"

definition answer_error :: "body gin \<Rightarrow> error \<times> 'w \<Rightarrow> body gin \<times> 'w" where
  "answer_error c r =
     (case r of
        (Some e, w) \<Rightarrow> (respond_error (Some e) c, w)
      | (None, w) \<Rightarrow> (respond_data None c, w))"

text \<open>A path parameter that is an identifier.\<close>

definition parsePathID :: "string \<Rightarrow> int option" where
  "parsePathID s = (case ParseInt s of None \<Rightarrow> None | Some i \<Rightarrow> if i \<le> 0 then None else Some i)"

definition parseSizeQuery :: "string \<Rightarrow> int option" where
  "parseSizeQuery s =
     (if s = [] then Some 0
      else (case ParseInt s of None \<Rightarrow> None | Some n \<Rightarrow> if n < 1 \<or> n > 50 then None else Some n))"

section \<open>Users\<close>

record 'w UserHandler =
  uh_svc :: "'w UserService"

definition NewUserHandler :: "'w UserService \<Rightarrow> 'w UserHandler" where
  "NewUserHandler svc = \<lparr>uh_svc = svc\<rparr>"

definition UserHandler_SendCode :: "primitives \<Rightarrow> 'w runtime \<Rightarrow> 'w UserHandler \<Rightarrow> (body, 'w) handler" where
  "UserHandler_SendCode pr rt h c w =
     (case bind (gc_Body c) decode_SendCodeReq valid_SendCodeReq of
        None \<Rightarrow> (refuse ErrInvalidParams c, w)
      | Some phone \<Rightarrow> answer BSendCode c (UserService_SendCode pr rt (uh_svc h) Background phone (gc_ClientIP c) w))"

definition UserHandler_Login :: "primitives \<Rightarrow> 'w runtime \<Rightarrow> 'w UserHandler \<Rightarrow> (body, 'w) handler" where
  "UserHandler_Login pr rt h c w =
     (case bind (gc_Body c) decode_LoginReq valid_LoginReq of
        None \<Rightarrow> (refuse ErrInvalidParams c, w)
      | Some (phone, code) \<Rightarrow> answer BLogin c (UserService_Login pr rt (uh_svc h) Background phone code w))"

definition UserHandler_Refresh :: "primitives \<Rightarrow> 'w runtime \<Rightarrow> 'w UserHandler \<Rightarrow> (body, 'w) handler" where
  "UserHandler_Refresh pr rt h c w =
     (case bind (gc_Body c) decode_RefreshReq (\<lambda>t. t \<noteq> []) of
        None \<Rightarrow> (refuse ErrInvalidParams c, w)
      | Some token \<Rightarrow> answer BTokens c (UserService_Refresh pr rt (uh_svc h) Background token w))"

definition bearerTokenOrEmpty :: "string \<Rightarrow> string option" where
  "bearerTokenOrEmpty header =
     (let n = length ''Bearer '' in
      if length header \<le> n then None
      else if map ascii_lower (take n header) \<noteq> ''bearer '' then None
      else Some (drop n header))"

definition UserHandler_Logout :: "primitives \<Rightarrow> 'w runtime \<Rightarrow> 'w UserHandler \<Rightarrow> (body, 'w) handler" where
  "UserHandler_Logout pr rt h c w =
     (case bearerTokenOrEmpty (gc_Header c ''Authorization'') of
        None \<Rightarrow> (refuse ErrUnauthorized c, w)
      | Some token \<Rightarrow> answer_error c (UserService_Logout pr rt (uh_svc h) Background token w))"

definition UserHandler_GetMyProfile :: "primitives \<Rightarrow> 'w UserHandler \<Rightarrow> (body, 'w) handler" where
  "UserHandler_GetMyProfile pr h c w =
     (let uid = GetUserID c in
      if uid = 0 then (refuse ErrUnauthorized c, w)
      else answer BPrivate c (UserService_GetMyProfile pr (uh_svc h) Background uid w))"

definition UserHandler_GetPublicProfile :: "'w UserHandler \<Rightarrow> (body, 'w) handler" where
  "UserHandler_GetPublicProfile h c w =
     (case parsePathID (gc_Param c ''id'') of
        None \<Rightarrow> (refuse ErrInvalidParams c, w)
      | Some i \<Rightarrow> answer BPublic c (UserService_GetPublicProfile (uh_svc h) Background (GetUserID c) i w))"

definition UserHandler_UpdateProfile :: "primitives \<Rightarrow> 'w UserHandler \<Rightarrow> (body, 'w) handler" where
  "UserHandler_UpdateProfile pr h c w =
     (let uid = GetUserID c in
      if uid = 0 then (refuse ErrUnauthorized c, w)
      else (case bind (gc_Body c) decode_UpdateProfileReq valid_UpdateProfileReq of
              None \<Rightarrow> (refuse ErrInvalidParams c, w)
            | Some req \<Rightarrow> answer_error c (UserService_UpdateProfile pr (uh_svc h) Background uid req w)))"

section \<open>Posts and feeds\<close>

record 'w PostHandler =
  ph_svc :: "'w PostService"

definition NewPostHandler :: "'w PostService \<Rightarrow> 'w PostHandler" where
  "NewPostHandler svc = \<lparr>ph_svc = svc\<rparr>"

definition unauthorized :: "body gin \<Rightarrow> body gin" where
  "unauthorized c = respond (Unauthorized (gc_requestID c) ErrUnauthorized) c"

definition PostHandler_Create :: "primitives \<Rightarrow> 'w runtime \<Rightarrow> 'w PostHandler \<Rightarrow> (body, 'w) handler" where
  "PostHandler_Create pr rt h c w =
     (case bind (gc_Body c) decode_CreatePostReq valid_CreatePostReq of
        None \<Rightarrow> (bad_params c, w)
      | Some req \<Rightarrow>
          (let uid = GetUserID c in
           if uid = 0 then (unauthorized c, w)
           else answer BCreate c (PostService_Create pr rt (ph_svc h) Background uid req w)))"

definition PostHandler_GetDetail :: "primitives \<Rightarrow> 'w runtime \<Rightarrow> 'w PostHandler \<Rightarrow> (body, 'w) handler" where
  "PostHandler_GetDetail pr rt h c w =
     (case parsePathID (gc_Param c ''id'') of
        None \<Rightarrow> (bad_params c, w)
      | Some postID \<Rightarrow>
          answer BDetail c (PostService_GetDetail pr rt (ph_svc h) Background postID (GetUserID c) (gc_ClientIP c) w))"

definition PostHandler_Delete :: "'w runtime \<Rightarrow> 'w PostHandler \<Rightarrow> (body, 'w) handler" where
  "PostHandler_Delete rt h c w =
     (case parsePathID (gc_Param c ''id'') of
        None \<Rightarrow> (bad_params c, w)
      | Some postID \<Rightarrow>
          (let uid = GetUserID c in
           if uid = 0 then (unauthorized c, w)
           else answer_error c (PostService_Delete rt (ph_svc h) Background uid postID w)))"

record 'w FeedHandler =
  fh_svc :: "'w PostService"

definition NewFeedHandler :: "'w PostService \<Rightarrow> 'w FeedHandler" where
  "NewFeedHandler svc = \<lparr>fh_svc = svc\<rparr>"

definition FeedHandler_ListFeed :: "'w FeedHandler \<Rightarrow> (body, 'w) handler" where
  "FeedHandler_ListFeed h c w =
     (case bind_FeedQuery (gc_Query c) of
        None \<Rightarrow> (bad_params c, w)
      | Some q \<Rightarrow> answer BFeed c (PostService_ListFeed (fh_svc h) Background (GetUserID c) q w))"

definition FeedHandler_ListByUser :: "'w FeedHandler \<Rightarrow> (body, 'w) handler" where
  "FeedHandler_ListByUser h c w =
     (case parsePathID (gc_Param c ''id'') of
        None \<Rightarrow> (bad_params c, w)
      | Some authorID \<Rightarrow>
          (case parseSizeQuery (gc_Query c ''size'') of
             None \<Rightarrow> (respond (BadRequest (gc_requestID c) ErrPageSizeInvalid) c, w)
           | Some n \<Rightarrow>
               answer BFeed c (PostService_ListByUser (fh_svc h) Background (GetUserID c) authorID (gc_Query c ''cursor'') n w)))"

section \<open>Likes\<close>

record 'w LikeHandler =
  lh_svc :: "'w LikeService"

definition NewLikeHandler :: "'w LikeService \<Rightarrow> 'w LikeHandler" where
  "NewLikeHandler svc = \<lparr>lh_svc = svc\<rparr>"

definition parsePostID :: "body gin \<Rightarrow> int option" where
  "parsePostID c = (case ParseInt (gc_Param c ''id'') of None \<Rightarrow> None | Some i \<Rightarrow> if i \<le> 0 then None else Some i)"

text \<open>Unlike FromError, this one finds an AppError that is wrapped.\<close>

definition mapServiceErr :: "body gin \<Rightarrow> goerr \<Rightarrow> body gin" where
  "mapServiceErr c e =
     (case errors_as e of
        Some a \<Rightarrow> respond_error (Some (App a)) c
      | None \<Rightarrow> respond (envelope 500 (Code ErrServer) (Msg ErrServer) None (gc_requestID c)) c)"

text \<open>What the three handlers share: the path, the caller, and the answer.\<close>

definition like_call :: "(int \<Rightarrow> int \<Rightarrow> 'w \<Rightarrow> LikeResp result \<times> 'w) \<Rightarrow> (body, 'w) handler" where
  "like_call op c w =
     (case parsePostID c of
        None \<Rightarrow> (refuse ErrInvalidParams c, w)
      | Some postID \<Rightarrow>
          (let userID = GetUserID c in
           if userID = 0 then (refuse ErrUnauthorized c, w)
           else (case op userID postID w of
                   (Inl e, w) \<Rightarrow> (mapServiceErr c e, w)
                 | (Inr resp, w) \<Rightarrow> (respond_data (Some (BLike resp)) c, w))))"

definition LikeHandler_Like :: "'w runtime \<Rightarrow> 'w LikeHandler \<Rightarrow> (body, 'w) handler" where
  "LikeHandler_Like rt h = like_call (LikeService_Like rt (lh_svc h) Background)"

definition LikeHandler_Unlike :: "'w runtime \<Rightarrow> 'w LikeHandler \<Rightarrow> (body, 'w) handler" where
  "LikeHandler_Unlike rt h = like_call (LikeService_Unlike rt (lh_svc h) Background)"

definition LikeHandler_GetLikeStatus :: "'w LikeHandler \<Rightarrow> (body, 'w) handler" where
  "LikeHandler_GetLikeStatus h = like_call (GetLikeStatus (lh_svc h) Background)"

section \<open>Follows\<close>

record 'w FollowHandler =
  foh_svc :: "'w FollowService"

definition NewFollowHandler :: "'w FollowService \<Rightarrow> 'w FollowHandler" where
  "NewFollowHandler svc = \<lparr>foh_svc = svc\<rparr>"

definition parseUserIDParam :: "body gin \<Rightarrow> int option" where
  "parseUserIDParam c = (case ParseInt (gc_Param c ''id'') of None \<Rightarrow> None | Some i \<Rightarrow> if i \<le> 0 then None else Some i)"

definition follow_call :: "(int \<Rightarrow> int \<Rightarrow> 'w \<Rightarrow> FollowActionResp result \<times> 'w) \<Rightarrow> (body, 'w) handler" where
  "follow_call op c w =
     (let followerID = GetUserID c in
      if followerID = 0 then (refuse ErrUnauthorized c, w)
      else (case parseUserIDParam c of
              None \<Rightarrow> (refuse ErrInvalidParams c, w)
            | Some targetID \<Rightarrow> answer BFollow c (op followerID targetID w)))"

definition FollowHandler_Follow :: "'w runtime \<Rightarrow> 'w FollowHandler \<Rightarrow> (body, 'w) handler" where
  "FollowHandler_Follow rt h = follow_call (FollowService_Follow rt (foh_svc h) Background)"

definition FollowHandler_Unfollow :: "'w runtime \<Rightarrow> 'w FollowHandler \<Rightarrow> (body, 'w) handler" where
  "FollowHandler_Unfollow rt h = follow_call (FollowService_Unfollow rt (foh_svc h) Background)"

definition follow_list_call :: "(int \<Rightarrow> string \<Rightarrow> int \<Rightarrow> 'w \<Rightarrow> FollowListResp result \<times> 'w) \<Rightarrow> (body, 'w) handler" where
  "follow_list_call op c w =
     (case parseUserIDParam c of
        None \<Rightarrow> (refuse ErrInvalidParams c, w)
      | Some targetID \<Rightarrow>
          (case bind_FollowListQuery (gc_Query c) of
             None \<Rightarrow> (refuse ErrInvalidParams c, w)
           | Some q \<Rightarrow> answer BFollowList c (op targetID (flq_Cursor q) (flq_Size q) w)))"

definition FollowHandler_ListFollowers :: "'w FollowHandler \<Rightarrow> (body, 'w) handler" where
  "FollowHandler_ListFollowers h = follow_list_call (FollowService_ListFollowers (foh_svc h) Background)"

definition FollowHandler_ListFollowing :: "'w FollowHandler \<Rightarrow> (body, 'w) handler" where
  "FollowHandler_ListFollowing h = follow_list_call (FollowService_ListFollowing (foh_svc h) Background)"

section \<open>Search, uploads, health\<close>

record 'w SearchHandler =
  sh_svc :: "'w SearchService"

definition NewSearchHandler :: "'w SearchService \<Rightarrow> 'w SearchHandler" where
  "NewSearchHandler svc = \<lparr>sh_svc = svc\<rparr>"

definition SearchHandler_Search :: "'w SearchHandler \<Rightarrow> (body, 'w) handler" where
  "SearchHandler_Search h c w =
     (case bind_SearchQuery (gc_Query c) of
        None \<Rightarrow> (bad_params c, w)
      | Some q \<Rightarrow> answer BSearch c (Search (sh_svc h) Background (GetUserID c) q w))"

record 'w UploadHandler =
  uph_svc :: "'w UploadService"

definition NewUploadHandler :: "'w UploadService \<Rightarrow> 'w UploadHandler" where
  "NewUploadHandler svc = \<lparr>uph_svc = svc\<rparr>"

definition UploadHandler_Presign :: "'w runtime \<Rightarrow> 'w UploadHandler \<Rightarrow> (body, 'w) handler" where
  "UploadHandler_Presign rt h c w =
     (let uid = GetUserID c in
      if uid = 0 then (refuse ErrUnauthorized c, w)
      else (case bind (gc_Body c) decode_PresignReq valid_PresignReq of
              None \<Rightarrow> (refuse ErrInvalidParams c, w)
            | Some req \<Rightarrow> answer BPresign c (UploadService_Presign rt (uph_svc h) uid req w)))"

definition UploadHandler_Callback :: "'w UploadHandler \<Rightarrow> (body, 'w) handler" where
  "UploadHandler_Callback h c w =
     (let uid = GetUserID c in
      if uid = 0 then (refuse ErrUnauthorized c, w)
      else (case bind (gc_Body c) decode_CallbackReq valid_CallbackReq of
              None \<Rightarrow> (refuse ErrInvalidParams c, w)
            | Some req \<Rightarrow> answer BCallback c (UploadService_Callback (uph_svc h) uid req w)))"

text \<open>The pings of the database and of Redis, within three seconds, are parameters.\<close>

record 'w HealthHandler =
  hh_pingDB :: "'w \<Rightarrow> error \<times> 'w"
  hh_pingRedis :: "'w \<Rightarrow> error \<times> 'w"

definition HealthHandler_Health :: "(body, 'w) handler" where
  "HealthHandler_Health c w = (respond_data (Some (BChecks [(''status'', ''ok'')])) c, w)"

definition HealthHandler_Readiness :: "'w HealthHandler \<Rightarrow> (body, 'w) handler" where
  "HealthHandler_Readiness h c w =
     (let (e1, w) = hh_pingDB h w; (e2, w) = hh_pingRedis h w;
          status = (\<lambda>e. if e = None then ''ok'' else ''error'');
          checks = BChecks [(''mysql'', status e1), (''redis'', status e2)]
      in if e1 = None \<and> e2 = None then (respond_data (Some checks) c, w)
         else (respond (Unavailable (gc_requestID c) (Some checks)) c, w))"

end
