(* ===== verification/Router.thy ===== *)
theory Router
  imports Handlers
begin

text \<open>
  setupRouter of cmd/server/main.go: the table of routes with the middlewares of each, behind the
  global middlewares.  Matching a path with a pattern is gin's; a request names its route.  The
  access log and the metrics only observe and are in AccessLog; the route /metrics is left out.
\<close>

record 'w server =
  sv_prims :: primitives
  sv_rt :: "'w runtime"
  sv_rdb :: "'w rdb"
  sv_verifier :: "'w token_verifier"
  sv_health :: "'w HealthHandler"
  sv_user :: "'w UserHandler"
  sv_post :: "'w PostHandler"
  sv_feed :: "'w FeedHandler"
  sv_like :: "'w LikeHandler"
  sv_search :: "'w SearchHandler"
  sv_follow :: "'w FollowHandler"
  sv_upload :: "'w UploadHandler"
  sv_cors :: CORSConfig

text \<open>A middleware of a route; the last handler takes no continuation.\<close>

datatype 'w step = Authed | MaybeAuthed | Limited "(body, 'w) RateLimitConfig"

definition apply_step :: "'w server \<Rightarrow> 'w step \<Rightarrow> (body, 'w) middleware" where
  "apply_step s st =
     (case st of
        Authed \<Rightarrow> Auth (sv_verifier s)
      | MaybeAuthed \<Rightarrow> OptionalAuth (sv_verifier s)
      | Limited cfg \<Rightarrow> RateLimit (sv_rt s) cfg)"

definition per_user :: "'w server \<Rightarrow> string \<Rightarrow> int \<Rightarrow> int \<Rightarrow> 'w step" where
  "per_user s prefix limit win =
     Limited \<lparr>rlc_RDB = sv_rdb s, rlc_KeyFunc = PerUserKey prefix, rlc_Limit = limit, rlc_Window = win\<rparr>"

definition per_ip :: "'w server \<Rightarrow> string \<Rightarrow> int \<Rightarrow> int \<Rightarrow> 'w step" where
  "per_ip s prefix limit win =
     Limited \<lparr>rlc_RDB = sv_rdb s, rlc_KeyFunc = PerIPKey prefix, rlc_Limit = limit, rlc_Window = win\<rparr>"

record 'w route =
  ro_method :: string
  ro_pattern :: string
  ro_steps :: "'w step list"
  ro_handler :: "(body, 'w) handler"

definition route :: "string \<Rightarrow> string \<Rightarrow> 'w step list \<Rightarrow> (body, 'w) handler \<Rightarrow> 'w route" where
  "route m p ms h = \<lparr>ro_method = m, ro_pattern = p, ro_steps = ms, ro_handler = h\<rparr>"

definition infra_routes :: "'w server \<Rightarrow> 'w route list" where
  "infra_routes s =
     [route ''GET'' ''/health'' [] HealthHandler_Health,
      route ''GET'' ''/readiness'' [] (HealthHandler_Readiness (sv_health s)),
      route ''GET'' ''/health/ready'' [] (HealthHandler_Readiness (sv_health s))]"

definition auth_routes :: "'w server \<Rightarrow> 'w route list" where
  "auth_routes s =
     [route ''POST'' ''/api/v1/auth/send-code'' [] (UserHandler_SendCode (sv_prims s) (sv_rt s) (sv_user s)),
      route ''POST'' ''/api/v1/auth/login'' [] (UserHandler_Login (sv_prims s) (sv_rt s) (sv_user s)),
      route ''POST'' ''/api/v1/auth/refresh'' [] (UserHandler_Refresh (sv_prims s) (sv_rt s) (sv_user s)),
      route ''POST'' ''/api/v1/auth/logout'' [Authed] (UserHandler_Logout (sv_prims s) (sv_rt s) (sv_user s))]"

definition user_routes :: "'w server \<Rightarrow> 'w route list" where
  "user_routes s =
     [route ''GET'' ''/api/v1/users/:id'' [MaybeAuthed] (UserHandler_GetPublicProfile (sv_user s)),
      route ''GET'' ''/api/v1/users/:id/posts'' [MaybeAuthed] (FeedHandler_ListByUser (sv_feed s)),
      route ''POST'' ''/api/v1/users/:id/follow'' [Authed] (FollowHandler_Follow (sv_rt s) (sv_follow s)),
      route ''DELETE'' ''/api/v1/users/:id/follow'' [Authed] (FollowHandler_Unfollow (sv_rt s) (sv_follow s)),
      route ''GET'' ''/api/v1/users/:id/followers'' [] (FollowHandler_ListFollowers (sv_follow s)),
      route ''GET'' ''/api/v1/users/:id/following'' [] (FollowHandler_ListFollowing (sv_follow s)),
      route ''GET'' ''/api/v1/users/me'' [Authed] (UserHandler_GetMyProfile (sv_prims s) (sv_user s)),
      route ''PATCH'' ''/api/v1/users/me'' [Authed] (UserHandler_UpdateProfile (sv_prims s) (sv_user s))]"

definition post_routes :: "'w server \<Rightarrow> 'w route list" where
  "post_routes s =
     [route ''POST'' ''/api/v1/posts'' [Authed, per_user s ''limit:pub'' 20 86400000]
        (PostHandler_Create (sv_prims s) (sv_rt s) (sv_post s)),
      route ''GET'' ''/api/v1/posts/:id'' [] (PostHandler_GetDetail (sv_prims s) (sv_rt s) (sv_post s)),
      route ''DELETE'' ''/api/v1/posts/:id'' [Authed] (PostHandler_Delete (sv_rt s) (sv_post s)),
      route ''POST'' ''/api/v1/posts/:id/like'' [Authed, per_user s ''limit:like'' 200 86400000]
        (LikeHandler_Like (sv_rt s) (sv_like s)),
      route ''DELETE'' ''/api/v1/posts/:id/like'' [Authed] (LikeHandler_Unlike (sv_rt s) (sv_like s)),
      route ''GET'' ''/api/v1/posts/:id/like'' [Authed] (LikeHandler_GetLikeStatus (sv_like s))]"

definition list_routes :: "'w server \<Rightarrow> 'w route list" where
  "list_routes s =
     [route ''GET'' ''/api/v1/feed'' [MaybeAuthed] (FeedHandler_ListFeed (sv_feed s)),
      route ''GET'' ''/api/v1/search'' [MaybeAuthed, per_ip s ''limit:search'' 30 60000] (SearchHandler_Search (sv_search s))]"

definition upload_routes :: "'w server \<Rightarrow> 'w route list" where
  "upload_routes s =
     [route ''POST'' ''/api/v1/upload/presign'' [Authed, per_user s ''limit:upload'' 30 3600000]
        (UploadHandler_Presign (sv_rt s) (sv_upload s)),
      route ''POST'' ''/api/v1/upload/callback'' [Authed] (UploadHandler_Callback (sv_upload s))]"

definition routes :: "'w server \<Rightarrow> 'w route list" where
  "routes s = infra_routes s @ auth_routes s @ user_routes s @ post_routes s @ list_routes s @ upload_routes s"

text \<open>What runs for a route, and what runs for a request.\<close>

definition run_route :: "'w server \<Rightarrow> 'w route \<Rightarrow> (body, 'w) handler" where
  "run_route s r = chain (map (apply_step s) (ro_steps r)) (ro_handler r)"

definition setupRouter :: "'w server \<Rightarrow> 'w route \<Rightarrow> (body, 'w) handler" where
  "setupRouter s r = chain [RequestID (sv_rt s), Security, CORS (sv_cors s)] (run_route s r)"

section \<open>Who may change something\<close>

definition open_posts :: "string set" where
  "open_posts = {''/api/v1/auth/send-code'', ''/api/v1/auth/login'', ''/api/v1/auth/refresh''}"

lemma guarded_routes:
  assumes "r \<in> set (routes s)" "ro_method r \<noteq> ''GET''" "ro_pattern r \<notin> open_posts"
  shows "\<exists>ms. ro_steps r = Authed # ms"
proof -
  have "r \<in> set (infra_routes s) \<or> r \<in> set (auth_routes s) \<or> r \<in> set (user_routes s) \<or> r \<in> set (post_routes s)
      \<or> r \<in> set (list_routes s) \<or> r \<in> set (upload_routes s)"
    using assms(1) by (auto simp: routes_def)
  then show ?thesis
    using assms(2,3)
    by (elim disjE)
      (auto simp: infra_routes_def auth_routes_def user_routes_def post_routes_def list_routes_def upload_routes_def
        route_def open_posts_def)
qed

text \<open>The parts of a request that handlers read.\<close>

definition same_request :: "'d gin \<Rightarrow> 'd gin \<Rightarrow> bool" where
  "same_request c c' \<longleftrightarrow> gc_Method c' = gc_Method c \<and> gc_Header c' = gc_Header c \<and> gc_ClientIP c' = gc_ClientIP c
     \<and> gc_Param c' = gc_Param c \<and> gc_Query c' = gc_Query c \<and> gc_Body c' = gc_Body c
     \<and> gc_json c' = gc_json c \<and> gc_userID c' = gc_userID c"

lemma same_request_header [simp]: "same_request c (set_header k v c') = same_request c c'"
  by (simp add: same_request_def set_header_def)

lemma same_request_headers [simp]:
  "same_request c (header_if k v c') = same_request c c'" "same_request c (cors_origin cfg o' c') = same_request c c'"
  by (simp_all add: header_if_def cors_origin_def)

text \<open>The global middlewares hand the request on as it is, but for a preflight.\<close>

lemma global_chain:
  assumes "setupRouter s r c w = (c', w')"
  obtains c1 w0 where "same_request c c1" "w0 = w \<or> w0 = snd (rt_uuid (sv_rt s) w)"
    "gc_Method c = ''OPTIONS'' \<and> same_request c c' \<and> w' = w0 \<or> (c', w') = run_route s r c1 w0"
proof -
  define i w0 where "i = fst (if gc_Header c requestIDKey = [] then rt_uuid (sv_rt s) w else (gc_Header c requestIDKey, w))"
    and "w0 = snd (if gc_Header c requestIDKey = [] then rt_uuid (sv_rt s) w else (gc_Header c requestIDKey, w))"
  define c2 where "c2 = set_header ''Referrer-Policy'' ''strict-origin-when-cross-origin'' (set_header ''X-XSS-Protection'' ''1; mode=block''
      (set_header ''X-Frame-Options'' ''DENY'' (set_header ''X-Content-Type-Options'' ''nosniff''
        (set_header requestIDKey i (c\<lparr>gc_requestID := i\<rparr>)))))"
  have c2: "same_request c c2" by (simp add: c2_def) (simp add: same_request_def)
  define c1 where "c1 = header_if ''Access-Control-Expose-Headers'' (Join (cors_ExposeHeaders (sv_cors s)) '', '')
      (header_if ''Access-Control-Allow-Headers'' (Join (cors_AllowedHeaders (sv_cors s)) '', '')
        (header_if ''Access-Control-Allow-Methods'' (Join (cors_AllowedMethods (sv_cors s)) '', '')
          (cors_origin (sv_cors s) (gc_Header c2 ''Origin'') c2)))"
  have c1: "same_request c c1" using c2 by (simp add: c1_def)
  have "setupRouter s r c w = CORS (sv_cors s) (run_route s r) c2 w0"
    by (simp add: setupRouter_def chain_def RequestID_def Security_def c2_def i_def w0_def Let_def split: prod.split)
  also have "\<dots> = (if gc_Method c1 = ''OPTIONS'' then (c1\<lparr>gc_status := Some 204\<rparr>, w0) else run_route s r c1 w0)"
    by (simp add: CORS_def c1_def Let_def)
  finally have r: "(c', w') = (if gc_Method c1 = ''OPTIONS'' then (c1\<lparr>gc_status := Some 204\<rparr>, w0) else run_route s r c1 w0)"
    using assms by simp
  have "w0 = w \<or> w0 = snd (rt_uuid (sv_rt s) w)" by (simp add: w0_def)
  moreover have "gc_Method c = ''OPTIONS'' \<and> same_request c c' \<and> w' = w0 \<or> (c', w') = run_route s r c1 w0"
    using r c1 by (auto simp: same_request_def split: if_splits)
  ultimately show thesis using c1 that by blast
qed

text \<open>An answer to an error has no data.\<close>

lemma refused: "gc_json (respond_error e c) = Some a \<Longrightarrow> r_Data a = None"
  by (auto simp: respond_error_def respond_def response_defs split: option.splits goerr.splits)

lemma denied:
  "gc_json (respond (Unauthorized i e) c) = Some a \<Longrightarrow> r_Data a = None"
  "gc_json (respond (BadRequest i e) c) = Some a \<Longrightarrow> r_Data a = None"
  by (auto simp: respond_def response_defs)

lemma auth_cases:
  assumes "Auth v nxt c w = (c', w')"
  shows "(\<exists>token uid jti w1. extractBearerToken (gc_Header c ''Authorization'') = Inr token
        \<and> v token w = (Inr (uid, jti), w1) \<and> (c', w') = nxt (c\<lparr>gc_userID := Some uid, gc_jti := Some jti\<rparr>) w1)
    \<or> (w' = w \<or> (\<exists>token. w' = snd (v token w))) \<and> (\<forall>a. gc_json c' = Some a \<longrightarrow> r_Data a = None)"
proof (cases "extractBearerToken (gc_Header c ''Authorization'')")
  case (Inl e)
  with assms denied show ?thesis by (auto simp: Auth_def)
next
  case (Inr token)
  obtain x w1 where x: "v token w = (x, w1)" by fastforce
  show ?thesis
  proof (cases x)
    case e: (Inl e)
    have "w' = snd (v token w)" "gc_json c' = Some a \<Longrightarrow> r_Data a = None" for a
      using assms Inr x e denied refused by (auto simp: Auth_def split: option.splits)
    then show ?thesis by blast
  next
    case (Inr u)
    obtain uid jti where "u = (uid, jti)" by fastforce
    with assms \<open>extractBearerToken _ = _\<close> x Inr show ?thesis by (auto simp: Auth_def)
  qed
qed

text \<open>
  C2: A request can only change something as a verified user.  For every route that is not a
  GET, the three open ones of /auth apart: either the bearer token of the request was verified, and
  the rest of the route ran on the request with the user of that token, or nothing ran but the
  middlewares and the verifier, and the answer has no data.
\<close>
theorem writes_need_token:
  assumes "r \<in> set (routes s)" "ro_method r \<noteq> ''GET''" "ro_pattern r \<notin> open_posts"
    and "gc_json c = None" "setupRouter s r c w = (c', w')"
  shows "\<exists>w0. (w0 = w \<or> w0 = snd (rt_uuid (sv_rt s) w)) \<and>
     ((\<exists>token uid jti w1 c1. extractBearerToken (gc_Header c ''Authorization'') = Inr token
          \<and> sv_verifier s token w0 = (Inr (uid, jti), w1) \<and> same_request c c1
          \<and> (c', w') = chain (map (apply_step s) (tl (ro_steps r))) (ro_handler r) (c1\<lparr>gc_userID := Some uid, gc_jti := Some jti\<rparr>) w1)
      \<or> (w' = w0 \<or> (\<exists>token. w' = snd (sv_verifier s token w0)))
          \<and> (\<forall>a. gc_json c' = Some a \<longrightarrow> r_Data a = None))"
proof -
  obtain ms where ms: "ro_steps r = Authed # ms" using guarded_routes [OF assms(1-3)] by blast
  obtain c1 w0 where g: "same_request c c1" "w0 = w \<or> w0 = snd (rt_uuid (sv_rt s) w)"
    "gc_Method c = ''OPTIONS'' \<and> same_request c c' \<and> w' = w0 \<or> (c', w') = run_route s r c1 w0"
    using global_chain [OF assms(5)] by blast
  have run: "run_route s r c1 w0 = Auth (sv_verifier s) (chain (map (apply_step s) ms) (ro_handler r)) c1 w0"
    by (simp add: run_route_def ms apply_step_def chain_def)
  have auth: "gc_Header c1 ''Authorization'' = gc_Header c ''Authorization''" using g(1) by (simp add: same_request_def)
  show ?thesis
  proof (cases "(c', w') = run_route s r c1 w0")
    case True
    with auth_cases [of "sv_verifier s" _ c1 w0 c' w'] run auth g(1,2) ms show ?thesis
      by (intro exI [of _ w0]) (simp, blast)
  next
    case False
    with g assms(4) show ?thesis by (intro exI [of _ w0]) (auto simp: same_request_def)
  qed
qed

end
