(* ===== verification/RabbitMQ.thy ===== *)
theory RabbitMQ
  imports World
begin

text \<open>
  internal/event/rabbitmq.go: the bus over AMQP 0-9-1.  The client library amqp091-go is a
  parameter, a record of the calls the source makes; connections, channels and consumers are
  handles.  The fields of the bus that change are in the world, so that every call of the library
  leaves room for what other goroutines do to them.
\<close>

section \<open>The library\<close>

text \<open>
  What a receive finds: a delivery with its tag and body, the channel of messages closed, the
  context done, or nothing (only for the receive that does not block).
\<close>

datatype delivery = Delivery nat json | MsgsClosed | CtxDone | Nothing

record 'w amqp =
  am_Dial :: "string \<Rightarrow> int \<Rightarrow> 'w \<Rightarrow> nat result \<times> 'w"
  am_Channel :: "nat \<Rightarrow> 'w \<Rightarrow> nat result \<times> 'w"
  am_IsClosed :: "nat \<Rightarrow> 'w \<Rightarrow> bool"
  am_CloseConn :: "nat \<Rightarrow> 'w \<Rightarrow> error \<times> 'w"
  am_CloseCh :: "nat \<Rightarrow> 'w \<Rightarrow> error \<times> 'w"
  am_ExchangeDeclare :: "nat \<Rightarrow> string \<Rightarrow> string \<Rightarrow> 'w \<Rightarrow> error \<times> 'w"
  am_QueueDeclare :: "nat \<Rightarrow> string \<Rightarrow> string option \<Rightarrow> 'w \<Rightarrow> int result \<times> 'w"
  am_QueueBind :: "nat \<Rightarrow> string \<Rightarrow> string \<Rightarrow> string \<Rightarrow> 'w \<Rightarrow> error \<times> 'w"
  am_Publish :: "nat \<Rightarrow> string \<Rightarrow> string \<Rightarrow> json \<Rightarrow> 'w \<Rightarrow> error \<times> 'w"
  am_Consume :: "nat \<Rightarrow> string \<Rightarrow> 'w \<Rightarrow> nat result \<times> 'w"
  am_Recv :: "nat \<Rightarrow> 'w \<Rightarrow> delivery \<times> 'w"
  am_TryRecv :: "nat \<Rightarrow> 'w \<Rightarrow> delivery \<times> 'w"
  am_Ack :: "nat \<Rightarrow> 'w \<Rightarrow> error \<times> 'w"
  am_Nack :: "nat \<Rightarrow> 'w \<Rightarrow> error \<times> 'w"
  cx_After :: "int \<Rightarrow> 'w \<Rightarrow> bool \<times> 'w"
  cx_Err :: "'w \<Rightarrow> error"

text \<open>cx_After is the select on time.After and ctx.Done; it answers whether the context is done.\<close>

section \<open>The bus\<close>

record MQConfig =
  mq_Provider :: string
  mq_URL :: string
  mq_Timeout :: int
  mq_ReconnectMaxRetries :: int
  mq_ReconnectInitialDelay :: int

record bus_fields =
  bf_conn :: "nat option"
  bf_pubCh :: nat
  bf_closed :: bool

record 'w RabbitMQBus =
  rb_cfg :: MQConfig
  rb_amqp :: "'w amqp"
  rb_get :: "'w \<Rightarrow> bus_fields"
  rb_put :: "bus_fields \<Rightarrow> 'w \<Rightarrow> 'w"

definition rabbitMQExchange :: string where "rabbitMQExchange = ''cooking.events''"
definition rabbitMQDLXExchange :: string where "rabbitMQDLXExchange = ''cooking.events.dlx''"
definition rabbitMQDLXQueue :: string where "rabbitMQDLXQueue = ''cooking.events.dlx.queue''"

definition queueName :: "string \<Rightarrow> string" where
  "queueName topic = ''cooking.'' @ topic"

text \<open>The JSON of the envelope; its payload is raw JSON.\<close>

definition json_of_Event :: "Event \<Rightarrow> json" where
  "json_of_Event e = JObj [(''id'', JStr (ev_ID e)), (''topic'', JStr (ev_Topic e)),
     (''timestamp'', JNum (ev_Timestamp e)), (''payload'', ev_Payload e)]"

definition Event_of_json :: "json \<Rightarrow> Event result" where
  "Event_of_json j =
     result_bind (as_obj j) (\<lambda>kvs.
     result_bind (as_str (json_field ''id'' kvs)) (\<lambda>i.
     result_bind (as_str (json_field ''topic'' kvs)) (\<lambda>t.
     result_bind (as_int (json_field ''timestamp'' kvs)) (\<lambda>ts.
     ok \<lparr>ev_ID = i, ev_Topic = t, ev_Timestamp = ts, ev_Payload = json_field ''payload'' kvs\<rparr>))))"

text \<open>One call after the other, until one fails.\<close>

definition and_then :: "error \<times> 'w \<Rightarrow> ('w \<Rightarrow> error \<times> 'w) \<Rightarrow> error \<times> 'w" where
  "and_then r f = (case r of (Some e, w) \<Rightarrow> (Some e, w) | (None, w) \<Rightarrow> f w)"

definition wrapped :: "string \<Rightarrow> error \<times> 'w \<Rightarrow> error \<times> 'w" where
  "wrapped msg r = (case r of (Some e, w) \<Rightarrow> (Some (Wrap msg e), w) | (None, w) \<Rightarrow> (None, w))"

definition drop_value :: "'a result \<times> 'w \<Rightarrow> error \<times> 'w" where
  "drop_value r = (case r of (Inl e, w) \<Rightarrow> (Some e, w) | (Inr _, w) \<Rightarrow> (None, w))"

definition declareTopology :: "'w amqp \<Rightarrow> nat \<Rightarrow> 'w \<Rightarrow> error \<times> 'w" where
  "declareTopology am ch w =
     and_then (wrapped ''rabbitmq declare exchange'' (am_ExchangeDeclare am ch rabbitMQExchange ''topic'' w))
       (\<lambda>w. and_then (wrapped ''rabbitmq declare DLX exchange'' (am_ExchangeDeclare am ch rabbitMQDLXExchange ''fanout'' w))
       (\<lambda>w. and_then (wrapped ''rabbitmq declare DLX queue'' (drop_value (am_QueueDeclare am ch rabbitMQDLXQueue None w)))
       (\<lambda>w. wrapped ''rabbitmq bind DLX queue'' (am_QueueBind am ch rabbitMQDLXQueue [] rabbitMQDLXExchange w))))"

definition dialAndDeclareLocked :: "'w RabbitMQBus \<Rightarrow> 'w \<Rightarrow> error \<times> 'w" where
  "dialAndDeclareLocked b w =
     (let am = rb_amqp b in
      case am_Dial am (mq_URL (rb_cfg b)) (mq_Timeout (rb_cfg b)) w of
        (Inl e, w) \<Rightarrow> (Some (Wrap ''rabbitmq dial'' e), w)
      | (Inr conn, w) \<Rightarrow>
          (case am_Channel am conn w of
             (Inl e, w) \<Rightarrow> (Some (Wrap ''rabbitmq open publish channel'' e), snd (am_CloseConn am conn w))
           | (Inr ch, w) \<Rightarrow>
               (case declareTopology am ch w of
                  (Some e, w) \<Rightarrow> (Some e, snd (am_CloseConn am conn (snd (am_CloseCh am ch w))))
                | (None, w) \<Rightarrow>
                    (let w = (case bf_conn (rb_get b w) of
                                None \<Rightarrow> w
                              | Some old \<Rightarrow> snd (am_CloseConn am old (snd (am_CloseCh am (bf_pubCh (rb_get b w)) w))))
                     in (None, rb_put b ((rb_get b w)\<lparr>bf_conn := Some conn, bf_pubCh := ch\<rparr>) w)))))"

definition conn_dead :: "'w RabbitMQBus \<Rightarrow> 'w \<Rightarrow> bool" where
  "conn_dead b w = (case bf_conn (rb_get b w) of None \<Rightarrow> True | Some c \<Rightarrow> am_IsClosed (rb_amqp b) c w)"

definition ensureConnLocked :: "'w RabbitMQBus \<Rightarrow> 'w \<Rightarrow> error \<times> 'w" where
  "ensureConnLocked b w = (if conn_dead b w then dialAndDeclareLocked b w else (None, w))"

definition reopenPubChLocked :: "'w RabbitMQBus \<Rightarrow> 'w \<Rightarrow> error \<times> 'w" where
  "reopenPubChLocked b w =
     (let w = snd (am_CloseCh (rb_amqp b) (bf_pubCh (rb_get b w)) w) in
      if conn_dead b w then dialAndDeclareLocked b w
      else (case am_Channel (rb_amqp b) (the (bf_conn (rb_get b w))) w of
              (Inl e, w) \<Rightarrow> dialAndDeclareLocked b w
            | (Inr ch, w) \<Rightarrow> (None, rb_put b ((rb_get b w)\<lparr>bf_pubCh := ch\<rparr>) w)))"

text \<open>The constructor starts from the zero fields.\<close>

definition NewRabbitMQBus :: "'w RabbitMQBus \<Rightarrow> 'w \<Rightarrow> error \<times> 'w" where
  "NewRabbitMQBus b w = dialAndDeclareLocked b (rb_put b \<lparr>bf_conn = None, bf_pubCh = 0, bf_closed = False\<rparr> w)"

definition DLXQueueDepth :: "'w RabbitMQBus \<Rightarrow> 'w \<Rightarrow> int result \<times> 'w" where
  "DLXQueueDepth b w =
     (if bf_closed (rb_get b w) then (err (Plain ''rabbitmq bus: dlx depth on closed bus''), w)
      else (case ensureConnLocked b w of
        (Some e, w) \<Rightarrow> (err (Wrap ''rabbitmq dlx depth: ensure conn'' e), w)
      | (None, w) \<Rightarrow>
          (case am_Channel (rb_amqp b) (the (bf_conn (rb_get b w))) w of
             (Inl e, w) \<Rightarrow> (err (Wrap ''rabbitmq dlx depth: open channel'' e), w)
           | (Inr ch, w) \<Rightarrow>
               (case am_QueueDeclare (rb_amqp b) ch rabbitMQDLXQueue None w of
                  (Inl e, w) \<Rightarrow> (err (Wrap ''rabbitmq dlx depth: declare'' e), snd (am_CloseCh (rb_amqp b) ch w))
                | (Inr n, w) \<Rightarrow> (ok n, snd (am_CloseCh (rb_amqp b) ch w))))))"

text \<open>
  The delay in milliseconds; the product of a delay with a power of two is exact in
  floating point as long as it is below the cap.
\<close>

definition reconnectDelay :: "MQConfig \<Rightarrow> int \<Rightarrow> int" where
  "reconnectDelay cfg attempt =
     (let d = mq_ReconnectInitialDelay cfg * 2 ^ nat (attempt - 1) in
      if d > 30000 then 30000 else d)"

section \<open>Publishing\<close>

text \<open>The attempts from a given one; the first argument counts those that are left.\<close>

fun publish_from :: "'w RabbitMQBus \<Rightarrow> Event \<Rightarrow> nat \<Rightarrow> int \<Rightarrow> 'w \<Rightarrow> error \<times> 'w" where
  "publish_from b evt 0 attempt w = (Some (Plain (''rabbitmq: publish max retries exceeded for topic '' @ ev_Topic evt)), w)"
| "publish_from b evt (Suc n) attempt w =
     (let am = rb_amqp b;
          send = (\<lambda>w. case am_Publish am (bf_pubCh (rb_get b w)) rabbitMQExchange (ev_Topic evt) (json_of_Event evt) w of
                        (None, w) \<Rightarrow> (None, w)
                      | (Some e, w) \<Rightarrow>
                          (if cx_Err am w \<noteq> None \<or> bf_closed (rb_get b w) then (Some e, w)
                           else publish_from b evt n (attempt + 1) w))
      in if attempt > 0 then
           (case cx_After am (reconnectDelay (rb_cfg b) attempt) w of
              (True, w) \<Rightarrow> (cx_Err am w, w)
            | (False, w) \<Rightarrow>
                (if bf_closed (rb_get b w) then (Some (Plain ''rabbitmq bus: closed during publish retry''), w)
                 else (case reopenPubChLocked b w of
                         (Some e, w) \<Rightarrow> publish_from b evt n (attempt + 1) w
                       | (None, w) \<Rightarrow> send w)))
         else send w)"

definition RabbitMQBus_Publish :: "'w RabbitMQBus \<Rightarrow> Event \<Rightarrow> 'w \<Rightarrow> error \<times> 'w" where
  "RabbitMQBus_Publish b evt w =
     (if bf_closed (rb_get b w) then (Some (Plain ''rabbitmq bus: publish on closed bus''), w)
      else publish_from b evt (nat (mq_ReconnectMaxRetries (rb_cfg b) + 1)) 0 w)"

section \<open>Subscribing\<close>

definition handleDelivery :: "'w RabbitMQBus \<Rightarrow> 'w handler \<Rightarrow> nat \<Rightarrow> json \<Rightarrow> 'w \<Rightarrow> 'w" where
  "handleDelivery b handler tag body w =
     (case Event_of_json body of
        Inl e \<Rightarrow> snd (am_Nack (rb_amqp b) tag w)
      | Inr evt \<Rightarrow>
          (case handler (ev_Payload evt) w of
             (Some e, w) \<Rightarrow> snd (am_Nack (rb_amqp b) tag w)
           | (None, w) \<Rightarrow> snd (am_Ack (rb_amqp b) tag w)))"

text \<open>
  The two loops of a session: until the context is done, and the drain of what is buffered then.
  They answer whether the connection was lost, and the error; None is a loop that does not end.
\<close>

partial_function (option) drain_loop ::
  "'w RabbitMQBus \<Rightarrow> 'w handler \<Rightarrow> nat \<Rightarrow> 'w \<Rightarrow> ((bool \<times> error) \<times> 'w) option" where
  "drain_loop b handler msgs w =
     (case am_TryRecv (rb_amqp b) msgs w of (d, w) \<Rightarrow>
      (case d of Delivery tag body \<Rightarrow> drain_loop b handler msgs (handleDelivery b handler tag body w)
       | _ \<Rightarrow> Some ((False, None), w)))"

partial_function (option) recv_loop ::
  "'w RabbitMQBus \<Rightarrow> 'w handler \<Rightarrow> nat \<Rightarrow> 'w \<Rightarrow> ((bool \<times> error) \<times> 'w) option" where
  "recv_loop b handler msgs w =
     (case am_Recv (rb_amqp b) msgs w of (d, w) \<Rightarrow>
      (case d of Delivery tag body \<Rightarrow> recv_loop b handler msgs (handleDelivery b handler tag body w)
       | CtxDone \<Rightarrow> drain_loop b handler msgs w
       | _ \<Rightarrow> Some ((True, Some (Plain ''msgs channel closed (connection lost)'')), w)))"

declare drain_loop.simps [code] recv_loop.simps [code]

text \<open>The channel of the session is closed on every way out once it is open.\<close>

definition subscribe_channel ::
  "'w RabbitMQBus \<Rightarrow> string \<Rightarrow> 'w handler \<Rightarrow> nat \<Rightarrow> 'w \<Rightarrow> ((bool \<times> error) \<times> 'w) option" where
  "subscribe_channel b topic handler subCh w =
     (let am = rb_amqp b; q = queueName topic in
      case am_QueueDeclare am subCh q (Some rabbitMQDLXExchange) w of
        (Inl e, w) \<Rightarrow> Some ((True, Some (Wrap (''queue declare \"'' @ q @ ''\"'') e)), w)
      | (Inr _, w) \<Rightarrow>
          (case am_QueueBind am subCh q topic rabbitMQExchange w of
             (Some e, w) \<Rightarrow> Some ((True, Some (Wrap (''queue bind \"'' @ q @ ''\"'') e)), w)
           | (None, w) \<Rightarrow>
               (case am_Consume am subCh q w of
                  (Inl e, w) \<Rightarrow> Some ((True, Some (Wrap (''consume \"'' @ q @ ''\"'') e)), w)
                | (Inr msgs, w) \<Rightarrow> recv_loop b handler msgs w)))"

definition subscribeOnce ::
  "'w RabbitMQBus \<Rightarrow> string \<Rightarrow> 'w handler \<Rightarrow> 'w \<Rightarrow> ((bool \<times> error) \<times> 'w) option" where
  "subscribeOnce b topic handler w =
     (case am_Channel (rb_amqp b) (the (bf_conn (rb_get b w))) w of
        (Inl e, w) \<Rightarrow> Some ((True, Some (Wrap ''open sub channel'' e)), w)
      | (Inr subCh, w) \<Rightarrow>
          map_option (map_prod id (\<lambda>w. snd (am_CloseCh (rb_amqp b) subCh w))) (subscribe_channel b topic handler subCh w))"

text \<open>What an attempt after the first does before its session.\<close>

datatype redial = Stop | Again | Session

definition resubscribe :: "'w RabbitMQBus \<Rightarrow> int \<Rightarrow> 'w \<Rightarrow> redial \<times> 'w" where
  "resubscribe b attempt w =
     (if attempt > 0 then
        (case cx_After (rb_amqp b) (reconnectDelay (rb_cfg b) attempt) w of
           (True, w) \<Rightarrow> (Stop, w)
         | (False, w) \<Rightarrow>
             (case ensureConnLocked b w of
                (Some e, w) \<Rightarrow> (Again, w)
              | (None, w) \<Rightarrow> (Session, w)))
      else (Session, w))"

fun subscribe_from ::
  "'w RabbitMQBus \<Rightarrow> string \<Rightarrow> 'w handler \<Rightarrow> nat \<Rightarrow> int \<Rightarrow> 'w \<Rightarrow> (error \<times> 'w) option" where
  "subscribe_from b topic handler 0 attempt w = Some (Some (Plain (''rabbitmq subscribe: max retries exceeded for topic '' @ topic)), w)"
| "subscribe_from b topic handler (Suc n) attempt w =
     (case resubscribe b attempt w of
        (Stop, w) \<Rightarrow> Some (None, w)
      | (Again, w) \<Rightarrow> subscribe_from b topic handler n (attempt + 1) w
      | (Session, w) \<Rightarrow>
          (case subscribeOnce b topic handler w of
             None \<Rightarrow> None
           | Some ((lost, e), w) \<Rightarrow>
               (if \<not> lost \<or> cx_Err (rb_amqp b) w \<noteq> None then Some (None, w)
                else subscribe_from b topic handler n (attempt + 1) w)))"

definition RabbitMQBus_Subscribe ::
  "'w RabbitMQBus \<Rightarrow> string \<Rightarrow> 'w handler \<Rightarrow> 'w \<Rightarrow> (error \<times> 'w) option" where
  "RabbitMQBus_Subscribe b topic handler w =
     subscribe_from b topic handler (nat (mq_ReconnectMaxRetries (rb_cfg b) + 1)) 0 w"

definition RabbitMQBus_Close :: "'w RabbitMQBus \<Rightarrow> 'w \<Rightarrow> error \<times> 'w" where
  "RabbitMQBus_Close b w =
     (if bf_closed (rb_get b w) then (None, w)
      else (let w = rb_put b ((rb_get b w)\<lparr>bf_closed := True\<rparr>) w;
                w = snd (am_CloseCh (rb_amqp b) (bf_pubCh (rb_get b w)) w)
            in wrapped ''rabbitmq connection close'' (am_CloseConn (rb_amqp b) (the (bf_conn (rb_get b w))) w)))"

section \<open>What is sent and settled\<close>

text \<open>
  What the log of an execution keeps: the messages a publish took without an error, the
  deliveries received, and the answers to them (True is an acknowledgement).
\<close>

record amqp_log =
  lg_pubs :: "(string \<times> string \<times> json) list"
  lg_got :: "(nat \<times> json) list"
  lg_settled :: "(nat \<times> bool) list"

fun received :: "delivery \<Rightarrow> (nat \<times> json) list" where
  "received (Delivery tag body) = [(tag, body)]"
| "received _ = []"

text \<open>
  The client: the other calls, those of other goroutines included, are not in the log of this
  one, and a wait that ends because the context is done leaves an error in the context.
\<close>

locale amqp_client =
  fixes b :: "'w RabbitMQBus" and log :: "'w \<Rightarrow> amqp_log"
  assumes put_law: "log (rb_put b f w) = log w"
    and dial_law: "log (snd (am_Dial (rb_amqp b) u t w)) = log w"
    and channel_law: "log (snd (am_Channel (rb_amqp b) c w)) = log w"
    and close_conn_law: "log (snd (am_CloseConn (rb_amqp b) c w)) = log w"
    and close_ch_law: "log (snd (am_CloseCh (rb_amqp b) c w)) = log w"
    and exchange_law: "log (snd (am_ExchangeDeclare (rb_amqp b) c x k w)) = log w"
    and queue_law: "log (snd (am_QueueDeclare (rb_amqp b) c q dlx w)) = log w"
    and bind_law: "log (snd (am_QueueBind (rb_amqp b) c q k x w)) = log w"
    and consume_law: "log (snd (am_Consume (rb_amqp b) c q w)) = log w"
    and after_law: "log (snd (cx_After (rb_amqp b) ns w)) = log w"
    and publish_law: "am_Publish (rb_amqp b) c x k m w = (r, w') \<Longrightarrow>
       log w' = (log w)\<lparr>lg_pubs := lg_pubs (log w) @ (if r = None then [(x, k, m)] else [])\<rparr>"
    and recv_law: "am_Recv (rb_amqp b) c w = (d, w') \<Longrightarrow> log w' = (log w)\<lparr>lg_got := lg_got (log w) @ received d\<rparr>"
    and try_law: "am_TryRecv (rb_amqp b) c w = (d, w') \<Longrightarrow> log w' = (log w)\<lparr>lg_got := lg_got (log w) @ received d\<rparr>"
    and ack_law: "log (snd (am_Ack (rb_amqp b) tag w)) = (log w)\<lparr>lg_settled := lg_settled (log w) @ [(tag, True)]\<rparr>"
    and nack_law: "log (snd (am_Nack (rb_amqp b) tag w)) = (log w)\<lparr>lg_settled := lg_settled (log w) @ [(tag, False)]\<rparr>"
    and done_law: "cx_After (rb_amqp b) ns w = (True, w') \<Longrightarrow> cx_Err (rb_amqp b) w' \<noteq> None"

lemma snd_and_then: "snd (and_then r f) = (if fst r = None then snd (f (snd r)) else snd r)"
  by (auto simp: and_then_def split: prod.splits option.splits)

lemma snd_wrapped [simp]: "snd (wrapped msg r) = snd r" "fst (wrapped msg r) = None \<longleftrightarrow> fst r = None"
  by (auto simp: wrapped_def split: prod.splits option.splits)

lemma snd_drop_value [simp]: "snd (drop_value r) = snd r"
  by (auto simp: drop_value_def split: prod.splits sum.splits)

context amqp_client
begin

lemmas quiet = put_law dial_law channel_law close_conn_law close_ch_law exchange_law queue_law bind_law consume_law after_law

lemma quiet_topology: "log (snd (declareTopology (rb_amqp b) ch w)) = log w"
  by (simp add: declareTopology_def snd_and_then quiet)

lemma quiet_dial: "log (snd (dialAndDeclareLocked b w)) = log w"
proof -
  obtain r w1 where d: "am_Dial (rb_amqp b) (mq_URL (rb_cfg b)) (mq_Timeout (rb_cfg b)) w = (r, w1)" by fastforce
  have l1: "log w1 = log w" using dial_law d by (metis snd_conv)
  show ?thesis
  proof (cases r)
    case (Inl e)
    with d l1 show ?thesis by (simp add: dialAndDeclareLocked_def)
  next
    case (Inr conn)
    obtain rc w2 where c: "am_Channel (rb_amqp b) conn w1 = (rc, w2)" by fastforce
    have l2: "log w2 = log w" using channel_law c l1 by (metis snd_conv)
    show ?thesis
    proof (cases rc)
      case (Inl e)
      with Inr d c l2 show ?thesis by (simp add: dialAndDeclareLocked_def quiet)
    next
      case ch: (Inr ch)
      obtain e w3 where t: "declareTopology (rb_amqp b) ch w2 = (e, w3)" by fastforce
      have "log w3 = log w" using quiet_topology t l2 by (metis snd_conv)
      with Inr ch d c t show ?thesis
        by (cases e; cases "bf_conn (rb_get b w3)") (simp_all add: dialAndDeclareLocked_def quiet Let_def)
    qed
  qed
qed

lemma quiet_ensure: "log (snd (ensureConnLocked b w)) = log w"
  by (simp add: ensureConnLocked_def quiet_dial)

lemma quiet_reopen: "log (snd (reopenPubChLocked b w)) = log w"
proof -
  define v where "v = snd (am_CloseCh (rb_amqp b) (bf_pubCh (rb_get b w)) w)"
  obtain r u where c: "am_Channel (rb_amqp b) (the (bf_conn (rb_get b v))) v = (r, u)" by fastforce
  have "log v = log w" by (simp add: v_def quiet)
  moreover have "log u = log v" using channel_law c by (metis snd_conv)
  ultimately show ?thesis using c
    by (cases r) (simp_all add: reopenPubChLocked_def quiet_dial quiet flip: v_def)
qed

lemma publish_from_log:
  "publish_from b evt n attempt w = (r, w') \<Longrightarrow>
     log w' = (log w)\<lparr>lg_pubs := lg_pubs (log w)
       @ (if r = None then [(rabbitMQExchange, ev_Topic evt, json_of_Event evt)] else [])\<rparr>"
proof (induction n arbitrary: attempt w)
  case (Suc n)
  define send where "send = (\<lambda>w. case am_Publish (rb_amqp b) (bf_pubCh (rb_get b w)) rabbitMQExchange (ev_Topic evt) (json_of_Event evt) w of
                        (None, w) \<Rightarrow> (None, w)
                      | (Some e, w) \<Rightarrow>
                          (if cx_Err (rb_amqp b) w \<noteq> None \<or> bf_closed (rb_get b w) then (Some e, w)
                           else publish_from b evt n (attempt + 1) w))"
  let ?m = "(rabbitMQExchange, ev_Topic evt, json_of_Event evt)"
  have sent: "log w' = (log v)\<lparr>lg_pubs := lg_pubs (log v) @ (if r = None then [?m] else [])\<rparr>" if "send v = (r, w')" for v
  proof -
    obtain e u where p: "am_Publish (rb_amqp b) (bf_pubCh (rb_get b v)) rabbitMQExchange (ev_Topic evt) (json_of_Event evt) v = (e, u)"
      by fastforce
    note law = publish_law [OF p]
    show ?thesis
    proof (cases e)
      case None
      with that p law show ?thesis by (simp add: send_def)
    next
      case (Some x)
      with that p law Suc.IH show ?thesis by (auto simp: send_def split: if_splits)
    qed
  qed
  show ?case
  proof (cases "attempt > 0")
    case False
    then have "send w = (r, w')" using Suc.prems by (simp add: send_def Let_def)
    then show ?thesis by (rule sent)
  next
    case True
    obtain dn w1 where a: "cx_After (rb_amqp b) (reconnectDelay (rb_cfg b) attempt) w = (dn, w1)" by fastforce
    have l1: "log w1 = log w" using after_law a by (metis snd_conv)
    obtain e w2 where o: "reopenPubChLocked b w1 = (e, w2)" by fastforce
    have l2: "log w2 = log w" using quiet_reopen [of w1] o l1 by simp
    show ?thesis
    proof (cases "dn \<or> bf_closed (rb_get b w1)")
      case d: True
      show ?thesis
      proof (cases dn)
        case dn: True
        then have "r = cx_Err (rb_amqp b) w1 \<and> w' = w1" using Suc.prems True a dn by auto
        moreover have "cx_Err (rb_amqp b) w1 \<noteq> None" using done_law a dn by simp
        ultimately show ?thesis using l1 by simp
      next
        case False
        with d Suc.prems True a l1 show ?thesis by auto
      qed
    next
      case False
      then have "(case e of Some x \<Rightarrow> publish_from b evt n (attempt + 1) w2 | None \<Rightarrow> send w2) = (r, w')"
        using Suc.prems True a o by (cases e) (simp_all add: Let_def flip: send_def)
      with sent [of w2] Suc.IH [of "attempt + 1" w2] l2 show ?thesis by (cases e) auto
    qed
  qed
qed auto

text \<open>A publish that returns no error took the message once, any other not at all.\<close>

lemma publish_log:
  "RabbitMQBus_Publish b evt w = (r, w') \<Longrightarrow>
     log w' = (log w)\<lparr>lg_pubs := lg_pubs (log w)
       @ (if r = None then [(rabbitMQExchange, ev_Topic evt, json_of_Event evt)] else [])\<rparr>"
  by (auto simp: RabbitMQBus_Publish_def dest: publish_from_log split: if_splits)

end

text \<open>
  The answer a delivery deserves, given the payloads the handler takes without an error, and
  that every delivery has had its answer, in the order of receipt.
\<close>

definition verdict :: "(json \<Rightarrow> bool) \<Rightarrow> nat \<times> json \<Rightarrow> nat \<times> bool" where
  "verdict good d = (fst d, (case Event_of_json (snd d) of Inl _ \<Rightarrow> False | Inr e \<Rightarrow> good (ev_Payload e)))"

definition all_settled :: "(json \<Rightarrow> bool) \<Rightarrow> amqp_log \<Rightarrow> bool" where
  "all_settled good l \<longleftrightarrow> lg_settled l = map (verdict good) (lg_got l)"

text \<open>A handler whose answer depends on the payload and which settles nothing itself.\<close>

definition proper_handler :: "('w \<Rightarrow> amqp_log) \<Rightarrow> 'w handler \<Rightarrow> (json \<Rightarrow> bool) \<Rightarrow> bool" where
  "proper_handler log h good \<longleftrightarrow> (\<forall>p w. (fst (h p w) = None) = good p
     \<and> lg_got (log (snd (h p w))) = lg_got (log w) \<and> lg_settled (log (snd (h p w))) = lg_settled (log w))"

context amqp_client
begin

lemma handle_settles:
  assumes "proper_handler log h good"
  shows "lg_got (log (handleDelivery b h tag body w)) = lg_got (log w)"
    "lg_settled (log (handleDelivery b h tag body w)) = lg_settled (log w) @ [verdict good (tag, body)]"
proof -
  define e v where "e evt = fst (h (ev_Payload evt) w)" and "v evt = snd (h (ev_Payload evt) w)" for evt :: Event
  then have h: "h (ev_Payload evt) w = (e evt, v evt)" for evt by simp
  have "good (ev_Payload evt) = (e evt = None) \<and> lg_got (log (v evt)) = lg_got (log w) \<and> lg_settled (log (v evt)) = lg_settled (log w)" for evt
    using assms h [of evt] unfolding proper_handler_def by (metis fst_conv snd_conv)
  then show "lg_got (log (handleDelivery b h tag body w)) = lg_got (log w)"
    "lg_settled (log (handleDelivery b h tag body w)) = lg_settled (log w) @ [verdict good (tag, body)]"
    by (auto simp: handleDelivery_def h verdict_def ack_law nack_law split: sum.splits option.splits)
qed

lemma settled_step:
  assumes "proper_handler log h good" "all_settled good (log w)"
    and "log v = (log w)\<lparr>lg_got := lg_got (log w) @ [(tag, body)]\<rparr>"
  shows "all_settled good (log (handleDelivery b h tag body v))"
  using assms handle_settles [OF assms(1)] by (simp add: all_settled_def)

lemma drain_settles:
  assumes "proper_handler log h good"
  shows "drain_loop b h msgs w = Some r \<Longrightarrow> all_settled good (log w) \<Longrightarrow> all_settled good (log (snd r))"
proof -
  have "c = b \<Longrightarrow> g = h \<Longrightarrow> all_settled good (log w) \<Longrightarrow> all_settled good (log (snd r))"
    if "drain_loop c g msgs w = Some r" for c g
    using that
  proof (induction c g msgs w r rule: drain_loop.raw_induct [rotated, consumes 1, case_names step])
    case (step rec c g msgs w r)
    obtain d v where d: "am_TryRecv (rb_amqp b) msgs w = (d, v)" by fastforce
    note law = try_law [OF d]
    show ?case
    proof (cases d)
      case (Delivery tag body)
      with step d have "rec b h msgs (handleDelivery b h tag body v) = Some r" by simp
      from step.IH [OF this refl refl] settled_step [OF assms step.prems(3)] law Delivery show ?thesis by simp
    qed (use step d law in \<open>auto simp: all_settled_def\<close>)
  qed
  then show "drain_loop b h msgs w = Some r \<Longrightarrow> all_settled good (log w) \<Longrightarrow> all_settled good (log (snd r))" by blast
qed

lemma recv_settles:
  assumes "proper_handler log h good"
  shows "recv_loop b h msgs w = Some r \<Longrightarrow> all_settled good (log w) \<Longrightarrow> all_settled good (log (snd r))"
proof -
  have "c = b \<Longrightarrow> g = h \<Longrightarrow> all_settled good (log w) \<Longrightarrow> all_settled good (log (snd r))"
    if "recv_loop c g msgs w = Some r" for c g
    using that
  proof (induction c g msgs w r rule: recv_loop.raw_induct [rotated, consumes 1, case_names step])
    case (step rec c g msgs w r)
    obtain d v where d: "am_Recv (rb_amqp b) msgs w = (d, v)" by fastforce
    note law = recv_law [OF d]
    show ?case
    proof (cases d)
      case (Delivery tag body)
      with step d have "rec b h msgs (handleDelivery b h tag body v) = Some r" by simp
      from step.IH [OF this refl refl] settled_step [OF assms step.prems(3)] law Delivery show ?thesis by simp
    next
      case CtxDone
      with step d have "drain_loop b h msgs v = Some r" by simp
      from drain_settles [OF assms this] step.prems(3) law CtxDone show ?thesis by (simp add: all_settled_def)
    qed (use step d law in \<open>auto simp: all_settled_def\<close>)
  qed
  then show "recv_loop b h msgs w = Some r \<Longrightarrow> all_settled good (log w) \<Longrightarrow> all_settled good (log (snd r))" by blast
qed

lemma quietly: "x = (r, v) \<Longrightarrow> log (snd x) = log w \<Longrightarrow> log v = log w"
  by simp

lemma channel_settles:
  assumes "proper_handler log h good" "subscribe_channel b topic h ch w = Some r" "all_settled good (log w)"
  shows "all_settled good (log (snd r))"
proof -
  obtain x w1 where q: "am_QueueDeclare (rb_amqp b) ch (queueName topic) (Some rabbitMQDLXExchange) w = (x, w1)" by fastforce
  obtain e w2 where n: "am_QueueBind (rb_amqp b) ch (queueName topic) topic rabbitMQExchange w1 = (e, w2)" by fastforce
  obtain y w3 where c: "am_Consume (rb_amqp b) ch (queueName topic) w2 = (y, w3)" by fastforce
  have l: "log w1 = log w" "log w2 = log w" "log w3 = log w"
    using quietly [OF q queue_law] quietly [OF n bind_law] quietly [OF c consume_law] by simp_all
  show ?thesis
  proof (cases "\<exists>i m. x = Inr i \<and> e = None \<and> y = Inr m")
    case True
    then obtain m where "recv_loop b h m w3 = Some r" using assms(2) q n c by (auto simp: subscribe_channel_def Let_def)
    from recv_settles [OF assms(1) this] assms(3) l show ?thesis by simp
  next
    case False
    then have "log (snd r) = log w"
      using assms(2) q n c l by (cases x; cases e; cases y) (auto simp: subscribe_channel_def Let_def)
    with assms(3) show ?thesis by simp
  qed
qed

lemma once_settles:
  assumes "proper_handler log h good" "subscribeOnce b topic h w = Some r" "all_settled good (log w)"
  shows "all_settled good (log (snd r))"
proof -
  obtain x w1 where c: "am_Channel (rb_amqp b) (the (bf_conn (rb_get b w))) w = (x, w1)" by fastforce
  have l: "log w1 = log w" by (rule quietly [OF c channel_law])
  show ?thesis
  proof (cases x)
    case (Inl e)
    with assms c l show ?thesis by (auto simp: subscribeOnce_def)
  next
    case (Inr ch)
    with assms(2) c obtain s where s: "subscribe_channel b topic h ch w1 = Some s"
        "r = map_prod id (\<lambda>w. snd (am_CloseCh (rb_amqp b) ch w)) s"
      by (auto simp: subscribeOnce_def)
    have "all_settled good (log (snd s))" by (rule channel_settles [OF assms(1) s(1)]) (simp add: l assms(3))
    then show ?thesis using s(2) by (cases s) (simp add: close_ch_law)
  qed
qed

lemma resubscribe_quiet: "log (snd (resubscribe b attempt w)) = log w"
proof -
  obtain dn w1 where a: "cx_After (rb_amqp b) (reconnectDelay (rb_cfg b) attempt) w = (dn, w1)" by fastforce
  have l: "log w1 = log w" by (rule quietly [OF a after_law])
  obtain e w2 where e: "ensureConnLocked b w1 = (e, w2)" by fastforce
  have "log w2 = log w" by (rule trans [OF quietly [OF e quiet_ensure] l])
  with a e l show ?thesis by (cases dn; cases e) (simp_all add: resubscribe_def)
qed

lemma subscribe_settles:
  assumes "proper_handler log h good"
  shows "subscribe_from b topic h n attempt w = Some (r, w') \<Longrightarrow> all_settled good (log w) \<Longrightarrow> all_settled good (log w')"
proof (induction n arbitrary: attempt w)
  case (Suc n)
  obtain d w1 where d: "resubscribe b attempt w = (d, w1)" by fastforce
  have s1: "all_settled good (log w1)" using quietly [OF d resubscribe_quiet] Suc.prems(2) by simp
  show ?case
  proof (cases d)
    case Stop
    with Suc.prems d s1 show ?thesis by simp
  next
    case Again
    with Suc.prems d have "subscribe_from b topic h n (attempt + 1) w1 = Some (r, w')" by simp
    from Suc.IH [OF this s1] show ?thesis .
  next
    case Session
    with Suc.prems d obtain lost e w2 where o: "subscribeOnce b topic h w1 = Some ((lost, e), w2)"
      by (auto split: option.splits)
    have s2: "all_settled good (log w2)" using once_settles [OF assms o s1] by simp
    show ?thesis
    proof (cases "\<not> lost \<or> cx_Err (rb_amqp b) w2 \<noteq> None")
      case True
      with Suc.prems d Session o s2 show ?thesis by auto
    next
      case False
      with Suc.prems d Session o have "subscribe_from b topic h n (attempt + 1) w2 = Some (r, w')" by simp
      from Suc.IH [OF this s2] show ?thesis .
    qed
  qed
qed simp

end

section \<open>A broker\<close>

text \<open>
  A broker that behaves as documented: it hands out fresh handles, fails where a list of faults
  says so, delivers a script of deliveries and losses of the connection, and keeps the log.
\<close>

record broker =
  bk_fields :: bus_fields
  bk_next :: nat
  bk_alive :: "nat list"
  bk_script :: "delivery list"
  bk_faults :: "bool list"
  bk_done :: bool
  bk_log :: amqp_log

definition flaky :: "broker \<Rightarrow> error \<times> broker" where
  "flaky w = (case bk_faults w of
     [] \<Rightarrow> (None, w)
   | f # fs \<Rightarrow> (if f then Some (Plain ''amqp'') else None, w\<lparr>bk_faults := fs\<rparr>))"

definition fresh_handle :: "broker \<Rightarrow> nat result \<times> broker" where
  "fresh_handle w = (case flaky w of
     (Some e, w) \<Rightarrow> (err e, w)
   | (None, w) \<Rightarrow> (ok (bk_next w), w\<lparr>bk_next := bk_next w + 1\<rparr>))"

definition doc_Dial :: "string \<Rightarrow> int \<Rightarrow> broker \<Rightarrow> nat result \<times> broker" where
  "doc_Dial u t w = (case fresh_handle w of
     (Inl e, w) \<Rightarrow> (err e, w)
   | (Inr c, w) \<Rightarrow> (ok c, w\<lparr>bk_alive := c # bk_alive w\<rparr>))"

definition doc_Publish :: "nat \<Rightarrow> string \<Rightarrow> string \<Rightarrow> json \<Rightarrow> broker \<Rightarrow> error \<times> broker" where
  "doc_Publish ch x k m w = (case flaky w of
     (Some e, w) \<Rightarrow> (Some e, w)
   | (None, w) \<Rightarrow> (None, w\<lparr>bk_log := (bk_log w)\<lparr>lg_pubs := lg_pubs (bk_log w) @ [(x, k, m)]\<rparr>\<rparr>))"

definition doc_Recv :: "broker \<Rightarrow> delivery \<times> broker" where
  "doc_Recv w = (case bk_script w of
     [] \<Rightarrow> (CtxDone, w\<lparr>bk_done := True\<rparr>)
   | Delivery tag body # ds \<Rightarrow> (Delivery tag body, w\<lparr>bk_script := ds, bk_log := (bk_log w)\<lparr>lg_got := lg_got (bk_log w) @ [(tag, body)]\<rparr>\<rparr>)
   | d # ds \<Rightarrow> (MsgsClosed, w\<lparr>bk_script := ds, bk_alive := []\<rparr>))"

definition doc_TryRecv :: "broker \<Rightarrow> delivery \<times> broker" where
  "doc_TryRecv w = (case bk_script w of Delivery tag body # ds \<Rightarrow> doc_Recv w | _ \<Rightarrow> (Nothing, w))"

definition doc_settle :: "bool \<Rightarrow> nat \<Rightarrow> broker \<Rightarrow> error \<times> broker" where
  "doc_settle a tag w = (None, w\<lparr>bk_log := (bk_log w)\<lparr>lg_settled := lg_settled (bk_log w) @ [(tag, a)]\<rparr>\<rparr>)"

definition doc_amqp :: "broker amqp" where
  "doc_amqp =
     \<lparr>am_Dial = doc_Dial, am_Channel = (\<lambda>c. fresh_handle), am_IsClosed = (\<lambda>c w. c \<notin> set (bk_alive w)),
      am_CloseConn = (\<lambda>c w. (None, w\<lparr>bk_alive := removeAll c (bk_alive w)\<rparr>)), am_CloseCh = (\<lambda>c w. (None, w)),
      am_ExchangeDeclare = (\<lambda>c x k w. flaky w), am_QueueDeclare = (\<lambda>c q dlx w. case flaky w of (None, w) \<Rightarrow> (ok 0, w) | (Some e, w) \<Rightarrow> (err e, w)),
      am_QueueBind = (\<lambda>c q k x w. flaky w), am_Publish = doc_Publish, am_Consume = (\<lambda>c q. fresh_handle),
      am_Recv = (\<lambda>c. doc_Recv), am_TryRecv = (\<lambda>c. doc_TryRecv), am_Ack = doc_settle True, am_Nack = doc_settle False,
      cx_After = (\<lambda>ns w. (bk_done w, w)),
      cx_Err = (\<lambda>w. if bk_done w then Some (Sentinel ''context canceled'') else None)\<rparr>"

definition doc_rabbit :: "int \<Rightarrow> broker RabbitMQBus" where
  "doc_rabbit retries =
     \<lparr>rb_cfg = \<lparr>mq_Provider = ''rabbitmq'', mq_URL = ''amqp://mq'', mq_Timeout = 5000, mq_ReconnectMaxRetries = retries,
                mq_ReconnectInitialDelay = 1000\<rparr>,
      rb_amqp = doc_amqp, rb_get = bk_fields, rb_put = (\<lambda>f w. w\<lparr>bk_fields := f\<rparr>)\<rparr>"

lemma flaky_log: "flaky w = (r, w') \<Longrightarrow> bk_log w' = bk_log w"
  by (auto simp: flaky_def split: list.splits)

lemma fresh_handle_log: "fresh_handle w = (r, w') \<Longrightarrow> bk_log w' = bk_log w"
  by (auto simp: fresh_handle_def dest: flaky_log split: prod.splits option.splits)

lemma doc_Recv_log: "doc_Recv w = (d, w') \<Longrightarrow> bk_log w' = (bk_log w)\<lparr>lg_got := lg_got (bk_log w) @ received d\<rparr>"
  by (auto simp: doc_Recv_def split: list.splits delivery.splits)

interpretation broker: amqp_client "doc_rabbit n" bk_log
proof
  fix c :: nat and x k q u :: string and m w r w' and dlx :: "string option" and t ns :: int and dv and tag :: nat
  show "bk_log (rb_put (doc_rabbit n) f w) = bk_log w" for f by (simp add: doc_rabbit_def)
  show "bk_log (snd (am_Dial (rb_amqp (doc_rabbit n)) u t w)) = bk_log w"
    by (auto simp: doc_rabbit_def doc_amqp_def doc_Dial_def dest: fresh_handle_log split: prod.split sum.split)
  show "bk_log (snd (am_QueueDeclare (rb_amqp (doc_rabbit n)) c q dlx w)) = bk_log w"
    by (auto simp: doc_rabbit_def doc_amqp_def dest: flaky_log split: prod.split option.split)
  show "bk_log w' = (bk_log w)\<lparr>lg_pubs := lg_pubs (bk_log w) @ (if r = None then [(x, k, m)] else [])\<rparr>"
    if "am_Publish (rb_amqp (doc_rabbit n)) c x k m w = (r, w')"
    using that by (auto simp: doc_rabbit_def doc_amqp_def doc_Publish_def dest: flaky_log split: prod.splits option.splits)
  show "bk_log w' = (bk_log w)\<lparr>lg_got := lg_got (bk_log w) @ received dv\<rparr>"
    if "am_Recv (rb_amqp (doc_rabbit n)) c w = (dv, w')"
    using that doc_Recv_log by (simp add: doc_rabbit_def doc_amqp_def)
  show "bk_log w' = (bk_log w)\<lparr>lg_got := lg_got (bk_log w) @ received dv\<rparr>"
    if "am_TryRecv (rb_amqp (doc_rabbit n)) c w = (dv, w')"
    using that doc_Recv_log by (auto simp: doc_rabbit_def doc_amqp_def doc_TryRecv_def split: list.splits delivery.splits)
  show "cx_Err (rb_amqp (doc_rabbit n)) w' \<noteq> None" if "cx_After (rb_amqp (doc_rabbit n)) ns w = (True, w')"
    using that by (auto simp: doc_rabbit_def doc_amqp_def)
  show "bk_log (snd (am_Channel (rb_amqp (doc_rabbit n)) c w)) = bk_log w"
    "bk_log (snd (am_Consume (rb_amqp (doc_rabbit n)) c q w)) = bk_log w"
    by (cases "fresh_handle w"; simp add: doc_rabbit_def doc_amqp_def fresh_handle_log)+
  show "bk_log (snd (am_ExchangeDeclare (rb_amqp (doc_rabbit n)) c x k w)) = bk_log w"
    "bk_log (snd (am_QueueBind (rb_amqp (doc_rabbit n)) c q k x w)) = bk_log w"
    by (cases "flaky w"; simp add: doc_rabbit_def doc_amqp_def flaky_log)+
qed (simp_all add: doc_rabbit_def doc_amqp_def doc_settle_def)

section \<open>Properties\<close>

text \<open>
  Publish returns no error exactly when one of its attempts handed the message to the
  exchange, under the topic as the routing key; then no other attempt did.  It neither takes nor
  answers a delivery.
\<close>
theorem publish_once:
  assumes "amqp_client b log" "RabbitMQBus_Publish b evt w = (r, w')"
  shows "log w' = (log w)\<lparr>lg_pubs := lg_pubs (log w)
     @ (if r = None then [(rabbitMQExchange, ev_Topic evt, json_of_Event evt)] else [])\<rparr>"
  using amqp_client.publish_log [OF assms] .

definition up_broker :: "delivery list \<Rightarrow> bool list \<Rightarrow> broker" where
  "up_broker ds fs =
     \<lparr>bk_fields = \<lparr>bf_conn = Some 1, bf_pubCh = 2, bf_closed = False\<rparr>, bk_next = 3, bk_alive = [1], bk_script = ds,
      bk_faults = fs, bk_done = False, bk_log = \<lparr>lg_pubs = [], lg_got = [], lg_settled = []\<rparr>\<rparr>"

definition demo_envelope :: Event where
  "demo_envelope = \<lparr>ev_ID = ''e1'', ev_Topic = ''event.like'', ev_Timestamp = 5, ev_Payload = JNum 7\<rparr>"

text \<open>The first attempt fails, the second succeeds.\<close>

theorem publish_once_witness:
  "\<exists>w'. RabbitMQBus_Publish (doc_rabbit 1) demo_envelope (up_broker [] [True]) = (None, w')
     \<and> lg_pubs (bk_log w') = [(''cooking.events'', ''event.like'', json_of_Event demo_envelope)]"
proof -
  have "fst (RabbitMQBus_Publish (doc_rabbit 1) demo_envelope (up_broker [] [True])) = None" by code_simp
  then obtain w' where p: "RabbitMQBus_Publish (doc_rabbit 1) demo_envelope (up_broker [] [True]) = (None, w')"
    by (metis prod.collapse)
  from publish_once [OF broker.amqp_client_axioms p] p show ?thesis
    by (simp add: up_broker_def rabbitMQExchange_def demo_envelope_def)
qed

text \<open>
  C20: When Subscribe returns, every delivery it took from the queue has had exactly one
  answer, in the order of receipt: an acknowledgement if its body is an envelope whose payload the
  handler takes without an error, a rejection (to the dead-letter exchange) otherwise.
\<close>
theorem subscribe_answers:
  assumes "amqp_client b log" "proper_handler log h good" "all_settled good (log w)"
    and "RabbitMQBus_Subscribe b topic h w = Some (r, w')"
  shows "all_settled good (log w')"
  using amqp_client.subscribe_settles [OF assms(1,2) _ assms(3)] assms(4) by (simp add: RabbitMQBus_Subscribe_def)

definition demo_handler :: "broker handler" where
  "demo_handler p w = (if p = JNum 7 then None else Some (Plain ''refused''), w)"

lemma demo_handler_proper: "proper_handler bk_log demo_handler (\<lambda>p. p = JNum 7)"
  by (simp add: proper_handler_def demo_handler_def)

text \<open>A good message, one that is refused, and the connection lost after each.\<close>

definition demo_script :: "delivery list" where
  "demo_script = [Delivery 1 (json_of_Event demo_envelope), MsgsClosed,
     Delivery 2 (json_of_Event (demo_envelope\<lparr>ev_Payload := JNull\<rparr>)), MsgsClosed]"

lemma demo_envelopes:
  "Event_of_json (json_of_Event demo_envelope) = Inr demo_envelope"
  "Event_of_json (json_of_Event (demo_envelope\<lparr>ev_Payload := JNull\<rparr>)) = Inr (demo_envelope\<lparr>ev_Payload := JNull\<rparr>)"
  by (simp_all add: Event_of_json_def json_of_Event_def demo_envelope_def in_int64_def int64_min_def int64_max_def)

text \<open>Sessions in a row that end with the connection lost, each but the first after a good reconnect.\<close>

inductive lost_sessions ::
  "'w RabbitMQBus \<Rightarrow> string \<Rightarrow> 'w handler \<Rightarrow> nat \<Rightarrow> int \<Rightarrow> 'w \<Rightarrow> 'w \<Rightarrow> bool" for b topic h where
  none: "lost_sessions b topic h 0 a w w"
| lost: "\<lbrakk>resubscribe b a w = (Session, w1); subscribeOnce b topic h w1 = Some ((True, e), w2);
         cx_Err (rb_amqp b) w2 = None; lost_sessions b topic h n (a + 1) w2 w'\<rbrakk>
       \<Longrightarrow> lost_sessions b topic h (Suc n) a w w'"

lemma lost_sessions_from:
  "lost_sessions b topic h n a w w' \<Longrightarrow>
     subscribe_from b topic h n a w = Some (Some (Plain (''rabbitmq subscribe: max retries exceeded for topic '' @ topic)), w')"
  by (induction rule: lost_sessions.induct) simp_all

text \<open>
  C40: The attempts of a subscription are counted over its whole life.  Whatever each session
  delivered and although every reconnect succeeded, the loss of session number
  ReconnectMaxRetries + 1 ends the subscription with an error.
\<close>
theorem subscribe_gives_up:
  assumes "lost_sessions b topic h (nat (mq_ReconnectMaxRetries (rb_cfg b) + 1)) 0 w w'"
  shows "RabbitMQBus_Subscribe b topic h w = Some (Some (Plain (''rabbitmq subscribe: max retries exceeded for topic '' @ topic)), w')"
  using lost_sessions_from [OF assms] by (simp add: RabbitMQBus_Subscribe_def)

definition demo_run :: "(broker \<Rightarrow> broker \<Rightarrow> bool) \<Rightarrow> bool" where
  "demo_run P =
     (case subscribeOnce (doc_rabbit 1) TopicLike demo_handler (up_broker demo_script []) of
        None \<Rightarrow> False
      | Some ((l1, e1), w2) \<Rightarrow>
          l1 \<and> \<not> bk_done w2 \<and>
          (case resubscribe (doc_rabbit 1) 1 w2 of (d, w3) \<Rightarrow>
             (case d of
                Session \<Rightarrow>
                  (case subscribeOnce (doc_rabbit 1) TopicLike demo_handler w3 of
                     None \<Rightarrow> False
                   | Some ((l2, e2), w4) \<Rightarrow> l2 \<and> \<not> bk_done w4 \<and> P w2 w4)
              | _ \<Rightarrow> False)))"

lemma demo_sessions:
  obtains w' where "lost_sessions (doc_rabbit 1) TopicLike demo_handler 2 0 (up_broker demo_script []) w'"
    "map fst (lg_got (bk_log w')) = [1, 2]"
proof -
  have "demo_run (\<lambda>w2 w4. map fst (lg_got (bk_log w4)) = [1, 2])" by code_simp
  then obtain e1 w2 w3 e2 w4 where s:
      "subscribeOnce (doc_rabbit 1) TopicLike demo_handler (up_broker demo_script []) = Some ((True, e1), w2)" "\<not> bk_done w2"
      "resubscribe (doc_rabbit 1) 1 w2 = (Session, w3)"
      "subscribeOnce (doc_rabbit 1) TopicLike demo_handler w3 = Some ((True, e2), w4)" "\<not> bk_done w4"
      "map fst (lg_got (bk_log w4)) = [1, 2]"
    by (auto simp: demo_run_def split: option.splits prod.splits redial.splits)
  have c: "cx_Err (rb_amqp (doc_rabbit 1)) w = None" if "\<not> bk_done w" for w
    using that by (simp add: doc_rabbit_def doc_amqp_def)
  have r0: "resubscribe (doc_rabbit 1) 0 w = (Session, w)" for w by (simp add: resubscribe_def)
  have "lost_sessions (doc_rabbit 1) TopicLike demo_handler (Suc 0) (0 + 1) w2 w4"
    by (rule lost_sessions.lost [OF _ s(4) c [OF s(5)] lost_sessions.none]) (simp add: s(3))
  from lost_sessions.lost [OF r0 s(1) c [OF s(2)] this] s(6) show thesis
    by (intro that [of w4]) (simp_all add: numeral_2_eq_2)
qed

theorem subscribe_gives_up_witness:
  "\<exists>w'. RabbitMQBus_Subscribe (doc_rabbit 1) TopicLike demo_handler (up_broker demo_script [])
        = Some (Some (Plain (''rabbitmq subscribe: max retries exceeded for topic '' @ TopicLike)), w')
     \<and> map fst (lg_got (bk_log w')) = [1, 2]"
proof -
  obtain w' where w: "lost_sessions (doc_rabbit 1) TopicLike demo_handler 2 0 (up_broker demo_script []) w'"
      "map fst (lg_got (bk_log w')) = [1, 2]" by (rule demo_sessions)
  have "nat (mq_ReconnectMaxRetries (rb_cfg (doc_rabbit 1)) + 1) = 2" by (simp add: doc_rabbit_def)
  with subscribe_gives_up [of "doc_rabbit 1" TopicLike demo_handler] w show ?thesis by auto
qed

theorem subscribe_answers_witness:
  "\<exists>r w'. RabbitMQBus_Subscribe (doc_rabbit 1) TopicLike demo_handler (up_broker demo_script []) = Some (r, w')
     \<and> lg_settled (bk_log w') = map (verdict (\<lambda>p. p = JNum 7)) (lg_got (bk_log w')) \<and> length (lg_got (bk_log w')) = 2"
proof -
  obtain w' where w: "lost_sessions (doc_rabbit 1) TopicLike demo_handler 2 0 (up_broker demo_script []) w'"
      "map fst (lg_got (bk_log w')) = [1, 2]" by (rule demo_sessions)
  have n: "nat (mq_ReconnectMaxRetries (rb_cfg (doc_rabbit 1)) + 1) = 2" by (simp add: doc_rabbit_def)
  have r: "RabbitMQBus_Subscribe (doc_rabbit 1) TopicLike demo_handler (up_broker demo_script [])
      = Some (Some (Plain (''rabbitmq subscribe: max retries exceeded for topic '' @ TopicLike)), w')"
    using lost_sessions_from [OF w(1)] unfolding RabbitMQBus_Subscribe_def n .
  have "all_settled (\<lambda>p. p = JNum 7) (bk_log (up_broker demo_script []))" by (simp add: all_settled_def up_broker_def)
  from subscribe_answers [OF broker.amqp_client_axioms demo_handler_proper this r] r arg_cong [OF w(2), of length]
  show ?thesis by (simp add: all_settled_def)
qed

end
