(* ===== verification/Config.thy ===== *)
theory Config
  imports Binding RabbitMQ Moderation Middleware
begin

text \<open>
  pkg/config/config.go: the configuration, its defaults, and the checks that Load makes before any
  component sees it.  Durations are in milliseconds.  The viper library is a parameter.
\<close>

section \<open>The configuration\<close>

record ServerConfig =
  svc_Port :: int
  svc_Mode :: string
  svc_ReadTimeout :: int
  svc_WriteTimeout :: int
  svc_IdleTimeout :: int
  svc_ShutdownTimeout :: int

record DatabaseConfig =
  dbc_DSN :: string
  dbc_SlavesDSN :: "string list"
  dbc_MaxOpenConns :: int
  dbc_MaxIdleConns :: int
  dbc_MaxLifetime :: int
  dbc_MaxIdleTime :: int
  dbc_LogLevel :: string

record RedisConfig =
  rdc_Mode :: string
  rdc_Addr :: string
  rdc_MasterName :: string
  rdc_SentinelAddrs :: "string list"
  rdc_Password :: string
  rdc_DB :: int
  rdc_PoolSize :: int
  rdc_DialTimeout :: int
  rdc_ReadTimeout :: int
  rdc_WriteTimeout :: int

record LogConfig =
  lgc_Level :: string
  lgc_Console :: bool
  lgc_Filename :: string
  lgc_MaxSize :: int
  lgc_MaxBackups :: int
  lgc_MaxAge :: int
  lgc_Compress :: bool

record LikeConsumerConfig =
  lcc_BatchSize :: int
  lcc_FlushInterval :: int

record PVConsumerConfig =
  pvc_BatchSize :: int
  pvc_FlushInterval :: int

record CountConsumerConfig =
  ccc_BatchSize :: int
  ccc_FlushInterval :: int

record ConsumerConfig =
  cnc_Like :: LikeConsumerConfig
  cnc_PV :: PVConsumerConfig
  cnc_Count :: CountConsumerConfig

record CacheConfig =
  cac_LikeStateTTL :: int
  cac_FeedCacheTTL :: int
  cac_PVDedupTTL :: int
  cac_DedupTTL :: int
  cac_UserSMSDailyTTL :: int

record MetricsConfig =
  mtc_Enabled :: bool
  mtc_Namespace :: string

text \<open>AuditConfig with the two fields of Step 18, which no code reads yet.\<close>

record AuditLimits = AuditConfig +
  adc_Timeout :: int
  adc_MaxRetries :: int

record Config =
  cfg_Server :: ServerConfig
  cfg_Database :: DatabaseConfig
  cfg_Redis :: RedisConfig
  cfg_Log :: LogConfig
  cfg_JWT :: JWTConfig
  cfg_MQ :: MQConfig
  cfg_SMS :: SMSConfig
  cfg_OSS :: OSSConfig
  cfg_Audit :: AuditLimits
  cfg_Encryption :: EncryptionConfig
  cfg_Ratelimit :: RatelimitConfig
  cfg_Consumer :: ConsumerConfig
  cfg_Cache :: CacheConfig
  cfg_Metrics :: MetricsConfig
  cfg_Search :: SearchConfig
  cfg_Follow :: FollowConfig
  cfg_CORS :: CORSConfig

section \<open>Validation\<close>

text \<open>
  The first check that fails gives the error.  The message about a digit of the key leaves out the digit
  and its position; a quoted value is not escaped.
\<close>

fun first_failed :: "(bool \<times> string) list \<Rightarrow> error" where
  "first_failed [] = None"
| "first_failed ((bad, msg) # cs) = (if bad then Some (Plain msg) else first_failed cs)"

text \<open>A rune outside ASCII is not a hexadecimal digit, nor is a byte of its encoding.\<close>

definition is_hex :: "char \<Rightarrow> bool" where
  "is_hex c \<longleftrightarrow> (let n = byte_of c in 48 \<le> n \<and> n \<le> 57 \<or> 97 \<le> n \<and> n \<le> 102 \<or> 65 \<le> n \<and> n \<le> 70)"

definition base_checks :: "Config \<Rightarrow> (bool \<times> string) list" where
  "base_checks cfg =
     [(svc_Port (cfg_Server cfg) \<le> 0 \<or> svc_Port (cfg_Server cfg) > 65535, ''server.port out of range: '' @ FormatInt (svc_Port (cfg_Server cfg))),
      (svc_ShutdownTimeout (cfg_Server cfg) \<le> 0, ''server.shutdown_timeout must be positive''),
      (dbc_DSN (cfg_Database cfg) = [], ''database.dsn is required'')]"

definition store_checks :: "Config \<Rightarrow> (bool \<times> string) list" where
  "store_checks cfg =
     [(rdc_Mode (cfg_Redis cfg) \<in> {[], ''plain''} \<and> rdc_Addr (cfg_Redis cfg) = [], ''redis.addr is required when redis.mode=plain''),
      (rdc_Mode (cfg_Redis cfg) = ''sentinel'' \<and> rdc_MasterName (cfg_Redis cfg) = [], ''redis.master_name is required when redis.mode=sentinel''),
      (rdc_Mode (cfg_Redis cfg) = ''sentinel'' \<and> rdc_SentinelAddrs (cfg_Redis cfg) = [], ''redis.sentinel_addrs is required when redis.mode=sentinel''),
      (rdc_Mode (cfg_Redis cfg) \<notin> {[], ''plain'', ''sentinel''}, ''redis.mode must be 'plain' or 'sentinel', got '' @ quoted (rdc_Mode (cfg_Redis cfg))),
      (length (jcfg_Secret (cfg_JWT cfg)) < 32, ''jwt.secret must be at least 32 characters''),
      (jcfg_AccessTokenTTL (cfg_JWT cfg) \<le> 0, ''jwt.access_token_ttl must be positive''),
      (jcfg_RefreshTokenTTL (cfg_JWT cfg) \<le> jcfg_AccessTokenTTL (cfg_JWT cfg), ''jwt.refresh_token_ttl must be greater than access_token_ttl'')]"

definition provider_checks :: "Config \<Rightarrow> (bool \<times> string) list" where
  "provider_checks cfg =
     [(mq_Provider (cfg_MQ cfg) \<notin> {''channel'', ''rabbitmq'', []}, ''mq.provider must be 'channel' or 'rabbitmq', got '' @ quoted (mq_Provider (cfg_MQ cfg))),
      (mq_ReconnectMaxRetries (cfg_MQ cfg) < 0, ''mq.reconnect_max_retries must be >= 0, got '' @ FormatInt (mq_ReconnectMaxRetries (cfg_MQ cfg))),
      (mq_ReconnectInitialDelay (cfg_MQ cfg) \<le> 0, ''mq.reconnect_initial_delay must be positive''),
      (sms_Provider (cfg_SMS cfg) \<notin> {''mock'', ''aliyun'', []}, ''sms.provider must be 'mock' or 'aliyun', got '' @ quoted (sms_Provider (cfg_SMS cfg))),
      (sms_CodeLength (cfg_SMS cfg) < 4 \<or> sms_CodeLength (cfg_SMS cfg) > 8, ''sms.code_length must be between 4 and 8, got '' @ FormatInt (sms_CodeLength (cfg_SMS cfg))),
      (sms_CodeTTL (cfg_SMS cfg) \<le> 0, ''sms.code_ttl must be positive''),
      (sms_Provider (cfg_SMS cfg) = ''aliyun'' \<and> (sms_AccessKeyID (cfg_SMS cfg) = [] \<or> sms_AccessKeySecret (cfg_SMS cfg) = []), ''sms.access_key_id and sms.access_key_secret are required when provider=aliyun''),
      (sms_Provider (cfg_SMS cfg) = ''aliyun'' \<and> (sms_SignName (cfg_SMS cfg) = [] \<or> sms_TemplateCode (cfg_SMS cfg) = []), ''sms.sign_name and sms.template_code are required when provider=aliyun''),
      (adc_Provider (cfg_Audit cfg) \<notin> {''mock'', ''aliyun'', []}, ''audit.provider must be 'mock' or 'aliyun', got '' @ quoted (adc_Provider (cfg_Audit cfg))),
      (adc_Provider (cfg_Audit cfg) = ''aliyun'' \<and> (adc_AccessKeyID (cfg_Audit cfg) = [] \<or> adc_AccessKeySecret (cfg_Audit cfg) = []), ''audit.access_key_id and audit.access_key_secret are required when provider=aliyun''),
      (adc_MockResult (cfg_Audit cfg) \<notin> {''pass'', ''suspect'', ''reject'', []}, ''audit.mock_result must be 'pass', 'suspect', or 'reject', got '' @ quoted (adc_MockResult (cfg_Audit cfg)))]"

definition oss_checks :: "(string \<Rightarrow> string) \<Rightarrow> Config \<Rightarrow> (bool \<times> string) list" where
  "oss_checks unicode cfg =
     [(oss_Provider (cfg_OSS cfg) \<notin> {''mock'', ''aliyun'', []}, ''oss.provider must be 'mock' or 'aliyun', got '' @ quoted (oss_Provider (cfg_OSS cfg))),
      (oss_URLPrefix (cfg_OSS cfg) = [], ''oss.url_prefix is required (whitelist baseline)''),
      (oss_URLPrefix (cfg_OSS cfg) \<noteq> ToLower unicode (oss_URLPrefix (cfg_OSS cfg)), ''oss.url_prefix must be lower case, got '' @ quoted (oss_URLPrefix (cfg_OSS cfg))),
      (oss_PresignTTL (cfg_OSS cfg) \<le> 0, ''oss.presign_ttl must be positive''),
      (oss_MaxImageSize (cfg_OSS cfg) \<le> 0, ''oss.max_image_size must be positive''),
      (oss_UploadHourly (cfg_OSS cfg) \<le> 0, ''oss.upload_hourly must be positive''),
      (oss_Provider (cfg_OSS cfg) = ''aliyun'' \<and> (oss_AccessKeyID (cfg_OSS cfg) = [] \<or> oss_AccessKeySecret (cfg_OSS cfg) = []), ''oss.access_key_id and oss.access_key_secret are required when provider=aliyun''),
      (oss_Provider (cfg_OSS cfg) = ''aliyun'' \<and> oss_Endpoint (cfg_OSS cfg) = [], ''oss.endpoint is required when provider=aliyun''),
      (oss_Provider (cfg_OSS cfg) = ''aliyun'' \<and> oss_Bucket (cfg_OSS cfg) = [], ''oss.bucket is required when provider=aliyun''),
      (oss_Provider (cfg_OSS cfg) = ''mock'' \<and> oss_MockListenAddr (cfg_OSS cfg) = [], ''oss.mock_listen_addr is required when provider=mock'')]"

definition limit_checks :: "Config \<Rightarrow> (bool \<times> string) list" where
  "limit_checks cfg =
     [(rl_SMSPhoneWindow (cfg_Ratelimit cfg) \<le> 0, ''ratelimit.sms_phone_window must be positive''),
      (rl_SMSPerPhonePerDay (cfg_Ratelimit cfg) \<le> 0, ''ratelimit.sms_per_phone_per_day must be positive''),
      (rl_SMSPerIPPerDay (cfg_Ratelimit cfg) \<le> 0, ''ratelimit.sms_per_ip_per_day must be positive''),
      (lcc_BatchSize (cnc_Like (cfg_Consumer cfg)) \<le> 0, ''consumer.like.batch_size must be positive''),
      (lcc_FlushInterval (cnc_Like (cfg_Consumer cfg)) \<le> 0, ''consumer.like.flush_interval must be positive''),
      (pvc_BatchSize (cnc_PV (cfg_Consumer cfg)) \<le> 0, ''consumer.pv.batch_size must be positive''),
      (pvc_FlushInterval (cnc_PV (cfg_Consumer cfg)) \<le> 0, ''consumer.pv.flush_interval must be positive''),
      (ccc_BatchSize (cnc_Count (cfg_Consumer cfg)) \<le> 0, ''consumer.count.batch_size must be positive''),
      (ccc_FlushInterval (cnc_Count (cfg_Consumer cfg)) \<le> 0, ''consumer.count.flush_interval must be positive''),
      (cac_LikeStateTTL (cfg_Cache cfg) \<le> 0, ''cache.like_state_ttl must be positive''),
      (cac_FeedCacheTTL (cfg_Cache cfg) \<le> 0, ''cache.feed_cache_ttl must be positive''),
      (cac_PVDedupTTL (cfg_Cache cfg) \<le> 0, ''cache.pv_dedup_ttl must be positive''),
      (cac_DedupTTL (cfg_Cache cfg) \<le> 0, ''cache.dedup_ttl must be positive''),
      (cac_UserSMSDailyTTL (cfg_Cache cfg) \<le> 0, ''cache.user_sms_daily_ttl must be positive'')]"

definition rest_checks :: "Config \<Rightarrow> (bool \<times> string) list" where
  "rest_checks cfg =
     [(sec_MaxKeywordLen (cfg_Search cfg) \<le> 0, ''search.max_keyword_len must be positive''),
      (sec_BooleanOperators (cfg_Search cfg) = [], ''search.boolean_operators must be non-empty''),
      (fcfg_MaxFollowing (cfg_Follow cfg) \<le> 0, ''follow.max_following must be positive''),
      (fcfg_DefaultListSize (cfg_Follow cfg) \<le> 0 \<or> fcfg_DefaultListSize (cfg_Follow cfg) > fcfg_MaxListSize (cfg_Follow cfg), ''follow.default_list_size must be in (0, max_list_size]''),
      (fcfg_MaxListSize (cfg_Follow cfg) \<le> 0, ''follow.max_list_size must be positive''),
      (cors_AllowedOrigins (cfg_CORS cfg) = [], ''cors.allowed_origins must be non-empty (use [\"*\"] for dev permissive)''),
      (svc_Mode (cfg_Server cfg) = ''release'' \<and> ''*'' \<in> set (cors_AllowedOrigins (cfg_CORS cfg)), ''cors.allowed_origins must not contain \"*\" in release mode (CSRF risk)''),
      (adc_Timeout (cfg_Audit cfg) \<le> 0, ''audit.timeout must be positive''),
      (adc_MaxRetries (cfg_Audit cfg) < 0, ''audit.max_retries must be >= 0''),
      (mtc_Enabled (cfg_Metrics cfg) \<and> mtc_Namespace (cfg_Metrics cfg) = [], ''metrics.namespace must be non-empty when metrics.enabled=true''),
      (svc_Mode (cfg_Server cfg) = ''release'' \<and> enc_PhoneKey (cfg_Encryption cfg) = [], ''encryption.phone_key must be set in release mode (inject APP_ENCRYPTION_PHONE_KEY)''),
      (enc_PhoneKey (cfg_Encryption cfg) \<noteq> [] \<and> length (enc_PhoneKey (cfg_Encryption cfg)) \<noteq> 64, ''encryption.phone_key must be 64 hex characters (32 bytes), got '' @ FormatInt (int (length (enc_PhoneKey (cfg_Encryption cfg)))) @ '' chars''),
      (enc_PhoneKey (cfg_Encryption cfg) \<noteq> [] \<and> \<not> list_all is_hex (enc_PhoneKey (cfg_Encryption cfg)), ''encryption.phone_key contains non-hex character'')]"

definition validate :: "(string \<Rightarrow> string) \<Rightarrow> Config \<Rightarrow> error" where
  "validate unicode cfg =
     first_failed (base_checks cfg @ store_checks cfg @ provider_checks cfg @ oss_checks unicode cfg
                   @ limit_checks cfg @ rest_checks cfg)"

section \<open>Loading\<close>

text \<open>
  What Load asks of viper and the environment: reading the file (one that is not found is no
  error), the unmarshalled configuration, the value of database.dsn, and APP_DATABASE_SLAVES_DSN.
\<close>

record viper =
  vp_read :: error
  vp_Unmarshal :: "Config result"
  vp_dsn :: string
  vp_slaves :: string

definition slave_dsns :: "string \<Rightarrow> string list" where
  "slave_dsns raw = filter (\<lambda>s. s \<noteq> []) (map TrimSpace (Split raw CHR '',''))"

definition Load :: "(string \<Rightarrow> string) \<Rightarrow> viper \<Rightarrow> Config result" where
  "Load unicode v =
     (case vp_read v of
        Some e \<Rightarrow> err (Wrap ''read config'' e)
      | None \<Rightarrow>
          (case vp_Unmarshal v of
             Inl e \<Rightarrow> err (Wrap ''unmarshal config'' e)
           | Inr cfg \<Rightarrow>
               (let cfg = (if vp_dsn v \<noteq> [] then cfg\<lparr>cfg_Database := (cfg_Database cfg)\<lparr>dbc_DSN := vp_dsn v\<rparr>\<rparr> else cfg);
                    cfg = (if vp_slaves v \<noteq> [] then cfg\<lparr>cfg_Database := (cfg_Database cfg)\<lparr>dbc_SlavesDSN := slave_dsns (vp_slaves v)\<rparr>\<rparr> else cfg)
                in case validate unicode cfg of
                     Some e \<Rightarrow> err (Wrap ''validate config'' e)
                   | None \<Rightarrow> ok cfg)))"

text \<open>The defaults; a key without one has the zero value.\<close>

definition default_config :: Config where
  "default_config =
     \<lparr>cfg_Server = \<lparr>svc_Port = 8080, svc_Mode = ''debug'', svc_ReadTimeout = 10000, svc_WriteTimeout = 10000,
                    svc_IdleTimeout = 60000, svc_ShutdownTimeout = 30000\<rparr>,
      cfg_Database = \<lparr>dbc_DSN = [], dbc_SlavesDSN = [], dbc_MaxOpenConns = 25, dbc_MaxIdleConns = 10,
                      dbc_MaxLifetime = 300000, dbc_MaxIdleTime = 300000, dbc_LogLevel = ''warn''\<rparr>,
      cfg_Redis = \<lparr>rdc_Mode = ''plain'', rdc_Addr = [], rdc_MasterName = [], rdc_SentinelAddrs = [], rdc_Password = [],
                   rdc_DB = 0, rdc_PoolSize = 10, rdc_DialTimeout = 5000, rdc_ReadTimeout = 3000, rdc_WriteTimeout = 3000\<rparr>,
      cfg_Log = \<lparr>lgc_Level = ''info'', lgc_Console = True, lgc_Filename = ''logs/app.log'', lgc_MaxSize = 100,
                 lgc_MaxBackups = 7, lgc_MaxAge = 30, lgc_Compress = True\<rparr>,
      cfg_JWT = \<lparr>jcfg_Secret = [], jcfg_AccessTokenTTL = 7200000, jcfg_RefreshTokenTTL = 604800000\<rparr>,
      cfg_MQ = \<lparr>mq_Provider = ''channel'', mq_URL = [], mq_Timeout = 5000, mq_ReconnectMaxRetries = 5,
                mq_ReconnectInitialDelay = 1000\<rparr>,
      cfg_SMS = \<lparr>sms_Provider = ''mock'', sms_AccessKeyID = [], sms_AccessKeySecret = [], sms_SignName = [],
                 sms_TemplateCode = [], sms_CodeLength = 6, sms_CodeTTL = 300000\<rparr>,
      cfg_OSS = \<lparr>oss_Provider = ''mock'', oss_AccessKeyID = [], oss_AccessKeySecret = [], oss_Endpoint = [],
                 oss_Bucket = ''cooking-dev'', oss_URLPrefix = ''http://127.0.0.1:18080/'', oss_PresignTTL = 900000,
                 oss_MaxImageSize = 5242880, oss_UploadHourly = 30, oss_MockListenAddr = ''127.0.0.1:18080''\<rparr>,
      cfg_Audit = \<lparr>adc_Provider = ''mock'', adc_AccessKeyID = [], adc_AccessKeySecret = [], adc_Region = ''cn-shanghai'',
                   adc_MockResult = ''pass'', adc_Timeout = 3000, adc_MaxRetries = 2\<rparr>,
      cfg_Encryption = \<lparr>enc_PhoneKey = [], enc_PhonePepper = []\<rparr>,
      cfg_Ratelimit = \<lparr>rl_SMSPhoneWindow = 60000, rl_SMSPerPhonePerDay = 5, rl_SMSPerIPPerDay = 10\<rparr>,
      cfg_Consumer = \<lparr>cnc_Like = \<lparr>lcc_BatchSize = 50, lcc_FlushInterval = 3000\<rparr>,
                      cnc_PV = \<lparr>pvc_BatchSize = 100, pvc_FlushInterval = 5000\<rparr>,
                      cnc_Count = \<lparr>ccc_BatchSize = 20, ccc_FlushInterval = 10000\<rparr>\<rparr>,
      cfg_Cache = \<lparr>cac_LikeStateTTL = 604800000, cac_FeedCacheTTL = 300000, cac_PVDedupTTL = 3600000,
                   cac_DedupTTL = 86400000, cac_UserSMSDailyTTL = 86400000\<rparr>,
      cfg_Metrics = \<lparr>mtc_Enabled = True, mtc_Namespace = ''cooking''\<rparr>,
      cfg_Search = \<lparr>sec_MaxKeywordLen = 50, sec_BooleanOperators = ''+-><()~*\"@''\<rparr>,
      cfg_Follow = \<lparr>fcfg_MaxFollowing = 3000, fcfg_DefaultListSize = 20, fcfg_MaxListSize = 50\<rparr>,
      cfg_CORS = \<lparr>cors_AllowedOrigins = [''*''],
                  cors_AllowedMethods = [''GET'', ''POST'', ''PUT'', ''PATCH'', ''DELETE'', ''OPTIONS''],
                  cors_AllowedHeaders = [''Origin'', ''Content-Type'', ''Authorization'', ''X-Request-ID''],
                  cors_ExposeHeaders = [''X-Request-ID'']\<rparr>\<rparr>"

section \<open>What an accepted configuration guarantees\<close>

lemma first_failed_None: "first_failed cs = None \<longleftrightarrow> (\<forall>c\<in>set cs. \<not> fst c)"
  by (induction cs rule: first_failed.induct) auto

lemma validate_None:
  "validate unicode cfg = None \<longleftrightarrow>
     (\<forall>c\<in>set (base_checks cfg) \<union> set (store_checks cfg) \<union> set (provider_checks cfg) \<union> set (oss_checks unicode cfg)
        \<union> set (limit_checks cfg) \<union> set (rest_checks cfg). \<not> fst c)"
  by (auto simp: validate_def first_failed_None)

lemma Load_validated: "Load unicode v = Inr cfg \<Longrightarrow> validate unicode cfg = None"
  by (auto simp: Load_def Let_def split: option.splits sum.splits)

lemma hex_decodes:
  "list_all is_hex s \<Longrightarrow> even (length s) \<Longrightarrow> \<exists>bs. hex_DecodeString s = Some bs"
proof (induction s rule: hex_DecodeString.induct)
  case (3 a b cs)
  have v: "is_hex c \<Longrightarrow> hex_value c \<noteq> None" for c by (auto simp: is_hex_def hex_value_def Let_def)
  from 3 v [of a] v [of b] show ?case by auto
qed simp_all

lemma accepted_key:
  assumes "validate unicode cfg = None" "enc_PhoneKey (cfg_Encryption cfg) \<noteq> []"
  shows "\<exists>key. phone_key (enc_PhoneKey (cfg_Encryption cfg)) = Inr key \<and> length key = 32"
proof -
  let ?k = "enc_PhoneKey (cfg_Encryption cfg)"
  have k: "length ?k = 64" "list_all is_hex ?k"
    using assms by (auto simp: validate_None rest_checks_def)
  then obtain bs where bs: "hex_DecodeString ?k = Some bs" using hex_decodes [of ?k] by auto
  have "length bs = 32" using hex_DecodeString_length [OF bs] k(1) by simp
  with bs assms(2) show ?thesis by (simp add: phone_key_def aes_key_ok_def)
qed

text \<open>The origin that CORS answers with.\<close>

definition allow_origins :: "'d gin \<Rightarrow> string list" where
  "allow_origins c = map snd (filter (\<lambda>h. fst h = ''Access-Control-Allow-Origin'') (gc_out c))"

lemma cors_origin_listed:
  assumes "''*'' \<notin> set (cors_AllowedOrigins cfg)" "o' \<in> set (allow_origins (cors_origin cfg origin c))"
  shows "o' \<in> set (allow_origins c) \<or> o' = origin \<and> origin \<in> set (cors_AllowedOrigins cfg)"
  using assms by (auto simp: cors_origin_def set_header_def allow_origins_def split: if_splits)

text \<open>
  C18: What a release deployment can rely on.  A configuration that Load accepts in release
  mode has a phone key that is an AES-256 key, so that encrypting a phone can only fail for want of
  random bytes; and the CORS middleware allows no origin but one of its list, and never all of them.
\<close>
theorem release_guards:
  assumes "Load unicode v = Inr cfg" "svc_Mode (cfg_Server cfg) = ''release''"
  shows "(\<exists>key. phone_key (enc_PhoneKey (cfg_Encryption cfg)) = Inr key \<and> length key = 32)
    \<and> (\<forall>g rt phone w e w'. EncryptPhone g rt phone (enc_PhoneKey (cfg_Encryption cfg)) w = (Inl e, w')
          \<longrightarrow> (\<exists>e'. e = Wrap ''crypto: gen nonce'' e'))
    \<and> (\<forall>origin c o'. o' \<in> set (allow_origins (cors_origin (cfg_CORS cfg) origin c)) \<longrightarrow> o' \<notin> set (allow_origins c)
          \<longrightarrow> o' = origin \<and> o' \<noteq> ''*'' \<and> o' \<in> set (cors_AllowedOrigins (cfg_CORS cfg)))"
proof (intro conjI allI impI)
  note ok = Load_validated [OF assms(1)]
  have ne: "enc_PhoneKey (cfg_Encryption cfg) \<noteq> []" and star: "''*'' \<notin> set (cors_AllowedOrigins (cfg_CORS cfg))"
    using ok assms(2) by (auto simp: validate_None rest_checks_def)
  from accepted_key [OF ok ne]
  show key: "\<exists>key. phone_key (enc_PhoneKey (cfg_Encryption cfg)) = Inr key \<and> length key = 32" .
  show "\<exists>e'. e = Wrap ''crypto: gen nonce'' e'"
    if "EncryptPhone g rt phone (enc_PhoneKey (cfg_Encryption cfg)) w = (Inl e, w')" for g rt phone w e w'
    using that key by (auto simp: EncryptPhone_def Let_def split: prod.splits sum.splits)
  fix origin and c :: "'d gin" and o'
  assume "o' \<in> set (allow_origins (cors_origin (cfg_CORS cfg) origin c))" "o' \<notin> set (allow_origins c)"
  with cors_origin_listed [OF star] show "o' = origin" "o' \<noteq> ''*''" "o' \<in> set (cors_AllowedOrigins (cfg_CORS cfg))"
    using star by blast+
qed

definition demo_config :: "int \<Rightarrow> Config" where
  "demo_config n = default_config
     \<lparr>cfg_Server := (cfg_Server default_config)\<lparr>svc_Mode := ''release''\<rparr>,
      cfg_Database := (cfg_Database default_config)\<lparr>dbc_DSN := ''app@tcp(db)/cooking''\<rparr>,
      cfg_Redis := (cfg_Redis default_config)\<lparr>rdc_Addr := ''redis:6379''\<rparr>,
      cfg_JWT := (cfg_JWT default_config)\<lparr>jcfg_Secret := ''0123456789abcdef0123456789abcdef''\<rparr>,
      cfg_SMS := (cfg_SMS default_config)\<lparr>sms_CodeLength := n\<rparr>,
      cfg_Encryption := \<lparr>enc_PhoneKey = concat (replicate 8 ''01234567''), enc_PhonePepper = []\<rparr>,
      cfg_CORS := (cfg_CORS default_config)\<lparr>cors_AllowedOrigins := [''https://cook.example'']\<rparr>\<rparr>"

definition demo_viper :: "int \<Rightarrow> viper" where
  "demo_viper n = \<lparr>vp_read = None, vp_Unmarshal = Inr (demo_config n), vp_dsn = [], vp_slaves = []\<rparr>"

lemma demo_accepted: "Load id (demo_viper 6) = Inr (demo_config 6)" "Load id (demo_viper 8) = Inr (demo_config 8)"
proof -
  have low: "ToLower id ''http://127.0.0.1:18080/'' = ''http://127.0.0.1:18080/''" by code_simp
  have hex: "list_all is_hex (concat (replicate 8 ''01234567''))" "length (concat (replicate 8 ''01234567'')) = 64"
    by code_simp+
  have v: "validate id (demo_config n) = None" if "4 \<le> n" "n \<le> 8" for n
    using that hex low
    unfolding validate_None base_checks_def store_checks_def provider_checks_def oss_checks_def limit_checks_def rest_checks_def
    by (simp add: demo_config_def default_config_def)
  have "validate id (demo_config 6) = None" "validate id (demo_config 8) = None" by (simp_all add: v)
  then show "Load id (demo_viper 6) = Inr (demo_config 6)" "Load id (demo_viper 8) = Inr (demo_config 8)"
    by (simp_all add: Load_def demo_viper_def)
qed

theorem release_guards_witness:
  "\<exists>cfg. Load id (demo_viper 6) = Inr cfg \<and> svc_Mode (cfg_Server cfg) = ''release''
     \<and> (\<exists>key. phone_key (enc_PhoneKey (cfg_Encryption cfg)) = Inr key \<and> length key = 32)"
proof -
  note l = demo_accepted(1)
  have m: "svc_Mode (cfg_Server (demo_config 6)) = ''release''" by (simp add: demo_config_def)
  show ?thesis by (intro exI [of _ "demo_config 6"] conjI) (rule l, rule m, rule conjunct1 [OF release_guards [OF l m]])
qed

section \<open>Codes and the form that takes them\<close>

lemma digits_numeric:
  assumes "list_all (is_digit_in 0 9) s" "s \<noteq> []" shows "tag_numeric s"
proof -
  obtain c cs where s: "s = c # cs" using assms(2) by (cases s) auto
  have "c \<noteq> CHR ''-''" "c \<noteq> CHR ''+''" using assms(1) s by (auto simp: is_digit_in_def)
  with s have "unsigned_text s = s" by (simp add: unsigned_text_def)
  moreover have "takeWhile (is_digit_in 0 9) s \<noteq> []" "dropWhile (is_digit_in 0 9) s = []"
    using assms s by (simp_all add: list_all_iff)
  ultimately show ?thesis by (simp add: tag_numeric_def Let_def)
qed

lemma digit_ascii: "is_digit_in 0 9 c \<Longrightarrow> byte_of c < 128"
  by (auto simp: is_digit_in_def char_digit_def byte_of_def Let_def split: option.splits if_splits)

text \<open>
  C39: Which codes log in.  Under a configuration that Load accepts, a code as SendCode
  draws it gets past the form of the login request exactly if the configured length is six; Load
  accepts four to eight.
\<close>
theorem login_takes_six_digits:
  assumes "Load unicode v = Inr cfg" "\<forall>w d w'. rt_randInt rt 10 w = (Inr d, w') \<longrightarrow> 0 \<le> d \<and> d < 10"
    and "generateNumericCode rt (sms_CodeLength (cfg_SMS cfg)) w = (Inr code, w')"
  shows "valid_LoginReq (phone, code) \<longleftrightarrow> validatePhone phone \<and> sms_CodeLength (cfg_SMS cfg) = 6"
proof -
  have l: "4 \<le> sms_CodeLength (cfg_SMS cfg)"
    using Load_validated [OF assms(1)] by (auto simp: validate_None provider_checks_def)
  have c: "length code = nat (sms_CodeLength (cfg_SMS cfg))" "list_all (is_digit_in 0 9) code"
    using numeric_code_digits [OF assms(2) assms(3) [unfolded generateNumericCode_def]] by simp_all
  with l have ne: "code \<noteq> []" by auto
  have "list_all (\<lambda>x. byte_of x < 128) code" using c(2) digit_ascii by (auto simp: list_all_iff)
  then have "rune_count code = sms_CodeLength (cfg_SMS cfg)" using c(1) l by (simp add: rune_count_def runes_ascii)
  moreover have "validatePhone phone \<Longrightarrow> phone \<noteq> []" by (cases phone) auto
  ultimately show ?thesis using ne digits_numeric [OF c(2) ne] by (auto simp: valid_LoginReq_def)
qed

text \<open>A configuration with codes of eight digits: no login gets through.\<close>

theorem login_takes_six_digits_witness:
  "Load id (demo_viper 8) = Inr (demo_config 8)
   \<and> (\<exists>code w'. generateNumericCode doc_rt 8 demo_world = (Inr code, w') \<and> \<not> valid_LoginReq (''13800138000'', code))"
proof -
  note l = demo_accepted(2)
  have n: "sms_CodeLength (cfg_SMS (demo_config 8)) = 8" by (simp add: demo_config_def)
  have d: "\<forall>w d w'. rt_randInt doc_rt 10 w = (Inr d, w') \<longrightarrow> 0 \<le> d \<and> d < 10"
    by (auto simp: doc_rt_def split: list.splits)
  obtain code w' where g: "generateNumericCode doc_rt 8 demo_world = (Inr code, w')"
    using doc_numeric_code [of 8 demo_world] by (auto simp: generateNumericCode_def)
  have g': "generateNumericCode doc_rt (sms_CodeLength (cfg_SMS (demo_config 8))) demo_world = (Inr code, w')"
    unfolding n by (rule g)
  have "\<not> valid_LoginReq (''13800138000'', code)"
    using login_takes_six_digits [OF l d g', of "''13800138000''"] n by simp
  with g show ?thesis by (intro conjI exI) (rule l)
qed

end
