(* ===== verification/Lifecycle.thy ===== *)
theory Lifecycle
  imports Config
begin

text \<open>
  The life of the process around the requests: internal/consumer/manager.go and dlx_monitor.go, and
  the shutdown at the end of main in cmd/server/main.go.  Time is in milliseconds.  What an
  operation needs from its start until it returns is a parameter, None if it never returns.
\<close>

section \<open>Deadlines\<close>

text \<open>
  The select on the end of an operation that starts now and on a context with a deadline: whether the operation
  was first, and when the select returned.  A tie goes to the operation.
\<close>

definition wait_until :: "int \<Rightarrow> int option \<Rightarrow> int \<Rightarrow> bool \<times> int" where
  "wait_until deadline d now =
     (case d of
        None \<Rightarrow> (False, max now deadline)
      | Some k \<Rightarrow> if now + k \<le> deadline then (True, now + k) else (False, max now deadline))"

definition WithTimeout :: "int \<Rightarrow> int \<Rightarrow> int \<Rightarrow> int" where
  "WithTimeout parent timeout now = min parent (now + timeout)"

definition DeadlineExceeded :: goerr where
  "DeadlineExceeded = Sentinel ''context deadline exceeded''"

text \<open>An operation: how long it takes, and the error it then returns.\<close>

type_synonym operation = "int option \<times> error"

definition closeWithDeadline :: "int \<Rightarrow> string \<Rightarrow> operation \<Rightarrow> int \<Rightarrow> error \<times> int" where
  "closeWithDeadline deadline name close now =
     (case wait_until deadline (fst close) now of
        (True, t) \<Rightarrow> (snd close, t)
      | (False, t) \<Rightarrow> (Some (Wrap (name @ '' close deadline exceeded'') DeadlineExceeded), t))"

section \<open>The consumer manager\<close>

text \<open>The names of the registered consumers, and whether StartAll has run.\<close>

record ConsumerManager =
  cm_consumers :: "string list"
  cm_started :: bool

definition Manager_New :: ConsumerManager where
  "Manager_New = \<lparr>cm_consumers = [], cm_started = False\<rparr>"

definition Register :: "string \<Rightarrow> ConsumerManager \<Rightarrow> ConsumerManager" where
  "Register c m = m\<lparr>cm_consumers := cm_consumers m @ [c]\<rparr>"

definition StartAll :: "ConsumerManager \<Rightarrow> ConsumerManager" where
  "StartAll m = m\<lparr>cm_started := True\<rparr>"

text \<open>
  wg.Wait, for goroutines that need as long as drain says to return once their context is cancelled.
\<close>

fun wait_all :: "int option list \<Rightarrow> int option" where
  "wait_all [] = Some 0"
| "wait_all (d # ds) =
     (case (d, wait_all ds) of (Some a, Some b) \<Rightarrow> Some (max a b) | _ \<Rightarrow> None)"

definition Manager_Shutdown :: "(string \<Rightarrow> int option) \<Rightarrow> ConsumerManager \<Rightarrow> int \<Rightarrow> int \<Rightarrow> error \<times> int" where
  "Manager_Shutdown drain_time m deadline now =
     (if \<not> cm_started m then (None, now)
      else (case wait_until deadline (wait_all (map drain_time (cm_consumers m))) now of
              (True, t) \<Rightarrow> (None, t)
            | (False, t) \<Rightarrow> (Some DeadlineExceeded, t)))"

section \<open>The dead-letter monitor\<close>

text \<open>What the select of the loop takes; the values that the gauge is set to, and those that are logged as errors.\<close>

datatype monitor_input = Tick | Cancelled

fun StartDLXMonitor ::
  "('w \<Rightarrow> int result \<times> 'w) \<Rightarrow> bool \<Rightarrow> monitor_input list \<Rightarrow> 'w \<Rightarrow> (int list \<times> int list) \<times> 'w" where
  "StartDLXMonitor inspect gauge [] w = (([], []), w)"
| "StartDLXMonitor inspect gauge (Cancelled # _) w = (([], []), w)"
| "StartDLXMonitor inspect gauge (Tick # ticks) w =
     (case inspect w of
        (Inl e, w) \<Rightarrow> StartDLXMonitor inspect gauge ticks w
      | (Inr depth, w) \<Rightarrow>
          (case StartDLXMonitor inspect gauge ticks w of
             ((sets, alarms), w) \<Rightarrow>
               (((if gauge then depth # sets else sets), (if depth > 0 then depth # alarms else alarms)), w)))"

section \<open>The shutdown\<close>

text \<open>The operations of the resources; mysql is None where gorm does not give the pool.\<close>

record stopping =
  sp_http :: operation
  sp_drain :: "string \<Rightarrow> int option"
  sp_bus :: operation
  sp_oss :: operation
  sp_redis :: operation
  sp_mysql :: "operation option"

text \<open>One line of the log: what was stopped, from when to when, and the error.\<close>

record stop_log =
  sl_what :: string
  sl_from :: int
  sl_until :: int
  sl_error :: error

definition logged :: "string \<Rightarrow> (int \<Rightarrow> error \<times> int) \<Rightarrow> int \<Rightarrow> stop_log" where
  "logged what f now = (case f now of (e, t) \<Rightarrow> \<lparr>sl_what = what, sl_from = now, sl_until = t, sl_error = e\<rparr>)"

text \<open>srv.Shutdown returns the error of the context when that is done first.\<close>

definition http_Shutdown :: "int \<Rightarrow> operation \<Rightarrow> int \<Rightarrow> error \<times> int" where
  "http_Shutdown deadline op now =
     (case wait_until deadline (fst op) now of (True, t) \<Rightarrow> (snd op, t) | (False, t) \<Rightarrow> (Some DeadlineExceeded, t))"

text \<open>One after the other, and when the last of them ended.\<close>

fun stop_each :: "(string \<times> (int \<Rightarrow> error \<times> int)) list \<Rightarrow> int \<Rightarrow> stop_log list" where
  "stop_each [] now = []"
| "stop_each ((what, f) # fs) now = (let l = logged what f now in l # stop_each fs (sl_until l))"

definition ends :: "int \<Rightarrow> stop_log list \<Rightarrow> int" where
  "ends now ls = (if ls = [] then now else sl_until (last ls))"

definition shutdown :: "ServerConfig \<Rightarrow> ConsumerManager \<Rightarrow> stopping \<Rightarrow> int \<Rightarrow> stop_log list" where
  "shutdown cfg m s now =
     (let parent = now + svc_ShutdownTimeout cfg;
          deadline1 = WithTimeout parent 5000 now;
          phase1 = stop_each [(''http server'', http_Shutdown deadline1 (sp_http s))] now;
          now2 = ends now phase1;
          deadline2 = WithTimeout parent 15000 now2;
          phase2 = stop_each [(''consumer manager'', Manager_Shutdown (sp_drain s) m deadline2),
                              (''event bus'', closeWithDeadline deadline2 ''event bus'' (sp_bus s))] now2;
          now3 = ends now2 phase2;
          deadline3 = WithTimeout parent 5000 now3;
          phase3 = stop_each ([(''oss client'', closeWithDeadline deadline3 ''oss client'' (sp_oss s)),
                               (''redis'', closeWithDeadline deadline3 ''redis'' (sp_redis s))]
                              @ (case sp_mysql s of
                                   None \<Rightarrow> []
                                 | Some close \<Rightarrow> [(''mysql'', closeWithDeadline deadline3 ''mysql'' close)])) now3
      in phase1 @ phase2 @ phase3)"

section \<open>What the phases guarantee\<close>

definition takes_time :: "int option \<Rightarrow> bool" where
  "takes_time d \<longleftrightarrow> (case d of None \<Rightarrow> True | Some k \<Rightarrow> 0 \<le> k)"

definition timely :: "ConsumerManager \<Rightarrow> stopping \<Rightarrow> bool" where
  "timely m s \<longleftrightarrow> takes_time (fst (sp_http s)) \<and> (\<forall>c. takes_time (sp_drain s c)) \<and> takes_time (fst (sp_bus s))
     \<and> takes_time (fst (sp_oss s)) \<and> takes_time (fst (sp_redis s))
     \<and> (\<forall>op. sp_mysql s = Some op \<longrightarrow> takes_time (fst op))"

lemma wait_until_bounds:
  assumes "takes_time d" "wait_until deadline d now = (b, t)"
  shows "now \<le> t" "t \<le> max now deadline" "b \<longleftrightarrow> (\<exists>k. d = Some k \<and> now + k \<le> deadline)" "b \<Longrightarrow> d = Some (t - now)"
  using assms by (auto simp: wait_until_def takes_time_def split: option.splits if_splits)

lemma wait_all_takes: "\<forall>d\<in>set ds. takes_time d \<Longrightarrow> takes_time (wait_all ds)"
  by (induction ds) (auto simp: takes_time_def split: option.splits)

lemma wait_all_ge:
  assumes "wait_all ds = Some k" "d \<in> set ds" shows "\<exists>j. d = Some j \<and> j \<le> k"
  using assms
proof (induction ds arbitrary: k)
  case (Cons a ds)
  then obtain x y where xy: "a = Some x" "wait_all ds = Some y" "k = max x y" by (auto split: option.splits)
  then show ?case
  proof (cases "d = a")
    case False
    with Cons.IH [OF xy(2)] Cons.prems(2) xy(3) show ?thesis by fastforce
  qed simp
qed simp

lemma wait_all_le: "\<forall>d\<in>set ds. \<exists>j. d = Some j \<and> j \<le> b \<Longrightarrow> 0 \<le> b \<Longrightarrow> \<exists>k. wait_all ds = Some k \<and> k \<le> b"
  by (induction ds) auto

text \<open>A step that respects a deadline, and a phase of such steps.\<close>

definition in_time :: "int \<Rightarrow> (int \<Rightarrow> error \<times> int) \<Rightarrow> bool" where
  "in_time deadline f \<longleftrightarrow> (\<forall>now e t. f now = (e, t) \<longrightarrow> now \<le> t \<and> t \<le> max now deadline)"

lemma stop_each_bounds:
  assumes "\<forall>f\<in>snd ` set fs. in_time deadline f" "now \<le> deadline"
  shows "\<forall>l\<in>set (stop_each fs now). now \<le> sl_from l \<and> sl_from l \<le> sl_until l \<and> sl_until l \<le> deadline"
    "now \<le> ends now (stop_each fs now)" "ends now (stop_each fs now) \<le> deadline"
    "map sl_what (stop_each fs now) = map fst fs"
proof -
  have "(\<forall>l\<in>set (stop_each fs now). now \<le> sl_from l \<and> sl_from l \<le> sl_until l \<and> sl_until l \<le> deadline)
      \<and> now \<le> ends now (stop_each fs now) \<and> ends now (stop_each fs now) \<le> deadline \<and> map sl_what (stop_each fs now) = map fst fs"
    using assms
  proof (induction fs arbitrary: now)
    case (Cons x fs)
    obtain what f where x: "x = (what, f)" by fastforce
    obtain e t where f: "f now = (e, t)" by fastforce
    have t: "now \<le> t" "t \<le> deadline" using Cons.prems x f by (fastforce simp: in_time_def)+
    have "\<forall>f\<in>snd ` set fs. in_time deadline f" using Cons.prems(1) by simp
    from Cons.IH [OF this t(2)] t show ?case by (auto simp: x f logged_def ends_def Let_def split: if_splits)
  qed (simp add: ends_def)
  then show "\<forall>l\<in>set (stop_each fs now). now \<le> sl_from l \<and> sl_from l \<le> sl_until l \<and> sl_until l \<le> deadline"
    "now \<le> ends now (stop_each fs now)" "ends now (stop_each fs now) \<le> deadline"
    "map sl_what (stop_each fs now) = map fst fs" by simp_all
qed

lemma close_respects [simp]: "takes_time (fst op) \<Longrightarrow> in_time deadline (closeWithDeadline deadline name op)"
  using wait_until_bounds(1,2) [of "fst op" deadline]
  by (auto simp: in_time_def closeWithDeadline_def split: prod.splits bool.splits)

lemma http_respects [simp]: "takes_time (fst op) \<Longrightarrow> in_time deadline (http_Shutdown deadline op)"
  using wait_until_bounds(1,2) [of "fst op" deadline]
  by (auto simp: in_time_def http_Shutdown_def split: prod.splits bool.splits)

lemma manager_bounds:
  assumes "\<forall>c. takes_time (drain_time c)" "Manager_Shutdown drain_time m deadline now = (e, t)"
  shows "now \<le> t \<and> t \<le> max now deadline"
    "e = None \<Longrightarrow> cm_started m \<Longrightarrow> c \<in> set (cm_consumers m) \<Longrightarrow> \<exists>k. drain_time c = Some k \<and> now + k \<le> t"
    "\<forall>c\<in>set (cm_consumers m). \<exists>k. drain_time c = Some k \<and> k \<le> b \<Longrightarrow> 0 \<le> b \<Longrightarrow> now + b \<le> deadline \<Longrightarrow> e = None"
proof -
  let ?d = "wait_all (map drain_time (cm_consumers m))"
  have tt: "takes_time ?d" by (rule wait_all_takes) (use assms(1) in auto)
  obtain first t' where w: "wait_until deadline ?d now = (first, t')" by fastforce
  note wb = wait_until_bounds [OF tt w]
  show "now \<le> t \<and> t \<le> max now deadline"
    using assms(2) w wb(1,2) by (auto simp: Manager_Shutdown_def split: if_splits bool.splits)
  show "\<exists>k. drain_time c = Some k \<and> now + k \<le> t" if "e = None" "cm_started m" "c \<in> set (cm_consumers m)"
  proof -
    have "first" "t = t'" using assms(2) w that by (auto simp: Manager_Shutdown_def split: bool.splits)
    then have "?d = Some (t - now)" using wb(4) by simp
    from wait_all_ge [OF this, of "drain_time c"] that(3) show ?thesis by fastforce
  qed
  show "e = None" if "\<forall>c\<in>set (cm_consumers m). \<exists>k. drain_time c = Some k \<and> k \<le> b" "0 \<le> b" "now + b \<le> deadline"
  proof -
    note h = that
    obtain k where "?d = Some k" "k \<le> b" using wait_all_le [of "map drain_time (cm_consumers m)" b] h(1,2) by auto
    then have "first" using wb(3) h(3) by auto
    with assms(2) w show ?thesis by (auto simp: Manager_Shutdown_def split: if_splits)
  qed
qed

text \<open>
  The shutdown, taken apart: when the second and third phases start, their deadlines, and that every
  line of a phase is between the start of the phase and its deadline.
\<close>

lemma shutdown_parts:
  assumes "timely m s" "0 < svc_ShutdownTimeout cfg"
  obtains ph1 ph2 ph3 now2 now3 d1 d2 d3 where "shutdown cfg m s now = ph1 @ ph2 @ ph3"
    "ph2 = stop_each [(''consumer manager'', Manager_Shutdown (sp_drain s) m d2), (''event bus'', closeWithDeadline d2 ''event bus'' (sp_bus s))] now2"
    "map sl_what ph1 = [''http server'']"
    "map sl_what ph3 = [''oss client'', ''redis''] @ (if sp_mysql s = None then [] else [''mysql''])"
    "d1 = WithTimeout (now + svc_ShutdownTimeout cfg) 5000 now" "d2 = WithTimeout (now + svc_ShutdownTimeout cfg) 15000 now2"
    "d3 = WithTimeout (now + svc_ShutdownTimeout cfg) 5000 now3" "now \<le> now2" "now2 \<le> d1" "now2 \<le> now3" "now3 \<le> d2"
    "\<forall>l\<in>set ph1. now \<le> sl_from l \<and> sl_from l \<le> sl_until l \<and> sl_until l \<le> d1"
    "\<forall>l\<in>set ph2. now2 \<le> sl_from l \<and> sl_from l \<le> sl_until l \<and> sl_until l \<le> d2"
    "\<forall>l\<in>set ph3. now3 \<le> sl_from l \<and> sl_from l \<le> sl_until l \<and> sl_until l \<le> d3"
proof -
  note found = that
  define parent where "parent = now + svc_ShutdownTimeout cfg"
  define d1 where "d1 = WithTimeout parent 5000 now"
  define f1 where "f1 = [(''http server'', http_Shutdown d1 (sp_http s))]"
  define now2 where "now2 = ends now (stop_each f1 now)"
  define d2 where "d2 = WithTimeout parent 15000 now2"
  define f2 where "f2 = [(''consumer manager'', Manager_Shutdown (sp_drain s) m d2), (''event bus'', closeWithDeadline d2 ''event bus'' (sp_bus s))]"
  define now3 where "now3 = ends now2 (stop_each f2 now2)"
  define d3 where "d3 = WithTimeout parent 5000 now3"
  define f3 where "f3 = [(''oss client'', closeWithDeadline d3 ''oss client'' (sp_oss s)), (''redis'', closeWithDeadline d3 ''redis'' (sp_redis s))]
     @ (case sp_mysql s of None \<Rightarrow> [] | Some close \<Rightarrow> [(''mysql'', closeWithDeadline d3 ''mysql'' close)])"
  have tt: "takes_time (fst (sp_http s))" "\<forall>c. takes_time (sp_drain s c)" "takes_time (fst (sp_bus s))" "takes_time (fst (sp_oss s))"
      "takes_time (fst (sp_redis s))" "\<And>op. sp_mysql s = Some op \<Longrightarrow> takes_time (fst op)"
    using assms(1) by (auto simp: timely_def)
  have d1: "now \<le> d1" "d1 \<le> parent" using assms(2) by (simp_all add: d1_def WithTimeout_def parent_def)
  have "\<forall>f\<in>snd ` set f1. in_time d1 f" using tt(1) by (simp add: f1_def)
  note b1 = stop_each_bounds [OF this d1(1), folded now2_def]
  have d2: "now2 \<le> d2" "d2 \<le> parent" using b1(3) d1(2) by (simp_all add: d2_def WithTimeout_def)
  have "\<forall>f\<in>snd ` set f2. in_time d2 f" using tt(3) manager_bounds(1) [OF tt(2)] by (auto simp: f2_def in_time_def [of _ "Manager_Shutdown _ _ _"])
  note b2 = stop_each_bounds [OF this d2(1), folded now3_def]
  have d3: "now3 \<le> d3" using b2(3) d2(2) by (simp add: d3_def WithTimeout_def)
  have "\<forall>f\<in>snd ` set f3. in_time d3 f" using tt(4-6) by (cases "sp_mysql s") (auto simp: f3_def)
  note b3 = stop_each_bounds [OF this d3]
  have "shutdown cfg m s now = stop_each f1 now @ stop_each f2 now2 @ stop_each f3 now3"
    unfolding shutdown_def Let_def f1_def now2_def f2_def now3_def f3_def d1_def d2_def d3_def parent_def by (rule refl)
  moreover have "map sl_what (stop_each f1 now) = [''http server'']" unfolding b1(4) by (simp add: f1_def)
  moreover have "map sl_what (stop_each f3 now3) = [''oss client'', ''redis''] @ (if sp_mysql s = None then [] else [''mysql''])"
    unfolding b3(4) by (auto simp: f3_def split: option.splits)
  ultimately show thesis
    by (rule found [OF _ f2_def [THEN arg_cong [where f = "\<lambda>f. stop_each f now2"]] _ _ d1_def [unfolded parent_def]
      d2_def [unfolded parent_def] d3_def [unfolded parent_def] b1(2,3) b2(2,3) b1(1) b2(1) b3(1)])
qed

text \<open>
  C24: The shutdown is bounded and in order.  Whatever the resources do, every one is stopped, in the order
  of the log; every line of the log is within the least of the configured budget and twenty-five
  seconds of the start; the bus is closed only after every consumer has returned, unless the manager
  reports that its time was up; and with a budget of at least twenty-five seconds consumers that need at most
  fifteen are always waited for, however long the HTTP server hangs.
\<close>
theorem shutdown_phases:
  assumes "timely m s" "0 < svc_ShutdownTimeout cfg" "cm_started m" "shutdown cfg m s now = log"
  shows "map sl_what log = [''http server'', ''consumer manager'', ''event bus'', ''oss client'', ''redis'']
        @ (if sp_mysql s = None then [] else [''mysql''])
    \<and> (\<forall>l\<in>set log. now \<le> sl_from l \<and> sl_from l \<le> sl_until l \<and> sl_until l \<le> now + min (svc_ShutdownTimeout cfg) 25000)
    \<and> (sl_error (log ! 1) = None \<longrightarrow>
         (\<forall>c\<in>set (cm_consumers m). \<exists>k. sp_drain s c = Some k \<and> sl_from (log ! 1) + k \<le> sl_from (log ! 2)))
    \<and> (25000 \<le> svc_ShutdownTimeout cfg \<longrightarrow> (\<forall>c\<in>set (cm_consumers m). \<exists>k. sp_drain s c = Some k \<and> k \<le> 15000)
         \<longrightarrow> sl_error (log ! 1) = None)"
proof -
  obtain ph1 ph2 ph3 now2 now3 d1 d2 d3 where "shutdown cfg m s now = ph1 @ ph2 @ ph3"
    and ph2: "ph2 = stop_each [(''consumer manager'', Manager_Shutdown (sp_drain s) m d2), (''event bus'', closeWithDeadline d2 ''event bus'' (sp_bus s))] now2"
    and what: "map sl_what ph1 = [''http server'']"
      "map sl_what ph3 = [''oss client'', ''redis''] @ (if sp_mysql s = None then [] else [''mysql''])"
    and d: "d1 = WithTimeout (now + svc_ShutdownTimeout cfg) 5000 now" "d2 = WithTimeout (now + svc_ShutdownTimeout cfg) 15000 now2"
      "d3 = WithTimeout (now + svc_ShutdownTimeout cfg) 5000 now3" "now \<le> now2" "now2 \<le> d1" "now2 \<le> now3" "now3 \<le> d2"
    and b: "\<forall>l\<in>set ph1. now \<le> sl_from l \<and> sl_from l \<le> sl_until l \<and> sl_until l \<le> d1"
      "\<forall>l\<in>set ph2. now2 \<le> sl_from l \<and> sl_from l \<le> sl_until l \<and> sl_until l \<le> d2"
      "\<forall>l\<in>set ph3. now3 \<le> sl_from l \<and> sl_from l \<le> sl_until l \<and> sl_until l \<le> d3"
    by (rule shutdown_parts [OF assms(1,2)])
  with assms(4) have log: "log = ph1 @ ph2 @ ph3" by simp
  have drains: "\<forall>c. takes_time (sp_drain s c)" using assms(1) by (simp add: timely_def)
  have dl: "d1 \<le> now + 5000" "d2 \<le> now2 + 15000" "d3 \<le> now3 + 5000"
      "d1 \<le> now + svc_ShutdownTimeout cfg" "d2 \<le> now + svc_ShutdownTimeout cfg" "d3 \<le> now + svc_ShutdownTimeout cfg"
    by (simp_all add: d(1-3) WithTimeout_def)
  obtain e t where mg: "Manager_Shutdown (sp_drain s) m d2 now2 = (e, t)" by fastforce
  have "length ph1 = 1" using what(1) by (metis length_map list.size(3,4) One_nat_def plus_1_eq_Suc add.commute)
  then have l23: "sl_error (log ! 1) = e" "sl_from (log ! 1) = now2" "sl_from (log ! 2) = t"
    using mg by (simp_all add: log nth_append ph2 logged_def Let_def numeral_2_eq_2 split: prod.split)
  show ?thesis
  proof (intro conjI impI ballI)
    show "map sl_what log = [''http server'', ''consumer manager'', ''event bus'', ''oss client'', ''redis'']
        @ (if sp_mysql s = None then [] else [''mysql''])"
      using what by (simp add: log ph2 logged_def Let_def split: prod.split)
    fix l assume "l \<in> set log"
    then have "now \<le> sl_from l \<and> sl_from l \<le> sl_until l \<and> sl_until l \<le> now + svc_ShutdownTimeout cfg \<and> sl_until l \<le> now + 25000"
      using b dl d(4-7) unfolding log by fastforce
    then show "now \<le> sl_from l" "sl_from l \<le> sl_until l" "sl_until l \<le> now + min (svc_ShutdownTimeout cfg) 25000"
      by (simp_all add: min_def)
  next
    fix c assume "sl_error (log ! 1) = None" "c \<in> set (cm_consumers m)"
    with manager_bounds(2) [OF drains mg _ assms(3), of c] show "\<exists>k. sp_drain s c = Some k \<and> sl_from (log ! 1) + k \<le> sl_from (log ! 2)"
      by (simp add: l23 [unfolded One_nat_def])
  next
    assume big: "25000 \<le> svc_ShutdownTimeout cfg" and dr: "\<forall>c\<in>set (cm_consumers m). \<exists>k. sp_drain s c = Some k \<and> k \<le> 15000"
    have "now2 + 15000 \<le> d2" using big dl(1) d(2,5) by (simp add: WithTimeout_def)
    with manager_bounds(3) [OF drains mg dr] show "sl_error (log ! 1) = None" by (simp add: l23 [unfolded One_nat_def])
  qed
qed

text \<open>An HTTP server that never stops and a consumer that needs ten seconds.\<close>

definition demo_stopping :: stopping where
  "demo_stopping = \<lparr>sp_http = (None, None), sp_drain = (\<lambda>c. Some 10000), sp_bus = (Some 100, None), sp_oss = (Some 0, None),
                    sp_redis = (None, None), sp_mysql = Some (Some 0, None)\<rparr>"

theorem shutdown_phases_witness:
  "map sl_until (shutdown (cfg_Server default_config) (StartAll (Register ''like-consumer'' Manager_New)) demo_stopping 0)
     = [5000, 15000, 15100, 15100, 20100, 20100]
   \<and> list_all (\<lambda>l. sl_until l \<le> 25000) (shutdown (cfg_Server default_config) (StartAll (Register ''like-consumer'' Manager_New)) demo_stopping 0)"
proof -
  let ?m = "StartAll (Register ''like-consumer'' Manager_New)"
  have "timely ?m demo_stopping" by (simp add: timely_def demo_stopping_def takes_time_def)
  moreover have "0 < svc_ShutdownTimeout (cfg_Server default_config)" "cm_started ?m"
    by (simp_all add: default_config_def StartAll_def)
  moreover have "map sl_until (shutdown (cfg_Server default_config) ?m demo_stopping 0) = [5000, 15000, 15100, 15100, 20100, 20100]"
    by code_simp
  ultimately show ?thesis
    using shutdown_phases [of ?m demo_stopping "cfg_Server default_config" 0, OF _ _ _ refl] by (auto simp: list_all_iff)
qed

end
