(* ===== verification/MigratePhone.thy ===== *)
theory MigratePhone
  imports UserSessions
begin

text \<open>
  cmd/migrate-phone/main.go: the one-time migration of users.phone_encrypted and users.phone_hash.
  The command opens a connection of its own, without replicas.  The flags, the log and the exit
  code are left out.
\<close>

section \<open>One row\<close>

text \<open>The map of the changed columns, as the list of its entries.\<close>

definition computeUpdates ::
  "primitives \<Rightarrow> 'w runtime \<Rightarrow> User \<Rightarrow> string \<Rightarrow> string \<Rightarrow> 'w \<Rightarrow> (string \<times> string) list result \<times> 'w" where
  "computeUpdates pr rt u keyHex pepper w =
     (let (plain, needsEncrypt) =
            (if keyHex \<noteq> [] then
               (case DecryptPhone (prim_aead pr) (u_PhoneEncrypted u) keyHex of
                  Inl e \<Rightarrow> (u_PhoneEncrypted u, True)
                | Inr decrypted \<Rightarrow> (decrypted, False))
             else (u_PhoneEncrypted u, False));
          newHash = HashPhone (prim_sha256 pr) plain pepper;
          rehash = (if newHash \<noteq> u_PhoneHash u then [(''phone_hash'', newHash)] else [])
      in if needsEncrypt then
           (case EncryptPhone (prim_aead pr) rt plain keyHex w of
              (Inl e, w) \<Rightarrow> (err (Wrap ''encrypt'' e), w)
            | (Inr ciphertext, w) \<Rightarrow> (ok ((''phone_encrypted'', ciphertext) # rehash), w))
         else (ok rehash, w))"

definition set_phone_field :: "string \<times> string \<Rightarrow> User \<Rightarrow> User" where
  "set_phone_field f u =
     (if fst f = ''phone_encrypted'' then u\<lparr>u_PhoneEncrypted := snd f\<rparr>
      else if fst f = ''phone_hash'' then u\<lparr>u_PhoneHash := snd f\<rparr>
      else u)"

definition set_phone :: "(string \<times> string) list \<Rightarrow> int \<Rightarrow> User \<Rightarrow> User" where
  "set_phone upds t0 u = (fold set_phone_field upds u)\<lparr>u_UpdatedAt := t0\<rparr>"

section \<open>The run\<close>

record stats =
  st_processed :: nat
  st_encrypted :: nat
  st_rehashed :: nat
  st_skipped :: nat
  st_errors :: nat

definition no_stats :: stats where
  "no_stats = \<lparr>st_processed = 0, st_encrypted = 0, st_rehashed = 0, st_skipped = 0, st_errors = 0\<rparr>"

definition count_changes :: "(string \<times> string) list \<Rightarrow> stats \<Rightarrow> stats" where
  "count_changes upds s =
     (let s = (if ''phone_encrypted'' \<in> fst ` set upds then s\<lparr>st_encrypted := st_encrypted s + 1\<rparr> else s)
      in if ''phone_hash'' \<in> fst ` set upds then s\<lparr>st_rehashed := st_rehashed s + 1\<rparr> else s)"

definition count_error :: "stats \<Rightarrow> stats" where
  "count_error s = s\<lparr>st_errors := st_errors s + 1\<rparr>"

definition migrate_row ::
  "primitives \<Rightarrow> 'w runtime \<Rightarrow> 'w gorm \<Rightarrow> string \<Rightarrow> string \<Rightarrow> bool \<Rightarrow> User \<Rightarrow> stats \<Rightarrow> 'w \<Rightarrow> stats \<times> 'w" where
  "migrate_row pr rt db keyHex pepper dryRun u s w =
     (let s = s\<lparr>st_processed := st_processed s + 1\<rparr> in
      case computeUpdates pr rt u keyHex pepper w of
        (Inl e, w) \<Rightarrow> (count_error s, w)
      | (Inr upds, w) \<Rightarrow>
          (if upds = [] then (s\<lparr>st_skipped := st_skipped s + 1\<rparr>, w)
           else if dryRun then (count_changes upds s, w)
           else (case db (UpdateUsers (\<lambda>x. u_ID x = u_ID u \<and> user_live x) (set_phone upds)) w of
                   (Affected _, w) \<Rightarrow> (count_changes upds s, w)
                 | (_, w) \<Rightarrow> (count_error s, w))))"

fun migrate_rows ::
  "primitives \<Rightarrow> 'w runtime \<Rightarrow> 'w gorm \<Rightarrow> string \<Rightarrow> string \<Rightarrow> bool \<Rightarrow> User list \<Rightarrow> stats \<Rightarrow> 'w \<Rightarrow> stats \<times> 'w" where
  "migrate_rows pr rt db keyHex pepper dryRun [] s w = (s, w)"
| "migrate_rows pr rt db keyHex pepper dryRun (u # us) s w =
     (let (s, w) = migrate_row pr rt db keyHex pepper dryRun u s w
      in migrate_rows pr rt db keyHex pepper dryRun us s w)"

definition batchSize :: int where "batchSize = 200"

definition batch_query :: "int \<Rightarrow> User query" where
  "batch_query lastID =
     \<lparr>q_where = (\<lambda>u. u_ID u > lastID \<and> user_live u), q_order = [\<lambda>u. - u_ID u], q_offset = 0,
      q_limit = Some batchSize\<rparr>"

text \<open>The loop over the batches, with fuel for the rounds; the statistics come with an error.\<close>

fun migrate_from ::
  "primitives \<Rightarrow> 'w runtime \<Rightarrow> 'w gorm \<Rightarrow> string \<Rightarrow> string \<Rightarrow> bool \<Rightarrow> nat \<Rightarrow> int \<Rightarrow> stats \<Rightarrow> 'w
     \<Rightarrow> ((stats \<times> error) \<times> 'w) option" where
  "migrate_from pr rt db keyHex pepper dryRun 0 lastID s w = None"
| "migrate_from pr rt db keyHex pepper dryRun (Suc fuel) lastID s w =
     (case db (SelectUsers Default (batch_query lastID)) w of
        (Users us, w) \<Rightarrow>
          (if us = [] then Some ((s, None), w)
           else (case migrate_rows pr rt db keyHex pepper dryRun us s w of
                   (s, w) \<Rightarrow>
                     if int (length us) < batchSize then Some ((s, None), w)
                     else migrate_from pr rt db keyHex pepper dryRun fuel (u_ID (last us)) s w))
      | (SqlErr e, w) \<Rightarrow> Some ((s, Some (Wrap (''fetch batch after id='' @ FormatInt lastID) e)), w)
      | (_, w) \<Rightarrow> Some ((s, Some bad_reply), w))"

definition migrate ::
  "primitives \<Rightarrow> 'w runtime \<Rightarrow> 'w gorm \<Rightarrow> string \<Rightarrow> string \<Rightarrow> bool \<Rightarrow> nat \<Rightarrow> 'w \<Rightarrow> ((stats \<times> error) \<times> 'w) option" where
  "migrate pr rt db keyHex pepper dryRun fuel w = migrate_from pr rt db keyHex pepper dryRun fuel 0 no_stats w"

section \<open>A settled row\<close>

text \<open>The phone a row stands for, under a key: what it decrypts to, or else the column itself.\<close>

definition phone_of :: "primitives \<Rightarrow> string \<Rightarrow> User \<Rightarrow> string" where
  "phone_of pr keyHex u =
     (case DecryptPhone (prim_aead pr) (u_PhoneEncrypted u) keyHex of Inl e \<Rightarrow> u_PhoneEncrypted u | Inr p \<Rightarrow> p)"

text \<open>What the migration promises of the row u' that it leaves for u.\<close>

definition settles :: "primitives \<Rightarrow> string \<Rightarrow> string \<Rightarrow> User \<Rightarrow> User \<Rightarrow> bool" where
  "settles pr keyHex pepper u u' \<longleftrightarrow>
     DecryptPhone (prim_aead pr) (u_PhoneEncrypted u') keyHex = Inr (phone_of pr keyHex u)
     \<and> u_PhoneHash u' = HashPhone (prim_sha256 pr) (phone_of pr keyHex u) pepper
     \<and> u'\<lparr>u_PhoneEncrypted := u_PhoneEncrypted u, u_PhoneHash := u_PhoneHash u, u_UpdatedAt := u_UpdatedAt u\<rparr> = u"

lemma settles_same:
  assumes "settles pr keyHex pepper u u'"
  shows "u_ID u' = u_ID u" "user_live u' = user_live u"
proof -
  define v where "v = u'\<lparr>u_PhoneEncrypted := u_PhoneEncrypted u, u_PhoneHash := u_PhoneHash u, u_UpdatedAt := u_UpdatedAt u\<rparr>"
  have "v = u" using assms by (simp add: settles_def v_def)
  moreover have "u_ID v = u_ID u'" "user_live v = user_live u'" by (simp_all add: v_def user_live_def)
  ultimately show "u_ID u' = u_ID u" "user_live u' = user_live u" by simp_all
qed

text \<open>The laws of the cipher and of the random source.\<close>

definition cipher_laws :: "primitives \<Rightarrow> 'w runtime \<Rightarrow> bool" where
  "cipher_laws pr rt \<longleftrightarrow>
     (\<forall>k n p. gcm_Open (prim_aead pr) k n (gcm_Seal (prim_aead pr) k n p) = Some p)
     \<and> (\<forall>n w bs w'. rt_randBytes rt n w = (Inr bs, w') \<longrightarrow> length bs = n)"

lemma encrypt_decrypt:
  assumes "cipher_laws pr rt" "EncryptPhone (prim_aead pr) rt phone keyHex w = (Inr c, w')"
  shows "DecryptPhone (prim_aead pr) c keyHex = Inr phone"
  using decrypt_encrypted(1) [OF _ _ assms(2)] assms(1) unfolding cipher_laws_def by blast

lemma computed_settles:
  assumes "cipher_laws pr rt" "keyHex \<noteq> []" "computeUpdates pr rt u keyHex pepper w = (Inr upds, w')"
  shows "settles pr keyHex pepper u (set_phone upds t0 u)" "upds = [] \<Longrightarrow> settles pr keyHex pepper u u"
proof -
  let ?h = "HashPhone (prim_sha256 pr) (phone_of pr keyHex u) pepper"
  let ?re = "if ?h \<noteq> u_PhoneHash u then [(''phone_hash'', ?h)] else []"
  have "(\<exists>p. DecryptPhone (prim_aead pr) (u_PhoneEncrypted u) keyHex = Inr p \<and> upds = ?re)
      \<or> (\<exists>c. EncryptPhone (prim_aead pr) rt (phone_of pr keyHex u) keyHex w = (Inr c, w') \<and> upds = (''phone_encrypted'', c) # ?re)"
    using assms(2,3) by (auto simp: computeUpdates_def phone_of_def Let_def split: sum.splits prod.splits)
  then show "settles pr keyHex pepper u (set_phone upds t0 u)" "upds = [] \<Longrightarrow> settles pr keyHex pepper u u"
    using encrypt_decrypt [OF assms(1)]
    by (auto simp: settles_def set_phone_def set_phone_field_def phone_of_def split: if_splits)
qed

section \<open>The run over a table\<close>

text \<open>The table T' after the rows of T with an id in S have been settled.\<close>

definition row_upto :: "primitives \<Rightarrow> string \<Rightarrow> string \<Rightarrow> (int \<Rightarrow> bool) \<Rightarrow> User \<Rightarrow> User \<Rightarrow> bool" where
  "row_upto pr keyHex pepper S u u' \<longleftrightarrow>
     (if user_live u \<and> S (u_ID u) then settles pr keyHex pepper u u' else u' = u)"

definition settled_upto :: "primitives \<Rightarrow> string \<Rightarrow> string \<Rightarrow> (int \<Rightarrow> bool) \<Rightarrow> User list \<Rightarrow> User list \<Rightarrow> bool" where
  "settled_upto pr keyHex pepper S = list_all2 (row_upto pr keyHex pepper S)"

lemma row_upto_same:
  "row_upto pr keyHex pepper S u u' \<Longrightarrow> u_ID u' = u_ID u \<and> user_live u' = user_live u"
  using settles_same by (auto simp: row_upto_def split: if_splits)

lemma settled_ids:
  assumes "settled_upto pr keyHex pepper S T T'" shows "map u_ID T' = map u_ID T"
  using assms unfolding settled_upto_def by (induction rule: list_all2_induct) (auto dest: row_upto_same)

lemma settled_pairs:
  assumes "settled_upto pr keyHex pepper S T T'"
  shows "u \<in> set T \<Longrightarrow> \<exists>u'\<in>set T'. row_upto pr keyHex pepper S u u'"
    "u' \<in> set T' \<Longrightarrow> \<exists>u\<in>set T. row_upto pr keyHex pepper S u u'"
  using assms unfolding settled_upto_def by (induction rule: list_all2_induct) auto

lemma settled_todo:
  assumes "settled_upto pr keyHex pepper S T T'" "u' \<in> set T'" "\<not> S (u_ID u')"
  shows "u' \<in> set T"
proof -
  obtain u where "u \<in> set T" "row_upto pr keyHex pepper S u u'"
    using settled_pairs(2) [OF assms(1,2)] by blast
  with assms(3) row_upto_same [of pr keyHex pepper S u u'] show ?thesis by (auto simp: row_upto_def)
qed

lemma settled_done:
  assumes "settled_upto pr keyHex pepper S T T'" "u \<in> set T" "\<not> S (u_ID u)"
  shows "u \<in> set T'"
proof -
  obtain u' where "u' \<in> set T'" "row_upto pr keyHex pepper S u u'"
    using settled_pairs(1) [OF assms(1,2)] by blast
  with assms(3) show ?thesis by (simp add: row_upto_def)
qed

lemma settled_more:
  assumes "settled_upto pr keyHex pepper S T T'" "\<And>u. u \<in> set T \<Longrightarrow> user_live u \<Longrightarrow> S' (u_ID u) = S (u_ID u)"
  shows "settled_upto pr keyHex pepper S' T T'"
  using assms(1) unfolding settled_upto_def
  by (rule list.rel_mono_strong) (auto simp: row_upto_def assms(2))

text \<open>One row is settled: the statement has selected it, or it was so already.\<close>

lemma same_row:
  assumes "distinct (map u_ID T)" "u \<in> set T" "x \<in> set T" "u_ID x = u_ID u" shows "x = u"
  using assms by (auto simp: distinct_map dest: inj_onD)

lemma row_settled:
  assumes up: "settled_upto pr keyHex pepper S T T'" "distinct (map u_ID T)" and u: "u \<in> set T" "user_live u" "\<not> S (u_ID u)"
    and f: "settles pr keyHex pepper u (f u)"
  shows "settled_upto pr keyHex pepper (\<lambda>i. S i \<or> i = u_ID u) T (update_rows (\<lambda>x. u_ID x = u_ID u \<and> user_live x) f T')"
proof -
  have row: "row_upto pr keyHex pepper (\<lambda>i. S i \<or> i = u_ID u) x (if u_ID y = u_ID u \<and> user_live y then f y else y)"
    if x: "x \<in> set T" and r: "row_upto pr keyHex pepper S x y" for x y
  proof (cases "u_ID x = u_ID u")
    case True
    then have "x = u" by (rule same_row [OF up(2) u(1) x])
    with r u have "y = u" by (simp add: row_upto_def)
    with \<open>x = u\<close> u f show ?thesis by (simp add: row_upto_def)
  next
    case False
    with row_upto_same [OF r] r show ?thesis by (auto simp: row_upto_def)
  qed
  from up(1) show ?thesis
    unfolding settled_upto_def update_rows_def list_all2_map2 by (rule list.rel_mono_strong) (rule row)
qed

lemma row_settled_already:
  assumes up: "settled_upto pr keyHex pepper S T T'" "distinct (map u_ID T)" and u: "u \<in> set T" "\<not> S (u_ID u)"
    and s: "settles pr keyHex pepper u u"
  shows "settled_upto pr keyHex pepper (\<lambda>i. S i \<or> i = u_ID u) T T'"
proof -
  have "row_upto pr keyHex pepper (\<lambda>i. S i \<or> i = u_ID u) x y"
    if x: "x \<in> set T" and r: "row_upto pr keyHex pepper S x y" for x y
  proof (cases "u_ID x = u_ID u")
    case True
    then have "x = u" by (rule same_row [OF up(2) u(1) x])
    with r u s show ?thesis by (auto simp: row_upto_def)
  qed (use r in \<open>simp add: row_upto_def\<close>)
  with up(1) show ?thesis unfolding settled_upto_def by (auto elim: list.rel_mono_strong)
qed

text \<open>The batch that a page of the table is: the live rows past lastID, in order, as many as fit.\<close>

lemma batch_page:
  assumes "query_ok (batch_query lastID) T us" "distinct (map u_ID T)"
  shows "set us \<subseteq> {u \<in> set T. lastID < u_ID u \<and> user_live u}" "distinct (map u_ID us)"
    "us \<noteq> [] \<Longrightarrow> u \<in> set T \<Longrightarrow> user_live u \<Longrightarrow> lastID < u_ID u \<Longrightarrow> u_ID u \<le> u_ID (last us) \<Longrightarrow> u \<in> set us"
    "int (length us) < batchSize \<Longrightarrow> u \<in> set T \<Longrightarrow> user_live u \<Longrightarrow> lastID < u_ID u \<Longrightarrow> u \<in> set us"
proof -
  define P where "P u \<longleftrightarrow> lastID < u_ID u \<and> user_live u" for u
  obtain ys where ys: "mset ys = mset (filter P T)" "sorted_wrt (key_le [\<lambda>u. - u_ID u]) ys" "us = take (nat batchSize) ys"
    using assms(1) by (auto simp: query_ok_def batch_query_def window_def P_def)
  have set: "set ys = {u \<in> set T. P u}" using mset_eq_setD [OF ys(1)] by auto
  have "mset (map u_ID ys) = mset (map u_ID (filter P T))" using ys(1) by simp
  moreover have "distinct (map u_ID (filter P T))" using assms(2) by (simp add: distinct_map_filter)
  ultimately have d: "distinct (map u_ID ys)" by (metis mset_eq_imp_distinct_iff)
  show "set us \<subseteq> {u \<in> set T. lastID < u_ID u \<and> user_live u}"
    using set set_take_subset [of _ ys] by (auto simp: ys(3) P_def)
  show "distinct (map u_ID us)" using d by (simp add: ys(3) take_map [symmetric])
  show "u \<in> set us" if "int (length us) < batchSize" "u \<in> set T" "user_live u" "lastID < u_ID u"
  proof -
    have "us = ys" using that(1) by (simp add: ys(3) min_def split: if_splits)
    with set that show ?thesis by (simp add: P_def)
  qed
  show "u \<in> set us" if ne: "us \<noteq> []" and u: "u \<in> set T" "user_live u" "lastID < u_ID u" "u_ID u \<le> u_ID (last us)"
  proof (rule ccontr)
    assume n: "u \<notin> set us"
    have "u \<in> set ys" using set u by (simp add: P_def)
    then have dr: "u \<in> set (drop (nat batchSize) ys)"
      using n append_take_drop_id [of "nat batchSize" ys] by (metis Un_iff set_append ys(3))
    have "ys = us @ drop (nat batchSize) ys" by (simp add: ys(3))
    then have sp: "sorted_wrt (key_le [\<lambda>u. - u_ID u]) (us @ drop (nat batchSize) ys)"
      "distinct (map u_ID us @ map u_ID (drop (nat batchSize) ys))"
      using ys(2) d by (simp, metis map_append)
    have "last us \<in> set us" using ne by simp
    moreover have "\<forall>x\<in>set us. \<forall>y\<in>set (drop (nat batchSize) ys). u_ID x \<le> u_ID y"
      using sp(1) by (simp add: sorted_wrt_append le_less)
    ultimately have "u_ID (last us) \<le> u_ID u" "u_ID (last us) \<noteq> u_ID u"
      using sp(2) dr by (simp, auto)
    with u(4) show False by simp
  qed
qed

section \<open>A run without errors\<close>

lemma migrate_row_errors:
  assumes "migrate_row pr rt db keyHex pepper dryRun u s w = (s', w')"
  shows "st_errors s \<le> st_errors s'"
  using assms
  by (auto simp: migrate_row_def count_error_def count_changes_def Let_def split: sum.splits prod.splits if_splits sqlreply.splits)

lemma migrate_rows_errors:
  assumes "migrate_rows pr rt db keyHex pepper dryRun us s w = (s', w')"
  shows "st_errors s \<le> st_errors s'"
  using assms
proof (induction us arbitrary: s w)
  case (Cons u us)
  then show ?case using migrate_row_errors by (fastforce split: prod.splits)
qed simp

lemma migrate_from_errors:
  assumes "migrate_from pr rt db keyHex pepper dryRun fuel lastID s w = Some ((s', e), w')"
  shows "st_errors s \<le> st_errors s'"
  using assms
proof (induction fuel arbitrary: lastID s w)
  case (Suc fuel)
  show ?case
  proof (cases "db (SelectUsers Default (batch_query lastID)) w")
    case (Pair r w1)
    show ?thesis
    proof (cases r)
      case (Users us)
      obtain s2 w2 where m: "migrate_rows pr rt db keyHex pepper dryRun us s w1 = (s2, w2)" by fastforce
      with Suc.prems Pair Users migrate_rows_errors [OF m] show ?thesis
        by (auto split: if_splits dest!: Suc.IH)
    qed (use Suc.prems Pair in auto)
  qed
qed simp

lemma batch_last:
  assumes "query_ok (batch_query lastID) T us" "us \<noteq> []" "u \<in> set us"
  shows "u_ID u \<le> u_ID (last us)"
proof -
  obtain ys where ys: "sorted_wrt (key_le [\<lambda>u. - u_ID u]) ys" "us = take (nat batchSize) ys"
    using assms(1) by (auto simp: query_ok_def batch_query_def window_def)
  then have "sorted_wrt (key_le [\<lambda>u. - u_ID u]) (butlast us @ [last us])"
    using assms(2) by (simp add: sorted_wrt_take)
  then have "\<forall>x\<in>set (butlast us). u_ID x \<le> u_ID (last us)" by (simp add: sorted_wrt_append le_less)
  moreover have "u \<in> set (butlast us) \<or> u = last us"
    using assms(2,3) by (metis append_butlast_last_id in_set_conv_decomp insert_iff list.set(2) rotate1.simps(2) set_rotate1)
  ultimately show ?thesis by auto
qed

context mysql_server
begin

text \<open>Neither the cipher nor the random source is a statement.\<close>

lemma migrate_row_settles:
  assumes laws: "cipher_laws pr rt" "keyHex \<noteq> []" "\<And>n w. t_users (master (snd (rt_randBytes rt n w))) = t_users (master w)"
    and up: "settled_upto pr keyHex pepper S T (t_users (master w))" "distinct (map u_ID T)"
    and u: "u \<in> set T" "user_live u" "\<not> S (u_ID u)"
    and run: "migrate_row pr rt db keyHex pepper False u s w = (s', w')" "st_errors s' \<le> st_errors s"
  shows "settled_upto pr keyHex pepper (\<lambda>i. S i \<or> i = u_ID u) T (t_users (master w'))"
proof -
  obtain c w1 where c: "computeUpdates pr rt u keyHex pepper w = (c, w1)" by fastforce
  have w1: "t_users (master w1) = t_users (master w)"
    using c laws(3) by (auto simp: computeUpdates_def EncryptPhone_def Let_def split: if_splits sum.splits prod.splits) (metis snd_conv)+
  obtain upds where upds: "c = Inr upds"
    using run c by (cases c) (auto simp: migrate_row_def count_error_def)
  note settles = computed_settles [OF laws(1,2) c [unfolded upds]]
  show ?thesis
  proof (cases "upds = []")
    case True
    then have "w' = w1" using run(1) c upds by (simp add: migrate_row_def)
    with row_settled_already [OF up u(1,3) settles(2) [OF True]] w1 show ?thesis by simp
  next
    case False
    obtain r w2 where r: "db (UpdateUsers (\<lambda>x. u_ID x = u_ID u \<and> user_live x) (set_phone upds)) w1 = (r, w2)" by fastforce
    obtain n where n: "r = Affected n" and w2: "w' = w2"
      using run c upds False r by (cases r) (auto simp: migrate_row_def count_error_def Let_def)
    obtain t0 where "t_users (master w2) = update_rows (\<lambda>x. u_ID x = u_ID u \<and> user_live x) (set_phone upds t0) (t_users (master w1))"
      using sql_update_users [OF r] n by auto
    with row_settled [OF up u, of "set_phone upds t0", OF settles(1)] w1 w2 show ?thesis by simp
  qed
qed

lemma migrate_rows_settles:
  assumes laws: "cipher_laws pr rt" "keyHex \<noteq> []" "\<And>n w. t_users (master (snd (rt_randBytes rt n w))) = t_users (master w)"
    and T: "distinct (map u_ID T)"
  shows "settled_upto pr keyHex pepper S T (t_users (master w)) \<Longrightarrow> set us \<subseteq> {u \<in> set T. user_live u \<and> \<not> S (u_ID u)}
    \<Longrightarrow> distinct (map u_ID us) \<Longrightarrow> migrate_rows pr rt db keyHex pepper False us s w = (s', w') \<Longrightarrow> st_errors s' \<le> st_errors s
    \<Longrightarrow> settled_upto pr keyHex pepper (\<lambda>i. S i \<or> i \<in> u_ID ` set us) T (t_users (master w'))"
proof (induction us arbitrary: S s w)
  case (Cons u us)
  obtain s1 w1 where r: "migrate_row pr rt db keyHex pepper False u s w = (s1, w1)" by fastforce
  have rest: "migrate_rows pr rt db keyHex pepper False us s1 w1 = (s', w')" using Cons.prems(4) r by simp
  have errs: "st_errors s1 \<le> st_errors s" "st_errors s' \<le> st_errors s1"
    using Cons.prems(5) migrate_row_errors [OF r] migrate_rows_errors [OF rest] by linarith+
  have "settled_upto pr keyHex pepper (\<lambda>i. S i \<or> i = u_ID u) T (t_users (master w1))"
    by (rule migrate_row_settles [OF laws Cons.prems(1) T _ _ _ r errs(1)]) (use Cons.prems(2) in auto)
  moreover have "set us \<subseteq> {x \<in> set T. user_live x \<and> \<not> (S (u_ID x) \<or> u_ID x = u_ID u)}" "distinct (map u_ID us)"
    using Cons.prems(2,3) by (auto, metis imageI)
  ultimately have "settled_upto pr keyHex pepper (\<lambda>i. (S i \<or> i = u_ID u) \<or> i \<in> u_ID ` set us) T (t_users (master w'))"
    by (rule Cons.IH [OF _ _ _ rest errs(2)])
  then show ?case by (simp add: disj_assoc)
qed simp

lemma migrate_from_settles:
  assumes laws: "cipher_laws pr rt" "keyHex \<noteq> []" "\<And>n w. t_users (master (snd (rt_randBytes rt n w))) = t_users (master w)"
    and T: "distinct (map u_ID T)" and one: "replica = master"
  shows "settled_upto pr keyHex pepper (\<lambda>i. i \<le> lastID) T (t_users (master w))
    \<Longrightarrow> migrate_from pr rt db keyHex pepper False fuel lastID s w = Some ((s', None), w') \<Longrightarrow> st_errors s' \<le> st_errors s
    \<Longrightarrow> settled_upto pr keyHex pepper (\<lambda>_. True) T (t_users (master w'))"
proof (induction fuel arbitrary: lastID s w)
  case (Suc fuel)
  obtain r w1 where r: "db (SelectUsers Default (batch_query lastID)) w = (r, w1)" by fastforce
  obtain us where us: "r = Users us" using Suc.prems(2) r by (cases r) (auto split: if_splits)
  have w1: "t_users (master w1) = t_users (master w)" by (rule sql_read [OF r, of Default]) auto
  have q: "query_ok (batch_query lastID) (t_users (master w)) us"
    by (rule sql_read [OF r, of Default]) (use us one in auto)
  have ids: "distinct (map u_ID (t_users (master w)))" using settled_ids [OF Suc.prems(1)] T by simp
  note page = batch_page [OF q ids]
  have todo: "set us \<subseteq> {u \<in> set T. user_live u \<and> \<not> u_ID u \<le> lastID}"
    using page(1) settled_todo [OF Suc.prems(1)] by auto
  have old: "u \<in> set (t_users (master w))" if "u \<in> set T" "lastID < u_ID u" for u
    using settled_done [OF Suc.prems(1)] that by simp
  show ?case
  proof (cases "us = []")
    case True
    then have "w' = w1" using Suc.prems(2) r us by simp
    moreover have "u_ID u \<le> lastID" if "u \<in> set T" "user_live u" for u
      using page(4) [of u] old [of u] that True by (force simp: batchSize_def)
    ultimately show ?thesis using settled_more [OF Suc.prems(1)] w1 by auto
  next
    case False
    obtain s2 w2 where m: "migrate_rows pr rt db keyHex pepper False us s w1 = (s2, w2)" by fastforce
    have fin: "int (length us) < batchSize \<and> (s', w') = (s2, w2)
        \<or> \<not> int (length us) < batchSize \<and> migrate_from pr rt db keyHex pepper False fuel (u_ID (last us)) s2 w2 = Some ((s', None), w')"
      using Suc.prems(2) r us False m by (auto split: if_splits)
    have "st_errors s2 \<le> st_errors s'" using fin by (elim disjE conjE) (auto dest: migrate_from_errors)
    then have "st_errors s2 \<le> st_errors s" using Suc.prems(3) by linarith
    from migrate_rows_settles [OF laws T _ todo page(2) m this] Suc.prems(1) w1
    have up: "settled_upto pr keyHex pepper (\<lambda>i. i \<le> lastID \<or> i \<in> u_ID ` set us) T (t_users (master w2))" by simp
    show ?thesis
    proof (cases "int (length us) < batchSize")
      case True
      have "u_ID u \<le> lastID \<or> u_ID u \<in> u_ID ` set us" if "u \<in> set T" "user_live u" for u
        using page(4) [OF True old that(2)] that by force
      with settled_more [OF up] fin True show ?thesis by auto
    next
      case more: False
      have "u_ID u \<le> lastID \<or> u_ID u \<in> u_ID ` set us \<longleftrightarrow> u_ID u \<le> u_ID (last us)" if "u \<in> set T" "user_live u" for u
      proof -
        have "lastID < u_ID (last us)" using todo False last_in_set by fastforce
        moreover have "i \<le> u_ID (last us)" if "i \<in> u_ID ` set us" for i using batch_last [OF q False] that by auto
        ultimately show ?thesis using page(3) [OF False old that(2)] that by force
      qed
      then have "settled_upto pr keyHex pepper (\<lambda>i. i \<le> u_ID (last us)) T (t_users (master w2))"
        by (intro settled_more [OF up]) auto
      moreover have "migrate_from pr rt db keyHex pepper False fuel (u_ID (last us)) s2 w2 = Some ((s', None), w')"
        using fin more by simp
      moreover have "st_errors s' \<le> st_errors s2" using Suc.prems(3) migrate_rows_errors [OF m] by linarith
      ultimately show ?thesis by (rule Suc.IH)
    qed
  qed
qed simp

end

section \<open>Termination\<close>

text \<open>What decides which batches there are: the ids and whether a row is live.\<close>

definition row_keys :: "User list \<Rightarrow> (int \<times> bool) list" where
  "row_keys T = map (\<lambda>u. (u_ID u, user_live u)) T"

lemma set_phone_keys [simp]: "u_ID (set_phone upds t u) = u_ID u" "user_live (set_phone upds t u) = user_live u"
proof -
  have "u_ID (fold set_phone_field upds u) = u_ID u \<and> u_DeletedAt (fold set_phone_field upds u) = u_DeletedAt u"
    by (induction upds arbitrary: u) (auto simp: set_phone_field_def)
  then show "u_ID (set_phone upds t u) = u_ID u" "user_live (set_phone upds t u) = user_live u"
    by (simp_all add: set_phone_def user_live_def)
qed

definition rows_left :: "int \<Rightarrow> User list \<Rightarrow> nat" where
  "rows_left lastID T = length (filter (\<lambda>(i, l). l \<and> lastID < i) (row_keys T))"

lemma rows_left_drop:
  assumes "u \<in> set T" "user_live u" "lastID < u_ID u"
  shows "rows_left (u_ID u) T < rows_left lastID T"
proof -
  let ?left = "\<lambda>b (i, l). l \<and> b < (i::int)"
  have "(u_ID u, True) \<in> set (filter (?left lastID) (row_keys T))" using assms by (auto simp: row_keys_def)
  then have "length (filter (?left (u_ID u)) (filter (?left lastID) (row_keys T))) < length (filter (?left lastID) (row_keys T))"
    by (rule length_filter_less) simp
  moreover have "filter (?left (u_ID u)) (filter (?left lastID) (row_keys T)) = filter (?left (u_ID u)) (row_keys T)"
    unfolding filter_filter by (rule filter_cong) (use assms(3) in auto)
  ultimately show ?thesis by (simp add: rows_left_def)
qed

context mysql_server
begin

lemma migrate_row_keys:
  assumes rand: "\<And>n w. t_users (master (snd (rt_randBytes rt n w))) = t_users (master w)"
    and run: "migrate_row pr rt db keyHex pepper dryRun u s w = (s', w')"
  shows "row_keys (t_users (master w')) = row_keys (t_users (master w))"
    "dryRun \<Longrightarrow> t_users (master w') = t_users (master w)"
proof -
  obtain c w1 where c: "computeUpdates pr rt u keyHex pepper w = (c, w1)" by fastforce
  have w1: "t_users (master w1) = t_users (master w)"
    using c rand by (auto simp: computeUpdates_def EncryptPhone_def Let_def split: if_splits sum.splits prod.splits) (metis snd_conv)+
  show "row_keys (t_users (master w')) = row_keys (t_users (master w))"
  proof (cases "w' = w1")
    case False
    then obtain upds where "c = Inr upds" "snd (db (UpdateUsers (\<lambda>x. u_ID x = u_ID u \<and> user_live x) (set_phone upds)) w1) = w'"
      using run c by (auto simp: migrate_row_def Let_def split: sum.splits prod.splits if_splits sqlreply.splits)
    then obtain r where "db (UpdateUsers (\<lambda>x. u_ID x = u_ID u \<and> user_live x) (set_phone upds)) w1 = (r, w')"
      by (metis prod.collapse)
    from sql_update_users [OF this] w1 show ?thesis by (auto simp: row_keys_def update_rows_def)
  qed (simp add: w1)
  show "t_users (master w') = t_users (master w)" if dryRun
    using run c w1 that by (auto simp: migrate_row_def Let_def split: sum.splits if_splits)
qed

lemma migrate_rows_keys:
  assumes rand: "\<And>n w. t_users (master (snd (rt_randBytes rt n w))) = t_users (master w)"
  shows "migrate_rows pr rt db keyHex pepper dryRun us s w = (s', w') \<Longrightarrow>
     row_keys (t_users (master w')) = row_keys (t_users (master w)) \<and> (dryRun \<longrightarrow> t_users (master w') = t_users (master w))"
proof (induction us arbitrary: s w)
  case (Cons u us)
  obtain s1 w1 where r: "migrate_row pr rt db keyHex pepper dryRun u s w = (s1, w1)" by fastforce
  with Cons migrate_row_keys [OF rand r] show ?case by fastforce
qed simp

lemma migrate_from_ends:
  assumes rand: "\<And>n w. t_users (master (snd (rt_randBytes rt n w))) = t_users (master w)" and one: "replica = master"
  shows "rows_left lastID (t_users (master w)) < fuel \<Longrightarrow>
     \<exists>s' e w'. migrate_from pr rt db keyHex pepper dryRun fuel lastID s w = Some ((s', e), w')
        \<and> (dryRun \<longrightarrow> t_users (master w') = t_users (master w))"
proof (induction fuel arbitrary: lastID s w)
  case (Suc fuel)
  obtain r w1 where r: "db (SelectUsers Default (batch_query lastID)) w = (r, w1)" by fastforce
  have w1: "t_users (master w1) = t_users (master w)" by (rule sql_read [OF r, of Default]) auto
  show ?case
  proof (cases r)
    case us: (Users us)
    show ?thesis
    proof (cases "us = []")
      case False
      have q: "query_ok (batch_query lastID) (t_users (master w)) us"
        by (rule sql_read [OF r, of Default]) (use us one in auto)
      have "last us \<in> set us" using False by simp
      then have l: "last us \<in> set (t_users (master w))" "user_live (last us)" "lastID < u_ID (last us)"
        using query_ok_subset [OF q, of "last us"] by (auto simp: batch_query_def)
      obtain s2 w2 where m: "migrate_rows pr rt db keyHex pepper dryRun us s w1 = (s2, w2)" by fastforce
      have k: "row_keys (t_users (master w2)) = row_keys (t_users (master w))" "dryRun \<longrightarrow> t_users (master w2) = t_users (master w)"
        using migrate_rows_keys [OF rand m] w1 by simp_all
      have "rows_left (u_ID (last us)) (t_users (master w2)) < fuel"
        using rows_left_drop [OF l] Suc.prems by (simp add: rows_left_def k)
      from Suc.IH [OF this] m us r k(2) show ?thesis by auto
    qed (use r us w1 in auto)
  qed (use r w1 in auto)
qed simp

end

text \<open>
  C16: After a run of the migration that reports no error, on a connection without replicas,
  under a key and with distinct positive ids, every live row stores its phone encrypted under
  the key and hashed with the pepper, where its phone is what the old column decrypts to or else the
  old column itself; nothing else but updated_at of a live row has changed, deleted rows have not changed,
  and a second run would find nothing to update: computeUpdates answers the empty map for every live row.
\<close>
theorem migrate_settles:
  assumes "mysql_server db master master" "cipher_laws pr rt" "\<forall>n w. t_users (master (snd (rt_randBytes rt n w))) = t_users (master w)"
    and "keyHex \<noteq> []" "distinct (map u_ID (t_users (master w)))" "\<forall>u\<in>set (t_users (master w)). 0 < u_ID u"
    and "migrate pr rt db keyHex pepper False fuel w = Some ((s, None), w')" "st_errors s = 0"
  shows "list_all2 (\<lambda>u u'. if user_live u then settles pr keyHex pepper u u' else u' = u)
           (t_users (master w)) (t_users (master w'))
     \<and> (\<forall>u'\<in>set (t_users (master w')). user_live u' \<longrightarrow> (\<forall>v. computeUpdates pr rt u' keyHex pepper v = (Inr [], v)))"
proof -
  let ?T = "t_users (master w)"
  have start: "settled_upto pr keyHex pepper (\<lambda>i. i \<le> 0) ?T ?T"
    unfolding settled_upto_def using assms(6) by (auto simp: row_upto_def list_all2_same)
  have up: "settled_upto pr keyHex pepper (\<lambda>_. True) ?T (t_users (master w'))"
    by (rule mysql_server.migrate_from_settles [OF assms(1,2,4) _ assms(5) refl start assms(7) [unfolded migrate_def]])
      (use assms(3,8) in auto)
  have settled: "computeUpdates pr rt u' keyHex pepper v = (Inr [], v)"
    if "u' \<in> set (t_users (master w'))" "user_live u'" for u' v
  proof -
    note live = that
    obtain u where r: "row_upto pr keyHex pepper (\<lambda>_. True) u u'" using settled_pairs(2) [OF up live(1)] by blast
    with live(2) row_upto_same [OF r] have "settles pr keyHex pepper u u'" by (simp add: row_upto_def)
    then show ?thesis using assms(4) by (simp add: settles_def computeUpdates_def)
  qed
  moreover have "list_all2 (\<lambda>u u'. if user_live u then settles pr keyHex pepper u u' else u' = u) ?T (t_users (master w'))"
    using up unfolding settled_upto_def by (rule list_all2_mono) (simp add: row_upto_def)
  ultimately show ?thesis by blast
qed

text \<open>
  C34: The migration ends: on a connection without replicas one round more than there are live rows with a
  positive id is always enough, whatever fails, because every batch ends past lastID; and a dry run
  leaves the users as they are.
\<close>
theorem migrate_ends:
  assumes "mysql_server db master master" "\<forall>n w. t_users (master (snd (rt_randBytes rt n w))) = t_users (master w)"
    and "length (filter (\<lambda>u. user_live u \<and> 0 < u_ID u) (t_users (master w))) < fuel"
  shows "\<exists>s e w'. migrate pr rt db keyHex pepper dryRun fuel w = Some ((s, e), w')
     \<and> (dryRun \<longrightarrow> t_users (master w') = t_users (master w))"
  unfolding migrate_def
  by (rule mysql_server.migrate_from_ends [OF assms(1) _ refl])
    (use assms(2,3) in \<open>auto simp: rows_left_def row_keys_def filter_map comp_def\<close>)

section \<open>An example\<close>

text \<open>A connection to one server, as the command opens it.\<close>

definition single_db :: "world gorm" where
  "single_db q w =
     (case read_route q of
        None \<Rightarrow> (let (r, s) = dml q (w_db w) in (r, w\<lparr>w_db := s\<rparr>))
      | Some _ \<Rightarrow> (run_read q (w_db w), w))"

interpretation single: mysql_server single_db w_db w_db
proof unfold_locales
  show "\<exists>d\<ge>0. \<exists>g. (\<forall>t. 0 \<le> g t) \<and>
         (case read_route q of
            None \<Rightarrow>
              dml q (advance d g (w_db w)) = (r, w_db w')
              \<or> (\<exists>m. r = SqlErr (Plain m)) \<and>
                 (w_db w' = advance d g (w_db w)
                  \<or> w_db w' = snd (dml q (advance d g (w_db w))))
          | Some rt \<Rightarrow>
              w_db w' = advance d g (w_db w)
              \<and> ((\<exists>m. r = SqlErr (Plain m))
                 \<or> answers q (if rt = Write then w_db w else w_db w) r))"
    if "single_db q w = (r, w')" for q w r w'
    using that answers_run_read [of q]
    by (intro exI [of _ 0] exI [of _ "\<lambda>_. 0"])
      (auto simp: single_db_def split: if_splits option.splits prod.splits)
qed

lemma doc_random: "t_users (w_db (snd (rt_randBytes doc_rt n w))) = t_users (w_db w)"
  by (simp add: doc_rt_def)

text \<open>A row of the time before the encryption, and one that was deleted.\<close>

definition old_world :: world where
  "old_world = demo_world\<lparr>w_db := (empty_db 1000)\<lparr>t_users :=
     [(demo_user 7 ''ann'')\<lparr>u_PhoneEncrypted := ''138''\<rparr>,
      (demo_user 42 ''bob'')\<lparr>u_DeletedAt := Some 900\<rparr>]\<rparr>\<rparr>"

lemma phone_laws: "cipher_laws doc_prims doc_rt"
  by (auto simp: cipher_laws_def doc_prims_def open_cipher_def doc_rt_def)

theorem migrate_settles_witness:
  "\<exists>s w'. migrate doc_prims doc_rt single_db demo_key ''pepper'' False 1 old_world = Some ((s, None), w')
     \<and> st_encrypted s = 1 \<and> st_processed s = 1
     \<and> (\<exists>u\<in>set (t_users (w_db w')). u_ID u = 7 \<and> DecryptPhone open_cipher (u_PhoneEncrypted u) demo_key = Inr ''138'')"
proof -
  let ?r = "migrate doc_prims doc_rt single_db demo_key ''pepper'' False 1 old_world"
  let ?u = "(demo_user 7 ''ann'')\<lparr>u_PhoneEncrypted := ''138''\<rparr>"
  let ?gone = "(demo_user 42 ''bob'')\<lparr>u_DeletedAt := Some 900\<rparr>"
  have sel: "single_db (SelectUsers Default (batch_query 0)) old_world = (Users [?u], old_world)"
    by (simp add: single_db_def old_world_def run_query_def batch_query_def window_def batchSize_def demo_user_def
        zero_User_def user_live_def)
  have c: "map_sum (\<lambda>e. ()) (map (\<lambda>(k, v). (k, v = ''42''))) (fst (computeUpdates doc_prims doc_rt ?u demo_key ''pepper'' old_world))
      = Inr [(''phone_encrypted'', False), (''phone_hash'', False)]"
    by code_simp
  obtain r0 w1 where cr: "computeUpdates doc_prims doc_rt ?u demo_key ''pepper'' old_world = (r0, w1)" by fastforce
  then obtain upds where r0: "r0 = Inr upds" and cols: "map (\<lambda>(k, v). (k, v = ''42'')) upds = [(''phone_encrypted'', False), (''phone_hash'', False)]"
    using c by (cases r0) auto
  then obtain x y where upds: "upds = [(''phone_encrypted'', x), (''phone_hash'', y)]" and y: "y \<noteq> ''42''"
    by (auto simp: map_eq_Cons_conv)
  have db1: "t_users (w_db w1) = [?u, ?gone]"
    using cr by (auto simp: computeUpdates_def EncryptPhone_def Let_def doc_rt_def old_world_def split: if_splits sum.splits)
  have id42: "FormatInt 42 = ''42''" by code_simp
  have "\<exists>n w2. single_db (UpdateUsers (\<lambda>z. u_ID z = u_ID ?u \<and> user_live z) (set_phone upds)) w1 = (Affected n, w2)"
    by (simp add: single_db_def db1 upds update_rows_def set_phone_def set_phone_field_def demo_user_def zero_User_def
        user_live_def user_row_ok_def in_uint32_def id42 y)
  then obtain n w' where upd: "single_db (UpdateUsers (\<lambda>z. u_ID z = u_ID ?u \<and> user_live z) (set_phone upds)) w1 = (Affected n, w')"
    by blast
  have r: "?r = Some ((\<lparr>st_processed = 1, st_encrypted = 1, st_rehashed = 1, st_skipped = 0, st_errors = 0\<rparr>, None), w')"
    using upd by (simp add: migrate_def numeral_eq_Suc sel migrate_row_def cr r0 upds no_stats_def count_changes_def batchSize_def)
  have T: "t_users (w_db old_world) = [(demo_user 7 ''ann'')\<lparr>u_PhoneEncrypted := ''138''\<rparr>, (demo_user 42 ''bob'')\<lparr>u_DeletedAt := Some 900\<rparr>]"
    by (simp add: old_world_def)
  have ids: "distinct (map u_ID (t_users (w_db old_world)))" "\<forall>u\<in>set (t_users (w_db old_world)). 0 < u_ID u"
    unfolding T by (simp_all add: demo_user_def)
  have key: "demo_key \<noteq> []" by code_simp
  note m = migrate_settles [OF single.mysql_server_axioms phone_laws _ key ids r, THEN conjunct1]
  have "list_all2 (\<lambda>u u'. if user_live u then settles doc_prims demo_key ''pepper'' u u' else u' = u)
      (t_users (w_db old_world)) (t_users (w_db w'))"
    by (rule m) (simp_all add: doc_random)
  moreover have "user_live ?u" by (simp add: user_live_def demo_user_def zero_User_def)
  ultimately have "\<exists>z\<in>set (t_users (w_db w')). settles doc_prims demo_key ''pepper'' ?u z"
    unfolding T by (cases "t_users (w_db w')") simp_all
  then obtain z where z: "z \<in> set (t_users (w_db w'))" "settles doc_prims demo_key ''pepper'' ?u z" by blast
  moreover have "phone_of doc_prims demo_key ?u = ''138''" by code_simp
  moreover have "prim_aead doc_prims = open_cipher" by (simp add: doc_prims_def)
  moreover have "u_ID z = 7" using settles_same(1) [OF z(2)] by (simp add: demo_user_def)
  ultimately have "\<exists>u\<in>set (t_users (w_db w')). u_ID u = 7 \<and> DecryptPhone open_cipher (u_PhoneEncrypted u) demo_key = Inr ''138''"
    by (intro bexI [OF _ z(1)]) (simp add: settles_def)
  with r show ?thesis by force
qed

theorem migrate_ends_witness:
  "\<exists>s e w'. migrate doc_prims doc_rt single_db demo_key ''pepper'' True 3 old_world = Some ((s, e), w')
     \<and> t_users (w_db w') = t_users (w_db old_world)"
proof -
  have "length (filter (\<lambda>u. user_live u \<and> 0 < u_ID u) (t_users (w_db old_world))) < 3" by code_simp
  from migrate_ends [OF single.mysql_server_axioms _ this, where dryRun = True] show ?thesis
    by (simp add: doc_random)
qed

end
