(* ===== verification/Server.thy ===== *)
theory Server
  imports Router Lifecycle MigratePhone
begin

text \<open>
  cmd/server/main.go: how the process is put together.  The clients of the libraries are
  parameters; from them and the configuration the components are built and wired, in the order of main.
\<close>

section \<open>Connections\<close>

text \<open>What gorm.Open, the resolver and the pool are given; the errors of these calls are parameters.\<close>

record mysql_setup =
  ms_master :: string
  ms_replicas :: "string list"
  ms_MaxOpenConns :: int
  ms_MaxIdleConns :: int
  ms_MaxLifetime :: int
  ms_MaxIdleTime :: int
  ms_logLevel :: string

definition gorm_level :: "string \<Rightarrow> string" where
  "gorm_level l = (if l \<in> {''silent'', ''error'', ''info''} then l else ''warn'')"

definition initMySQL :: "DatabaseConfig \<Rightarrow> error \<Rightarrow> error \<Rightarrow> error \<Rightarrow> error \<Rightarrow> mysql_setup result" where
  "initMySQL cfg openErr resolverErr dbErr pingErr =
     (case openErr of
        Some e \<Rightarrow> err (Wrap ''gorm open'' e)
      | None \<Rightarrow>
          (case (if length (dbc_SlavesDSN cfg) > 0 then resolverErr else None) of
             Some e \<Rightarrow> err (Wrap ''register dbresolver'' e)
           | None \<Rightarrow>
               (case dbErr of
                  Some e \<Rightarrow> err (Wrap ''get sql.DB'' e)
                | None \<Rightarrow>
                    (case pingErr of
                       Some e \<Rightarrow> err (Wrap ''mysql ping'' e)
                     | None \<Rightarrow>
                         ok \<lparr>ms_master = dbc_DSN cfg, ms_replicas = dbc_SlavesDSN cfg, ms_MaxOpenConns = dbc_MaxOpenConns cfg,
                             ms_MaxIdleConns = dbc_MaxIdleConns cfg, ms_MaxLifetime = dbc_MaxLifetime cfg,
                             ms_MaxIdleTime = dbc_MaxIdleTime cfg, ms_logLevel = gorm_level (dbc_LogLevel cfg)\<rparr>))))"

text \<open>The options of the client: one address, or a master that the sentinels name.\<close>

datatype redis_target = SingleAddr string | MasterOf string "string list"

record redis_options =
  ro_target :: redis_target
  ro_Password :: string
  ro_DB :: int
  ro_PoolSize :: int
  ro_DialTimeout :: int
  ro_ReadTimeout :: int
  ro_WriteTimeout :: int

definition initRedis :: "RedisConfig \<Rightarrow> error \<Rightarrow> redis_options result" where
  "initRedis cfg pingErr =
     (case pingErr of
        Some e \<Rightarrow> err (Wrap ''redis ping'' e)
      | None \<Rightarrow>
          ok \<lparr>ro_target = (if rdc_Mode cfg = ''sentinel'' then MasterOf (rdc_MasterName cfg) (rdc_SentinelAddrs cfg)
                          else SingleAddr (rdc_Addr cfg)),
              ro_Password = rdc_Password cfg, ro_DB = rdc_DB cfg, ro_PoolSize = rdc_PoolSize cfg,
              ro_DialTimeout = rdc_DialTimeout cfg, ro_ReadTimeout = rdc_ReadTimeout cfg, ro_WriteTimeout = rdc_WriteTimeout cfg\<rparr>)"

section \<open>The event bus\<close>

text \<open>The channel bus lives in the world, where cl_getBus finds it.\<close>

datatype 'w bus = InMemory | Broker "'w RabbitMQBus"

record 'w clients =
  cl_rt :: "'w runtime"
  cl_prims :: primitives
  cl_rdb :: "'w rdb"
  cl_db :: "'w gorm"
  cl_fulltext :: "'w fulltext"
  cl_getBus :: "'w \<Rightarrow> ChannelBus"
  cl_putBus :: "ChannelBus \<Rightarrow> 'w \<Rightarrow> 'w"
  cl_rabbit :: "MQConfig \<Rightarrow> 'w RabbitMQBus"
  cl_dypns :: "'w dypns"
  cl_dypnsErr :: error
  cl_green :: "string \<Rightarrow> string \<Rightarrow> string \<Rightarrow> 'w green result"
  cl_ossListen :: error
  cl_ossNew :: error
  cl_ossBucket :: error
  cl_signURL :: "'w signurl"
  cl_yyyymm :: "int \<Rightarrow> string"
  cl_pingDB :: "'w \<Rightarrow> error \<times> 'w"
  cl_pingRedis :: "'w \<Rightarrow> error \<times> 'w"
  cl_validatorErr :: error

definition initEventBus :: "'w clients \<Rightarrow> MQConfig \<Rightarrow> 'w \<Rightarrow> 'w bus result \<times> 'w" where
  "initEventBus cl cfg w =
     (if mq_Provider cfg \<in> {''channel'', []} then (ok InMemory, cl_putBus cl (NewChannelBus 1024) w)
      else if mq_Provider cfg = ''rabbitmq'' then
        (if mq_URL cfg = [] then (err (Plain ''mq.url is required when provider=rabbitmq''), w)
         else (case NewRabbitMQBus (cl_rabbit cl cfg) w of
                 (Some e, w) \<Rightarrow> (err e, w)
               | (None, w) \<Rightarrow> (ok (Broker (cl_rabbit cl cfg)), w)))
      else (err (Plain (''unknown mq provider: '' @ quoted (mq_Provider cfg) @ '' (supported: channel, rabbitmq)'')), w))"

definition bus_publisher :: "'w clients \<Rightarrow> 'w bus \<Rightarrow> 'w publisher" where
  "bus_publisher cl bus c e w =
     (case bus of
        InMemory \<Rightarrow> (case ChannelBus_Publish e (cl_getBus cl w) of (r, b) \<Rightarrow> (r, cl_putBus cl b w))
      | Broker b \<Rightarrow> RabbitMQBus_Publish b e w)"

section \<open>Wiring\<close>

definition wire :: "'w clients \<Rightarrow> Config \<Rightarrow> 'w publisher \<Rightarrow> 'w smsSender \<Rightarrow> 'w oss_presign \<Rightarrow> 'w server" where
  "wire cl cfg pub smsSender ossClient =
     (let rdb = cl_rdb cl; db = cl_db cl; rt = cl_rt cl;
          userCache = NewUserCache rdb (cac_UserSMSDailyTTL (cfg_Cache cfg));
          userRepo = NewUserRepository db;
          followRepo = NewFollowRepository db;
          jwtMgr = NewManager (cfg_JWT cfg);
          writeMarker = NewWriteMarker rdb 5000;
          userSvc = NewUserService userRepo (Some followRepo) userCache writeMarker jwtMgr smsSender (cfg_SMS cfg)
                      (cfg_OSS cfg) (cfg_Encryption cfg) (cfg_Ratelimit cfg);
          postRepo = NewPostRepository rt db;
          feedCache = NewFeedCache rdb (cac_FeedCacheTTL (cfg_Cache cfg)) (cac_PVDedupTTL (cfg_Cache cfg));
          likeCache = NewLikeCache rdb (cac_LikeStateTTL (cfg_Cache cfg));
          authorAssembler = NewAuthorAssembler userRepo;
          postSvc = NewPostService postRepo userRepo feedCache (Some likeCache) writeMarker pub authorAssembler
                      (cfg_OSS cfg) (cac_FeedCacheTTL (cfg_Cache cfg));
          likeSvc = NewLikeService postRepo likeCache pub;
          searchSvc = NewSearchService (NewSearchRepository (cl_fulltext cl) db) authorAssembler (Some likeCache) (cfg_Search cfg);
          followSvc = NewFollowService followRepo userRepo pub writeMarker (cfg_Follow cfg);
          uploadSvc = NewUploadService ossClient (NewUploadCache rdb) (cfg_OSS cfg)
      in \<lparr>sv_prims = cl_prims cl, sv_rt = rt, sv_rdb = rdb,
          sv_verifier = UserService_VerifyAccessToken (cl_prims cl) rt userSvc Background,
          sv_health = \<lparr>hh_pingDB = cl_pingDB cl, hh_pingRedis = cl_pingRedis cl\<rparr>,
          sv_user = NewUserHandler userSvc, sv_post = NewPostHandler postSvc, sv_feed = NewFeedHandler postSvc,
          sv_like = NewLikeHandler likeSvc, sv_search = NewSearchHandler searchSvc, sv_follow = NewFollowHandler followSvc,
          sv_upload = NewUploadHandler uploadSvc, sv_cors = cfg_CORS cfg\<rparr>)"

text \<open>Which client signs the uploads.\<close>

definition oss_client_presign :: "'w clients \<Rightarrow> OSSConfig \<Rightarrow> oss_client \<Rightarrow> 'w oss_presign" where
  "oss_client_presign cl cfg c =
     (case c of
        MockOSS addr \<Rightarrow> MockClient_Presign (cl_yyyymm cl) (cl_rt cl) cfg addr
      | AliyunOSS \<Rightarrow> AliyunClient_Presign (cl_yyyymm cl) (cl_rt cl) (cl_signURL cl) cfg)"

text \<open>The process once it serves: the router, the bus, the reviewer of posts, the consumers, and whether the dead-letter monitor runs.\<close>

record 'w process =
  pc_server :: "'w server"
  pc_bus :: "'w bus"
  pc_auditor :: "'w Auditor"
  pc_consumers :: ConsumerManager
  pc_monitor :: bool

definition main_consumers :: ConsumerManager where
  "main_consumers =
     StartAll (fold Register [''like-consumer'', ''pv-consumer'', ''count-consumer'', ''audit-consumer''] Manager_New)"

text \<open>Any error on the way ends the process.\<close>

definition boot :: "'w clients \<Rightarrow> Config \<Rightarrow> 'w \<Rightarrow> 'w process result \<times> 'w" where
  "boot cl cfg w =
     (case initEventBus cl (cfg_MQ cfg) w of
        (Inl e, w) \<Rightarrow> (err (Wrap ''init event bus'' e), w)
      | (Inr bus, w) \<Rightarrow>
          (case NewSender (cfg_SMS cfg) (cl_dypns cl) (cl_dypnsErr cl) of
             Inl e \<Rightarrow> (err (Wrap ''init sms sender'' e), w)
           | Inr smsSender \<Rightarrow>
               (case NewAuditor (cl_rt cl) (cl_green cl) (AuditConfig.truncate (cfg_Audit cfg)) of
                  Inl e \<Rightarrow> (err (Wrap ''init auditor'' e), w)
                | Inr auditor \<Rightarrow>
                    (case NewClient (cfg_OSS cfg) (cl_ossListen cl) (cl_ossNew cl) (cl_ossBucket cl) of
                       Inl e \<Rightarrow> (err (Wrap ''init oss client'' e), w)
                     | Inr ossClient \<Rightarrow>
                         (case cl_validatorErr cl of
                            Some e \<Rightarrow> (err (Wrap ''register custom validators'' e), w)
                          | None \<Rightarrow>
                              (ok \<lparr>pc_server = wire cl cfg (bus_publisher cl bus) smsSender (oss_client_presign cl (cfg_OSS cfg) ossClient),
                                   pc_bus = bus, pc_auditor = auditor, pc_consumers = main_consumers,
                                   pc_monitor = (case bus of InMemory \<Rightarrow> False | Broker _ \<Rightarrow> True)\<rparr>, w))))))"

end
