(* ===== verification/Requests.thy ===== *)
theory Requests
  imports Server
begin

text \<open>
  Requests from the route to the database, through the whole server as main wires it.
\<close>

section \<open>What the middlewares leave alone\<close>

context platform
begin

lemma run_int_frame: "run_int rdb m c w = (r, w') \<Longrightarrow> sent w' = sent w \<and> tables (master w') = tables (master w)"
  by (auto simp: run_int_def split: prod.splits sum.splits dest!: rdb_frame)

lemma verify_frame:
  assumes "UserService_VerifyAccessToken pr rt s c token w = (res, w')" "uc_rdb (uss_userCache s) = rdb"
  shows "tables (master w') = tables (master w)" "sent w' = sent w"
proof -
  obtain r1 w1 where p: "Manager_Parse (prim_jwt pr) rt (uss_jwtMgr s) token w = (r1, w1)" by fastforce
  have f1: "tables (master w1) = tables (master w) \<and> sent w1 = sent w"
    using p now_frame by (auto simp: Manager_Parse_def split: prod.splits sum.splits if_splits)
  have "tables (master w') = tables (master w1) \<and> sent w' = sent w1"
  proof (cases r1)
    case (Inr claims)
    obtain b w2 where b: "IsJWTBlacklisted (uss_userCache s) (cl_JTI claims) w1 = (b, w2)" by fastforce
    obtain n w3 where n: "IsUserBanned (uss_userCache s) (cl_UserID claims) w2 = (n, w3)" by fastforce
    have "tables (master w2) = tables (master w1) \<and> sent w2 = sent w1"
      using b unfolding IsJWTBlacklisted_def assms(2) by (auto split: prod.splits sum.splits dest!: run_int_frame)
    moreover have "tables (master w3) = tables (master w2) \<and> sent w3 = sent w2"
      using n unfolding IsUserBanned_def assms(2) by (auto split: prod.splits sum.splits dest!: run_int_frame)
    moreover have "w' = w2 \<or> w' = w3"
      using assms(1) p b n Inr by (auto simp: UserService_VerifyAccessToken_def split: if_splits)
    ultimately show ?thesis by auto
  qed (use assms(1) p in \<open>auto simp: UserService_VerifyAccessToken_def\<close>)
  with f1 show "tables (master w') = tables (master w)" "sent w' = sent w" by simp_all
qed

lemma window_frame:
  assumes "slidingWindowAllow rt rdb key limit win w = (a, w')"
  shows "tables (master w') = tables (master w)" "sent w' = sent w"
proof -
  obtain now w1 where n: "rt_now rt w = (now, w1)" by fastforce
  obtain rs w2 where p1: "pipe_exec rdb [ZREMRANGEBYSCORE key 0 (now - win), ZCARD key] w1 = (rs, w2)" by fastforce
  obtain rs' w3 where p2: "pipe_exec rdb [ZADD key now (FormatInt now), EXPIRE key (win + second_ms)] w2 = (rs', w3)" by fastforce
  have "w' = w2 \<or> w' = w3"
    using assms n p1 p2
    by (auto simp: slidingWindowAllow_def Let_def simp del: pipe_exec.simps split: option.splits if_splits)
  with now_frame [OF n] pipe_frame [OF p1] pipe_frame [OF p2]
  have "tables (master w') = tables (master w) \<and> sent w' = sent w" by auto
  then show "tables (master w') = tables (master w)" "sent w' = sent w" by simp_all
qed

lemma ratelimit_passes:
  assumes "RateLimit rt cfg nxt c w = (c', w')" "rlc_RDB cfg = rdb" "gc_json c' = Some a" "r_Data a = Some d"
  shows "\<exists>w1. (c', w') = nxt c w1 \<and> tables (master w1) = tables (master w) \<and> sent w1 = sent w"
proof (cases "rlc_KeyFunc cfg c = []")
  case True
  with assms(1) show ?thesis by (intro exI [of _ w]) (simp add: RateLimit_def)
next
  case False
  obtain al e w1 where s: "slidingWindowAllow rt rdb (rlc_KeyFunc cfg c) (rlc_Limit cfg) (rlc_Window cfg) w = ((al, e), w1)"
    by (metis prod.collapse)
  have "(c', w') = nxt c w1"
    using assms False s refused [of "Some (App ErrTooManyReq)" c a] by (auto simp: RateLimit_def split: if_splits)
  with window_frame [OF s] show ?thesis by blast
qed

end

section \<open>Creating a post\<close>

text \<open>The service behind the handler is the one whose effect is known.\<close>

lemma wire_simps [simp]:
  "sv_rt (wire cl cfg pub sms oss) = cl_rt cl" "sv_prims (wire cl cfg pub sms oss) = cl_prims cl"
  "sv_rdb (wire cl cfg pub sms oss) = cl_rdb cl"
  "ph_svc (sv_post (wire cl cfg pub sms oss)) =
     content_service (cl_rt cl) (cl_rdb cl) (cl_db cl) pub (Some (NewLikeCache (cl_rdb cl) (cac_LikeStateTTL (cfg_Cache cfg))))
       (cfg_OSS cfg) (cac_FeedCacheTTL (cfg_Cache cfg)) (cac_PVDedupTTL (cfg_Cache cfg)) 5000"
  by (simp_all add: wire_def Let_def NewPostHandler_def content_service_def)

lemma wired_verifier:
  "sv_verifier (wire cl cfg pub sms oss) =
     UserService_VerifyAccessToken (cl_prims cl) (cl_rt cl) (uh_svc (sv_user (wire cl cfg pub sms oss))) Background"
  "uc_rdb (uss_userCache (uh_svc (sv_user (wire cl cfg pub sms oss)))) = cl_rdb cl"
  "uss_jwtMgr (uh_svc (sv_user (wire cl cfg pub sms oss))) = NewManager (cfg_JWT cfg)"
  by (simp_all add: wire_def Let_def NewUserHandler_def NewUserService_def NewUserCache_def)

lemma create_route:
  assumes "r \<in> set (routes s)" "ro_method r = ''POST''" "ro_pattern r = ''/api/v1/posts''"
  shows "run_route s r = Auth (sv_verifier s) (RateLimit (sv_rt s)
      \<lparr>rlc_RDB = sv_rdb s, rlc_KeyFunc = PerUserKey ''limit:pub'', rlc_Limit = 20, rlc_Window = 86400000\<rparr>
      (PostHandler_Create (sv_prims s) (sv_rt s) (sv_post s)))"
proof -
  have "r \<in> set (infra_routes s) \<or> r \<in> set (auth_routes s) \<or> r \<in> set (user_routes s) \<or> r \<in> set (post_routes s)
      \<or> r \<in> set (list_routes s) \<or> r \<in> set (upload_routes s)"
    using assms(1) by (auto simp: routes_def)
  then have "r = route ''POST'' ''/api/v1/posts'' [Authed, per_user s ''limit:pub'' 20 86400000]
        (PostHandler_Create (sv_prims s) (sv_rt s) (sv_post s))"
    using assms(2,3)
    by (elim disjE)
      (auto simp: infra_routes_def auth_routes_def user_routes_def post_routes_def list_routes_def upload_routes_def route_def)
  then show ?thesis by (simp add: run_route_def route_def chain_def apply_step_def per_user_def)
qed

lemma auth_passes:
  assumes "Auth v nxt c w = (c', w')" "gc_json c' = Some a" "r_Data a = Some d"
  obtains token uid jti w1 where "extractBearerToken (gc_Header c ''Authorization'') = Inr token" "v token w = (Inr (uid, jti), w1)"
    "(c', w') = nxt (c\<lparr>gc_userID := Some uid, gc_jti := Some jti\<rparr>) w1"
  using auth_cases [OF assms(1)] assms(2,3) that by fastforce

lemma create_handler_passes:
  assumes "PostHandler_Create pr rt h c w = (c', w')" "gc_json c' = Some a" "r_Data a = Some d"
  obtains req resp where "bind (gc_Body c) decode_CreatePostReq valid_CreatePostReq = Some req" "d = BCreate resp"
    "PostService_Create pr rt (ph_svc h) Background (GetUserID c) req w = (Inr resp, w')"
proof -
  obtain req where b: "bind (gc_Body c) decode_CreatePostReq valid_CreatePostReq = Some req"
    using assms denied(2) by (fastforce simp: PostHandler_Create_def bad_params_def split: option.splits)
  obtain x w1 where x: "PostService_Create pr rt (ph_svc h) Background (GetUserID c) req w = (x, w1)" by fastforce
  have "GetUserID c \<noteq> 0" using assms b denied(1) by (fastforce simp: PostHandler_Create_def unauthorized_def)
  then have a: "(c', w') = answer BCreate c (x, w1)" using assms(1) b x by (simp add: PostHandler_Create_def)
  then obtain resp where resp: "x = Inr resp"
    using assms(2,3) refused by (cases x) (fastforce simp: answer_def)+
  with a assms(2,3) have "d = BCreate resp" "w' = w1"
    by (auto simp: answer_def respond_data_def respond_def response_defs)
  with that b x resp show ?thesis by blast
qed

text \<open>
  C1: From a request to the database.  Whatever request the server that main wires answers
  with a created post: it carried a bearer token that the service accepted for some user, its body
  bound to a valid form, and the posts table grew by exactly one post, which has the answered id,
  belongs to that user, and is invisible and pending review.
\<close>
theorem create_end_to_end:
  assumes "platform (cl_rdb cl) kv (cl_db cl) master replica pub sent (cl_rt cl)"
    and "s = wire cl cfg pub sms oss"
    and "r \<in> set (routes s)" "ro_method r = ''POST''" "ro_pattern r = ''/api/v1/posts''"
    and "gc_json c = None" "setupRouter s r c w = (c', w')" "gc_json c' = Some a" "r_Data a = Some d"
  shows "\<exists>token uid jti v v' req resp p. extractBearerToken (gc_Header c ''Authorization'') = Inr token
     \<and> UserService_VerifyAccessToken (cl_prims cl) (cl_rt cl) (uh_svc (sv_user s)) Background token v = (Inr (uid, jti), v')
     \<and> bind (gc_Body c) decode_CreatePostReq valid_CreatePostReq = Some req \<and> d = BCreate resp
     \<and> t_posts (master w') = t_posts (master w) @ [p] \<and> p_ID p = cr_PostID resp \<and> p_UserID p = uid
     \<and> p_IsVisible p = PostInvisible \<and> p_AuditStatus p = AuditStatusPending"
proof -
  note plat = assms(1)
  obtain c1 w0 where g: "same_request c c1" "w0 = w \<or> w0 = snd (rt_uuid (sv_rt s) w)"
    "gc_Method c = ''OPTIONS'' \<and> same_request c c' \<and> w' = w0 \<or> (c', w') = run_route s r c1 w0"
    using global_chain [OF assms(7)] by blast
  have same: "gc_Header c1 = gc_Header c" "gc_Body c1 = gc_Body c" using g(1) by (simp_all add: same_request_def)
  have t0: "tables (master w0) = tables (master w)"
    using g(2) platform.uuid_frame [OF plat] assms(2) by (auto simp: prod_eq_iff)
  have "(c', w') = run_route s r c1 w0" using g(3) assms(6,8) by (auto simp: same_request_def)
  note route = this [unfolded create_route [OF assms(3-5)], symmetric]
  obtain token uid jti w1 where a: "extractBearerToken (gc_Header c ''Authorization'') = Inr token"
    "sv_verifier s token w0 = (Inr (uid, jti), w1)"
    "(c', w') = RateLimit (sv_rt s) \<lparr>rlc_RDB = sv_rdb s, rlc_KeyFunc = PerUserKey ''limit:pub'', rlc_Limit = 20, rlc_Window = 86400000\<rparr>
      (PostHandler_Create (sv_prims s) (sv_rt s) (sv_post s)) (c1\<lparr>gc_userID := Some uid, gc_jti := Some jti\<rparr>) w1"
    using auth_passes [OF route assms(8,9)] same by metis
  note v = a(2) [unfolded assms(2) wired_verifier(1)]
  have t1: "tables (master w1) = tables (master w0)" by (rule platform.verify_frame(1) [OF plat v wired_verifier(2)])
  from platform.ratelimit_passes [OF plat a(3) [symmetric, unfolded assms(2) wire_simps] _ assms(8,9)]
  obtain w2 where b: "(c', w') = PostHandler_Create (cl_prims cl) (cl_rt cl) (sv_post s) (c1\<lparr>gc_userID := Some uid, gc_jti := Some jti\<rparr>) w2"
    "tables (master w2) = tables (master w1)" using assms(2) by auto
  from create_handler_passes [OF b(1) [symmetric] assms(8,9)]
  obtain req resp where h: "bind (gc_Body c) decode_CreatePostReq valid_CreatePostReq = Some req" "d = BCreate resp"
    "PostService_Create (cl_prims cl) (cl_rt cl) (ph_svc (sv_post s)) Background uid req w2 = (Inr resp, w')"
    by (auto simp: same GetUserID_def)
  from conjunct2 [OF platform.create_facts [OF plat h(3) [unfolded assms(2) wire_simps]]]
  obtain p now ct ut where p: "p = (new_post uid (TrimSpace (cp_Title req)) req now)\<lparr>p_ID := cr_PostID resp, p_CreatedAt := ct, p_UpdatedAt := ut\<rparr>"
    "t_posts (master w') = t_posts (master w2) @ [p]" by blast
  have f: "p_ID p = cr_PostID resp" "p_UserID p = uid" "p_IsVisible p = PostInvisible" "p_AuditStatus p = AuditStatusPending"
    unfolding p(1) by (simp_all add: new_post_def zero_Post_def)
  have "t_posts (master w2) = t_posts (master w)" using t0 t1 b(2) by (simp add: tables_def)
  with p(2) f a(1) v h(1,2) assms(2) show ?thesis by metis
qed

section \<open>A server\<close>

text \<open>The server over the documented environment; the clients that these requests do not reach may be any.\<close>

definition doc_backed :: "world clients \<Rightarrow> world clients" where
  "doc_backed cl = cl\<lparr>cl_rt := doc_rt, cl_prims := doc_prims, cl_rdb := doc_rdb, cl_db := doc_db\<rparr>"

definition doc_config :: Config where
  "doc_config = (demo_config 6)
     \<lparr>cfg_JWT := \<lparr>jcfg_Secret = ''secret'', jcfg_AccessTokenTTL = 7200000, jcfg_RefreshTokenTTL = 604800000\<rparr>,
      cfg_OSS := demo_bucket\<rparr>"

definition doc_server :: "world clients \<Rightarrow> world server" where
  "doc_server cl = wire (doc_backed cl) doc_config doc_pub (\<lambda>c phone code w. (None, w)) fixed_presign"

definition create_request :: "string \<Rightarrow> body gin" where
  "create_request auth =
     \<lparr>gc_Method = ''POST'', gc_Header = (\<lambda>k. if k = ''Authorization'' then auth else []), gc_ClientIP = ''10.0.0.1'',
      gc_Param = (\<lambda>_. []), gc_Query = (\<lambda>_. []),
      gc_Body = Some (JObj [(''title'', JStr '' soup ''), (''scene_tag'', JNum 3), (''content'', JStr ''text''),
        (''steps'', JArr [JObj [(''text'', JStr ''chop'')], JObj [(''text'', JStr ''cook'')]])]),
      gc_userID = None, gc_jti = None, gc_requestID = [], gc_out = [], gc_status = None, gc_json = None\<rparr>"

definition post_route :: "'w server \<Rightarrow> 'w route" where
  "post_route s = hd (post_routes s)"

lemma post_route_simps:
  "post_route s \<in> set (routes s)" "ro_method (post_route s) = ''POST''" "ro_pattern (post_route s) = ''/api/v1/posts''"
  by (simp_all add: post_route_def routes_def post_routes_def route_def)

lemma doc_backed_simps [simp]:
  "cl_rt (doc_backed cl) = doc_rt" "cl_prims (doc_backed cl) = doc_prims" "cl_rdb (doc_backed cl) = doc_rdb"
  "cl_db (doc_backed cl) = doc_db"
  by (simp_all add: doc_backed_def)

text \<open>Without a token nothing happens.\<close>

lemma doc_requests:
  assumes "setupRouter (doc_server cl) (post_route (doc_server cl)) (create_request auth) demo_world = (c', w')"
  obtains c1 n where "same_request (create_request auth) c1"
    "(c', w') = run_route (doc_server cl) (post_route (doc_server cl)) c1 (demo_world\<lparr>w_serial := n\<rparr>)"
proof -
  obtain c1 w0 where g: "same_request (create_request auth) c1"
    "w0 = demo_world \<or> w0 = snd (rt_uuid (sv_rt (doc_server cl)) demo_world)"
    "(c', w') = run_route (doc_server cl) (post_route (doc_server cl)) c1 w0"
    using global_chain [OF assms] by (auto simp: create_request_def)
  have "demo_world = demo_world\<lparr>w_serial := 0\<rparr>" by (simp add: demo_world_def fresh_world_def)
  then obtain n where "w0 = demo_world\<lparr>w_serial := n\<rparr>"
    using g(2) unfolding doc_server_def wire_simps doc_backed_simps by (auto simp: doc_rt_def)
  with g(1,3) show thesis by (intro that) simp_all
qed

theorem writes_need_token_witness:
  "\<forall>cl. \<exists>c' w'. setupRouter (doc_server cl) (post_route (doc_server cl)) (create_request []) demo_world = (c', w')
     \<and> map_option r_Data (gc_json c') = Some None \<and> w_db w' = demo_db \<and> w_sent w' = []"
proof
  fix cl
  let ?s = "doc_server cl" and ?c = "create_request []"
  obtain c' w' where r: "setupRouter ?s (post_route ?s) ?c demo_world = (c', w')" by fastforce
  have c: "gc_json ?c = None" "gc_Header ?c ''Authorization'' = []" by (simp_all add: create_request_def)
  have "ro_method (post_route ?s) \<noteq> ''GET''" "ro_pattern (post_route ?s) \<notin> open_posts"
    by (simp_all add: post_route_simps open_posts_def)
  note t = writes_need_token [OF post_route_simps(1) this c(1) r, unfolded c(2)]
  have x: "extractBearerToken [] = Inl (Plain ''missing bearer token'')" by (simp add: extractBearerToken_def)
  with t have d: "\<And>a. gc_json c' = Some a \<Longrightarrow> r_Data a = None" by auto
  obtain c1 n where g: "same_request ?c c1" "(c', w') = run_route ?s (post_route ?s) c1 (demo_world\<lparr>w_serial := n\<rparr>)"
    by (rule doc_requests [OF r])
  have "gc_Header c1 ''Authorization'' = []" using g(1) c(2) by (simp add: same_request_def)
  then have "w' = demo_world\<lparr>w_serial := n\<rparr>" "gc_json c' \<noteq> None"
    using g(2) x create_route [OF post_route_simps, of ?s] by (simp_all add: Auth_def respond_def)
  with r d show "\<exists>c' w'. setupRouter ?s (post_route ?s) ?c demo_world = (c', w')
     \<and> map_option r_Data (gc_json c') = Some None \<and> w_db w' = demo_db \<and> w_sent w' = []"
    by (auto simp: demo_world_def fresh_world_def)
qed

text \<open>With the token of user 7 the post is created.\<close>

lemma demo_bearer: "extractBearerToken (''Bearer '' @ demo_token) = Inr demo_token"
proof -
  have "demo_token \<noteq> []" by (simp add: demo_token_def claim_fields_def put_field_def)
  moreover have "equalFold ''Bearer '' ''Bearer ''" by code_simp
  ultimately show ?thesis by (simp add: extractBearerToken_def)
qed

lemma doc_server_verifies:
  "sv_verifier (doc_server cl) demo_token (demo_world\<lparr>w_serial := n\<rparr>)
     = (Inr (7, cl_JTI demo_claims), demo_world\<lparr>w_serial := n\<rparr>)"
proof -
  let ?u = "uh_svc (sv_user (doc_server cl))" and ?w = "demo_world\<lparr>w_serial := n\<rparr>"
  have m: "uss_jwtMgr ?u = demo_manager" "uc_rdb (uss_userCache ?u) = doc_rdb"
    unfolding doc_server_def wired_verifier by (simp_all add: doc_config_def demo_manager_def)
  have p: "Manager_Parse doc_jwt doc_rt demo_manager demo_token ?w = (Inr demo_claims, ?w)"
    using demo_token_parses [of ?w] by (simp add: demo_world_def fresh_world_def)
  have "IsJWTBlacklisted (uss_userCache ?u) j ?w = (Inr False, ?w)" "IsUserBanned (uss_userCache ?u) i ?w = (Inr False, ?w)" for i j
    unfolding IsJWTBlacklisted_def IsUserBanned_def m(2)
    by (simp_all add: run_int_def doc_rdb_def fault_def demo_world_def fresh_world_def empty_kv_def rget_def)
  with p m(1) have "UserService_VerifyAccessToken doc_prims doc_rt ?u Background demo_token ?w = (Inr (7, cl_JTI demo_claims), ?w)"
    by (simp add: UserService_VerifyAccessToken_def demo_claims_def new_claims_def)
  then show ?thesis unfolding doc_server_def wired_verifier(1) by simp
qed

lemma doc_server_limits:
  "\<exists>k. slidingWindowAllow doc_rt doc_rdb key 20 86400000 (demo_world\<lparr>w_serial := n\<rparr>)
     = ((True, None), demo_world\<lparr>w_serial := n, w_kv := k\<rparr>)"
  by (simp add: slidingWindowAllow_def doc_rdb_def fault_def demo_world_def fresh_world_def empty_kv_def
      rget_def rput_def int_val_def formatSec_def)

lemma doc_server_creates:
  "\<exists>resp w'. PostService_Create doc_prims doc_rt (ph_svc (sv_post (doc_server cl))) Background 7 demo_req
     (demo_world\<lparr>w_serial := n, w_kv := k\<rparr>) = (Inr resp, w') \<and> cr_PostID resp = 100"
proof -
  let ?s = "ph_svc (sv_post (doc_server cl))" and ?p = "(new_post 7 ''soup'' demo_req 1000)\<lparr>p_ID := 100\<rparr>"
  let ?w = "demo_world\<lparr>w_serial := n, w_kv := k\<rparr>"
  have repo: "psv_postRepo ?s = NewPostRepository doc_rt doc_db" "psv_ossCfg ?s = demo_bucket"
    unfolding doc_server_def wire_simps content_service_simps doc_backed_simps by (simp_all add: doc_config_def)
  have c: "TrimSpace (cp_Title demo_req) = ''soup''" "SceneTag_IsValid (cp_SceneTag demo_req)" "length (cp_Steps demo_req) \<le> 30"
    "IsAllowedURL (prim_lower doc_prims) (cp_CoverURL demo_req) (oss_URLPrefix demo_bucket)"
    "steps_allowed (prim_lower doc_prims) (oss_URLPrefix demo_bucket) (cp_Steps demo_req)"
    by code_simp+
  have clock: "w_clock ?w = 1000" by (simp add: demo_world_def fresh_world_def)
  have "fst (store_post doc_content Background (new_post 7 ''soup'' demo_req 1000) demo_req 1000 ?w) = Inr ?p"
    by code_simp
  moreover have "psv_postRepo doc_content = psv_postRepo ?s" by (simp add: doc_content_def repo)
  then have "store_post doc_content = store_post ?s" by (simp add: store_post_def fun_eq_iff)
  ultimately have "fst (store_post ?s Background (new_post 7 ''soup'' demo_req 1000) demo_req 1000 ?w) = Inr ?p"
    by (simp only:)
  then obtain w1 where st: "store_post ?s Background (new_post 7 ''soup'' demo_req 1000) demo_req 1000 ?w = (Inr ?p, w1)"
    by (metis prod.collapse)
  show ?thesis using c by (simp add: PostService_Create_def clock st Let_def repo)
qed

lemma doc_server_runs:
  "sv_rt (doc_server cl) = doc_rt" "sv_prims (doc_server cl) = doc_prims" "sv_rdb (doc_server cl) = doc_rdb"
  by (simp_all add: doc_server_def)

lemma create_request_binds:
  "bind (gc_Body (create_request auth)) decode_CreatePostReq valid_CreatePostReq = Some demo_req"
proof -
  have "gc_Body (create_request auth) = gc_Body (create_request [])" by (simp add: create_request_def)
  moreover have "bind (gc_Body (create_request [])) decode_CreatePostReq valid_CreatePostReq = Some demo_req" by code_simp
  ultimately show ?thesis by simp
qed

theorem create_end_to_end_witness:
  "\<forall>cl. \<exists>c' w' a resp. setupRouter (doc_server cl) (post_route (doc_server cl)) (create_request (''Bearer '' @ demo_token)) demo_world = (c', w')
     \<and> gc_json c' = Some a \<and> r_Data a = Some (BCreate resp) \<and> map p_ID (t_posts (w_db w')) = [1, 2, cr_PostID resp]"
proof
  fix cl
  let ?s = "doc_server cl" and ?c = "create_request (''Bearer '' @ demo_token)"
  obtain c' w' where r: "setupRouter ?s (post_route ?s) ?c demo_world = (c', w')" by fastforce
  obtain c1 n where g: "same_request ?c c1" "(c', w') = run_route ?s (post_route ?s) c1 (demo_world\<lparr>w_serial := n\<rparr>)"
    by (rule doc_requests [OF r])
  let ?c2 = "c1\<lparr>gc_userID := Some 7, gc_jti := Some (cl_JTI demo_claims)\<rparr>"
  have c: "extractBearerToken (gc_Header c1 ''Authorization'') = Inr demo_token"
    "bind (gc_Body c1) decode_CreatePostReq valid_CreatePostReq = Some demo_req" "gc_json ?c = None"
    using g(1) demo_bearer create_request_binds [of "''Bearer '' @ demo_token"] by (simp_all add: same_request_def) (simp_all add: create_request_def)
  obtain k where k: "slidingWindowAllow doc_rt doc_rdb (PerUserKey ''limit:pub'' ?c2) 20 86400000 (demo_world\<lparr>w_serial := n\<rparr>)
      = ((True, None), demo_world\<lparr>w_serial := n, w_kv := k\<rparr>)" using doc_server_limits by blast
  obtain resp w2 where p: "PostService_Create doc_prims doc_rt (ph_svc (sv_post ?s)) Background 7 demo_req
      (demo_world\<lparr>w_serial := n, w_kv := k\<rparr>) = (Inr resp, w2)" using doc_server_creates by blast
  have "(c', w') = RateLimit doc_rt \<lparr>rlc_RDB = doc_rdb, rlc_KeyFunc = PerUserKey ''limit:pub'', rlc_Limit = 20, rlc_Window = 86400000\<rparr>
      (PostHandler_Create doc_prims doc_rt (sv_post ?s)) ?c2 (demo_world\<lparr>w_serial := n\<rparr>)"
    using g(2) create_route [OF post_route_simps, of ?s] c(1) doc_server_verifies [of cl n] by (simp add: Auth_def doc_server_runs)
  also have "\<dots> = PostHandler_Create doc_prims doc_rt (sv_post ?s) ?c2 (demo_world\<lparr>w_serial := n, w_kv := k\<rparr>)"
    using k by (simp add: RateLimit_def Let_def) (simp add: PerUserKey_def GetUserID_def)
  also have "\<dots> = answer BCreate ?c2 (Inr resp, w2)" using c(2) p by (simp add: PostHandler_Create_def GetUserID_def)
  finally obtain a where a: "gc_json c' = Some a" "r_Data a = Some (BCreate resp)"
    by (auto simp: answer_def respond_data_def respond_def response_defs)
  have pl: "platform (cl_rdb (doc_backed cl)) w_kv (cl_db (doc_backed cl)) w_db w_replica doc_pub w_sent (cl_rt (doc_backed cl))"
    by (simp add: doc.platform_axioms)
  from create_end_to_end [OF pl doc_server_def post_route_simps c(3) r a]
  obtain p where "t_posts (w_db w') = t_posts (w_db demo_world) @ [p]" "p_ID p = cr_PostID resp" by auto
  then have "map p_ID (t_posts (w_db w')) = [1, 2, cr_PostID resp]"
    by (simp add: demo_world_def demo_db_def demo_post_def)
  with r a show "\<exists>c' w' a resp. setupRouter ?s (post_route ?s) ?c demo_world = (c', w')
     \<and> gc_json c' = Some a \<and> r_Data a = Some (BCreate resp) \<and> map p_ID (t_posts (w_db w')) = [1, 2, cr_PostID resp]"
    by (intro exI [of _ c'] exI [of _ w'] exI [of _ a] exI [of _ resp] conjI)
qed

end
