(* ===== verification/AccessLog.thy ===== *)
theory AccessLog
  imports Middleware "HOL-Library.Char_ord" "HOL-Library.List_Lexorder"
begin

text \<open>
  internal/middleware/logger.go and metrics.go: what the access log and the metrics record of a
  request.  The query is logged with the values of sensitive parameters replaced; net/url's
  ParseQuery and Values.Encode are defined as the package documents them.
\<close>

section \<open>net/url\<close>

text \<open>A query is a map from keys to their values; here the entries in the order the keys came.\<close>

type_synonym url_values = "(string \<times> string list) list"

definition values_of :: "url_values \<Rightarrow> string \<Rightarrow> string list" where
  "values_of m k = (case map_of m k of None \<Rightarrow> [] | Some vs \<Rightarrow> vs)"

fun add_value :: "string \<Rightarrow> string \<Rightarrow> url_values \<Rightarrow> url_values" where
  "add_value k v [] = [(k, [v])]"
| "add_value k v ((k', vs) # m) = (if k' = k then (k', vs @ [v]) # m else (k', vs) # add_value k v m)"

text \<open>strings.Cut at the first separator.\<close>

definition Cut :: "string \<Rightarrow> char \<Rightarrow> string \<times> string" where
  "Cut s sep = (takeWhile (\<lambda>c. c \<noteq> sep) s, drop 1 (dropWhile (\<lambda>c. c \<noteq> sep) s))"

fun QueryUnescape :: "string \<Rightarrow> string option" where
  "QueryUnescape [] = Some []"
| "QueryUnescape (c # cs) =
     (if c = CHR ''%'' then
        (case cs of
           a # b # rest \<Rightarrow>
             (case (hex_value a, hex_value b, QueryUnescape rest) of
                (Some x, Some y, Some s) \<Rightarrow> Some (char_of (16 * x + y) # s)
              | _ \<Rightarrow> None)
         | _ \<Rightarrow> None)
      else map_option ((#) (if c = CHR ''+'' then CHR '' '' else c)) (QueryUnescape cs))"

text \<open>The settings between ampersands; the map is only used when none of them is an error.\<close>

fun parse_settings :: "string list \<Rightarrow> url_values \<Rightarrow> url_values result" where
  "parse_settings [] m = ok m"
| "parse_settings (s # ss) m =
     (if CHR '';'' \<in> set s then err (Plain ''invalid semicolon separator in query'')
      else if s = [] then parse_settings ss m
      else (let (k, v) = Cut s CHR ''='' in
            case (QueryUnescape k, QueryUnescape v) of
              (Some k, Some v) \<Rightarrow> parse_settings ss (add_value k v m)
            | _ \<Rightarrow> err (Plain ''invalid URL escape'')))"

definition ParseQuery :: "string \<Rightarrow> url_values result" where
  "ParseQuery raw = parse_settings (Split raw CHR ''&'') []"

definition unreserved :: "char \<Rightarrow> bool" where
  "unreserved c \<longleftrightarrow> (let n = byte_of c in
     48 \<le> n \<and> n \<le> 57 \<or> 65 \<le> n \<and> n \<le> 90 \<or> 97 \<le> n \<and> n \<le> 122 \<or> c \<in> {CHR ''-'', CHR ''_'', CHR ''.'', CHR ''~''})"

definition upper_hex :: "nat \<Rightarrow> char" where
  "upper_hex n = (if n < 10 then char_of (48 + n) else char_of (55 + n))"

definition escape_char :: "char \<Rightarrow> string" where
  "escape_char c =
     (if c = CHR '' '' then ''+''
      else if unreserved c then [c]
      else [CHR ''%'', upper_hex (byte_of c div 16), upper_hex (byte_of c mod 16)])"

definition QueryEscape :: "string \<Rightarrow> string" where
  "QueryEscape s = concat (map escape_char s)"

definition setting :: "string \<times> string \<Rightarrow> string" where
  "setting p = QueryEscape (fst p) @ ''='' @ QueryEscape (snd p)"

text \<open>The keys in increasing order of their bytes, each with its values.\<close>

definition sorted_pairs :: "url_values \<Rightarrow> (string \<times> string) list" where
  "sorted_pairs m = concat (map (\<lambda>k. map (Pair k) (values_of m k)) (sort (map fst m)))"

definition Values_Encode :: "url_values \<Rightarrow> string" where
  "Values_Encode m = Join (map setting (sorted_pairs m)) ''&''"

section \<open>The access log\<close>

definition sensitiveQueryParams :: "string set" where
  "sensitiveQueryParams =
     {''phone'', ''mobile'', ''code'', ''token'', ''access_key'', ''accesskey'', ''secret'', ''password''}"

definition sanitizeQuery :: "string \<Rightarrow> string" where
  "sanitizeQuery raw =
     (if raw = [] then []
      else (case ParseQuery raw of
              Inl e \<Rightarrow> ''[unparseable]''
            | Inr parsed \<Rightarrow>
                Values_Encode (map (\<lambda>(k, vs). (k, if map ascii_lower k \<in> sensitiveQueryParams then [''***''] else vs)) parsed)))"

datatype log_level = Info | Warn | Error

record log_entry =
  le_Level :: log_level
  le_Msg :: string
  le_requestID :: string
  le_method :: string
  le_path :: string
  le_query :: string
  le_status :: int
  le_latency :: int
  le_clientIP :: string
  le_userAgent :: string
  le_error :: error

text \<open>
  The parts of the request that only the log reads are parameters, and so are the errors that
  handlers attach to the context (no handler of the source does).  The status of a response that
  sets none is 200.
\<close>

definition written_status :: "'d gin \<Rightarrow> int" where
  "written_status c = (case gc_status c of None \<Rightarrow> 200 | Some s \<Rightarrow> s)"

definition Logger ::
  "'w runtime \<Rightarrow> string \<Rightarrow> string \<Rightarrow> string \<Rightarrow> ('d gin \<Rightarrow> goerr list) \<Rightarrow> ('d, 'w) handler \<Rightarrow> 'd gin \<Rightarrow> 'w
     \<Rightarrow> ('d gin \<times> log_entry list) \<times> 'w" where
  "Logger rt path rawQuery userAgent errs nxt c w =
     (let (start, w) = rt_now rt w;
          query = sanitizeQuery rawQuery;
          (c, w) = nxt c w;
          (now, w) = rt_now rt w;
          status = written_status c;
          entry = \<lparr>le_Level = Info, le_Msg = ''request'', le_requestID = gc_requestID c, le_method = gc_Method c,
            le_path = path, le_query = query, le_status = status, le_latency = now - start,
            le_clientIP = gc_ClientIP c, le_userAgent = userAgent, le_error = None\<rparr>
      in ((c, if errs c \<noteq> [] then map (\<lambda>e. entry\<lparr>le_Level := Error, le_Msg := ''request error'', le_error := Some e\<rparr>) (errs c)
              else if status \<ge> 500 then [entry\<lparr>le_Level := Error, le_Msg := ''server error''\<rparr>]
              else if status \<ge> 400 then [entry\<lparr>le_Level := Warn, le_Msg := ''client error''\<rparr>]
              else [entry]), w))"

definition httpStatusClass :: "int \<Rightarrow> string" where
  "httpStatusClass code =
     (if code < 200 then ''1xx'' else if code < 300 then ''2xx'' else if code < 400 then ''3xx''
      else if code < 500 then ''4xx'' else ''5xx'')"

text \<open>The labels under which a request is counted and timed, once metrics.Init was called.\<close>

definition Metrics ::
  "'w runtime \<Rightarrow> bool \<Rightarrow> string \<Rightarrow> ('d, 'w) handler \<Rightarrow> 'd gin \<Rightarrow> 'w
     \<Rightarrow> ('d gin \<times> ((string \<times> string \<times> string) \<times> int) option) \<times> 'w" where
  "Metrics rt inited fullPath nxt c w =
     (let (start, w) = rt_now rt w;
          (c, w) = nxt c w
      in if \<not> inited then ((c, None), w)
         else (let (now, w) = rt_now rt w
               in ((c, Some ((if fullPath = [] then ''unknown'' else fullPath, gc_Method c, httpStatusClass (written_status c)),
                     now - start)), w)))"

section \<open>Escaping\<close>

lemma hex_value_upper [simp]: "n < 16 \<Longrightarrow> hex_value (upper_hex n) = Some n"
  by (auto simp: hex_value_def upper_hex_def)

lemma unescape_char [simp]: "QueryUnescape (escape_char c @ s) = map_option ((#) c) (QueryUnescape s)"
proof (cases "c = CHR '' '' \<or> unreserved c")
  case True
  then have "c \<noteq> CHR ''%''" "c \<noteq> CHR ''+''" if "c \<noteq> CHR '' ''" using that by (auto simp: unreserved_def byte_of_def)
  with True show ?thesis by (auto simp: escape_char_def)
next
  case False
  have "byte_of c div 16 < 16" "16 * (byte_of c div 16) + byte_of c mod 16 = byte_of c"
    using byte_of_less [of c] by (linarith, simp)
  with False show ?thesis by (simp add: escape_char_def split: option.split)
qed

lemma QueryUnescape_Escape [simp]: "QueryUnescape (QueryEscape s) = Some s"
  by (induction s) (simp_all add: QueryEscape_def)

lemma escaped_chars [simp]:
  "CHR ''&'' \<notin> set (QueryEscape s)" "CHR ''='' \<notin> set (QueryEscape s)" "CHR '';'' \<notin> set (QueryEscape s)"
proof -
  have u: "unreserved (upper_hex n)" if "n < 16" for n
    using that by (auto simp: unreserved_def upper_hex_def)
  have "x = CHR ''+'' \<or> x = CHR ''%'' \<or> unreserved x" if "x \<in> set (escape_char c)" for x c
  proof -
    have "byte_of c div 16 < 16" using byte_of_less [of c] by linarith
    with that u show ?thesis by (auto simp: escape_char_def split: if_splits)
  qed
  moreover have "\<not> unreserved x" if "x \<in> {CHR ''&'', CHR ''='', CHR '';''}" for x
    using that by (auto simp: unreserved_def byte_of_def)
  ultimately show "CHR ''&'' \<notin> set (QueryEscape s)" "CHR ''='' \<notin> set (QueryEscape s)" "CHR '';'' \<notin> set (QueryEscape s)"
    by (fastforce simp: QueryEscape_def)+
qed

section \<open>Parsing what was encoded\<close>

lemma Split_no_sep: "c \<notin> set x \<Longrightarrow> Split x c = [x]"
  by (induction x) auto

lemma Split_sep: "c \<notin> set x \<Longrightarrow> Split (x @ c # s) c = x # Split s c"
  by (induction x) auto

lemma Split_Join:
  "\<forall>x\<in>set xs. c \<notin> set x \<Longrightarrow> xs \<noteq> [] \<Longrightarrow> Split (Join xs [c]) c = xs"
proof (induction xs rule: induct_list012)
  case (3 x y zs)
  then show ?case using Split_sep [of c x "Join (y # zs) [c]"] by simp
qed (auto simp: Split_no_sep)

lemma setting_chars: "CHR ''&'' \<notin> set (setting p)" "CHR '';'' \<notin> set (setting p)" "setting p \<noteq> []"
  by (auto simp: setting_def)

lemma Cut_setting: "Cut (setting p) CHR ''='' = (QueryEscape (fst p), QueryEscape (snd p))"
  using escaped_chars(2) [of "fst p"] by (force simp: Cut_def setting_def takeWhile_append dropWhile_append)

lemma parse_encoded_settings:
  "parse_settings (map setting ps) m = Inr (fold (\<lambda>p. add_value (fst p) (snd p)) ps m)"
  by (induction ps arbitrary: m) (simp_all add: setting_chars Cut_setting)

lemma values_of_add: "values_of (add_value k v m) k' = values_of m k' @ (if k' = k then [v] else [])"
  by (induction k v m rule: add_value.induct) (auto simp: values_of_def)

lemma values_of_fold:
  "values_of (fold (\<lambda>p. add_value (fst p) (snd p)) ps m) k = values_of m k @ map snd (filter (\<lambda>p. fst p = k) ps)"
  by (induction ps arbitrary: m) (auto simp: values_of_add)

lemma values_of_sorted_pairs:
  assumes "distinct (map fst m)"
  shows "map snd (filter (\<lambda>p. fst p = k) (sorted_pairs m)) = values_of m k"
proof -
  have "map snd (filter (\<lambda>p. fst p = k) (concat (map (\<lambda>k. map (Pair k) (f k)) ks))) = (if k \<in> set ks then f k else [])"
    if "distinct ks" for ks and f :: "string \<Rightarrow> string list"
    using that
  proof (induction ks)
    case (Cons a ks)
    have "filter (\<lambda>p. fst p = k) (map (Pair a) (f a)) = (if a = k then map (Pair a) (f a) else [])"
      by (simp add: filter_map o_def)
    with Cons show ?case by (auto simp: o_def)
  qed simp
  moreover have "values_of m k = []" if "k \<notin> set (map fst m)"
    using that map_of_eq_None_iff [of m k] by (simp add: values_of_def)
  ultimately show ?thesis using assms by (simp add: sorted_pairs_def)
qed

text \<open>The encoding of a map parses to a map with the same values.\<close>

lemma parse_encoded:
  assumes "distinct (map fst m)"
  shows "\<exists>m'. ParseQuery (Values_Encode m) = Inr m' \<and> (\<forall>k. values_of m' k = values_of m k)"
proof (cases "sorted_pairs m = []")
  case True
  then have "values_of m k = []" for k using values_of_sorted_pairs [OF assms, of k] by simp
  with True show ?thesis by (auto simp: ParseQuery_def Values_Encode_def values_of_def)
next
  case False
  then have "Split (Values_Encode m) CHR ''&'' = map setting (sorted_pairs m)"
    unfolding Values_Encode_def by (intro Split_Join) (auto simp: setting_chars)
  then have "ParseQuery (Values_Encode m) = Inr (fold (\<lambda>p. add_value (fst p) (snd p)) (sorted_pairs m) [])"
    by (simp add: ParseQuery_def parse_encoded_settings)
  moreover have "values_of [] k = []" for k by (simp add: values_of_def)
  ultimately show ?thesis using values_of_fold values_of_sorted_pairs [OF assms] by auto
qed

text \<open>The keys of a parsed query differ, and each has a value.\<close>

definition proper_values :: "url_values \<Rightarrow> bool" where
  "proper_values m \<longleftrightarrow> distinct (map fst m) \<and> (\<forall>(k, vs)\<in>set m. vs \<noteq> [])"

lemma add_value_proper: "proper_values m \<Longrightarrow> proper_values (add_value k v m)"
proof -
  have "fst ` set (add_value k v m) = insert k (fst ` set m)" for m
    by (induction k v m rule: add_value.induct) auto
  then show "proper_values m \<Longrightarrow> proper_values (add_value k v m)"
    by (induction k v m rule: add_value.induct) (auto simp: proper_values_def)
qed

lemma parse_settings_proper: "parse_settings ss m = Inr m' \<Longrightarrow> proper_values m \<Longrightarrow> proper_values m'"
  by (induction ss arbitrary: m) (auto simp: add_value_proper split: if_splits prod.splits option.splits)

section \<open>What the log shows of a query\<close>

text \<open>
  C21: The access log shows no sensitive parameter.  The query in the log of a request is
  either the text for one that does not parse, or a query that parses again, in which every
  parameter whose name is sensitive, in whatever case and escaping, has the one value of three
  stars, and every other parameter has the values of the request, in order.
\<close>
theorem log_redacts:
  "(\<exists>e. ParseQuery raw = Inl e \<and> sanitizeQuery raw = ''[unparseable]'')
   \<or> (\<exists>m m'. ParseQuery raw = Inr m \<and> ParseQuery (sanitizeQuery raw) = Inr m'
        \<and> (\<forall>k. values_of m' k =
              (if map ascii_lower k \<in> sensitiveQueryParams \<and> values_of m k \<noteq> [] then [''***''] else values_of m k)))"
proof (cases "ParseQuery raw")
  case (Inl e)
  then have "raw \<noteq> []" by (auto simp: ParseQuery_def)
  with Inl show ?thesis by (simp add: sanitizeQuery_def)
next
  case (Inr m)
  let ?f = "\<lambda>(k, vs). (k, if map ascii_lower k \<in> sensitiveQueryParams then [''***''] else vs)"
  have m: "proper_values m"
    using parse_settings_proper [of _ "[]" m] Inr by (simp add: ParseQuery_def proper_values_def)
  have "values_of (map ?f m) k =
      (if map ascii_lower k \<in> sensitiveQueryParams \<and> values_of m k \<noteq> [] then [''***''] else values_of m k)" for k
    using m by (induction m) (auto simp: proper_values_def values_of_def)
  moreover have "\<exists>m'. ParseQuery (sanitizeQuery raw) = Inr m' \<and> (\<forall>k. values_of m' k = values_of (map ?f m) k)"
  proof (cases "raw = []")
    case True
    with Inr show ?thesis by (auto simp: sanitizeQuery_def ParseQuery_def)
  next
    case False
    have "map fst (map ?f m) = map fst m" by auto
    with m have "distinct (map fst (map ?f m))" by (simp only: proper_values_def)
    from parse_encoded [OF this] show ?thesis using False Inr by (simp add: sanitizeQuery_def)
  qed
  ultimately show ?thesis using Inr by auto
qed

text \<open>The cases of TestSanitizeQuery, and a name that is escaped.\<close>

lemma sanitizeQuery_examples:
  "sanitizeQuery ''phone=13800138000&page=1'' = ''page=1&phone=%2A%2A%2A''"
  "sanitizeQuery ''keyword=chicken&page=2'' = ''keyword=chicken&page=2''"
  "sanitizeQuery ''%50hone=138&Phone=139'' = ''Phone=%2A%2A%2A''"
  "sanitizeQuery ''a;b'' = ''[unparseable]''"
  by code_simp+

end
