(* ===== verification/StepImages.thy ===== *)
theory StepImages
  imports Utf8 Json
begin

text \<open>
  The JSON column of internal/model/post_step.go: StringArray with Scan and Value, down to the text.
  encoding/json is defined as the package documents it: how a list of strings is written, which texts
  are JSON, and what they denote, with strings as Go decodes them.
\<close>

abbreviation dquote :: char where "dquote \<equiv> CHR 0x22"
abbreviation escape :: char where "escape \<equiv> CHR 0x5C"

section \<open>Writing\<close>

text \<open>The first rune of a text and its width.\<close>

definition first_rune :: "string \<Rightarrow> nat \<times> nat" where
  "first_rune s = decode_rune (map byte_of s)"

lemma first_rune_width: "s \<noteq> [] \<Longrightarrow> 1 \<le> snd (first_rune s)"
  using decode_width [of "map byte_of s"] by (simp add: first_rune_def)

definition escaped_ascii :: "nat \<Rightarrow> string" where
  "escaped_ascii b =
     (if b = 34 \<or> b = 92 then [escape, char_of b]
      else if b = 8 then escape # ''b''
      else if b = 12 then escape # ''f''
      else if b = 10 then escape # ''n''
      else if b = 13 then escape # ''r''
      else if b = 9 then escape # ''t''
      else if b < 32 \<or> b \<in> {38, 60, 62} then escape # ''u00'' @ [hex_digit (b div 16), hex_digit (b mod 16)]
      else [char_of b])"

text \<open>A rune of a string: an invalid byte and the two line separators are escaped.\<close>

definition written_rune :: "nat \<Rightarrow> nat \<Rightarrow> string \<Rightarrow> string" where
  "written_rune r n raw =
     (if r < 128 then escaped_ascii r
      else if r = 65533 \<and> n = 1 then escape # ''ufffd''
      else if r = 8232 then escape # ''u2028''
      else if r = 8233 then escape # ''u2029''
      else raw)"

function string_body :: "string \<Rightarrow> string" where
  "string_body s =
     (if s = [] then []
      else (let (r, n) = first_rune s in written_rune r n (take n s) @ string_body (drop n s)))"
  by auto
termination
proof (relation "measure length")
  fix s x r n assume "s \<noteq> []" "x = first_rune s" "(r, n) = x"
  with first_rune_width [of s] show "(drop n s, s) \<in> measure length" by (cases s) (auto simp: prod_eq_iff)
qed simp

declare string_body.simps [simp del]

definition json_string :: "string \<Rightarrow> string" where
  "json_string s = dquote # string_body s @ [dquote]"

definition json_strings :: "string list \<Rightarrow> string" where
  "json_strings xs = ''['' @ Join (map json_string xs) '','' @ '']''"

section \<open>Reading\<close>

text \<open>Four hexadecimal digits.\<close>

fun hex4 :: "string \<Rightarrow> (nat \<times> string) option" where
  "hex4 (a # b # c # d # rest) =
     (case (hex_value a, hex_value b, hex_value c, hex_value d) of
        (Some w, Some x, Some y, Some z) \<Rightarrow> Some (4096 * w + 256 * x + 16 * y + z, rest)
      | _ \<Rightarrow> None)"
| "hex4 _ = None"

text \<open>
  The code unit after backslash and u: the first half of a surrogate pair takes the second half
  with it when that follows, any other surrogate is U+FFFD.
\<close>

definition second_half :: "string \<Rightarrow> (nat \<times> string) option" where
  "second_half s =
     (if take 2 s = [escape, CHR ''u''] then
        (case hex4 (drop 2 s) of
           Some (u, rest) \<Rightarrow> if 56320 \<le> u \<and> u < 57344 then Some (u, rest) else None
         | None \<Rightarrow> None)
      else None)"

definition unit_rune :: "nat \<Rightarrow> string \<Rightarrow> nat \<times> string" where
  "unit_rune u rest =
     (if 55296 \<le> u \<and> u < 57344 then
        (case (if u < 56320 then second_half rest else None) of
           Some (u', rest') \<Rightarrow> ((u - 55296) * 1024 + (u' - 56320) + 65536, rest')
         | None \<Rightarrow> (65533, rest))
      else (u, rest))"

text \<open>The rune an escape stands for.\<close>

definition escaped_rune :: "string \<Rightarrow> (nat \<times> string) option" where
  "escaped_rune s =
     (case s of
        [] \<Rightarrow> None
      | c # rest \<Rightarrow>
          if c = dquote \<or> c = escape \<or> c = CHR ''/'' then Some (byte_of c, rest)
          else if c = CHR ''b'' then Some (8, rest)
          else if c = CHR ''f'' then Some (12, rest)
          else if c = CHR ''n'' then Some (10, rest)
          else if c = CHR ''r'' then Some (13, rest)
          else if c = CHR ''t'' then Some (9, rest)
          else if c = CHR ''u'' then map_option (\<lambda>(u, rest). unit_rune u rest) (hex4 rest)
          else None)"

definition read_rune :: "string \<Rightarrow> (nat \<times> string) option" where
  "read_rune s =
     (case s of
        [] \<Rightarrow> None
      | c # rest \<Rightarrow>
          if c = escape then escaped_rune rest
          else if byte_of c < 32 then None
          else (let (r, n) = first_rune s in Some (r, drop n s)))"

lemma hex4_shorter: "hex4 s = Some (u, rest) \<Longrightarrow> length rest < length s"
  by (induction s rule: hex4.induct) (auto split: option.splits)

lemma unit_rune_shorter: "unit_rune u s = (r, rest) \<Longrightarrow> length rest \<le> length s"
  using hex4_shorter [of "drop 2 s"]
  by (fastforce simp: unit_rune_def second_half_def split: option.splits if_splits)

lemma escaped_rune_shorter: "escaped_rune s = Some (r, rest) \<Longrightarrow> length rest < length s"
  by (auto simp: escaped_rune_def split: list.splits if_splits dest!: hex4_shorter unit_rune_shorter)

lemma read_rune_shorter: "read_rune s = Some (r, rest) \<Longrightarrow> length rest < length s"
  using first_rune_width [of s]
  by (auto simp: read_rune_def split: list.splits if_splits prod.splits dest: escaped_rune_shorter)

text \<open>The runes up to the closing quote.\<close>

function read_string :: "string \<Rightarrow> (nat list \<times> string) option" where
  "read_string s =
     (case s of
        [] \<Rightarrow> None
      | c # rest \<Rightarrow>
          if c = dquote then Some ([], rest)
          else (case read_rune s of
                  None \<Rightarrow> None
                | Some (r, s') \<Rightarrow> map_option (\<lambda>(rs, t). (r # rs, t)) (read_string s')))"
  by auto
termination by (relation "measure length") (auto dest: read_rune_shorter)

declare read_string.simps [simp del]

text \<open>Values; a number is kept as its text.\<close>

datatype jtext =
    TNull
  | TBool bool
  | TNum string
  | TStr string
  | TArr "jtext list"
  | TObj "(string \<times> jtext) list"

definition skip_ws :: "string \<Rightarrow> string" where
  "skip_ws s = dropWhile (\<lambda>c. c \<in> {CHR 0x20, CHR 0x09, CHR 0x0A, CHR 0x0D}) s"

definition is_dig :: "char \<Rightarrow> bool" where
  "is_dig c \<longleftrightarrow> 48 \<le> byte_of c \<and> byte_of c \<le> 57"

text \<open>The integer part, the fraction and the exponent, each with what follows it.\<close>

definition digits_1 :: "string \<Rightarrow> (string \<times> string) option" where
  "digits_1 s = (if takeWhile is_dig s = [] then None else Some (takeWhile is_dig s, dropWhile is_dig s))"

definition int_part :: "string \<Rightarrow> (string \<times> string) option" where
  "int_part s = (if HasPrefix s ''0'' then Some (''0'', drop 1 s) else digits_1 s)"

definition frac_part :: "string \<Rightarrow> (string \<times> string) option" where
  "frac_part s =
     (if HasPrefix s ''.'' then map_option (\<lambda>(d, t). (CHR ''.'' # d, t)) (digits_1 (drop 1 s)) else Some ([], s))"

definition exp_part :: "string \<Rightarrow> (string \<times> string) option" where
  "exp_part s =
     (if HasPrefix s ''e'' \<or> HasPrefix s ''E'' then
        (let sign = (if HasPrefix (drop 1 s) ''+'' \<or> HasPrefix (drop 1 s) ''-'' then 1 else 0)
         in map_option (\<lambda>(d, t). (take (1 + sign) s @ d, t)) (digits_1 (drop (1 + sign) s)))
      else Some ([], s))"

definition read_number :: "string \<Rightarrow> (string \<times> string) option" where
  "read_number s =
     (let sign = (if HasPrefix s ''-'' then ''-'' else [])
      in case int_part (drop (length sign) s) of
           None \<Rightarrow> None
         | Some (i, s) \<Rightarrow>
             (case frac_part s of
                None \<Rightarrow> None
              | Some (f, s) \<Rightarrow> map_option (\<lambda>(e, s). (sign @ i @ f @ e, s)) (exp_part s)))"

text \<open>The first argument bounds the depth and the length of what is read.\<close>

fun read_value :: "nat \<Rightarrow> string \<Rightarrow> (jtext \<times> string) option"
  and read_items :: "nat \<Rightarrow> string \<Rightarrow> (jtext list \<times> string) option"
  and read_members :: "nat \<Rightarrow> string \<Rightarrow> ((string \<times> jtext) list \<times> string) option" where
  "read_value 0 s = None"
| "read_value (Suc n) s =
     (case skip_ws s of
        [] \<Rightarrow> None
      | c # cs \<Rightarrow>
          if c = dquote then map_option (\<lambda>(rs, t). (TStr (string_of_runes rs), t)) (read_string cs)
          else if c = CHR ''['' then
            (if HasPrefix (skip_ws cs) '']'' then Some (TArr [], drop 1 (skip_ws cs))
             else map_option (\<lambda>(vs, t). (TArr vs, t)) (read_items n cs))
          else if c = CHR ''{'' then
            (if HasPrefix (skip_ws cs) ''}'' then Some (TObj [], drop 1 (skip_ws cs))
             else map_option (\<lambda>(ms, t). (TObj ms, t)) (read_members n cs))
          else if HasPrefix (c # cs) ''null'' then Some (TNull, drop 3 cs)
          else if HasPrefix (c # cs) ''true'' then Some (TBool True, drop 3 cs)
          else if HasPrefix (c # cs) ''false'' then Some (TBool False, drop 4 cs)
          else map_option (\<lambda>(x, t). (TNum x, t)) (read_number (c # cs)))"
| "read_items 0 s = None"
| "read_items (Suc n) s =
     (case read_value n s of
        None \<Rightarrow> None
      | Some (v, t) \<Rightarrow>
          (case skip_ws t of
             [] \<Rightarrow> None
           | c # t \<Rightarrow>
               if c = CHR '','' then map_option (\<lambda>(vs, t). (v # vs, t)) (read_items n t)
               else if c = CHR '']'' then Some ([v], t)
               else None))"
| "read_members 0 s = None"
| "read_members (Suc n) s =
     (if \<not> HasPrefix (skip_ws s) [dquote] then None
      else (case read_string (drop 1 (skip_ws s)) of
              None \<Rightarrow> None
            | Some (k, t) \<Rightarrow>
                if \<not> HasPrefix (skip_ws t) '':'' then None
                else (case read_value n (drop 1 (skip_ws t)) of
                        None \<Rightarrow> None
                      | Some (v, t) \<Rightarrow>
                          (case skip_ws t of
                             [] \<Rightarrow> None
                           | c # t \<Rightarrow>
                               if c = CHR '','' then
                                 map_option (\<lambda>(ms, t). ((string_of_runes k, v) # ms, t)) (read_members n t)
                               else if c = CHR ''}'' then Some ([(string_of_runes k, v)], t)
                               else None))))"

definition parse_json :: "string \<Rightarrow> jtext option" where
  "parse_json s =
     (case read_value (2 * length s + 1) s of
        None \<Rightarrow> None
      | Some (v, t) \<Rightarrow> if skip_ws t = [] then Some v else None)"

section \<open>StringArray\<close>

text \<open>A nil slice is None.  An item that is null stays the empty string; any other type is an error.\<close>

type_synonym StringArray = "string list option"

datatype driver_value = DNil | DBytes string | DString string | DOther

fun unmarshal_item :: "jtext \<Rightarrow> string result" where
  "unmarshal_item TNull = ok []"
| "unmarshal_item (TStr s) = ok s"
| "unmarshal_item _ = err json_error"

definition Unmarshal_strings :: "string \<Rightarrow> StringArray result" where
  "Unmarshal_strings b =
     (case parse_json b of
        None \<Rightarrow> err json_error
      | Some TNull \<Rightarrow> ok None
      | Some (TArr vs) \<Rightarrow> result_bind (map_result unmarshal_item vs) (\<lambda>xs. ok (Some xs))
      | Some _ \<Rightarrow> err json_error)"

definition StringArray_Scan :: "driver_value \<Rightarrow> StringArray result" where
  "StringArray_Scan src =
     (case src of
        DNil \<Rightarrow> ok (Some [])
      | DBytes b \<Rightarrow> if b = [] then ok (Some []) else Unmarshal_strings b
      | DString b \<Rightarrow> if b = [] then ok (Some []) else Unmarshal_strings b
      | DOther \<Rightarrow> err (Plain ''model.StringArray: unsupported scan type''))"

definition StringArray_Value :: "StringArray \<Rightarrow> driver_value" where
  "StringArray_Value s = (case s of None \<Rightarrow> DBytes ''[]'' | Some xs \<Rightarrow> DBytes (json_strings xs))"

section \<open>The bound is enough\<close>

lemma skip_ws_length: "length (skip_ws s) \<le> length s"
  by (simp add: skip_ws_def length_dropWhile_le)

lemma skip_ws_Cons: "skip_ws s = c # cs \<Longrightarrow> length cs < length s"
  using skip_ws_length [of s] by simp

lemma read_string_shorter: "read_string s = Some (rs, t) \<Longrightarrow> length t < length s"
proof (induction s arbitrary: rs rule: read_string.induct)
  case (1 s)
  then show ?case
    by (subst (asm) (2) read_string.simps) (fastforce split: list.splits if_splits option.splits dest: read_rune_shorter)
qed

lemma digits_1_shorter: "digits_1 s = Some (d, t) \<Longrightarrow> length t < length s"
  unfolding digits_1_def
  by (metis length_dropWhile_le le_neq_implies_less length_append add_cancel_left_left length_0_conv option.distinct(1)
      option.inject prod.inject takeWhile_dropWhile_id)

lemma read_number_shorter: "read_number s = Some (x, t) \<Longrightarrow> length t < length s"
proof -
  have i: "int_part s = Some (d, t) \<Longrightarrow> length t < length s" for s d t
    by (auto simp: int_part_def HasPrefix_iff split: if_splits dest: digits_1_shorter)
  have f: "frac_part s = Some (d, t) \<Longrightarrow> length t \<le> length s" for s d t
    by (auto simp: frac_part_def split: if_splits dest!: digits_1_shorter)
  have e: "exp_part s = Some (d, t) \<Longrightarrow> length t \<le> length s" for s d t
    by (auto simp: exp_part_def Let_def split: if_splits dest!: digits_1_shorter)
  assume "read_number s = Some (x, t)"
  then show ?thesis
    by (fastforce simp: read_number_def Let_def split: option.splits prod.splits dest!: i f e)
qed

lemma read_shorter:
  "read_value n s = Some (v, t) \<Longrightarrow> length t < length s"
  "read_items n s = Some (vs, t) \<Longrightarrow> length t < length s"
  "read_members n s = Some (ms, t) \<Longrightarrow> length t < length s"
proof (induction n s and n s and n s arbitrary: v t and vs t and ms t rule: read_value_read_items_read_members.induct)
  case (2 n s)
  obtain c cs where s: "skip_ws s = c # cs" using 2(3) by (cases "skip_ws s") simp_all
  have "length t \<le> length cs"
    using 2(3) s 2(1,2) [OF s] read_number_shorter [of "c # cs"] skip_ws_length [of cs]
    by (auto split: if_splits dest!: read_string_shorter)
  with skip_ws_Cons [OF s] show ?case by simp
next
  case (4 n s)
  obtain v1 t1 where v: "read_value n s = Some (v1, t1)" using 4(3) by (auto split: option.splits)
  obtain c t2 where t: "skip_ws t1 = c # t2" using 4(3) v by (cases "skip_ws t1") simp_all
  have "length t \<le> length t2"
    using 4(3) v t 4(2) [OF v refl t] by (auto split: if_splits)
  with skip_ws_Cons [OF t] 4(1) [OF v] show ?case by simp
next
  case (6 n s)
  have h: "HasPrefix (skip_ws s) [dquote]" using 6(3) by (simp split: if_splits)
  obtain k t1 where k: "read_string (drop 1 (skip_ws s)) = Some (k, t1)" using 6(3) h by (auto split: option.splits)
  have h1: "HasPrefix (skip_ws t1) '':''" using 6(3) h k by (simp split: if_splits)
  obtain v1 t2 where v: "read_value n (drop 1 (skip_ws t1)) = Some (v1, t2)" using 6(3) h k h1 by (auto split: option.splits)
  obtain c t3 where t: "skip_ws t2 = c # t3" using 6(3) h k h1 v by (cases "skip_ws t2") simp_all
  have "length t \<le> length t3"
    using 6(3) h k h1 v t 6(2) [OF _ k refl _ v refl t] by (auto split: if_splits)
  moreover have "length t2 < length t1" "length t1 < length s"
    using 6(1) [OF _ k refl _ v] h h1 skip_ws_length [of t1] read_string_shorter [OF k] skip_ws_length [of s] by auto
  ultimately show ?case using skip_ws_Cons [OF t] by simp
qed simp_all

lemma read_fuel:
  "2 * length s < n \<Longrightarrow> 2 * length s < m \<Longrightarrow> read_value n s = read_value m s"
  "2 * length s + 1 < n \<Longrightarrow> 2 * length s + 1 < m \<Longrightarrow> read_items n s = read_items m s"
  "2 * length s + 1 < n \<Longrightarrow> 2 * length s + 1 < m \<Longrightarrow> read_members n s = read_members m s"
proof (induction n arbitrary: m s)
  case (Suc n)
  { case 1
    obtain m' where m: "m = Suc m'" using 1 by (cases m) auto
    have "read_items n cs = read_items m' cs" "read_members n cs = read_members m' cs" if "skip_ws s = c # cs" for c cs
      using Suc.IH(2,3) [of cs m'] skip_ws_Cons [OF that] 1 m by simp_all
    then show ?case by (simp add: m split: list.split) }
  { case 2
    obtain m' where m: "m = Suc m'" using 2 by (cases m) auto
    have v: "read_value n s = read_value m' s" using Suc.IH(1) [of s m'] 2 m by simp
    have "read_items n t2 = read_items m' t2" if "read_value m' s = Some (x, t1)" "skip_ws t1 = c # t2" for x t1 c t2
      using Suc.IH(2) [of t2 m'] skip_ws_Cons [OF that(2)] read_shorter(1) [OF that(1)] 2 m by simp
    with v show ?case by (simp add: m split: list.split option.split) }
  { case 3
    obtain m' where m: "m = Suc m'" using 3 by (cases m) auto
    have v: "read_value n (drop 1 (skip_ws t)) = read_value m' (drop 1 (skip_ws t))"
      if "read_string (drop 1 (skip_ws s)) = Some (k, t)" for k t
      using Suc.IH(1) [of "drop 1 (skip_ws t)" m'] read_string_shorter [OF that] skip_ws_length [of s] skip_ws_length [of t] 3 m
      by simp
    have i: "read_members n t3 = read_members m' t3"
      if "read_string (drop 1 (skip_ws s)) = Some (k, t)" "read_value m' (drop 1 (skip_ws t)) = Some (x, t2)" "skip_ws t2 = c # t3"
      for k t x t2 c t3
      using Suc.IH(3) [of t3 m'] read_string_shorter [OF that(1)] read_shorter(1) [OF that(2)] skip_ws_Cons [OF that(3)]
        skip_ws_length [of s] skip_ws_length [of t] 3 m by simp
    show ?case using v i by (simp add: m split: list.split option.split) }
qed simp_all

text \<open>More steps than parse_json takes give the same value.\<close>

lemma parse_json_bound: "2 * length s < n \<Longrightarrow> read_value n s = read_value (2 * length s + 1) s"
  by (rule read_fuel(1)) simp_all

section \<open>What was written reads back\<close>

lemma decode_rune_local:
  assumes "decode_rune bs = (r, n)" "bs \<noteq> []" "128 \<le> hd bs" "\<not> (r = 65533 \<and> n = 1)"
  shows "decode_rune (take n bs @ cs) = (r, n)" "n \<le> length bs"
proof -
  obtain b bs1 where b: "bs = b # bs1" using assms by (cases bs) (auto simp: decode_rune_def)
  obtain c bs2 where c: "bs1 = c # bs2" using assms b by (cases bs1) (auto simp: decode_rune_def)
  show "decode_rune (take n bs @ cs) = (r, n)" "n \<le> length bs"
    using assms unfolding b c
    by (auto simp: decode_rune_def split: list.splits if_splits)
qed

lemma decode_rune_wide:
  assumes "decode_rune bs = (r, n)" "bs \<noteq> []" "128 \<le> hd bs"
  shows "128 \<le> r"
proof -
  have "128 \<le> (b - 192) * 64 + (c - 128)" if "between 194 223 b" for b c :: nat
    using that unfolding between_def by linarith
  moreover have "128 \<le> (b - 224) * 4096 + (c - 128) * 64 + (d - 128)" if "between 224 239 b" "between (second_lo b) (second_hi b) c" for b c d
    using that unfolding between_def second_lo_def by (cases "b = 224") auto
  moreover have "128 \<le> (b - 240) * 262144 + (c - 128) * 4096 + (d - 128) * 64 + (e - 128)"
    if "between 240 244 b" "between (second_lo b) (second_hi b) c" for b c d e
    using that unfolding between_def second_lo_def by (cases "b = 240") auto
  ultimately show ?thesis
    using assms by (auto simp: decode_rune_def split: list.splits if_splits)
qed

lemma char_of_iff: "b < 256 \<Longrightarrow> char_of b = c \<longleftrightarrow> b = byte_of c"
  by (metis byte_of_char_of char_of_byte_of)

lemma read_escaped_ascii:
  assumes "b < 128"
  shows "read_rune (escaped_ascii b @ t) = Some (b, t)" "escaped_ascii b \<noteq> []" "hd (escaped_ascii b) \<noteq> dquote"
proof -
  have short: "escaped_ascii 34 = [escape, dquote]" "escaped_ascii 92 = [escape, escape]" "escaped_ascii 8 = [escape, CHR ''b'']"
    "escaped_ascii 12 = [escape, CHR ''f'']" "escaped_ascii 10 = [escape, CHR ''n'']" "escaped_ascii 13 = [escape, CHR ''r'']"
    "escaped_ascii 9 = [escape, CHR ''t'']"
    by code_simp+
  have raw: "read_rune (char_of b # t) = Some (b, t)" if "32 \<le> b" "b \<noteq> 92"
    using that assms by (simp add: read_rune_def first_rune_def decode_rune_def char_of_iff) (simp add: byte_of_def)
  have hex: "hex4 (''00'' @ [hex_digit (b div 16), hex_digit (b mod 16)] @ t) = Some (b, t)"
    using assms by (simp add: hex_value_def byte_of_def [of "CHR ''0''"]) (simp flip: hex_value_def)
  consider "b = 34" | "b = 92" | "b = 8" | "b = 12" | "b = 10" | "b = 13" | "b = 9"
    | "b \<notin> {8, 9, 10, 12, 13, 34, 92}" "b < 32 \<or> b \<in> {38, 60, 62}"
    | "b \<notin> {8, 9, 10, 12, 13, 34, 92}" "\<not> (b < 32 \<or> b \<in> {38, 60, 62})" by auto
  then show "read_rune (escaped_ascii b @ t) = Some (b, t)"
  proof cases
    case 8
    then have "escaped_ascii b = escape # CHR ''u'' # ''00'' @ [hex_digit (b div 16), hex_digit (b mod 16)]"
      by (simp add: escaped_ascii_def)
    with hex assms show ?thesis by (simp add: read_rune_def escaped_rune_def unit_rune_def)
  next
    case 9
    then have "escaped_ascii b = [char_of b]" by (simp add: escaped_ascii_def)
    with raw 9 show ?thesis by simp
  qed (simp_all add: short read_rune_def escaped_rune_def byte_of_def)
  have "char_of b \<noteq> dquote" if "b \<noteq> 34" using that assms by (simp add: char_of_iff) (simp add: byte_of_def)
  then show "escaped_ascii b \<noteq> []" "hd (escaped_ascii b) \<noteq> dquote" by (simp_all add: escaped_ascii_def)
qed

lemma read_written_rune:
  assumes "s \<noteq> []" "first_rune s = (r, n)"
  shows "read_rune (written_rune r n (take n s) @ t) = Some (r, t)" "written_rune r n (take n s) \<noteq> []"
    "hd (written_rune r n (take n s)) \<noteq> dquote"
proof -
  obtain c cs where s: "s = c # cs" using assms(1) by (cases s) auto
  have d: "decode_rune (map byte_of s) = (r, n)" using assms(2) by (simp add: first_rune_def)
  have "read_rune (written_rune r n (take n s) @ t) = Some (r, t) \<and> written_rune r n (take n s) \<noteq> []
      \<and> hd (written_rune r n (take n s)) \<noteq> dquote"
  proof (cases "byte_of c < 128")
    case True
    then have "r = byte_of c" using d s by (simp add: decode_rune_def)
    with True read_escaped_ascii(1) [of r t] read_escaped_ascii(2,3) [of r] show ?thesis by (simp add: written_rune_def)
  next
    case False
    have r: "128 \<le> r" using decode_rune_wide [OF d] s False by simp
    have raw: "read_rune (take n s @ t) = Some (r, t)" "take n s \<noteq> []" "hd (take n s) \<noteq> dquote" if "\<not> (r = 65533 \<and> n = 1)"
    proof -
      have l: "decode_rune (take n (map byte_of s) @ map byte_of t) = (r, n)" "n \<le> length s"
        using decode_rune_local [OF d _ _ that] s False by simp_all
      have n: "1 \<le> n" using first_rune_width [OF assms(1)] assms(2) by simp
      then obtain m where m: "n = Suc m" by (cases n) auto
      have "c \<noteq> dquote" "c \<noteq> escape" using False by (auto simp: byte_of_def)
      then show "take n s \<noteq> []" "hd (take n s) \<noteq> dquote" by (simp_all add: s m)
      have "first_rune (take n s @ t) = (r, n)" using l(1) by (simp add: first_rune_def take_map)
      moreover have "take n s @ t = c # (take m cs @ t)" by (simp add: s m)
      ultimately show "read_rune (take n s @ t) = Some (r, t)"
        using \<open>c \<noteq> escape\<close> False l(2) by (simp add: read_rune_def s m)
    qed
    show ?thesis
      using r raw
      by (auto simp: written_rune_def read_rune_def escaped_rune_def unit_rune_def hex_value_def byte_of_def)
  qed
  then show "read_rune (written_rune r n (take n s) @ t) = Some (r, t)" "written_rune r n (take n s) \<noteq> []"
    "hd (written_rune r n (take n s)) \<noteq> dquote" by simp_all
qed

lemma runes_first: "s \<noteq> [] \<Longrightarrow> runes s = fst (first_rune s) # runes (drop (snd (first_rune s)) s)"
  by (simp add: runes_def first_rune_def decode_runes.simps [of "map byte_of s"] drop_map)

lemma read_string_body: "read_string (string_body s @ dquote # t) = Some (runes s, t)"
proof (induction s rule: string_body.induct)
  case (1 s)
  show ?case
  proof (cases "s = []")
    case True
    then show ?thesis by (simp add: string_body.simps read_string.simps runes_def decode_runes.simps)
  next
    case False
    obtain r n where f: "first_rune s = (r, n)" by fastforce
    let ?p = "written_rune r n (take n s)" and ?u = "string_body (drop n s) @ dquote # t"
    obtain c cs where p: "?p = c # cs" "c \<noteq> dquote" using read_written_rune(2,3) [OF False f] by (cases ?p) auto
    have "read_string (?p @ ?u) = map_option (\<lambda>(rs, t). (r # rs, t)) (read_string ?u)"
      using read_written_rune(1) [OF False f, of ?u] p by (subst read_string.simps) simp
    moreover have "string_body s @ dquote # t = ?p @ ?u"
      using False f by (subst string_body.simps) simp
    ultimately show ?thesis
      using 1 [OF False refl f [symmetric]] runes_first [OF False] f by simp
  qed
qed

text \<open>What a text is read as: each byte that is not UTF-8 becomes U+FFFD.\<close>

definition to_valid :: "string \<Rightarrow> string" where
  "to_valid s = string_of_runes (runes s)"

lemma skip_ws_quote [simp]: "skip_ws (dquote # s) = dquote # s" "skip_ws (CHR '','' # s) = CHR '','' # s" "skip_ws (CHR '']'' # s) = CHR '']'' # s"
  "skip_ws (CHR ''['' # s) = CHR ''['' # s" "skip_ws [] = []"
  by (simp_all add: skip_ws_def)

lemma read_json_string: "read_value (Suc n) (json_string s @ t) = Some (TStr (to_valid s), t)"
  by (simp add: json_string_def read_string_body to_valid_def)

lemma read_json_items:
  "xs \<noteq> [] \<Longrightarrow> length xs < n \<Longrightarrow>
     read_items n (Join (map json_string xs) '','' @ CHR '']'' # t) = Some (map (TStr \<circ> to_valid) xs, t)"
proof (induction xs arbitrary: n rule: induct_list012)
  case (2 x)
  then obtain m where n: "n = Suc (Suc m)" by (cases n; cases "n - 1") auto
  show ?case unfolding n by (simp add: read_json_string del: read_value.simps)
next
  case (3 x y zs)
  then obtain m where n: "n = Suc (Suc m)" by (cases n; cases "n - 1") auto
  have "read_items (Suc m) (Join (map json_string (y # zs)) '','' @ CHR '']'' # t) = Some (map (TStr \<circ> to_valid) (y # zs), t)"
    by (rule 3(2)) (use 3(4) n in simp_all)
  moreover have "Join (map json_string (x # y # zs)) '','' @ CHR '']'' # t
      = json_string x @ CHR '','' # (Join (map json_string (y # zs)) '','' @ CHR '']'' # t)" by simp
  ultimately show ?case
    by (simp only: n read_items.simps(2) [of "Suc m"] read_json_string option.case prod.case skip_ws_quote list.case if_True option.map list.map o_apply)
      (simp add: o_def)
qed simp

lemma json_string_nonempty: "1 \<le> length (json_string s)"
  by (simp add: json_string_def)

lemma Join_length: "\<forall>x\<in>set xs. 1 \<le> length x \<Longrightarrow> length xs \<le> length (Join xs sep)"
  by (induction xs sep rule: Join.induct) auto

lemma parse_json_strings: "parse_json (json_strings xs) = Some (TArr (map (TStr \<circ> to_valid) xs))"
proof (cases xs)
  case Nil
  then show ?thesis by (simp add: json_strings_def parse_json_def eval_nat_numeral)
next
  case (Cons x zs)
  let ?j = "Join (map json_string xs) '',''"
  have len: "length xs \<le> length ?j" using Join_length [of "map json_string xs" "'',''"] json_string_nonempty by simp
  obtain u where u: "?j = dquote # u" using Cons by (cases zs) (simp_all add: json_string_def)
  have "read_items (2 * length (json_strings xs)) (?j @ CHR '']'' # []) = Some (map (TStr \<circ> to_valid) xs, [])"
    using Cons len by (intro read_json_items) (simp_all add: json_strings_def)
  then show ?thesis
    by (simp add: parse_json_def json_strings_def u)
qed

definition entries :: "StringArray \<Rightarrow> string list" where
  "entries a = (case a of None \<Rightarrow> [] | Some xs \<Rightarrow> xs)"

text \<open>
  C25: Step images survive the column.  Whatever list a step is stored with, nil included,
  the column receives a JSON array, never null; and from every text of that JSON value (the database
  may write it differently) Scan reads the list back, as bytes or as a string, each entry as it was
  except that bytes that are not UTF-8 become U+FFFD.
\<close>
theorem step_images_roundtrip:
  assumes "StringArray_Value a = DBytes b" "parse_json t = parse_json b"
  shows "parse_json b = Some (TArr (map (TStr \<circ> to_valid) (entries a)))
     \<and> StringArray_Scan (DBytes t) = ok (Some (map to_valid (entries a)))
     \<and> StringArray_Scan (DString t) = ok (Some (map to_valid (entries a)))"
proof -
  have b: "b = json_strings (entries a)"
    using assms(1) by (auto simp: StringArray_Value_def entries_def json_strings_def split: option.splits)
  then have p: "parse_json t = Some (TArr (map (TStr \<circ> to_valid) (entries a)))"
    using parse_json_strings assms(2) by simp
  have "map_result unmarshal_item (map (TStr \<circ> to_valid) xs) = Inr (map to_valid xs)" for xs
    by (induction xs) simp_all
  with p have u: "Unmarshal_strings t = ok (Some (map to_valid (entries a)))" by (simp add: Unmarshal_strings_def)
  have "t \<noteq> []" using p by (auto simp: parse_json_def)
  with u p assms(2) show ?thesis by (simp add: StringArray_Scan_def)
qed

text \<open>Two images, one with a quote, from a text with spaces.\<close>

theorem step_images_roundtrip_witness:
  "StringArray_Scan (DBytes ([CHR ''['', CHR 0x20, dquote, CHR ''a'', escape, dquote, dquote, CHR 0x20, CHR '','', CHR 0x0A,
       dquote, CHR ''b'', dquote, CHR '']'']))
     = ok (Some [[CHR ''a'', dquote], ''b''])"
proof -
  let ?a = "Some [[CHR ''a'', dquote], ''b'']"
  let ?t2 = "[CHR 0x20, CHR '','', CHR 0x0A, dquote, CHR ''b'', dquote, CHR '']'']"
  let ?t = "[CHR ''['', CHR 0x20, dquote, CHR ''a'', escape, dquote, dquote] @ ?t2"
  have "list_all (\<lambda>b. b < 128) [97, 34 :: nat]" "list_all (\<lambda>b. b < 128) [98 :: nat]" by simp_all
  note w = string_of_ascii [OF this(1)] string_of_ascii [OF this(2)]
  have "map char_of [97, 34 :: nat] = [CHR ''a'', dquote]" "map char_of [98 :: nat] = ''b''" by code_simp+
  with w have w: "string_of_runes [97, 34] = [CHR ''a'', dquote]" "string_of_runes [98] = ''b''" by simp_all
  have r: "runes [CHR ''a'', dquote] = [97, 34]" "runes ''b'' = [98]"
    "read_string (CHR ''a'' # escape # dquote # dquote # ?t2) = Some ([97, 34], ?t2)"
    "read_string [CHR ''b'', dquote, CHR '']''] = Some ([98], '']'')" by code_simp+
  have v: "map to_valid (entries ?a) = [[CHR ''a'', dquote], ''b'']" by (simp add: entries_def to_valid_def r w)
  have i2: "read_items (Suc (Suc n)) (drop 2 ?t2) = Some ([TStr ''b''], [])" for n
    by (simp add: skip_ws_def r w)
  have "read_items (Suc (Suc (Suc n))) (drop 1 ?t) = Some ([TStr [CHR ''a'', dquote], TStr ''b''], [])" for n
    using i2 [of n] by (simp add: skip_ws_def r w del: read_items.simps(2)) (simp add: read_items.simps(2) [of "Suc (Suc n)"] skip_ws_def r w del: read_items.simps(2))
  then have i3: "read_value (Suc (Suc (Suc (Suc n)))) ?t = Some (TArr [TStr [CHR ''a'', dquote], TStr ''b''], [])" for n
    by (simp add: skip_ws_def del: read_items.simps(2))
  have "2 * length ?t + 1 = Suc (Suc (Suc (Suc 25)))" by simp
  then have "parse_json ?t = Some (TArr [TStr [CHR ''a'', dquote], TStr ''b''])"
    unfolding parse_json_def by (simp only: i3) simp
  moreover obtain b where b: "StringArray_Value ?a = DBytes b" by (simp add: StringArray_Value_def)
  moreover have "b = json_strings (entries ?a)" using b by (simp add: StringArray_Value_def entries_def)
  ultimately have "parse_json ?t = parse_json b" using parse_json_strings [of "entries ?a"] v by (simp add: entries_def)
  from step_images_roundtrip [OF b this] v show ?thesis by simp
qed

text \<open>Text that is UTF-8 is not changed.\<close>

lemma to_valid_valid: "list_all valid_rune rs \<Longrightarrow> to_valid (string_of_runes rs) = string_of_runes rs"
  by (simp add: to_valid_def)

text \<open>Other columns: nothing, null, null among the items, and what is not an array of strings.\<close>

lemma Scan_others:
  "StringArray_Scan DNil = ok (Some [])" "StringArray_Scan (DBytes []) = ok (Some [])"
  "StringArray_Scan (DBytes ''null'') = ok None" "StringArray_Scan (DString ''[null]'') = ok (Some [[]])"
  "StringArray_Scan (DBytes ''[1]'') = err json_error" "StringArray_Scan (DBytes ''[01]'') = err json_error"
  "StringArray_Scan (DBytes ''{}'') = err json_error" "StringArray_Scan (DBytes ''[[],-1.5e+3,{}'') = err json_error"
  by code_simp+

end
