(* ===== verification/Spec2Isabelle.thy ===== *)
theory Spec2Isabelle
  imports LikeService LikeConsumer CountConsumer FollowService RateWindow AuditConsumer BusSpec Requests AccessLog StepImages
begin

text \<open>
  A verification library for the cooking platform, a Go backend (gin, GORM, go-redis, RabbitMQ) on
  which users log in by SMS code, publish recipes, like, follow, search and upload images.  The model is a
  shallow embedding of the Go code under cmd, internal and pkg; every definition keeps the name
  of the function or type it translates, with a prefix where several types have a method of that name.

  How the program is put together.  A request passes the middlewares of its route, a handler binds and
  checks it and calls one service; a service works on repositories (MySQL through GORM), caches
  (Redis) and the event bus.  Consumers take the events from the bus, deduplicate and batch them, and write
  the counters, the likes table and the verdicts of the moderation back.  cmd/server/main.go wires
  all this and shuts it down in three phases; cmd/migrate-phone is a command of its own.

  Conventions.  A Go function that reads or changes anything outside its arguments is a function that
  takes the world, of any type 'w, as its last argument and returns its result with the
  new world.  A result (T, error) is goerr + T, a sole error is an option.  Integers are int, with wrap-around
  and range checks written out where the source converts or parses; strings are lists of
  bytes; times and durations are integers in milliseconds.  A map that Go iterates over is an association list,
  and the order of the iteration is a parameter (iter) of which at most that it permutes is assumed.

  What is outside src/ is a parameter with named laws: Redis ('w rdb, locale redis_server in Redis),
  MySQL behind GORM ('w gorm, locale mysql_server in Sql: one master, a replica that may be any state, any
  statement may fail, also after it took effect), the clock, UUIDs and random bytes ('w runtime), the publisher, and
  all of them together with their frame conditions (locale platform in World).  The JWT library
  (locale jwt_library), amqp091-go (locale amqp_client), AES-GCM, SHA-256, the SMS, OSS and moderation SDKs, the
  full-text index and the tables of Unicode are parameters of the definitions that use them.

  The theories, from the ground up.
  \<^item> Prelude: int64 formatting and parsing, the collections redis_simps and key_simps, lists and maps.
    Text, Utf8, Json: the functions of strings, unicode/utf8, encoding/hex, encoding/base64 and
    encoding/json that the source calls.  Errcode: pkg/errcode and pkg/response.
  \<^item> Models: internal/model and the responses of internal/model/dto; StepImages: the JSON column of
    internal/model/post_step.go down to its text; Binding: the requests with their binding tags.
  \<^item> Redis, Sql: the commands and statements the source sends, what the servers document of them.
  \<^item> Events, ChannelBus, BusSpec, RabbitMQ: internal/event.  World: the environment, and an instance of
    it with exactly the documented behaviour and injectable failures, on which the examples are evaluated.
  \<^item> PostRepository, UserRepository (with the audit log), LikeRepository, FollowRepository:
    internal/repository; the search repository is in SearchService.
  \<^item> LikeCache, UserCache (with the write marker), Caches (deduplication, uploads, feed): internal/cache.
  \<^item> Crypto (pkg/crypto, pkg/validator), Jwt (pkg/jwt), Sms, Oss, Moderation (pkg/sms, pkg/oss, pkg/audit),
    Config (pkg/config).
  \<^item> LikeService, FollowService, PostService, AuthorAssembler, SearchService, UploadService, UserService:
    internal/service.
  \<^item> ConsumerLoop, DedupHandler, LikeConsumer, PVConsumer, CountConsumer, AuditConsumer: internal/consumer.
  \<^item> Middleware, RateWindow, AccessLog: internal/middleware.  Handlers: internal/handler.  Router, Server,
    Lifecycle: cmd/server/main.go with the consumer manager.  MigratePhone: cmd/migrate-phone/main.go.
  \<^item> PostContent, FeedPages, UserSessions, Requests: properties that span several operations or
    components: what a post goes through, the pages of the feed, codes, tokens and profiles, and a request
    from its route to its row.

  The interfaces are locales, and each is interpreted on the model of its provider.  post_repository,
  user_repository and follow_repository extend platform by the contract of a repository; the GORM
  implementations provide them in every platform (sublocales gorm_posts, gorm_users, gorm_follows).  The services
  are verified against the contracts.  follow_env and user_env fix the environment of two services;
  flush_buffer is the contract of the batching loop of the consumers, interpreted for likes, views and
  counters; doc, single, doc_jwt and broker interpret the laws of the libraries by executable models,
  so the laws can hold together.

  What the lemmas show, by group.
  \<^item> Access: every route that writes needs a token (Router); codes, login, logout, refresh and
    profile updates (UserSessions); tokens round trip (Jwt); the checks of the configuration (Config).
  \<^item> Content: creating, deleting and reading a post (PostContent), from the route to the row (Requests);
    order, coverage and size of the feed pages (FeedPages); search (SearchService); moderation fails closed
    (AuditConsumer) and takes the worst verdict (Moderation); step images round trip (StepImages).
  \<^item> Likes and follows: counter and members agree in Redis (LikeCache), the cases of a like (LikeService) and a
    follow, completeness of the list walk (FollowService).
  \<^item> Events and batches: the in-process bus refines its specification under every interleaving (BusSpec); each delivery of
    RabbitMQ is answered once (RabbitMQ); batches lose nothing (ConsumerLoop, LikeConsumer) and redelivery has no
    effect (DedupHandler, PVConsumer); a flush changes exactly the rows it should or the database
    refused just that statement (LikeConsumer, CountConsumer).
  \<^item> Operation: the rate limit (RateWindow), uploads (UploadService), the redaction of the access log
    (AccessLog), the shutdown (Lifecycle), the migration (MigratePhone).
  Some theorems state defects of the code: a token that was logged out is still exchanged for a new pair,
  the cache of the feed ignores the page size, only codes of six digits log in whatever length is configured,
  a subscription gives up after enough lost sessions, requests of one millisecond count once
  (ratelimit_same_millisecond), a review behind the replica is lost (audit_lost_behind_replica), likes drained at the
  shutdown may be dropped (like_drain_loss).

  Concurrency.  The services run to completion on one world; other requests act between two operations, which is why the
  theorems hold from any world, and the walks and runs allow any change between two
  calls that keeps their stated condition.  Where the interleaving inside an operation matters it is modelled by steps:
  the goroutines of the channel bus, with Publish in its pieces (ChannelBus_Publish is the run of these that nobody
  interrupts, publish_uninterrupted; the services use it), the inputs of the consumer loops, the calls of the AMQP library, between
  which the world may change.

  Termination and bounds.  All definitions are total.  drain_loop and recv_loop of RabbitMQ are partial functions into
  option: None is a session that never ends, and the theorem on the answers speaks of sessions that returned.
  publish_from and subscribe_from recur over the attempts left, at most reconnect_max_retries + 1.
  migrate_from has fuel, and a theorem gives the number that is enough, one step more than the rows that are left.  The
  parser of StepImages has fuel 2 * length + 1 of the text, and more fuel never changes what it reads
  (parse_json_bound).  The loops of the consumers are recursions over their inputs.

  Not modelled: pkg/logger and pkg/metrics and every log line and metric besides the access log and
  the labels (they only observe); the libraries named above; sockets, signals and goroutine scheduling besides the steps
  named; the SQL text, of which the statements of Sql are the meaning; tests, migrations (their keys, defaults
  and ON UPDATE clauses are in Sql) and configuration files.
\<close>

end
